(* ===== verification/Prelude.thy ===== *)
theory Prelude
  imports Main
begin

text \<open>
  What the component theories share: Go's calling convention as a state-and-error
  computation, a small calculus of triples for it, list lemmas for tables kept as
  lists of rows, and the interface of a transition system with an invariant.

  A Go function that returns \<open>(T, error)\<close> and works on shared state is a
  \<open>('w, 'e, 'a) go\<close>: it maps the state to a result, \<open>Inl\<close> the error or
  \<open>Inr\<close> the value, and the state it leaves.  An early \<open>return err\<close> keeps the
  effects made so far; only a transaction (theory Store) undoes them.
\<close>

named_theorems go_defs \<open>unfolding equations of the computation combinators\<close>
named_theorems keeps_intros \<open>rules that an operation keeps an invariant\<close>
named_theorems raises_intros \<open>rules that an operation only returns certain errors\<close>
named_theorems query_defs \<open>definitions of the SQL statements\<close>

section \<open>Computations\<close>

type_synonym ('w, 'e, 'a) go = "'w \<Rightarrow> ('e + 'a) \<times> 'w"

definition ret :: "'a \<Rightarrow> ('w, 'e, 'a) go" where
  "ret x w = (Inr x, w)"

definition throw :: "'e \<Rightarrow> ('w, 'e, 'a) go" where
  "throw e w = (Inl e, w)"

text \<open>\<open>x, err := m(); if err != nil { return err }; f(x)\<close>\<close>

definition bindE :: "('w, 'e, 'a) go \<Rightarrow> ('a \<Rightarrow> ('w, 'e, 'b) go) \<Rightarrow> ('w, 'e, 'b) go" where
  "bindE m f w = (case m w of (Inl e, w') \<Rightarrow> (Inl e, w') | (Inr x, w') \<Rightarrow> f x w')"

text \<open>\<open>x, err := m(); if err != nil { h(err) } else { f(x) }\<close>\<close>

definition attempt ::
  "('w, 'e, 'a) go \<Rightarrow> ('e \<Rightarrow> ('w, 'f, 'b) go) \<Rightarrow> ('a \<Rightarrow> ('w, 'f, 'b) go) \<Rightarrow> ('w, 'f, 'b) go" where
  "attempt m h f w = (case m w of (Inl e, w') \<Rightarrow> h e w' | (Inr x, w') \<Rightarrow> f x w')"

text \<open>Reading the state.\<close>

definition asks :: "('w \<Rightarrow> 'a) \<Rightarrow> ('w, 'e, 'a) go" where
  "asks f w = (Inr (f w), w)"

text \<open>\<open>if bad { return err }\<close> before the rest of the body.\<close>

definition failIf :: "bool \<Rightarrow> 'e \<Rightarrow> ('w, 'e, unit) go" where
  "failIf b e w = (if b then (Inl e, w) else (Inr (), w))"

text \<open>\<open>for _, x := range xs { if err := f(x); err != nil { return err } }\<close>\<close>

fun forE :: "'a list \<Rightarrow> ('a \<Rightarrow> ('w, 'e, unit) go) \<Rightarrow> ('w, 'e, unit) go" where
  "forE [] f = ret ()"
| "forE (x # xs) f = bindE (f x) (\<lambda>_. forE xs f)"

lemmas go_basic_defs = ret_def throw_def asks_def failIf_def bindE_def attempt_def
declare go_basic_defs [go_defs]

lemma fst_run: "fst p = r \<Longrightarrow> p = (r, snd p)"
  by (cases p) simp

lemma bindE_ret [simp]: "bindE (ret x) f = f x"
  by (rule ext) (simp add: go_defs)

lemma bindE_throw [simp]: "bindE (throw e) f = throw e"
  by (rule ext) (simp add: go_defs)

lemma bindE_Inr:
  "bindE m f w = (Inr y, w'') \<longleftrightarrow> (\<exists>x w'. m w = (Inr x, w') \<and> f x w' = (Inr y, w''))"
  by (auto simp: bindE_def split: prod.splits sum.splits)

lemma bindE_Inl:
  "bindE m f w = (Inl e, w'') \<longleftrightarrow>
     m w = (Inl e, w'') \<or> (\<exists>x w'. m w = (Inr x, w') \<and> f x w' = (Inl e, w''))"
  by (auto simp: bindE_def split: prod.splits sum.splits)

lemma attempt_result:
  "attempt m h f w = r \<longleftrightarrow>
     (\<exists>e w'. m w = (Inl e, w') \<and> h e w' = r) \<or> (\<exists>x w'. m w = (Inr x, w') \<and> f x w' = r)"
  by (auto simp: attempt_def split: prod.splits sum.splits)

lemma failIf_Inr: "failIf b e w = (Inr u, w') \<longleftrightarrow> \<not> b \<and> w' = w"
  by (auto simp: failIf_def)

lemma failIf_Inl: "failIf b e w = (Inl e', w') \<longleftrightarrow> b \<and> e' = e \<and> w' = w"
  by (auto simp: failIf_def)

lemma asks_Inr: "asks f w = (Inr x, w') \<longleftrightarrow> x = f w \<and> w' = w"
  by (auto simp: asks_def)

lemma ret_Inr: "ret x w = (Inr y, w') \<longleftrightarrow> y = x \<and> w' = w"
  by (auto simp: ret_def)

lemma throw_Inl: "throw e w = (Inl e', w') \<longleftrightarrow> e' = e \<and> w' = w"
  by (auto simp: throw_def)

lemma ret_not_Inl [simp]: "ret x w \<noteq> (Inl e, w')" "asks f w \<noteq> (Inl e, w')"
  by (simp_all add: ret_def asks_def)

lemma throw_not_Inr [simp]: "throw e w \<noteq> (Inr x, w')"
  by (simp add: throw_def)

lemmas go_results = bindE_Inr bindE_Inl attempt_result failIf_Inr failIf_Inl asks_Inr
  ret_Inr throw_Inl

section \<open>Triples\<close>

text \<open>
  \<open>hoare P m Q E\<close>: from a state in \<open>P\<close>, a value leaves a state in \<open>Q\<close> and an error
  one in \<open>E\<close>.  Computations are total, so this is total correctness.
\<close>

definition hoare ::
  "('w \<Rightarrow> bool) \<Rightarrow> ('w, 'e, 'a) go \<Rightarrow> ('a \<Rightarrow> 'w \<Rightarrow> bool) \<Rightarrow> ('e \<Rightarrow> 'w \<Rightarrow> bool) \<Rightarrow> bool" where
  "hoare P m Q E \<longleftrightarrow>
     (\<forall>w. P w \<longrightarrow> (case m w of (Inr x, w') \<Rightarrow> Q x w' | (Inl e, w') \<Rightarrow> E e w'))"

definition keeps :: "('w \<Rightarrow> bool) \<Rightarrow> ('w, 'e, 'a) go \<Rightarrow> bool" where
  "keeps I m \<longleftrightarrow> (\<forall>w. I w \<longrightarrow> I (snd (m w)))"

lemma keepsI: "(\<And>w. I w \<Longrightarrow> I (snd (m w))) \<Longrightarrow> keeps I m"
  by (simp add: keeps_def)

lemma keepsD: "keeps I m \<Longrightarrow> I w \<Longrightarrow> m w = (r, w') \<Longrightarrow> I w'"
  by (metis keeps_def snd_conv)

lemma keeps_hoare: "keeps I m \<longleftrightarrow> hoare I m (\<lambda>_. I) (\<lambda>_. I)"
proof -
  have "I (snd (m w)) \<longleftrightarrow> (case m w of (Inr x, w') \<Rightarrow> I w' | (Inl e, w') \<Rightarrow> I w')" for w
    by (cases "m w"; cases "fst (m w)") auto
  then show ?thesis by (simp add: keeps_def hoare_def)
qed

lemma keeps_ret [keeps_intros]: "keeps I (ret x)"
  by (simp add: keeps_def ret_def)

lemma keeps_throw [keeps_intros]: "keeps I (throw e)"
  by (simp add: keeps_def throw_def)

lemma keeps_asks [keeps_intros]: "keeps I (asks f)"
  by (simp add: keeps_def asks_def)

lemma keeps_failIf [keeps_intros]: "keeps I (failIf b e)"
  by (simp add: keeps_def failIf_def)

lemma keeps_bindE [keeps_intros]:
  assumes "keeps I m" and "\<And>x. keeps I (f x)"
  shows "keeps I (bindE m f)"
  using assms by (auto simp: keeps_def bindE_def split: prod.splits sum.splits)

text \<open>The rest of a body after a guard may assume that the guard let it pass.\<close>

lemma keeps_guard: "(\<not> b \<Longrightarrow> keeps I (f ())) \<Longrightarrow> keeps I (bindE (failIf b e) f)"
  by (auto simp: keeps_def bindE_def failIf_def)

lemma keeps_attempt [keeps_intros]:
  assumes "keeps I m" and "\<And>e. keeps I (h e)" and "\<And>x. keeps I (f x)"
  shows "keeps I (attempt m h f)"
  using assms by (auto simp: keeps_def attempt_def split: prod.splits sum.splits)

lemma keeps_if [keeps_intros]:
  "(b \<Longrightarrow> keeps I m) \<Longrightarrow> (\<not> b \<Longrightarrow> keeps I n) \<Longrightarrow> keeps I (if b then m else n)"
  by simp

lemma keeps_option [keeps_intros]:
  "(x = None \<Longrightarrow> keeps I m) \<Longrightarrow> (\<And>y. x = Some y \<Longrightarrow> keeps I (f y)) \<Longrightarrow>
   keeps I (case x of None \<Rightarrow> m | Some y \<Rightarrow> f y)"
  by (cases x) auto

lemma keeps_sum [keeps_intros]:
  "(\<And>e. x = Inl e \<Longrightarrow> keeps I (h e)) \<Longrightarrow> (\<And>y. x = Inr y \<Longrightarrow> keeps I (f y)) \<Longrightarrow>
   keeps I (case x of Inl e \<Rightarrow> h e | Inr y \<Rightarrow> f y)"
  by (cases x) auto

lemma keeps_list [keeps_intros]:
  "(xs = [] \<Longrightarrow> keeps I m) \<Longrightarrow> (\<And>y ys. xs = y # ys \<Longrightarrow> keeps I (f y ys)) \<Longrightarrow>
   keeps I (case xs of [] \<Rightarrow> m | y # ys \<Rightarrow> f y ys)"
  by (cases xs) auto

lemma keeps_prod [keeps_intros]:
  "(\<And>a b. p = (a, b) \<Longrightarrow> keeps I (f a b)) \<Longrightarrow> keeps I (case p of (a, b) \<Rightarrow> f a b)"
  by (cases p) auto

lemma keeps_Let [keeps_intros]: "(\<And>x. x = t \<Longrightarrow> keeps I (f x)) \<Longrightarrow> keeps I (let x = t in f x)"
  by simp

lemma keeps_forE [keeps_intros]: "(\<And>x. x \<in> set xs \<Longrightarrow> keeps I (f x)) \<Longrightarrow> keeps I (forE xs f)"
  by (induction xs) (auto intro: keeps_intros)

text \<open>
  \<open>leads P Q m\<close>: from a state in \<open>P\<close> the computation leaves a state in \<open>Q\<close>, whether it
  returns a value or an error; \<open>yields P m V\<close>: a value it returns satisfies \<open>V\<close>.
\<close>

definition leads :: "('w \<Rightarrow> bool) \<Rightarrow> ('w \<Rightarrow> bool) \<Rightarrow> ('w, 'e, 'a) go \<Rightarrow> bool" where
  "leads P Q m \<longleftrightarrow> (\<forall>w. P w \<longrightarrow> Q (snd (m w)))"

definition yields :: "('w \<Rightarrow> bool) \<Rightarrow> ('w, 'e, 'a) go \<Rightarrow> ('a \<Rightarrow> bool) \<Rightarrow> bool" where
  "yields P m V \<longleftrightarrow> (\<forall>w x w'. P w \<longrightarrow> m w = (Inr x, w') \<longrightarrow> V x)"

lemma leadsI: "(\<And>w. P w \<Longrightarrow> Q (snd (m w))) \<Longrightarrow> leads P Q m"
  by (simp add: leads_def)

lemma leadsD: "leads P Q m \<Longrightarrow> P w \<Longrightarrow> m w = (r, w') \<Longrightarrow> Q w'"
  by (metis leads_def snd_conv)

lemma leads_keeps: "leads I I m \<longleftrightarrow> keeps I m"
  by (simp add: leads_def keeps_def)

lemma leads_weaken:
  "leads P' Q' m \<Longrightarrow> (\<And>w. P w \<Longrightarrow> P' w) \<Longrightarrow> (\<And>w. Q' w \<Longrightarrow> Q w) \<Longrightarrow> leads P Q m"
  by (simp add: leads_def)

lemma leads_ret: "(\<And>w. P w \<Longrightarrow> Q w) \<Longrightarrow> leads P Q (ret x)"
  by (simp add: leads_def ret_def)

lemma leads_throw: "(\<And>w. P w \<Longrightarrow> Q w) \<Longrightarrow> leads P Q (throw e)"
  by (simp add: leads_def throw_def)

lemma leads_bindE:
  assumes "leads P R m" and "\<And>w. R w \<Longrightarrow> Q w" and "\<And>x. leads R Q (f x)"
  shows "leads P Q (bindE m f)"
  using assms by (fastforce simp: leads_def bindE_def split: prod.splits sum.splits)

lemma leads_attempt:
  assumes "leads P R m" and "\<And>e. leads R Q (h e)" and "\<And>x. leads R Q (f x)"
  shows "leads P Q (attempt m h f)"
  using assms by (fastforce simp: leads_def attempt_def split: prod.splits sum.splits)

lemma leads_attempt_hoare:
  assumes "hoare P m R E" and "\<And>e. leads (E e) Q (h e)" and "\<And>x. leads (R x) Q (f x)"
  shows "leads P Q (attempt m h f)"
  using assms by (fastforce simp: hoare_def leads_def attempt_def split: prod.splits sum.splits)

lemma leads_hoare: "leads P Q m \<longleftrightarrow> hoare P m (\<lambda>_. Q) (\<lambda>_. Q)"
proof -
  have "Q (snd (m w)) \<longleftrightarrow> (case m w of (Inr x, w') \<Rightarrow> Q w' | (Inl e, w') \<Rightarrow> Q w')" for w
    by (cases "m w"; cases "fst (m w)") auto
  then show ?thesis by (simp add: leads_def hoare_def)
qed

lemma leads_bindE_yields:
  assumes "keeps P m" and "yields P m V" and "\<And>w. P w \<Longrightarrow> Q w" and "\<And>x. V x \<Longrightarrow> leads P Q (f x)"
  shows "leads P Q (bindE m f)"
  using assms by (fastforce simp: keeps_def yields_def leads_def bindE_def split: prod.splits sum.splits)

lemma keeps_bindE_yields:
  assumes "keeps I m" and "yields I m V" and "\<And>x. V x \<Longrightarrow> keeps I (f x)"
  shows "keeps I (bindE m f)"
  using leads_bindE_yields [of I m V I f] assms by (simp add: leads_keeps)

lemma keeps_attempt_yields:
  assumes "keeps I m" and "yields I m V" and "\<And>e. keeps I (h e)" and "\<And>x. V x \<Longrightarrow> keeps I (f x)"
  shows "keeps I (attempt m h f)"
  using assms by (fastforce simp: keeps_def yields_def attempt_def split: prod.splits sum.splits)

text \<open>\<open>raises E m\<close>: every error that \<open>m\<close> returns satisfies \<open>E\<close>.\<close>

definition raises :: "('e \<Rightarrow> bool) \<Rightarrow> ('w, 'e, 'a) go \<Rightarrow> bool" where
  "raises E m \<longleftrightarrow> (\<forall>w e w'. m w = (Inl e, w') \<longrightarrow> E e)"

lemma raisesD: "raises E m \<Longrightarrow> m w = (Inl e, w') \<Longrightarrow> E e"
  by (auto simp: raises_def)

lemma raises_basic [raises_intros]:
  "raises E (ret x)" "raises E (asks f)" "E e \<Longrightarrow> raises E (throw e)" "E e \<Longrightarrow> raises E (failIf b e)"
  by (auto simp: raises_def throw_Inl failIf_Inl)

lemma raises_bindE [raises_intros]:
  "raises E m \<Longrightarrow> (\<And>x. raises E (f x)) \<Longrightarrow> raises E (bindE m f)"
  unfolding raises_def bindE_Inl by blast

lemma raises_guard: "(b \<Longrightarrow> E e) \<Longrightarrow> (\<not> b \<Longrightarrow> raises E (f ())) \<Longrightarrow> raises E (bindE (failIf b e) f)"
  by (auto simp: raises_def bindE_def failIf_def)

lemma raises_attempt:
  "raises E' m \<Longrightarrow> (\<And>e. E' e \<Longrightarrow> raises E (h e)) \<Longrightarrow> (\<And>x. raises E (f x)) \<Longrightarrow> raises E (attempt m h f)"
  unfolding raises_def attempt_result by blast

lemma raises_attempt_throw [raises_intros]:
  "raises E m \<Longrightarrow> (\<And>e. E e \<Longrightarrow> E (h e)) \<Longrightarrow> (\<And>x. raises E (f x)) \<Longrightarrow>
   raises E (attempt m (\<lambda>e. throw (h e)) f)"
  by (rule raises_attempt [of E]) (auto intro: raises_basic)

lemma raises_cases [raises_intros]:
  "(b \<Longrightarrow> raises E m) \<Longrightarrow> (\<not> b \<Longrightarrow> raises E n) \<Longrightarrow> raises E (if b then m else n)"
  "(x = None \<Longrightarrow> raises E m) \<Longrightarrow> (\<And>y. x = Some y \<Longrightarrow> raises E (f y)) \<Longrightarrow>
   raises E (case x of None \<Rightarrow> m | Some y \<Rightarrow> f y)"
  by (auto split: option.splits)

section \<open>Tables as lists of rows\<close>

text \<open>
  \<open>update_where p f rows\<close> is SQL's \<open>UPDATE ... SET f WHERE p\<close>.
\<close>

definition update_where :: "('r \<Rightarrow> bool) \<Rightarrow> ('r \<Rightarrow> 'r) \<Rightarrow> 'r list \<Rightarrow> 'r list" where
  "update_where p f rows = map (\<lambda>r. if p r then f r else r) rows"

lemma update_where_simps [simp]:
  "update_where p f [] = []"
  "update_where p f (r # rs) = (if p r then f r else r) # update_where p f rs"
  by (simp_all add: update_where_def)

lemma set_update_where:
  "x \<in> set (update_where p f rows) \<longleftrightarrow> (\<exists>r \<in> set rows. x = (if p r then f r else r))"
  by (auto simp: update_where_def)

lemma length_update_where [simp]: "length (update_where p f rows) = length rows"
  by (simp add: update_where_def)

lemma map_update_where:
  "(\<And>r. p r \<Longrightarrow> k (f r) = k r) \<Longrightarrow> map k (update_where p f rows) = map k rows"
  by (simp add: update_where_def)

lemma update_where_none: "(\<And>r. r \<in> set rows \<Longrightarrow> \<not> p r) \<Longrightarrow> update_where p f rows = rows"
  by (induction rows) auto

lemma list_all_update_where:
  assumes "list_all P rows" and "\<And>r. P r \<Longrightarrow> p r \<Longrightarrow> P (f r)"
  shows "list_all P (update_where p f rows)"
  using assms by (induction rows) auto

text \<open>The first row a primary-key lookup finds.\<close>

lemma find_key_unique:
  "distinct (map k rows) \<Longrightarrow> r \<in> set rows \<Longrightarrow> find (\<lambda>x. k x = k r) rows = Some r"
  by (induction rows) (auto simp: image_iff)

lemma find_Some_mem: "find p xs = Some x \<Longrightarrow> x \<in> set xs \<and> p x"
  by (induction xs) (auto split: if_splits)

lemma find_None_iff_all: "find p xs = None \<longleftrightarrow> (\<forall>x \<in> set xs. \<not> p x)"
  by (induction xs) auto

lemma distinct_keys_eq:
  "distinct (map k rows) \<Longrightarrow> r \<in> set rows \<Longrightarrow> r' \<in> set rows \<Longrightarrow> k r = k r' \<Longrightarrow> r = r'"
  by (induction rows) (auto simp: image_iff)

lemma find_update_where:
  assumes "\<And>r. k (f r) = k r"
  shows "find (\<lambda>r. k r = i) (update_where p f rows) =
         map_option (\<lambda>r. if p r then f r else r) (find (\<lambda>r. k r = i) rows)"
  using assms by (induction rows) auto

section \<open>Transition systems\<close>

text \<open>
  The interface between a component that describes its steps and the lemmas about every
  state it can reach: the initial states satisfy the invariant, every step keeps it.
\<close>

locale invariant_system =
  fixes init :: "'s \<Rightarrow> bool"
    and step :: "'s \<Rightarrow> 's \<Rightarrow> bool"
    and inv :: "'s \<Rightarrow> bool"
  assumes inv_init: "init s \<Longrightarrow> inv s"
    and inv_step: "inv s \<Longrightarrow> step s t \<Longrightarrow> inv t"
begin

lemma inv_steps: "step\<^sup>*\<^sup>* s t \<Longrightarrow> inv s \<Longrightarrow> inv t"
  by (induction rule: rtranclp_induct) (auto intro: inv_step)

lemma inv_reachable: "init s \<Longrightarrow> step\<^sup>*\<^sup>* s t \<Longrightarrow> inv t"
  by (blast intro: inv_init inv_steps)

end

text \<open>
  The compare-and-set discipline of the store: an \<open>UPDATE ... SET f WHERE guard\<close>
  whose assignment makes its own guard false.  Whichever of two racing statements comes
  second matches no row.
\<close>

locale guarded_update =
  fixes guard :: "'r \<Rightarrow> bool"
    and assign :: "'r \<Rightarrow> 'r"
  assumes assign_leaves_guard: "guard r \<Longrightarrow> \<not> guard (assign r)"
begin

lemma second_matches_none:
  "filter guard (update_where guard assign rows) = []"
  by (induction rows) (auto simp: assign_leaves_guard)

lemma apply_twice: "update_where guard assign (update_where guard assign rows) = update_where guard assign rows"
  by (rule update_where_none) (metis assign_leaves_guard set_update_where)

end

end
