(* ===== verification/Go_Time.thy ===== *)
theory Go_Time
  imports Prelude
begin

text \<open>
  The part of Go's \<open>time\<close> package the backend computes with: instants, time zones as
  the transition tables \<open>LoadLocation\<close> reads, \<open>time.Date\<close> with its two-step offset
  guess, wall-clock fields, \<open>AddDate(0, 0, 1)\<close>, and the two layouts the code formats
  with.  Instants are microseconds since the epoch, PostgreSQL's resolution.
  A calendar day is its day number since 1970-01-01, so \<open>day + 1\<close> is the next day
  with no month arithmetic.
\<close>

type_synonym instant = int

definition seconds :: "int \<Rightarrow> int" where "seconds n = n * 1000000"
definition minutes :: "int \<Rightarrow> int" where "minutes n = n * 60000000"
definition hours :: "int \<Rightarrow> int" where "hours n = n * 3600000000"

lemmas duration_defs = seconds_def minutes_def hours_def

definition unix :: "instant \<Rightarrow> int" where
  "unix t = t div 1000000"

section \<open>Locations\<close>

record zone =
  z_offset :: int
  z_abbrev :: string

text \<open>
  \<open>l_trans\<close> lists the instants (Unix seconds, ascending) at which a new zone starts;
  \<open>l_first\<close> is in force before the first.
\<close>

record location =
  l_first :: zone
  l_trans :: "(int \<times> zone) list"

definition utc :: location where
  "utc = \<lparr>l_first = \<lparr>z_offset = 0, z_abbrev = ''UTC''\<rparr>, l_trans = []\<rparr>"

text \<open>
  \<open>Location.lookup\<close>: the zone in force at a Unix second and the half-open interval
  \<open>[start, end)\<close> it is in force for (\<open>None\<close> is unbounded).
\<close>

fun lookup_from :: "zone \<Rightarrow> int option \<Rightarrow> (int \<times> zone) list \<Rightarrow> int \<Rightarrow> zone \<times> int option \<times> int option" where
  "lookup_from z start [] t = (z, start, None)"
| "lookup_from z start ((s, z') # rest) t =
     (if t < s then (z, start, Some s) else lookup_from z' (Some s) rest t)"

definition lookup :: "location \<Rightarrow> int \<Rightarrow> zone \<times> int option \<times> int option" where
  "lookup loc t = lookup_from (l_first loc) None (l_trans loc) t"

definition zone_at :: "location \<Rightarrow> int \<Rightarrow> zone" where
  "zone_at loc t = fst (lookup loc t)"

definition offset_at :: "location \<Rightarrow> int \<Rightarrow> int" where
  "offset_at loc t = z_offset (zone_at loc t)"

text \<open>The seconds \<open>t.In(loc)\<close> shows on the wall, counted from 1970-01-01 00:00 local.\<close>

definition wall :: "location \<Rightarrow> instant \<Rightarrow> int" where
  "wall loc t = unix t + offset_at loc (unix t)"

definition day_number :: "location \<Rightarrow> instant \<Rightarrow> int" where
  "day_number loc t = wall loc t div 86400"

definition wall_hour :: "location \<Rightarrow> instant \<Rightarrow> int" where
  "wall_hour loc t = (wall loc t mod 86400) div 3600"

definition wall_min :: "location \<Rightarrow> instant \<Rightarrow> int" where
  "wall_min loc t = (wall loc t mod 3600) div 60"

text \<open>\<open>Weekday()\<close>: Sunday is 0; 1970-01-01 was a Thursday.\<close>

definition weekday :: "location \<Rightarrow> instant \<Rightarrow> int" where
  "weekday loc t = (day_number loc t + 4) mod 7"

text \<open>
  \<open>time.Date\<close>: the local seconds are first read as if they were UTC to guess an offset;
  when the result falls outside the interval that offset is valid for, the offset is
  looked up once more there.  For a local time skipped by a transition the result is a
  different local time.
\<close>

definition outside :: "int option \<Rightarrow> int option \<Rightarrow> int \<Rightarrow> bool" where
  "outside start stop t \<longleftrightarrow>
     (case start of None \<Rightarrow> False | Some s \<Rightarrow> t < s) \<or> (case stop of None \<Rightarrow> False | Some e \<Rightarrow> e \<le> t)"

definition date_offset :: "location \<Rightarrow> int \<Rightarrow> int" where
  "date_offset loc local =
     (let (z, start, stop) = lookup loc local
      in if z_offset z = 0 then 0
         else if outside start stop (local - z_offset z) then offset_at loc (local - z_offset z)
         else z_offset z)"

definition go_date :: "location \<Rightarrow> int \<Rightarrow> instant" where
  "go_date loc local = seconds (local - date_offset loc local)"

text \<open>
  \<open>t.AddDate(0, 0, 1)\<close> is \<open>Date\<close> of the wall-clock fields with the day increased,
  the sub-second part kept.
\<close>

definition add_day :: "location \<Rightarrow> instant \<Rightarrow> instant" where
  "add_day loc t = go_date loc (wall loc t + 86400) + t mod 1000000"

lemma unix_seconds [simp]: "unix (seconds n) = n"
  by (simp add: unix_def seconds_def)

lemma unix_go_date [simp]: "unix (go_date loc l) = l - date_offset loc l"
  by (simp add: go_date_def)

lemma wall_go_date:
  "wall loc (go_date loc l) = l - date_offset loc l + offset_at loc (l - date_offset loc l)"
  by (simp add: wall_def)

section \<open>Offsets of a location\<close>

definition offsets :: "location \<Rightarrow> int set" where
  "offsets loc = z_offset ` insert (l_first loc) (snd ` set (l_trans loc))"

lemma lookup_from_zone:
  "fst (lookup_from z s ts t) \<in> insert z (snd ` set ts)"
  by (induction z s ts t rule: lookup_from.induct) auto

lemma offset_at_in: "offset_at loc t \<in> offsets loc"
  using lookup_from_zone [of "l_first loc" None "l_trans loc" t]
  by (auto simp: offset_at_def zone_at_def lookup_def offsets_def)

lemma date_offset_in: "date_offset loc l \<in> insert 0 (offsets loc)"
proof -
  obtain z s e where l: "lookup loc l = (z, s, e)" by (cases "lookup loc l")
  then have "z_offset z = offset_at loc l" by (simp add: offset_at_def zone_at_def)
  then have "z_offset z \<in> offsets loc" using offset_at_in by metis
  then show ?thesis using l offset_at_in by (auto simp: date_offset_def)
qed

lemma date_offset_zero:
  "date_offset loc l \<in> offsets loc"
proof -
  obtain z s e where l: "lookup loc l = (z, s, e)" by (cases "lookup loc l")
  then have "z_offset z = offset_at loc l" by (simp add: offset_at_def zone_at_def)
  then have z: "z_offset z \<in> offsets loc" using offset_at_in by metis
  show ?thesis
  proof (cases "z_offset z = 0")
    case True
    then show ?thesis using l z by (simp add: date_offset_def)
  next
    case False
    then show ?thesis using l z offset_at_in by (simp add: date_offset_def)
  qed
qed

text \<open>
  A location whose offsets lie within less than a day (by a minute) of each other: every
  zone of the tz database except the few that crossed the date line.
\<close>

definition narrow :: "location \<Rightarrow> bool" where
  "narrow loc \<longleftrightarrow> (\<forall>a \<in> offsets loc. \<forall>b \<in> offsets loc. a - b < 86340)"

lemma narrowD: "narrow loc \<Longrightarrow> a \<in> offsets loc \<Longrightarrow> b \<in> offsets loc \<Longrightarrow> a - b < 86340"
  by (simp add: narrow_def)

lemma narrow_utc [simp]: "narrow utc"
  by (simp add: narrow_def offsets_def utc_def)

lemma utc_wall [simp]: "wall utc t = unix t"
  by (simp add: wall_def offset_at_def zone_at_def lookup_def utc_def)

lemma utc_date [simp]: "go_date utc l = seconds l"
  by (simp add: go_date_def date_offset_def lookup_def utc_def)

text \<open>In a narrow location the next day is later.\<close>

lemma add_day_progress:
  assumes "narrow loc"
  shows "unix t + 60 < unix (add_day loc t)"
proof -
  have u: "unix (add_day loc t) = wall loc t + 86400 - date_offset loc (wall loc t + 86400)"
    by (simp add: add_day_def go_date_def seconds_def unix_def)
  have "date_offset loc (wall loc t + 86400) - offset_at loc (unix t) < 86340"
    by (rule narrowD [OF assms date_offset_zero offset_at_in])
  with u show ?thesis by (simp add: wall_def)
qed

section \<open>Calendar fields and layouts\<close>

text \<open>Year, month and day of a day number (proleptic Gregorian calendar).\<close>

definition civil :: "int \<Rightarrow> int \<times> int \<times> int" where
  "civil dn =
     (let z = dn + 719468;
          era = z div 146097;
          doe = z mod 146097;
          yoe = (doe - doe div 1460 + doe div 36524 - doe div 146096) div 365;
          doy = doe - (365 * yoe + yoe div 4 - yoe div 100);
          mp = (5 * doy + 2) div 153;
          d = doy - (153 * mp + 2) div 5 + 1;
          m = (if mp < 10 then mp + 3 else mp - 9);
          y = yoe + era * 400 + (if m \<le> 2 then 1 else 0)
      in (y, m, d))"

definition digit :: "int \<Rightarrow> char" where
  "digit n = char_of (48 + nat (n mod 10))"

fun pad :: "nat \<Rightarrow> int \<Rightarrow> string" where
  "pad 0 n = []"
| "pad (Suc k) n = pad k (n div 10) @ [digit n]"

function decimal_nat :: "nat \<Rightarrow> string" where
  "decimal_nat n = (if n < 10 then [digit (int n)] else decimal_nat (n div 10) @ [digit (int n)])"
  by pat_completeness auto
termination
  by (relation "measure id") auto

declare decimal_nat.simps [simp del]

definition decimal :: "int \<Rightarrow> string" where
  "decimal n = (if n < 0 then ''-'' @ decimal_nat (nat (- n)) else decimal_nat (nat n))"

text \<open>Layout \<open>2006-01-02T15:04:05Z07:00\<close> (\<open>time.RFC3339\<close>) of an instant in UTC.\<close>

definition format_rfc3339 :: "instant \<Rightarrow> string" where
  "format_rfc3339 t =
     (let (y, m, d) = civil (day_number utc t); s = unix t mod 60
      in pad 4 y @ ''-'' @ pad 2 m @ ''-'' @ pad 2 d @ ''T'' @
         pad 2 (wall_hour utc t) @ '':'' @ pad 2 (wall_min utc t) @ '':'' @ pad 2 s @ ''Z'')"

text \<open>Layout \<open>20060102T150405Z\<close>, the iCalendar DATE-TIME in UTC.\<close>

definition format_ics :: "instant \<Rightarrow> string" where
  "format_ics t =
     (let (y, m, d) = civil (day_number utc t)
      in pad 4 y @ pad 2 m @ pad 2 d @ ''T'' @
         pad 2 (wall_hour utc t) @ pad 2 (wall_min utc t) @ pad 2 (unix t mod 60) @ ''Z'')"

definition weekday_abbrev :: "int \<Rightarrow> string" where
  "weekday_abbrev n = [''Sun'', ''Mon'', ''Tue'', ''Wed'', ''Thu'', ''Fri'', ''Sat''] ! nat (n mod 7)"

definition month_abbrev :: "int \<Rightarrow> string" where
  "month_abbrev m = [''Jan'', ''Feb'', ''Mar'', ''Apr'', ''May'', ''Jun'',
     ''Jul'', ''Aug'', ''Sep'', ''Oct'', ''Nov'', ''Dec''] ! nat ((m - 1) mod 12)"

text \<open>Layout \<open>Mon 2 Jan 2006 at 15:04 MST\<close> in a location.\<close>

definition format_clock :: "location \<Rightarrow> instant \<Rightarrow> string" where
  "format_clock loc t =
     (let (y, m, d) = civil (day_number loc t)
      in weekday_abbrev (weekday loc t) @ '' '' @ decimal d @ '' '' @ month_abbrev m @ '' '' @
         pad 4 y @ '' at '' @ pad 2 (wall_hour loc t) @ '':'' @ pad 2 (wall_min loc t) @ '' '' @
         z_abbrev (zone_at loc (unix t)))"

lemma length_pad [simp]: "length (pad k n) = k"
  by (induction k arbitrary: n) auto

end
