(* ===== verification/Payments.thy ===== *)
theory Payments
  imports Go_Time
begin

text \<open>
  Package payments (internal/payments/payments.go): the payment states of a session, what
  a checkout is asked for, webhook events, and the \<open>Provider\<close> interface.  A concrete
  provider is outside the repository, so a provider is a record of answers: each operation's
  answer is any function of the calls made so far and its arguments.  The only provider the
  repository has is \<open>Disabled\<close>.
\<close>

datatype payment_status =
    PayNotRequired | PayPending | PayAuthorized | PayPaid | PayReleasing
  | PayReleased | PayExpiring | PayFailed | PayRefundDue | PayRefunded

fun payment_text :: "payment_status \<Rightarrow> string" where
  "payment_text PayNotRequired = ''not_required''"
| "payment_text PayPending = ''pending''"
| "payment_text PayAuthorized = ''authorized''"
| "payment_text PayPaid = ''paid''"
| "payment_text PayReleasing = ''releasing''"
| "payment_text PayReleased = ''released''"
| "payment_text PayExpiring = ''expiring''"
| "payment_text PayFailed = ''failed''"
| "payment_text PayRefundDue = ''refund_due''"
| "payment_text PayRefunded = ''refunded''"

record checkout_input =
  ci_session_id :: string
  ci_amount_cents :: int
  ci_currency :: string
  ci_description :: string
  ci_customer_email :: string
  ci_expires_at :: instant
  ci_success_url :: string
  ci_cancel_url :: string

record checkout =
  co_ref :: string
  co_url :: string

datatype event_kind = EventAuthorized | EventExpired | EventIgnored

fun event_text :: "event_kind \<Rightarrow> string" where
  "event_text EventAuthorized = ''authorized''"
| "event_text EventExpired = ''expired''"
| "event_text EventIgnored = ''ignored''"

record event =
  ev_id :: string
  ev_kind :: event_kind
  ev_checkout_ref :: string
  ev_session_id :: string

text \<open>Calls that reach the provider, with the arguments they carry.\<close>

datatype provider_call =
    CallCreateCheckout checkout_input
  | CallExpireCheckout string
  | CallCapture string string
  | CallRelease string string
  | CallRefund string string

datatype payments_error = ErrDisabled | ErrNoProvider | ErrFromProvider string

record provider =
  p_enabled :: bool
  p_create_checkout :: "provider_call list \<Rightarrow> checkout_input \<Rightarrow> payments_error + checkout"
  p_expire_checkout :: "provider_call list \<Rightarrow> string \<Rightarrow> payments_error + unit"
  p_capture :: "provider_call list \<Rightarrow> string \<Rightarrow> string \<Rightarrow> payments_error + unit"
  p_release :: "provider_call list \<Rightarrow> string \<Rightarrow> string \<Rightarrow> payments_error + unit"
  p_refund :: "provider_call list \<Rightarrow> string \<Rightarrow> string \<Rightarrow> payments_error + unit"
  p_parse_webhook :: "string \<Rightarrow> string \<Rightarrow> payments_error + event"

definition disabled :: provider where
  "disabled =
     \<lparr>p_enabled = False,
      p_create_checkout = (\<lambda>_ _. Inl ErrDisabled),
      p_expire_checkout = (\<lambda>_ _. Inl ErrDisabled),
      p_capture = (\<lambda>_ _ _. Inl ErrDisabled),
      p_release = (\<lambda>_ _ _. Inl ErrDisabled),
      p_refund = (\<lambda>_ _ _. Inl ErrDisabled),
      p_parse_webhook = (\<lambda>_ _. Inl ErrDisabled)\<rparr>"

definition new_provider :: "bool \<Rightarrow> payments_error + provider" where
  "new_provider enabled = (if \<not> enabled then Inr disabled else Inl ErrNoProvider)"

lemma payment_text_inject: "payment_text a = payment_text b \<longleftrightarrow> a = b"
  by (cases a; cases b) simp_all

lemma disabled_not_enabled [simp]: "\<not> p_enabled disabled"
  by (simp add: disabled_def)

end
