(* ===== verification/Store.thy ===== *)
theory Store
  imports Payments Complex_Main
begin

text \<open>
  The database the backend runs on: the rows of the tables (internal/store/db/models.go),
  the constraints of the migrations that the code relies on, and how a statement and a
  transaction run.  The statements themselves are with the component that uses them.

  Every statement, Redis command and publish consumes one entry of a schedule.  \<open>Ok\<close> runs
  it, \<open>Fault\<close> makes the driver return an error, and \<open>Others f\<close> first applies \<open>f\<close>, the
  effect on the database of requests other processes commit in between; \<open>OthersRedis g\<close>
  does the same to Redis.  \<open>Unconfirmed\<close> is a publish that reaches the broker although its
  confirmation does not come back; elsewhere it is a fault.  Inside a transaction the
  statements run without interference from the database.  A finished schedule means no more
  faults or interference.  The API clock and PostgreSQL's \<open>now()\<close> are separate.
\<close>

type_synonym uuid = nat

section \<open>Rows\<close>

record user =
  u_id :: uuid
  u_email :: string
  u_password_hash :: string
  u_display_name :: string
  u_role :: string
  u_email_verified :: bool
  u_created_at :: instant
  u_updated_at :: instant
  u_deleted_at :: "instant option"
  u_dating_styles :: "string list"
  u_phases_strong :: "string list"
  u_phases_working_on :: "string list"
  u_dating_preferences :: string

record coach =
  c_user_id :: uuid
  c_headline :: string
  c_bio :: string
  c_specialties :: "string list"
  c_hourly_rate_cents :: int
  c_timezone :: string
  c_years_experience :: int
  c_accepting_clients :: bool
  c_created_at :: instant
  c_updated_at :: instant
  c_phases :: "string list"
  c_approval_status :: string

record availability =
  a_id :: uuid
  a_coach_id :: uuid
  a_weekday :: int
  a_start_minute :: int
  a_end_minute :: int

datatype session_status =
    PendingPayment | Pending | Scheduled | Declined | Expired | Completed | Cancelled | NoShow

fun status_text :: "session_status \<Rightarrow> string" where
  "status_text PendingPayment = ''pending_payment''"
| "status_text Pending = ''pending''"
| "status_text Scheduled = ''scheduled''"
| "status_text Declined = ''declined''"
| "status_text Expired = ''expired''"
| "status_text Completed = ''completed''"
| "status_text Cancelled = ''cancelled''"
| "status_text NoShow = ''no_show''"

record session =
  s_id :: uuid
  s_user_id :: uuid
  s_coach_id :: uuid
  s_scheduled_time :: instant
  s_duration_minutes :: int
  s_status :: session_status
  s_topic :: string
  s_coach_notes :: string
  s_created_at :: instant
  s_updated_at :: instant
  s_confirmation_token :: "string option"
  s_respond_by :: "instant option"
  s_confirmed_at :: "instant option"
  s_calendar_sequence :: int
  s_payment_status :: payment_status
  s_amount_cents :: int
  s_currency :: string
  s_payment_ref :: "string option"
  s_hold_expires_at :: "instant option"
  s_meeting_url :: string

record payment_event =
  pe_id :: string
  pe_session_id :: "uuid option"
  pe_type :: string
  pe_received_at :: instant

record review =
  r_id :: uuid
  r_coach_id :: uuid
  r_user_id :: uuid
  r_session_id :: "uuid option"
  r_rating :: int
  r_comment :: string
  r_created_at :: instant
  r_updated_at :: instant

record email =
  e_id :: uuid
  e_to :: string
  e_subject :: string
  e_body :: string
  e_ics :: "string option"
  e_attempts :: int
  e_last_error :: string
  e_next_attempt_at :: instant
  e_created_at :: instant
  e_sent_at :: "instant option"

record refresh_token =
  t_id :: uuid
  t_user_id :: uuid
  t_token_hash :: string
  t_issued_at :: instant
  t_expires_at :: instant
  t_used_at :: "instant option"
  t_family_id :: uuid

record account_deletion =
  ad_user_id :: uuid
  ad_requested_at :: instant
  ad_published_at :: "instant option"

record chat_thread =
  ct_id :: uuid
  ct_user_id :: uuid
  ct_coach_id :: uuid
  ct_session_id :: "uuid option"
  ct_status :: string
  ct_created_at :: instant
  ct_last_message_at :: instant

record chat_message =
  cm_id :: uuid
  cm_thread_id :: uuid
  cm_sender_id :: uuid
  cm_body :: string
  cm_created_at :: instant

record conversation =
  cn_id :: uuid
  cn_user_id :: uuid
  cn_title :: string
  cn_platform :: string
  cn_match_name :: string
  cn_created_at :: instant

record message =
  ms_id :: uuid
  ms_conversation_id :: uuid
  ms_position :: int
  ms_sender :: string
  ms_body :: string
  ms_sent_at :: instant

text \<open>The columns of type jsonb hold the text the code wrote; a score is a rational.\<close>

record analysis_result =
  an_id :: uuid
  an_conversation_id :: uuid
  an_status :: string
  an_model_version :: string
  an_segments :: string
  an_overall :: string
  an_error :: string
  an_created_at :: instant
  an_completed_at :: "instant option"

record training_example =
  te_id :: uuid
  te_conversation_id :: uuid
  te_label_source :: string
  te_outcome :: "string option"
  te_reply_received :: "bool option"
  te_engagement_score :: "rat option"
  te_segment_labels :: string
  te_notes :: string
  te_consented :: bool
  te_created_at :: instant

record notification =
  nt_id :: uuid
  nt_user_id :: uuid
  nt_kind :: string
  nt_payload :: string
  nt_sent_at :: "instant option"
  nt_created_at :: instant

record db =
  d_users :: "user list"
  d_coaches :: "coach list"
  d_availability :: "availability list"
  d_sessions :: "session list"
  d_events :: "payment_event list"
  d_reviews :: "review list"
  d_outbox :: "email list"
  d_tokens :: "refresh_token list"
  d_deletions :: "account_deletion list"
  d_threads :: "chat_thread list"
  d_chats :: "chat_message list"
  d_conversations :: "conversation list"
  d_messages :: "message list"
  d_analyses :: "analysis_result list"
  d_examples :: "training_example list"
  d_notifications :: "notification list"

section \<open>Constraints on coaching sessions\<close>

text \<open>
  \<open>coaching_sessions_no_overlap\<close>: sessions of one coach that hold a slot may not
  overlap, as half-open time ranges.
\<close>

definition holds_slot :: "session \<Rightarrow> bool" where
  "holds_slot s \<longleftrightarrow> s_status s \<in> {PendingPayment, Pending, Scheduled}"

definition session_end :: "session \<Rightarrow> instant" where
  "session_end s = s_scheduled_time s + minutes (s_duration_minutes s)"

definition clash :: "session \<Rightarrow> session \<Rightarrow> bool" where
  "clash s t \<longleftrightarrow> holds_slot s \<and> holds_slot t \<and> s_coach_id s = s_coach_id t \<and>
     s_scheduled_time s < session_end t \<and> s_scheduled_time t < session_end s"

definition no_overlap :: "session list \<Rightarrow> bool" where
  "no_overlap ss \<longleftrightarrow> sorted_wrt (\<lambda>s t. \<not> clash s t) ss"

datatype sqlstate = UniqueViolation | ExclusionViolation | CheckViolation | ForeignKeyViolation

text \<open>The keys that a unique index covers: rows where the column is null are not in it.\<close>

definition present :: "('r \<Rightarrow> 'k option) \<Rightarrow> 'r list \<Rightarrow> 'k list" where
  "present k rows = List.map_filter k rows"

definition session_checks :: "session \<Rightarrow> bool" where
  "session_checks s \<longleftrightarrow> 15 \<le> s_duration_minutes s \<and> s_duration_minutes s \<le> 240 \<and> 0 \<le> s_amount_cents s"

text \<open>
  What PostgreSQL reports for a table state: check constraints first, then the unique
  indexes (primary key, confirmation token, payment reference), the exclusion
  constraint, and the foreign keys to users and coaches.
\<close>

definition sessions_violation :: "db \<Rightarrow> session list \<Rightarrow> sqlstate option" where
  "sessions_violation d ss =
     (if \<not> list_all session_checks ss then Some CheckViolation
      else if \<not> (distinct (map s_id ss) \<and> distinct (present s_confirmation_token ss)
                  \<and> distinct (present s_payment_ref ss)) then Some UniqueViolation
      else if \<not> no_overlap ss then Some ExclusionViolation
      else if \<not> list_all (\<lambda>s. s_user_id s \<in> u_id ` set (d_users d)
                  \<and> s_coach_id s \<in> c_user_id ` set (d_coaches d)) ss then Some ForeignKeyViolation
      else None)"

section \<open>Errors\<close>

text \<open>
  What \<open>errors.Is\<close> and \<open>errors.As\<close> can tell apart; message texts are not kept.
\<close>

datatype go_error =
    ErrNotFound | ErrForbidden | ErrInvalidInput | ErrSlotTaken | ErrUnavailable
  | ErrExpired | ErrPayment
  | ErrEmailTaken | ErrInvalidCredentials | ErrInvalidCode | ErrEmailNotVerified
  | ErrGoogleAuthDisabled | ErrInvalidGoogleToken | ErrGoogleKeysUnavailable
  | ErrInvalidRefreshToken | ErrClosed | ErrHash | ErrSign | ErrBroker | ErrRedis | ErrAnalyzer
  | ErrParse | ErrNoRows | ErrSql sqlstate | ErrDriver | ErrRand | ErrProvider payments_error
  | OutOfFuel | Panic

section \<open>The world a request runs in\<close>

text \<open>
  Redis: string values and sets of members, each with the instant its key expires at, if it
  does.  A key past its expiry is gone.
\<close>

record redis =
  v_strings :: "string \<Rightarrow> (string \<times> instant option) option"
  v_sets :: "string \<Rightarrow> (string list \<times> instant option) option"

text \<open>A job on a RabbitMQ work queue: the fields of its JSON body and its attempts header.\<close>

datatype job =
    AnalysisJob string string string
  | DeletionJob string int

text \<open>
  What leaves the process other than to the stores: mails and pushes handed to the
  notifier, jobs confirmed or not by the broker, pub/sub announcements.
\<close>

record mail_message =
  mm_to :: string
  mm_subject :: string
  mm_body :: string
  mm_ics :: string

datatype signal =
    Mailed mail_message
  | Pushed string string string
  | Queued string job
  | Announced string string

datatype sched = Ok | Fault | Unconfirmed | Others "db \<Rightarrow> db" | OthersRedis "redis \<Rightarrow> redis"

record world =
  w_db :: db
  w_sched :: "sched list"
  w_in_tx :: bool
  w_now :: instant
  w_dbnow :: instant
  w_next_id :: uuid
  w_random :: "string list"
  w_calls :: "provider_call list"
  w_redis :: redis
  w_codes :: "int list"
  w_signals :: "signal list"

type_synonym 'a request = "(world, go_error, 'a) go"

text \<open>
  The schedule entry in front of a statement: whether it fails, and the world with the
  entry consumed and any interference applied.
\<close>

definition next_entry :: "world \<Rightarrow> bool \<times> world" where
  "next_entry w =
     (case w_sched w of
        [] \<Rightarrow> (False, w)
      | Ok # r \<Rightarrow> (False, w\<lparr>w_sched := r\<rparr>)
      | Fault # r \<Rightarrow> (True, w\<lparr>w_sched := r\<rparr>)
      | Unconfirmed # r \<Rightarrow> (True, w\<lparr>w_sched := r\<rparr>)
      | Others f # r \<Rightarrow>
          (False, if w_in_tx w then w\<lparr>w_sched := r\<rparr> else w\<lparr>w_sched := r, w_db := f (w_db w)\<rparr>)
      | OthersRedis g # r \<Rightarrow> (False, w\<lparr>w_sched := r, w_redis := g (w_redis w)\<rparr>))"

text \<open>
  A statement: \<open>f\<close> computes the answer and the new database, or the SQL error, in
  which case the database is unchanged.  It may draw a fresh id.
\<close>

definition query :: "(world \<Rightarrow> go_error + ('a \<times> db)) \<Rightarrow> 'a request" where
  "query f w =
     (case next_entry w of
        (True, w') \<Rightarrow> (Inl ErrDriver, w')
      | (False, w') \<Rightarrow>
          (case f w' of Inl e \<Rightarrow> (Inl e, w') | Inr (x, d) \<Rightarrow> (Inr x, w'\<lparr>w_db := d\<rparr>)))"

text \<open>\<open>gen_random_uuid()\<close>, used as a column default.\<close>

definition fresh_id :: "uuid request" where
  "fresh_id w = (Inr (w_next_id w), w\<lparr>w_next_id := Suc (w_next_id w)\<rparr>)"

text \<open>
  \<open>pool.Begin\<close>, the body, and \<open>Commit\<close>; an error anywhere, and a body that returns
  without committing (\<open>False\<close>), leaves the deferred \<open>Rollback\<close> to restore the
  database.
\<close>

definition transaction :: "(bool \<times> 'a) request \<Rightarrow> 'a request" where
  "transaction body w =
     (case next_entry w of
        (True, w1) \<Rightarrow> (Inl ErrDriver, w1)
      | (False, w1) \<Rightarrow>
          (case body (w1\<lparr>w_in_tx := True\<rparr>) of
             (Inl e, w2) \<Rightarrow> (Inl e, w2\<lparr>w_db := w_db w1, w_in_tx := w_in_tx w1\<rparr>)
           | (Inr (False, x), w2) \<Rightarrow> (Inr x, w2\<lparr>w_db := w_db w1, w_in_tx := w_in_tx w1\<rparr>)
           | (Inr (True, x), w2) \<Rightarrow>
               (case next_entry w2 of
                  (True, w3) \<Rightarrow> (Inl ErrDriver, w3\<lparr>w_db := w_db w1, w_in_tx := w_in_tx w1\<rparr>)
                | (False, w3) \<Rightarrow> (Inr x, w3\<lparr>w_in_tx := w_in_tx w1\<rparr>))))"

text \<open>
  A savepoint (\<open>tx.Begin\<close> inside a transaction): an error of the body rolls back to it
  and is handed to \<open>h\<close>, success is released and continues with \<open>f\<close>.
\<close>

definition savepoint :: "'a request \<Rightarrow> (go_error \<Rightarrow> 'b request) \<Rightarrow> ('a \<Rightarrow> 'b request) \<Rightarrow> 'b request" where
  "savepoint body h f w =
     (case next_entry w of
        (True, w1) \<Rightarrow> (Inl ErrDriver, w1)
      | (False, w1) \<Rightarrow>
          (case body w1 of
             (Inl e, w2) \<Rightarrow> h e (w2\<lparr>w_db := w_db w1\<rparr>)
           | (Inr x, w2) \<Rightarrow>
               (case next_entry w2 of
                  (True, w3) \<Rightarrow> (Inl ErrDriver, w3)
                | (False, w3) \<Rightarrow> f x w3)))"

definition commit :: "'a \<Rightarrow> (bool \<times> 'a) request" where
  "commit x = ret (True, x)"

definition abandon :: "'a \<Rightarrow> (bool \<times> 'a) request" where
  "abandon x = ret (False, x)"

lemmas world_defs = query_def transaction_def savepoint_def next_entry_def fresh_id_def

text \<open>A call to the payment provider: logged, answered from the calls before it.\<close>

definition provider_call ::
  "(provider_call list \<Rightarrow> payments_error + 'a) \<Rightarrow> provider_call \<Rightarrow> 'a request" where
  "provider_call answer call w =
     (let w' = w\<lparr>w_calls := w_calls w @ [call]\<rparr>
      in case answer (w_calls w) of Inl e \<Rightarrow> (Inl (ErrProvider e), w') | Inr x \<Rightarrow> (Inr x, w'))"

section \<open>What a service is configured with\<close>

text \<open>
  The dependencies \<open>NewService\<close> receives, and the functions of libraries outside the
  repository: the payment provider, the time-zone database, SHA-256 in hex, UUID and
  RFC 3339 parsing, \<open>url.Parse\<close> reduced to scheme and host.
\<close>

record env =
  x_provider :: provider
  x_hold_ttl :: int
  x_app_url :: string
  x_mail_from :: string
  x_load_location :: "string \<Rightarrow> location option"
  x_sha256_hex :: "string \<Rightarrow> string"
  x_uuid_text :: "uuid \<Rightarrow> string"
  x_parse_uuid :: "string \<Rightarrow> uuid option"
  x_parse_rfc3339 :: "string \<Rightarrow> instant option"
  x_parse_url :: "string \<Rightarrow> (string \<times> string) option"

definition payments_enabled :: "env \<Rightarrow> bool" where
  "payments_enabled env = p_enabled (x_provider env)"

text \<open>\<open>randomToken\<close> draws the next value of the random source; an empty source fails.\<close>

definition random_token :: "string request" where
  "random_token w =
     (case w_random w of [] \<Rightarrow> (Inl ErrRand, w) | t # ts \<Rightarrow> (Inr t, w\<lparr>w_random := ts\<rparr>))"

definition hash_token :: "env \<Rightarrow> string \<Rightarrow> string" where
  "hash_token env token = x_sha256_hex env token"

section \<open>Invariants of the database\<close>

text \<open>
  \<open>db_inv I\<close> lifts a property of the database to the world of a request: it holds now
  and the interference still to come keeps it.
\<close>

definition rely :: "(db \<Rightarrow> bool) \<Rightarrow> sched list \<Rightarrow> bool" where
  "rely I sch \<longleftrightarrow> (\<forall>f. Others f \<in> set sch \<longrightarrow> (\<forall>d. I d \<longrightarrow> I (f d)))"

definition db_inv :: "(db \<Rightarrow> bool) \<Rightarrow> world \<Rightarrow> bool" where
  "db_inv I w \<longleftrightarrow> I (w_db w) \<and> rely I (w_sched w)"

lemma rely_Nil [simp]: "rely I []"
  by (simp add: rely_def)

lemma rely_Cons: "rely I (x # xs) \<longleftrightarrow> (\<forall>f. x = Others f \<longrightarrow> (\<forall>d. I d \<longrightarrow> I (f d))) \<and> rely I xs"
  by (auto simp: rely_def)

lemma next_entry_inv:
  assumes "db_inv I w" and "next_entry w = (b, w')"
  shows "db_inv I w'"
  using assms
  by (auto simp: next_entry_def db_inv_def rely_Cons split: list.splits sched.splits if_splits)

lemma next_entry_frame:
  assumes "next_entry w = (b, w')"
  shows "w_in_tx w' = w_in_tx w" "w_now w' = w_now w" "w_dbnow w' = w_dbnow w"
    "w_next_id w' = w_next_id w" "w_random w' = w_random w" "w_calls w' = w_calls w"
    "w_in_tx w \<Longrightarrow> w_db w' = w_db w"
  using assms by (auto simp: next_entry_def split: list.splits sched.splits if_splits)

text \<open>
  A property \<open>W\<close> of the world that depends on the database through \<open>I\<close> only, and that the
  schedule, the log of calls and the random source do not affect.
\<close>

locale world_frame =
  fixes W :: "world \<Rightarrow> bool"
    and I :: "db \<Rightarrow> bool"
  assumes W_db: "W w \<Longrightarrow> I (w_db w)"
    and W_entry: "W w \<Longrightarrow> next_entry w = (b, w') \<Longrightarrow> W w'"
    and W_update: "W w \<Longrightarrow> I d \<Longrightarrow> W (w\<lparr>w_db := d\<rparr>)"
    and W_random: "W w \<Longrightarrow> W (w\<lparr>w_random := ts\<rparr>)"
    and W_calls: "W w \<Longrightarrow> W (w\<lparr>w_calls := cs\<rparr>)"
begin

lemma keeps_query:
  assumes "\<And>w x d. I (w_db w) \<Longrightarrow> f w = Inr (x, d) \<Longrightarrow> I d"
  shows "keeps W (query f)"
proof (rule keepsI)
  fix w assume w: "W w"
  obtain b w' where n: "next_entry w = (b, w')" by (cases "next_entry w")
  with w have w': "W w'" by (blast intro: W_entry)
  have "W (w'\<lparr>w_db := d\<rparr>)" if "f w' = Inr (x, d)" for x d
    using assms [OF W_db [OF w'] that] by (rule W_update [OF w'])
  with n w' show "W (snd (query f w))"
    by (auto simp: query_def split: bool.splits sum.splits)
qed

lemma keeps_provider_call: "keeps W (provider_call a c)"
  by (simp add: keeps_def provider_call_def W_calls Let_def split: sum.splits)

lemma keeps_savepoint:
  assumes "keeps W body" and "\<And>e. keeps W (h e)" and "\<And>x. keeps W (f x)"
  shows "keeps W (savepoint body h f)"
proof (rule keepsI)
  fix w assume w: "W w"
  obtain b w1 where n: "next_entry w = (b, w1)" by (cases "next_entry w")
  with w have 1: "W w1" by (blast intro: W_entry)
  obtain r w2 where body: "body w1 = (r, w2)" by (cases "body w1")
  with assms(1) 1 have 2: "W w2" by (blast intro: keepsD)
  obtain c w3 where m: "next_entry w2 = (c, w3)" by (cases "next_entry w2")
  with 2 have 3: "W w3" by (blast intro: W_entry)
  have "W (snd (h e (w2\<lparr>w_db := w_db w1\<rparr>)))" for e
    using assms(2) W_update [OF 2 W_db [OF 1]] by (simp add: keeps_def)
  moreover have "W (snd (f x w3))" for x
    using assms(3) 3 by (simp add: keeps_def)
  ultimately show "W (snd (savepoint body h f w))"
    using n body m 1 3 by (auto simp: savepoint_def split: bool.splits sum.splits)
qed

end

text \<open>A property that does not depend on the next id either.\<close>

locale world_property = world_frame +
  assumes W_ids: "W w \<Longrightarrow> W (w\<lparr>w_next_id := i\<rparr>)"
begin

lemma keeps_fresh_id: "keeps W fresh_id"
  by (simp add: keeps_def fresh_id_def W_ids)

end

text \<open>Inside a transaction there is no interference, so no rely condition is needed.\<close>

definition tx_inv :: "(db \<Rightarrow> bool) \<Rightarrow> world \<Rightarrow> bool" where
  "tx_inv I w \<longleftrightarrow> w_in_tx w \<and> I (w_db w)"

definition sched_inv :: "(db \<Rightarrow> bool) \<Rightarrow> world \<Rightarrow> bool" where
  "sched_inv I w \<longleftrightarrow> rely I (w_sched w)"

lemma next_entry_sched: "next_entry w = (b, w') \<Longrightarrow> rely I (w_sched w) \<Longrightarrow> rely I (w_sched w')"
  by (auto simp: next_entry_def rely_Cons split: list.splits sched.splits if_splits)

interpretation dbi: world_property "db_inv I" I for I
  by unfold_locales (auto simp: db_inv_def intro: next_entry_inv [unfolded db_inv_def, THEN conjunct1]
    next_entry_inv [unfolded db_inv_def, THEN conjunct2])

interpretation txi: world_property "tx_inv I" I for I
  by unfold_locales (auto simp: tx_inv_def dest: next_entry_frame)

interpretation sci: world_property "sched_inv I" "\<lambda>_. True" for I
  by unfold_locales (auto simp: sched_inv_def dest: next_entry_sched)

text \<open>
  A request that will create a row under a known id: the next id is \<open>i\<close>, and the
  interference keeps a second property as well.
\<close>

definition own_inv :: "uuid \<Rightarrow> (db \<Rightarrow> bool) \<Rightarrow> (db \<Rightarrow> bool) \<Rightarrow> world \<Rightarrow> bool" where
  "own_inv i I J w \<longleftrightarrow> w_next_id w = i \<and> db_inv I w \<and> rely J (w_sched w)"

definition both_inv :: "(db \<Rightarrow> bool) \<Rightarrow> (db \<Rightarrow> bool) \<Rightarrow> world \<Rightarrow> bool" where
  "both_inv I J w \<longleftrightarrow> db_inv I w \<and> rely J (w_sched w)"

lemma own_inv_entry: "own_inv i I J w \<Longrightarrow> next_entry w = (b, w') \<Longrightarrow> own_inv i I J w'"
  by (auto simp: own_inv_def next_entry_frame next_entry_inv next_entry_sched)

lemma both_inv_entry: "both_inv I J w \<Longrightarrow> next_entry w = (b, w') \<Longrightarrow> both_inv I J w'"
  by (auto simp: both_inv_def next_entry_inv next_entry_sched)

interpretation own: world_frame "own_inv i I J" I for i I J
proof unfold_locales
  show "next_entry w = (b, w') \<Longrightarrow> own_inv i I J w \<Longrightarrow> own_inv i I J w'" for w b w'
    by (rule own_inv_entry)
qed (simp_all add: own_inv_def db_inv_def)

interpretation both: world_property "both_inv I J" I for I J
proof unfold_locales
  show "next_entry w = (b, w') \<Longrightarrow> both_inv I J w \<Longrightarrow> both_inv I J w'" for w b w'
    by (rule both_inv_entry)
qed (simp_all add: both_inv_def db_inv_def)

lemmas store_keeps =
  dbi.keeps_query txi.keeps_query sci.keeps_query own.keeps_query both.keeps_query
  dbi.keeps_fresh_id txi.keeps_fresh_id sci.keeps_fresh_id both.keeps_fresh_id
  dbi.keeps_provider_call txi.keeps_provider_call sci.keeps_provider_call
  own.keeps_provider_call both.keeps_provider_call
  dbi.keeps_savepoint txi.keeps_savepoint sci.keeps_savepoint
declare store_keeps [keeps_intros]

lemma keeps_commit [keeps_intros]: "keeps I (commit x)"
  by (simp add: commit_def keeps_ret)

lemma keeps_abandon [keeps_intros]: "keeps I (abandon x)"
  by (simp add: abandon_def keeps_ret)

text \<open>Rolling back restores a database that satisfied the invariant.\<close>

lemma leads_transaction:
  assumes body: "leads P (db_inv I) body" and weak: "\<And>w. P w \<Longrightarrow> db_inv I w"
    and entry: "\<And>w b w'. P w \<Longrightarrow> next_entry w = (b, w') \<Longrightarrow> P w'"
    and in_tx: "\<And>w. P w \<Longrightarrow> P (w\<lparr>w_in_tx := True\<rparr>)"
  shows "leads P (db_inv I) (transaction body)"
proof (rule leadsI)
  fix w assume p: "P w"
  obtain b w1 where n: "next_entry w = (b, w1)" by (cases "next_entry w")
  with p have p1: "P w1" by (rule entry)
  then have 1: "db_inv I w1" by (rule weak)
  obtain r w2 where r: "body (w1\<lparr>w_in_tx := True\<rparr>) = (r, w2)"
    by (cases "body (w1\<lparr>w_in_tx := True\<rparr>)")
  have 2: "db_inv I w2" by (rule leadsD [OF body in_tx [OF p1] r])
  obtain c w3 where m: "next_entry w2 = (c, w3)" by (cases "next_entry w2")
  with 2 have 3: "db_inv I w3" by (blast intro: next_entry_inv)
  from 1 2 3 n r m show "db_inv I (snd (transaction body w))"
    by (auto simp: transaction_def db_inv_def split: bool.splits sum.splits prod.splits)
qed

lemma keeps_transaction [keeps_intros]:
  assumes "keeps (db_inv I) body"
  shows "keeps (db_inv I) (transaction body)"
  unfolding leads_keeps [symmetric]
  by (rule leads_transaction) (use assms in \<open>auto simp: leads_keeps db_inv_def
    intro: next_entry_inv [unfolded db_inv_def, THEN conjunct1] next_entry_inv [unfolded db_inv_def, THEN conjunct2]\<close>)

text \<open>
  The same for a body that breaks the invariant on the way and restores it by the time it
  commits.
\<close>

lemma keeps_transaction_commit:
  assumes body: "\<And>w x w'. I (w_db w) \<Longrightarrow> w_in_tx w \<Longrightarrow> body w = (Inr (True, x), w') \<Longrightarrow> tx_inv I w'"
    and sched: "keeps (sched_inv I) body"
  shows "keeps (db_inv I) (transaction body)"
proof (rule keepsI)
  fix w assume inv: "db_inv I w"
  obtain b w1 where n: "next_entry w = (b, w1)" by (cases "next_entry w")
  with inv have 1: "db_inv I w1" by (blast intro: next_entry_inv)
  obtain r w2 where r: "body (w1\<lparr>w_in_tx := True\<rparr>) = (r, w2)"
    by (cases "body (w1\<lparr>w_in_tx := True\<rparr>)")
  have "sched_inv I (w1\<lparr>w_in_tx := True\<rparr>)" using 1 by (simp add: db_inv_def sched_inv_def)
  from sched this r have "sched_inv I w2" by (rule keepsD)
  then have 2: "rely I (w_sched w2)" by (simp add: sched_inv_def)
  obtain c w3 where m: "next_entry w2 = (c, w3)" by (cases "next_entry w2")
  with 2 have 3: "rely I (w_sched w3)" by (blast intro: next_entry_sched)
  have 4: "I (w_db w3)" if "r = Inr (True, x)" for x
  proof -
    have "tx_inv I w2" using body [of "w1\<lparr>w_in_tx := True\<rparr>" x w2] r that 1 by (simp add: db_inv_def)
    with m show ?thesis by (auto simp: tx_inv_def dest: next_entry_frame)
  qed
  from 1 2 3 4 n r m show "db_inv I (snd (transaction body w))"
    by (auto simp: transaction_def db_inv_def split: bool.splits sum.splits prod.splits)
qed

lemma keeps_transaction_tx:
  assumes "keeps (tx_inv I) body" and "keeps (sched_inv I) body"
  shows "keeps (db_inv I) (transaction body)"
proof (rule keeps_transaction_commit [OF _ assms(2)])
  fix w x w' assume "I (w_db w)" "w_in_tx w" and run: "body w = (Inr (True, x), w')"
  then have "tx_inv I w" by (simp add: tx_inv_def)
  from keepsD [OF assms(1) this run] show "tx_inv I w'" .
qed

text \<open>A savepoint inside a transaction: an error leaves the state the savepoint was set in.\<close>

lemma tx_inv_entry: "tx_inv I w \<Longrightarrow> next_entry w = (b, w') \<Longrightarrow> tx_inv I w'"
  by (auto simp: tx_inv_def dest: next_entry_frame)

lemma leads_savepoint_tx:
  assumes body: "leads (tx_inv I) (tx_inv I') body"
    and h: "\<And>e. leads (tx_inv I) Q (h e)" and f: "\<And>x. leads (tx_inv I') Q (f x)"
    and weak: "\<And>w. tx_inv I w \<Longrightarrow> Q w" "\<And>w. tx_inv I' w \<Longrightarrow> Q w"
  shows "leads (tx_inv I) Q (savepoint body h f)"
proof (rule leadsI)
  fix w assume w: "tx_inv I w"
  obtain b w1 where n: "next_entry w = (b, w1)" by (cases "next_entry w")
  with w have 1: "tx_inv I w1" by (rule tx_inv_entry)
  obtain r w2 where r: "body w1 = (r, w2)" by (cases "body w1")
  have 2: "tx_inv I' w2" by (rule leadsD [OF body 1 r])
  obtain c w3 where m: "next_entry w2 = (c, w3)" by (cases "next_entry w2")
  with 2 have 3: "tx_inv I' w3" by (rule tx_inv_entry)
  have "tx_inv I (w2\<lparr>w_db := w_db w1\<rparr>)" using 1 2 by (simp add: tx_inv_def)
  with h have "Q (snd (h e (w2\<lparr>w_db := w_db w1\<rparr>)))" for e by (simp add: leads_def)
  moreover have "Q (snd (f x w3))" for x using f 3 by (simp add: leads_def)
  moreover have "Q w1" "Q w3" using weak 1 3 by blast+
  ultimately show "Q (snd (savepoint body h f w))"
    by (cases b; cases r; cases c) (simp_all add: savepoint_def n r m)
qed

text \<open>A transaction that reports an error has changed nothing.\<close>

lemma transaction_error_unchanged:
  assumes "transaction body w = (Inl e, w')"
  shows "\<exists>b w1. next_entry w = (b, w1) \<and> w_db w' = w_db w1"
  using assms by (auto simp: transaction_def split: prod.splits bool.splits sum.splits)

text \<open>Without interference or faults a statement and a transaction simply run.\<close>

lemma next_entry_calm [simp]: "w_sched w = [] \<Longrightarrow> next_entry w = (False, w)"
  by (simp add: next_entry_def)

lemma query_calm:
  "w_sched w = [] \<Longrightarrow>
   query f w = (case f w of Inl e \<Rightarrow> (Inl e, w) | Inr (x, d) \<Rightarrow> (Inr x, w\<lparr>w_db := d\<rparr>))"
  by (simp add: query_def)

lemma transaction_Inr:
  "transaction body w = (Inr x, w') \<longleftrightarrow>
     (\<exists>w1. next_entry w = (False, w1) \<and>
        (\<exists>w2. body (w1\<lparr>w_in_tx := True\<rparr>) = (Inr (False, x), w2) \<and> w' = w2\<lparr>w_db := w_db w1, w_in_tx := w_in_tx w1\<rparr> \<or>
              body (w1\<lparr>w_in_tx := True\<rparr>) = (Inr (True, x), w2) \<and>
              (\<exists>w3. next_entry w2 = (False, w3) \<and> w' = w3\<lparr>w_in_tx := w_in_tx w1\<rparr>)))"
  by (auto simp: transaction_def split: prod.splits bool.splits sum.splits)

end
