(* ===== verification/Session_Store.thy ===== *)
theory Session_Store
  imports Store
begin

text \<open>
  The SQL statements on \<open>coaching_sessions\<close> and \<open>payment_events\<close>
  (internal/store/db/coaching.sql.go).  A conditional UPDATE is its WHERE clause (a
  \<open>_guard\<close>), its SET clause (a \<open>_set\<close>), and how many rows the caller wants back:
  \<open>:one\<close> statements answer \<open>ErrNoRows\<close> when no row matched, \<open>:execrows\<close> ones count.
  A comparison with NULL is not true.
\<close>

section \<open>Running a statement\<close>

definition select :: "(db \<Rightarrow> 'a) \<Rightarrow> 'a request" where
  "select f = query (\<lambda>w. Inr (f (w_db w), w_db w))"

definition select_one :: "(db \<Rightarrow> 'a option) \<Rightarrow> 'a request" where
  "select_one f =
     query (\<lambda>w. case f (w_db w) of None \<Rightarrow> Inl ErrNoRows | Some x \<Rightarrow> Inr (x, w_db w))"

text \<open>The table state an UPDATE or INSERT leaves, or the constraint it breaks.\<close>

definition write_sessions :: "db \<Rightarrow> session list \<Rightarrow> go_error + db" where
  "write_sessions d ss =
     (case sessions_violation d ss of Some v \<Rightarrow> Inl (ErrSql v) | None \<Rightarrow> Inr (d\<lparr>d_sessions := ss\<rparr>))"

definition update_sessions ::
  "(instant \<Rightarrow> session \<Rightarrow> bool) \<Rightarrow> (instant \<Rightarrow> session \<Rightarrow> session) \<Rightarrow> session list request" where
  "update_sessions p f =
     query (\<lambda>w. let now = w_dbnow w; ss = d_sessions (w_db w)
                in case write_sessions (w_db w) (update_where (p now) (f now) ss) of
                     Inl e \<Rightarrow> Inl e
                   | Inr d \<Rightarrow> Inr (map (f now) (filter (p now) ss), d))"

definition update_one ::
  "(instant \<Rightarrow> session \<Rightarrow> bool) \<Rightarrow> (instant \<Rightarrow> session \<Rightarrow> session) \<Rightarrow> session request" where
  "update_one p f =
     bindE (update_sessions p f) (\<lambda>rows. case rows of [] \<Rightarrow> throw ErrNoRows | r # _ \<Rightarrow> ret r)"

definition update_count ::
  "(instant \<Rightarrow> session \<Rightarrow> bool) \<Rightarrow> (instant \<Rightarrow> session \<Rightarrow> session) \<Rightarrow> nat request" where
  "update_count p f = bindE (update_sessions p f) (\<lambda>rows. ret (length rows))"

definition insert_session :: "(uuid \<Rightarrow> instant \<Rightarrow> session) \<Rightarrow> session request" where
  "insert_session mk =
     bindE fresh_id (\<lambda>i.
     query (\<lambda>w. let s = mk i (w_dbnow w)
                in case write_sessions (w_db w) (d_sessions (w_db w) @ [s]) of
                     Inl e \<Rightarrow> Inl e | Inr d \<Rightarrow> Inr (s, d)))"

definition by_id :: "uuid \<Rightarrow> (instant \<Rightarrow> session \<Rightarrow> bool) \<Rightarrow> instant \<Rightarrow> session \<Rightarrow> bool" where
  "by_id i p now s \<longleftrightarrow> s_id s = i \<and> p now s"

section \<open>Booking and answering\<close>

definition new_session ::
  "uuid \<Rightarrow> uuid \<Rightarrow> instant \<Rightarrow> int \<Rightarrow> string \<Rightarrow> session_status \<Rightarrow> uuid \<Rightarrow> instant \<Rightarrow> session" where
  "new_session user_id coach_id scheduled duration topic status i now =
     \<lparr>s_id = i, s_user_id = user_id, s_coach_id = coach_id, s_scheduled_time = scheduled,
      s_duration_minutes = duration, s_status = status, s_topic = topic, s_coach_notes = [],
      s_created_at = now, s_updated_at = now, s_confirmation_token = None, s_respond_by = None,
      s_confirmed_at = None, s_calendar_sequence = 0, s_payment_status = PayNotRequired,
      s_amount_cents = 0, s_currency = ''usd'', s_payment_ref = None, s_hold_expires_at = None,
      s_meeting_url = []\<rparr>"

definition CreateCoachingSession ::
  "uuid \<Rightarrow> uuid \<Rightarrow> instant \<Rightarrow> int \<Rightarrow> string \<Rightarrow> string option \<Rightarrow> instant option \<Rightarrow> session request" where
  "CreateCoachingSession user_id coach_id scheduled duration topic token respond_by =
     insert_session (\<lambda>i now.
       (new_session user_id coach_id scheduled duration topic Pending i now)
         \<lparr>s_confirmation_token := token, s_respond_by := respond_by\<rparr>)"

definition CreatePendingPaymentSession ::
  "uuid \<Rightarrow> uuid \<Rightarrow> instant \<Rightarrow> int \<Rightarrow> string \<Rightarrow> int \<Rightarrow> string \<Rightarrow> instant option \<Rightarrow> session request" where
  "CreatePendingPaymentSession user_id coach_id scheduled duration topic amount currency hold =
     insert_session (\<lambda>i now.
       (new_session user_id coach_id scheduled duration topic PendingPayment i now)
         \<lparr>s_payment_status := PayPending, s_amount_cents := amount, s_currency := currency,
          s_hold_expires_at := hold\<rparr>)"

definition answerable :: "instant \<Rightarrow> session \<Rightarrow> bool" where
  "answerable now s \<longleftrightarrow> s_status s = Pending \<and>
     (case s_respond_by s of None \<Rightarrow> True | Some t \<Rightarrow> now \<le> t)"

definition confirm_set :: "instant \<Rightarrow> session \<Rightarrow> session" where
  "confirm_set now s = s\<lparr>s_status := Scheduled, s_confirmed_at := Some now,
     s_confirmation_token := None, s_respond_by := None,
     s_calendar_sequence := s_calendar_sequence s + 1, s_updated_at := now\<rparr>"

definition ConfirmSession :: "uuid \<Rightarrow> session request" where
  "ConfirmSession i = update_one (by_id i answerable) confirm_set"

text \<open>What a request that will not go ahead owes: a held card a release, a captured payment a refund.\<close>

fun owed_back :: "payment_status \<Rightarrow> payment_status" where
  "owed_back PayAuthorized = PayReleasing"
| "owed_back PayPaid = PayRefundDue"
| "owed_back p = p"

definition decline_set :: "instant \<Rightarrow> session \<Rightarrow> session" where
  "decline_set now s = s\<lparr>s_status := Declined, s_payment_status := owed_back (s_payment_status s),
     s_confirmation_token := None, s_respond_by := None,
     s_calendar_sequence := s_calendar_sequence s + 1, s_updated_at := now\<rparr>"

definition DeclineSession :: "uuid \<Rightarrow> session request" where
  "DeclineSession i = update_one (by_id i answerable) decline_set"

definition overdue :: "instant \<Rightarrow> session \<Rightarrow> bool" where
  "overdue now s \<longleftrightarrow> s_status s = Pending \<and>
     (case s_respond_by s of None \<Rightarrow> False | Some t \<Rightarrow> t < now)"

definition expire_set :: "instant \<Rightarrow> session \<Rightarrow> session" where
  "expire_set now s = s\<lparr>s_status := Expired, s_payment_status := owed_back (s_payment_status s),
     s_confirmation_token := None,
     s_calendar_sequence := s_calendar_sequence s + 1, s_updated_at := now\<rparr>"

text \<open>
  The subselect orders by \<open>respond_by\<close> and is limited; with no other transaction holding
  rows, \<open>SKIP LOCKED\<close> skips none.
\<close>

definition overdue_ids :: "nat \<Rightarrow> instant \<Rightarrow> session list \<Rightarrow> uuid list" where
  "overdue_ids limit now ss =
     map s_id (take limit (sort_key (\<lambda>s. case s_respond_by s of None \<Rightarrow> 0 | Some t \<Rightarrow> t)
       (filter (overdue now) ss)))"

definition ExpirePendingSessions :: "nat \<Rightarrow> session list request" where
  "ExpirePendingSessions limit =
     query (\<lambda>w. let now = w_dbnow w; ss = d_sessions (w_db w); ids = overdue_ids limit now ss;
                    p = (\<lambda>s. s_id s \<in> set ids)
                in case write_sessions (w_db w) (update_where p (expire_set now) ss) of
                     Inl e \<Rightarrow> Inl e
                   | Inr d \<Rightarrow> Inr (map (expire_set now) (filter p ss), d))"

section \<open>Status, schedule, notes and link\<close>

definition status_set :: "session_status \<Rightarrow> instant \<Rightarrow> session \<Rightarrow> session" where
  "status_set status now s = s\<lparr>s_status := status,
     s_payment_status := (if status = Cancelled \<and> s_payment_status s = PayAuthorized
                          then PayReleasing else s_payment_status s),
     s_calendar_sequence := s_calendar_sequence s + 1, s_updated_at := now\<rparr>"

definition UpdateSessionStatus :: "uuid \<Rightarrow> session_status \<Rightarrow> session_status \<Rightarrow> session request" where
  "UpdateSessionStatus i status expected =
     update_one (by_id i (\<lambda>_ s. s_status s = expected)) (status_set status)"

record reschedule_params =
  rp_id :: uuid
  rp_scheduled_time :: instant
  rp_status :: session_status
  rp_confirmation_token :: "string option"
  rp_respond_by :: "instant option"
  rp_expected_status :: session_status

definition reschedule_set :: "reschedule_params \<Rightarrow> instant \<Rightarrow> session \<Rightarrow> session" where
  "reschedule_set p now s = s\<lparr>s_scheduled_time := rp_scheduled_time p, s_status := rp_status p,
     s_confirmation_token := rp_confirmation_token p, s_respond_by := rp_respond_by p,
     s_confirmed_at := (if rp_status p = Scheduled then s_confirmed_at s else None),
     s_calendar_sequence := s_calendar_sequence s + 1, s_updated_at := now\<rparr>"

definition RescheduleSession :: "reschedule_params \<Rightarrow> session request" where
  "RescheduleSession p =
     update_one (by_id (rp_id p) (\<lambda>_ s. s_status s = rp_expected_status p)) (reschedule_set p)"

definition UpdateSessionNotes :: "uuid \<Rightarrow> string \<Rightarrow> session request" where
  "UpdateSessionNotes i notes =
     update_one (by_id i (\<lambda>_ _. True)) (\<lambda>now s. s\<lparr>s_coach_notes := notes, s_updated_at := now\<rparr>)"

definition meeting_guard :: "string \<Rightarrow> instant \<Rightarrow> session \<Rightarrow> bool" where
  "meeting_guard url now s \<longleftrightarrow> s_status s \<in> {Pending, Scheduled} \<and> s_meeting_url s \<noteq> url"

definition meeting_set :: "string \<Rightarrow> instant \<Rightarrow> session \<Rightarrow> session" where
  "meeting_set url now s = s\<lparr>s_meeting_url := url,
     s_calendar_sequence := s_calendar_sequence s + 1, s_updated_at := now\<rparr>"

definition UpdateSessionMeetingURL :: "uuid \<Rightarrow> string \<Rightarrow> session request" where
  "UpdateSessionMeetingURL i url = update_one (by_id i (meeting_guard url)) (meeting_set url)"

section \<open>Payment holds\<close>

definition awaiting_payment :: "instant \<Rightarrow> session \<Rightarrow> bool" where
  "awaiting_payment now s \<longleftrightarrow> s_status s = PendingPayment"

definition attach_set :: "string \<Rightarrow> instant \<Rightarrow> session \<Rightarrow> session" where
  "attach_set ref now s = s\<lparr>s_payment_ref := Some ref,
     s_payment_status := (if s_status s = PendingPayment then s_payment_status s else PayExpiring),
     s_updated_at := now\<rparr>"

definition AttachCheckout :: "uuid \<Rightarrow> string \<Rightarrow> session request" where
  "AttachCheckout i ref = update_one (by_id i (\<lambda>_ _. True)) (attach_set ref)"

definition authorize_set :: "string option \<Rightarrow> instant option \<Rightarrow> instant \<Rightarrow> session \<Rightarrow> session" where
  "authorize_set token respond_by now s = s\<lparr>s_status := Pending,
     s_payment_status := PayAuthorized, s_hold_expires_at := None,
     s_confirmation_token := token, s_respond_by := respond_by, s_updated_at := now\<rparr>"

definition AuthorizeSession :: "uuid \<Rightarrow> string option \<Rightarrow> instant option \<Rightarrow> session request" where
  "AuthorizeSession i token respond_by =
     update_one (by_id i awaiting_payment) (authorize_set token respond_by)"

definition reinstate_guard :: "instant \<Rightarrow> session \<Rightarrow> bool" where
  "reinstate_guard now s \<longleftrightarrow> s_status s = Expired \<and> s_hold_expires_at s \<noteq> None \<and>
     s_payment_status s \<in> {PayPending, PayExpiring, PayFailed}"

definition ReinstateAuthorizedSession :: "uuid \<Rightarrow> string option \<Rightarrow> instant option \<Rightarrow> session request" where
  "ReinstateAuthorizedSession i token respond_by =
     update_one (by_id i reinstate_guard) (authorize_set token respond_by)"

definition cancel_hold_set :: "instant \<Rightarrow> session \<Rightarrow> session" where
  "cancel_hold_set now s = s\<lparr>s_status := Cancelled, s_payment_status := PayFailed, s_updated_at := now\<rparr>"

definition CancelPendingPaymentSession :: "uuid \<Rightarrow> nat request" where
  "CancelPendingPaymentSession i = update_count (by_id i awaiting_payment) cancel_hold_set"

definition close_checkout :: "session \<Rightarrow> payment_status" where
  "close_checkout s = (if s_payment_ref s = None then PayFailed else PayExpiring)"

definition release_hold_set :: "instant \<Rightarrow> session \<Rightarrow> session" where
  "release_hold_set now s = s\<lparr>s_status := Cancelled, s_payment_status := close_checkout s,
     s_hold_expires_at := None, s_updated_at := now\<rparr>"

definition ReleasePendingPaymentSession :: "uuid \<Rightarrow> session request" where
  "ReleasePendingPaymentSession i = update_one (by_id i awaiting_payment) release_hold_set"

definition late_set :: "instant \<Rightarrow> session \<Rightarrow> session" where
  "late_set now s = s\<lparr>s_status := Expired, s_payment_status := PayReleasing, s_updated_at := now\<rparr>"

definition ExpireLateAuthorizedHold :: "uuid \<Rightarrow> nat request" where
  "ExpireLateAuthorizedHold i = update_count (by_id i awaiting_payment) late_set"

definition lapsed :: "instant \<Rightarrow> instant \<Rightarrow> session \<Rightarrow> bool" where
  "lapsed limit now s \<longleftrightarrow> s_status s = PendingPayment \<and>
     (case s_hold_expires_at s of None \<Rightarrow> False | Some t \<Rightarrow> t < limit)"

definition lapse_set :: "instant \<Rightarrow> session \<Rightarrow> session" where
  "lapse_set now s = s\<lparr>s_status := Expired, s_payment_status := close_checkout s, s_updated_at := now\<rparr>"

definition ExpirePaymentHolds :: "instant \<Rightarrow> nat request" where
  "ExpirePaymentHolds limit = update_count (lapsed limit) lapse_set"

section \<open>Provider clean-up\<close>

definition pay_set :: "payment_status \<Rightarrow> instant \<Rightarrow> session \<Rightarrow> session" where
  "pay_set p now s = s\<lparr>s_payment_status := p, s_updated_at := now\<rparr>"

definition pay_guard :: "payment_status \<Rightarrow> instant \<Rightarrow> session \<Rightarrow> bool" where
  "pay_guard p now s \<longleftrightarrow> s_payment_status s = p"

definition release_guard :: "instant \<Rightarrow> session \<Rightarrow> bool" where
  "release_guard now s \<longleftrightarrow> s_status s \<noteq> Pending \<and> s_status s \<noteq> Scheduled \<and>
     s_payment_status s \<in> {PayPending, PayExpiring, PayFailed, PayAuthorized}"

definition MarkAuthorizationToRelease :: "uuid \<Rightarrow> nat request" where
  "MarkAuthorizationToRelease i = update_count (by_id i release_guard) (pay_set PayReleasing)"

definition MarkAuthorizationReleased :: "uuid \<Rightarrow> nat request" where
  "MarkAuthorizationReleased i = update_count (by_id i (pay_guard PayReleasing)) (pay_set PayReleased)"

definition MarkCheckoutExpired :: "uuid \<Rightarrow> nat request" where
  "MarkCheckoutExpired i = update_count (by_id i (pay_guard PayExpiring)) (pay_set PayFailed)"

definition MarkSessionCaptured :: "uuid \<Rightarrow> nat request" where
  "MarkSessionCaptured i = update_count (by_id i (pay_guard PayAuthorized)) (pay_set PayPaid)"

definition MarkSessionRefunded :: "uuid \<Rightarrow> nat request" where
  "MarkSessionRefunded i = update_count (by_id i (pay_guard PayRefundDue)) (pay_set PayRefunded)"

definition owing :: "payment_status \<Rightarrow> db \<Rightarrow> session list" where
  "owing p d = sort_key s_updated_at
     (filter (\<lambda>s. s_payment_status s = p \<and> s_payment_ref s \<noteq> None) (d_sessions d))"

definition ListCheckoutsToExpire :: "session list request" where
  "ListCheckoutsToExpire = select (owing PayExpiring)"

definition ListAuthorizationsToRelease :: "session list request" where
  "ListAuthorizationsToRelease = select (owing PayReleasing)"

definition ListRefundsDue :: "session list request" where
  "ListRefundsDue = select (owing PayRefundDue)"

section \<open>Lookups\<close>

definition GetCoachingSession :: "uuid \<Rightarrow> session request" where
  "GetCoachingSession i = select_one (\<lambda>d. find (\<lambda>s. s_id s = i) (d_sessions d))"

definition GetSessionByConfirmationToken :: "uuid \<Rightarrow> string \<Rightarrow> session request" where
  "GetSessionByConfirmationToken i token =
     select_one (\<lambda>d. find (\<lambda>s. s_id s = i \<and> s_confirmation_token s = Some token) (d_sessions d))"

definition GetSessionByPaymentRefForUpdate :: "string \<Rightarrow> session request" where
  "GetSessionByPaymentRefForUpdate ref =
     select_one (\<lambda>d. find (\<lambda>s. s_payment_ref s = Some ref) (d_sessions d))"

record booked =
  b_id :: uuid
  b_scheduled_time :: instant
  b_duration_minutes :: int

definition booked_of :: "session \<Rightarrow> booked" where
  "booked_of s = \<lparr>b_id = s_id s, b_scheduled_time = s_scheduled_time s,
     b_duration_minutes = s_duration_minutes s\<rparr>"

definition booked_slots :: "uuid \<Rightarrow> instant \<Rightarrow> instant \<Rightarrow> db \<Rightarrow> booked list" where
  "booked_slots coach_id from until d =
     map booked_of (sort_key s_scheduled_time
       (filter (\<lambda>s. s_coach_id s = coach_id \<and> holds_slot s \<and>
                    from \<le> s_scheduled_time s \<and> s_scheduled_time s < until) (d_sessions d)))"

definition ListBookedSlots :: "uuid \<Rightarrow> instant \<Rightarrow> instant \<Rightarrow> booked list request" where
  "ListBookedSlots coach_id from until = select (booked_slots coach_id from until)"

definition HasCompletedSession :: "uuid \<Rightarrow> uuid \<Rightarrow> uuid option \<Rightarrow> bool request" where
  "HasCompletedSession coach_id user_id session_id =
     select (\<lambda>d. list_ex (\<lambda>s. s_coach_id s = coach_id \<and> s_user_id s = user_id \<and>
       s_status s = Completed \<and> (session_id = None \<or> session_id = Some (s_id s))) (d_sessions d))"

record parties =
  pt_session :: session
  pt_user_email :: string
  pt_user_name :: string
  pt_coach_email :: string
  pt_coach_name :: string
  pt_coach_timezone :: string

definition parties_of :: "uuid \<Rightarrow> db \<Rightarrow> parties option" where
  "parties_of i d =
     (case find (\<lambda>s. s_id s = i) (d_sessions d) of None \<Rightarrow> None
      | Some s \<Rightarrow>
          (case (find (\<lambda>u. u_id u = s_user_id s) (d_users d),
                 find (\<lambda>u. u_id u = s_coach_id s) (d_users d),
                 find (\<lambda>c. c_user_id c = s_coach_id s) (d_coaches d)) of
             (Some u, Some cu, Some c) \<Rightarrow>
               Some \<lparr>pt_session = s, pt_user_email = u_email u, pt_user_name = u_display_name u,
                     pt_coach_email = u_email cu, pt_coach_name = u_display_name cu,
                     pt_coach_timezone = c_timezone c\<rparr>
           | _ \<Rightarrow> None))"

definition GetSessionParties :: "uuid \<Rightarrow> parties request" where
  "GetSessionParties i = select_one (parties_of i)"

text \<open>\<open>ON CONFLICT (provider_event_id) DO NOTHING\<close>: the number of rows inserted.\<close>

definition RecordPaymentEvent :: "string \<Rightarrow> uuid option \<Rightarrow> string \<Rightarrow> nat request" where
  "RecordPaymentEvent event_id session_id kind =
     query (\<lambda>w. let d = w_db w in
       if event_id \<in> pe_id ` set (d_events d) then Inr (0, d)
       else Inr (1, d\<lparr>d_events := d_events d @
              [\<lparr>pe_id = event_id, pe_session_id = session_id, pe_type = kind,
                pe_received_at = w_dbnow w\<rparr>]\<rparr>))"

lemmas session_query_defs =
  CreateCoachingSession_def CreatePendingPaymentSession_def ConfirmSession_def DeclineSession_def
  UpdateSessionStatus_def RescheduleSession_def UpdateSessionNotes_def
  UpdateSessionMeetingURL_def AttachCheckout_def AuthorizeSession_def
  ReinstateAuthorizedSession_def CancelPendingPaymentSession_def ReleasePendingPaymentSession_def
  ExpireLateAuthorizedHold_def ExpirePaymentHolds_def MarkAuthorizationToRelease_def
  MarkAuthorizationReleased_def MarkCheckoutExpired_def MarkSessionCaptured_def
  MarkSessionRefunded_def

lemmas session_select_defs =
  GetCoachingSession_def GetSessionByConfirmationToken_def GetSessionByPaymentRefForUpdate_def
  ListBookedSlots_def HasCompletedSession_def GetSessionParties_def ListCheckoutsToExpire_def
  ListAuthorizationsToRelease_def ListRefundsDue_def

lemmas set_clause_defs =
  confirm_set_def decline_set_def expire_set_def status_set_def reschedule_set_def
  meeting_set_def attach_set_def authorize_set_def cancel_hold_set_def release_hold_set_def
  late_set_def lapse_set_def pay_set_def

section \<open>How the statement forms keep a property\<close>

context world_frame
begin

lemma keeps_select: "keeps W (select f)"
  unfolding select_def by (rule keeps_query) simp

lemma keeps_select_one: "keeps W (select_one f)"
  unfolding select_one_def by (rule keeps_query) (auto split: option.splits)

lemma keeps_update_sessions:
  assumes "\<And>d now d'. I d \<Longrightarrow> write_sessions d (update_where (p now) (f now) (d_sessions d)) = Inr d' \<Longrightarrow> I d'"
  shows "keeps W (update_sessions p f)"
  unfolding update_sessions_def
  by (rule keeps_query) (auto simp: Let_def intro: assms split: sum.splits)

lemma keeps_update_one:
  assumes "\<And>d now d'. I d \<Longrightarrow> write_sessions d (update_where (p now) (f now) (d_sessions d)) = Inr d' \<Longrightarrow> I d'"
  shows "keeps W (update_one p f)"
  unfolding update_one_def
  by (rule keeps_bindE [OF keeps_update_sessions])
    (auto intro: assms keeps_throw keeps_ret split: list.splits)

lemma keeps_update_count:
  assumes "\<And>d now d'. I d \<Longrightarrow> write_sessions d (update_where (p now) (f now) (d_sessions d)) = Inr d' \<Longrightarrow> I d'"
  shows "keeps W (update_count p f)"
  unfolding update_count_def
  by (rule keeps_bindE [OF keeps_update_sessions]) (auto intro: assms keeps_ret)

end

context world_property
begin

lemma keeps_insert_session:
  assumes "\<And>d i now d'. I d \<Longrightarrow> write_sessions d (d_sessions d @ [mk i now]) = Inr d' \<Longrightarrow> I d'"
  shows "keeps W (insert_session mk)"
  unfolding insert_session_def
  by (rule keeps_bindE [OF keeps_fresh_id], rule keeps_query)
    (auto simp: Let_def intro: assms split: sum.splits)

end

lemmas select_keeps =
  dbi.keeps_select txi.keeps_select sci.keeps_select own.keeps_select both.keeps_select
  dbi.keeps_select_one txi.keeps_select_one sci.keeps_select_one own.keeps_select_one
  both.keeps_select_one
declare select_keeps [keeps_intros]

lemmas schedule_keeps = sci.keeps_update_sessions sci.keeps_update_one sci.keeps_update_count
  sci.keeps_insert_session
declare schedule_keeps [keeps_intros]

text \<open>The errors of the statement forms.\<close>

definition sql_error :: "go_error \<Rightarrow> bool" where
  "sql_error e \<longleftrightarrow> e = ErrDriver \<or> e = ErrNoRows \<or> (\<exists>v. e = ErrSql v)"

lemma sql_error_simps [simp]: "sql_error ErrDriver" "sql_error ErrNoRows" "sql_error (ErrSql v)"
  by (simp_all add: sql_error_def)

lemma raises_query: "(\<And>w e. f w = Inl e \<Longrightarrow> sql_error e) \<Longrightarrow> raises sql_error (query f)"
  by (auto simp: raises_def query_def split: prod.splits bool.splits sum.splits)

lemma raises_select:
  "raises sql_error (select f)" "raises sql_error (select_one g)"
  unfolding select_def select_one_def by (rule raises_query; auto split: option.splits)+

lemma write_sessions_Inl: "write_sessions d ss = Inl e \<Longrightarrow> sql_error e"
  by (auto simp: write_sessions_def split: option.splits)

lemma raises_update:
  "raises sql_error (update_sessions p f)" "raises sql_error (update_one p f)"
  "raises sql_error (update_count p f)"
proof -
  show u: "raises sql_error (update_sessions p f)"
    unfolding update_sessions_def
    by (rule raises_query) (auto simp: Let_def dest: write_sessions_Inl split: sum.splits)
  show "raises sql_error (update_one p f)"
    unfolding update_one_def
    by (rule raises_bindE [OF u]) (auto intro: raises_intros split: list.splits)
  show "raises sql_error (update_count p f)"
    unfolding update_count_def by (intro raises_bindE [OF u] raises_intros)
qed

lemma raises_weaken: "raises E m \<Longrightarrow> (\<And>e. E e \<Longrightarrow> E' e) \<Longrightarrow> raises E' m"
  by (auto simp: raises_def)

lemma sql_error_plain: "sql_error e \<Longrightarrow> e \<noteq> OutOfFuel \<and> e \<noteq> Panic \<and> e \<noteq> ErrPayment"
  by (auto simp: sql_error_def)

text \<open>Reads without interference.\<close>

lemma select_calm: "w_sched w = [] \<Longrightarrow> select f w = (Inr (f (w_db w)), w)"
  by (simp add: select_def query_calm)

lemma select_one_calm:
  "w_sched w = [] \<Longrightarrow> select_one f w =
     (case f (w_db w) of None \<Rightarrow> (Inl ErrNoRows, w) | Some x \<Rightarrow> (Inr x, w))"
  by (simp add: select_one_def query_calm split: option.splits)

text \<open>What a lookup answers, and what an UPDATE that matched changed.\<close>

lemma query_Inr:
  "query f w = (Inr x, w') \<longleftrightarrow>
     (\<exists>w1 d. next_entry w = (False, w1) \<and> f w1 = Inr (x, d) \<and> w' = w1\<lparr>w_db := d\<rparr>)"
  by (auto simp: query_def split: prod.splits bool.splits sum.splits)

lemma select_one_Inr:
  "select_one f w = (Inr x, w') \<longleftrightarrow>
     (\<exists>w1. next_entry w = (False, w1) \<and> f (w_db w1) = Some x \<and> w' = w1)"
  by (auto simp: select_one_def query_Inr split: option.splits)

lemma write_sessions_Inr:
  "write_sessions d ss = Inr d' \<longleftrightarrow> sessions_violation d ss = None \<and> d' = d\<lparr>d_sessions := ss\<rparr>"
  by (auto simp: write_sessions_def split: option.splits)

lemma case_write_Inr:
  "(case r of Inl e \<Rightarrow> Inl e | Inr d \<Rightarrow> Inr (x, d)) = Inr (y, d') \<longleftrightarrow> r = Inr d' \<and> x = y"
  by (cases r) auto

lemma update_sessions_Inr:
  "update_sessions p f w = (Inr rows, w') \<longleftrightarrow>
     (\<exists>w1 d. next_entry w = (False, w1) \<and>
        write_sessions (w_db w1) (update_where (p (w_dbnow w1)) (f (w_dbnow w1)) (d_sessions (w_db w1))) = Inr d \<and>
        rows = map (f (w_dbnow w1)) (filter (p (w_dbnow w1)) (d_sessions (w_db w1))) \<and>
        w' = w1\<lparr>w_db := d\<rparr>)"
  by (auto simp: update_sessions_def query_Inr Let_def case_write_Inr)

lemma update_one_Inr:
  "update_one p f w = (Inr r, w') \<longleftrightarrow> (\<exists>rs. update_sessions p f w = (Inr (r # rs), w'))"
proof -
  have "(case rows of [] \<Rightarrow> throw ErrNoRows | r # _ \<Rightarrow> ret r) v = (Inr r, w') \<longleftrightarrow>
        (\<exists>rs. rows = r # rs) \<and> w' = v" for rows :: "session list" and v
    by (cases rows) (auto simp: ret_Inr)
  then show ?thesis by (auto simp: update_one_def bindE_Inr)
qed

lemma update_count_Inr:
  "update_count p f w = (Inr n, w') \<longleftrightarrow> (\<exists>rows. update_sessions p f w = (Inr rows, w') \<and> n = length rows)"
  by (auto simp: update_count_def bindE_Inr ret_Inr)

lemma insert_session_Inr:
  "insert_session mk w = (Inr s, w') \<longleftrightarrow>
     (\<exists>w1 d. next_entry (w\<lparr>w_next_id := Suc (w_next_id w)\<rparr>) = (False, w1) \<and> s = mk (w_next_id w) (w_dbnow w1) \<and>
        write_sessions (w_db w1) (d_sessions (w_db w1) @ [s]) = Inr d \<and> w' = w1\<lparr>w_db := d\<rparr>)"
  by (auto simp: insert_session_def bindE_Inr fresh_id_def query_Inr Let_def case_write_Inr)

text \<open>A statement of a transaction that takes one property of the database to another.\<close>

lemma leads_update_tx:
  assumes "\<And>d. I d \<Longrightarrow> I' d"
    and "\<And>d now d'. I d \<Longrightarrow> write_sessions d (update_where (p now) (f now) (d_sessions d)) = Inr d' \<Longrightarrow> I' d'"
  shows "leads (tx_inv I) (tx_inv I') (update_sessions p f)" (is ?all)
    and "leads (tx_inv I) (tx_inv I') (update_one p f)"
    and "leads (tx_inv I) (tx_inv I') (update_count p f)"
proof -
  show all: ?all
  proof (rule leadsI)
    fix w assume w: "tx_inv I w"
    obtain b w1 where n: "next_entry w = (b, w1)" by (cases "next_entry w")
    with w have 1: "tx_inv I w1" by (rule tx_inv_entry)
    then show "tx_inv I' (snd (update_sessions p f w))"
      using n assms unfolding update_sessions_def query_def tx_inv_def
      by (cases b) (auto simp: Let_def split: sum.splits)
  qed
  show "leads (tx_inv I) (tx_inv I') (update_one p f)"
    unfolding update_one_def
    by (rule leads_bindE [OF all]) (auto intro: leads_throw leads_ret split: list.splits)
  show "leads (tx_inv I) (tx_inv I') (update_count p f)"
    unfolding update_count_def by (rule leads_bindE [OF all]) (auto intro: leads_ret)
qed

lemmas statement_results = query_Inr select_one_Inr update_sessions_Inr update_one_Inr
  update_count_Inr insert_session_Inr write_sessions_Inr

end
