(* ===== verification/Go_Text.thy ===== *)
theory Go_Text
  imports Go_Time
begin

text \<open>
  The functions of Go's \<open>strings\<close> and \<open>unicode/utf8\<close> packages the services use, on
  strings as UTF-8 bytes.
\<close>

text \<open>The encodings of Unicode White_Space, what \<open>unicode.IsSpace\<close> accepts.\<close>

definition byte :: "nat \<Rightarrow> char" where
  "byte n = char_of n"

definition white_space :: "string list" where
  "white_space =
     map (\<lambda>n. [byte n]) [0x09, 0x0A, 0x0B, 0x0C, 0x0D, 0x20] @
     [[byte 0xC2, byte 0x85], [byte 0xC2, byte 0xA0], [byte 0xE1, byte 0x9A, byte 0x80]] @
     map (\<lambda>n. [byte 0xE2, byte 0x80, byte n])
       [0x80, 0x81, 0x82, 0x83, 0x84, 0x85, 0x86, 0x87, 0x88, 0x89, 0x8A, 0xA8, 0xA9, 0xAF] @
     [[byte 0xE2, byte 0x81, byte 0x9F], [byte 0xE3, byte 0x80, byte 0x80]]"

fun strip_prefix :: "string \<Rightarrow> string \<Rightarrow> string option" where
  "strip_prefix [] v = Some v"
| "strip_prefix (c # p) [] = None"
| "strip_prefix (c # p) (d # v) = (if c = d then strip_prefix p v else None)"

text \<open>Drops the first of the given byte sequences that \<open>v\<close> starts with.\<close>

fun strip_one :: "string list \<Rightarrow> string \<Rightarrow> string option" where
  "strip_one [] v = None"
| "strip_one (p # ps) v = (case strip_prefix p v of Some r \<Rightarrow> Some r | None \<Rightarrow> strip_one ps v)"

text \<open>Each round removes at least one byte, so the length of the string is fuel enough.\<close>

fun strip_all :: "nat \<Rightarrow> string list \<Rightarrow> string \<Rightarrow> string" where
  "strip_all 0 ps v = v"
| "strip_all (Suc n) ps v = (case strip_one ps v of None \<Rightarrow> v | Some r \<Rightarrow> strip_all n ps r)"

definition trim_left :: "string \<Rightarrow> string" where
  "trim_left v = strip_all (length v) white_space v"

definition trim_space :: "string \<Rightarrow> string" where
  "trim_space v =
     (let u = trim_left v in rev (strip_all (length u) (map rev white_space) (rev u)))"

text \<open>
  \<open>strings.ToLower\<close>.  Beyond ASCII only the two letters whose lower case is ASCII are
  mapped (the Kelvin sign and capital I with dot); every other non-ASCII letter stays
  non-ASCII, which is all a comparison with an ASCII vocabulary can observe.
\<close>

definition lower_char :: "char \<Rightarrow> char" where
  "lower_char c =
     (let n = of_char c :: nat in if 65 \<le> n \<and> n \<le> 90 then char_of (n + 32) else c)"

fun to_lower :: "string \<Rightarrow> string" where
  "to_lower [] = []"
| "to_lower (c # v) =
     (case strip_prefix [byte 0xE2, byte 0x84, byte 0xAA] (c # v) of
        Some _ \<Rightarrow> CHR ''k'' # to_lower (drop 2 v)
      | None \<Rightarrow>
          (case strip_prefix [byte 0xC4, byte 0xB0] (c # v) of
             Some _ \<Rightarrow> CHR ''i'' # to_lower (drop 1 v)
           | None \<Rightarrow> lower_char c # to_lower v))"

text \<open>\<open>utf8.RuneCountInString\<close> of valid UTF-8: the bytes that do not continue a rune.\<close>

definition rune_count :: "string \<Rightarrow> nat" where
  "rune_count v = length (filter (\<lambda>c. (of_char c :: nat) div 64 \<noteq> 2) v)"

definition trim_prefix :: "string \<Rightarrow> string \<Rightarrow> string" where
  "trim_prefix v p = (case strip_prefix p v of None \<Rightarrow> v | Some r \<Rightarrow> r)"

definition digit_value :: "char \<Rightarrow> int option" where
  "digit_value c =
     (let n = of_char c :: nat in if 48 \<le> n \<and> n \<le> 57 then Some (int (n - 48)) else None)"

fun digits_value :: "int \<Rightarrow> string \<Rightarrow> int option" where
  "digits_value acc [] = Some acc"
| "digits_value acc (c # cs) =
     (case digit_value c of None \<Rightarrow> None | Some k \<Rightarrow> digits_value (acc * 10 + k) cs)"

definition in_int64 :: "int \<Rightarrow> int option" where
  "in_int64 n = (if - (2 ^ 63) \<le> n \<and> n < 2 ^ 63 then Some n else None)"

text \<open>\<open>strconv.Atoi\<close>: an optional sign, at least one digit, and a value an int can hold.\<close>

definition atoi :: "string \<Rightarrow> int option" where
  "atoi v =
     (let (neg, ds) = (case v of [] \<Rightarrow> (False, [])
           | c # cs \<Rightarrow> if c = CHR ''-'' then (True, cs) else if c = CHR ''+'' then (False, cs) else (False, v))
      in if ds = [] then None
         else case digits_value 0 ds of None \<Rightarrow> None
              | Some n \<Rightarrow> in_int64 (if neg then - n else n))"

lemma strip_prefix_Some: "strip_prefix p v = Some r \<longleftrightarrow> v = p @ r"
  by (induction p v rule: strip_prefix.induct) auto

lemma strip_one_shorter:
  "strip_one ps v = Some r \<Longrightarrow> \<forall>p \<in> set ps. p \<noteq> [] \<Longrightarrow> length r < length v"
  by (induction ps) (auto simp: strip_prefix_Some split: option.splits)

text \<open>The fuel of \<open>strip_all\<close> never runs out: the result starts with none of the prefixes.\<close>

lemma strip_all_done:
  "length v \<le> n \<Longrightarrow> \<forall>p \<in> set ps. p \<noteq> [] \<Longrightarrow> strip_one ps (strip_all n ps v) = None"
proof (induction n arbitrary: v)
  case 0
  have "strip_one ps [] = None"
    using strip_one_shorter [OF _ "0.prems"(2), of "[]"] by (cases "strip_one ps []") auto
  with "0.prems" show ?case by simp
next
  case (Suc n)
  show ?case
  proof (cases "strip_one ps v")
    case (Some r)
    with Suc.prems have "length r \<le> n" using strip_one_shorter [OF Some] by simp
    with Suc Some show ?thesis by simp
  qed simp
qed

text \<open>What a text column of PostgreSQL takes: the well-formed byte sequences of UTF-8, without the zero byte.\<close>

definition in_range :: "nat \<Rightarrow> nat \<Rightarrow> char \<Rightarrow> bool" where
  "in_range lo hi c \<longleftrightarrow> lo \<le> (of_char c :: nat) \<and> of_char c \<le> hi"

definition continuation :: "char \<Rightarrow> bool" where
  "continuation c \<longleftrightarrow> in_range 0x80 0xBF c"

fun storable :: "string \<Rightarrow> bool" where
  "storable [] \<longleftrightarrow> True"
| "storable (a # v) \<longleftrightarrow>
     (if in_range 0x01 0x7F a then storable v
      else if in_range 0xC2 0xDF a then (case v of b # r \<Rightarrow> continuation b \<and> storable r | _ \<Rightarrow> False)
      else if in_range 0xE0 0xEF a
        then (case v of b # c # r \<Rightarrow>
                (if a = byte 0xE0 then in_range 0xA0 0xBF b else if a = byte 0xED then in_range 0x80 0x9F b else continuation b) \<and>
                continuation c \<and> storable r | _ \<Rightarrow> False)
      else if in_range 0xF0 0xF4 a
        then (case v of b # c # d # r \<Rightarrow>
                (if a = byte 0xF0 then in_range 0x90 0xBF b else if a = byte 0xF4 then in_range 0x80 0x8F b else continuation b) \<and>
                continuation c \<and> continuation d \<and> storable r | _ \<Rightarrow> False)
      else False)"

end
