(* ===== verification/Directory.thy ===== *)
theory Directory
  imports Session_Store Go_Text "HOL-Library.List_Lexorder" "HOL-Library.Char_ord" Complex_Main
begin

text \<open>
  The coach directory and availability (internal/coaching/service.go): the profile and
  approval queries with their review aggregates, the phase vocabulary, the admin approval
  gate, and the weekly windows a coach publishes.
\<close>

section \<open>Rows and statements\<close>

record coach_row =
  k_coach :: coach
  k_display_name :: string
  k_email :: string
  k_avg_rating :: rat
  k_review_count :: int
  k_recommend_count :: int

definition reviews_of :: "uuid \<Rightarrow> db \<Rightarrow> review list" where
  "reviews_of i d = filter (\<lambda>r. r_coach_id r = i) (d_reviews d)"

text \<open>\<open>COALESCE(AVG(rating), 0)\<close>, kept exact where the code reads a float8.\<close>

definition average :: "int list \<Rightarrow> rat" where
  "average xs = (if xs = [] then 0 else of_int (sum_list xs) / of_nat (length xs))"

definition coach_row_of :: "db \<Rightarrow> coach \<Rightarrow> user \<Rightarrow> coach_row" where
  "coach_row_of d c u =
     (let ratings = map r_rating (reviews_of (c_user_id c) d)
      in \<lparr>k_coach = c, k_display_name = u_display_name u, k_email = u_email u,
          k_avg_rating = average ratings, k_review_count = int (length ratings),
          k_recommend_count = int (length (filter (\<lambda>x. 4 \<le> x) ratings))\<rparr>)"

definition coach_join :: "db \<Rightarrow> coach \<Rightarrow> coach_row option" where
  "coach_join d c = map_option (coach_row_of d c) (find (\<lambda>u. u_id u = c_user_id c) (d_users d))"

definition coach_lookup :: "uuid \<Rightarrow> db \<Rightarrow> coach_row option" where
  "coach_lookup i d = Option.bind (find (\<lambda>c. c_user_id c = i) (d_coaches d)) (coach_join d)"

definition GetCoachQuery :: "uuid \<Rightarrow> coach_row request" where
  "GetCoachQuery i = select_one (coach_lookup i)"

definition page :: "nat \<Rightarrow> nat \<Rightarrow> 'a list \<Rightarrow> 'a list" where
  "page limit offset rows = take limit (drop offset rows)"

text \<open>
  \<open>ORDER BY avg DESC, years DESC, display_name\<close>, least significant key first; names
  compare byte by byte (the database's collation may order them differently).
\<close>

definition directory_order :: "coach_row list \<Rightarrow> coach_row list" where
  "directory_order rows =
     sort_key (\<lambda>r. - k_avg_rating r)
       (sort_key (\<lambda>r. - c_years_experience (k_coach r)) (sort_key k_display_name rows))"

definition listed :: "bool option \<Rightarrow> string option \<Rightarrow> coach \<Rightarrow> bool" where
  "listed accepting_only phase c \<longleftrightarrow> c_approval_status c = ''approved'' \<and>
     (accepting_only \<noteq> Some True \<or> c_accepting_clients c) \<and>
     (case phase of None \<Rightarrow> True | Some p \<Rightarrow> p \<in> set (c_phases c))"

definition ListCoachesQuery :: "nat \<Rightarrow> nat \<Rightarrow> bool option \<Rightarrow> string option \<Rightarrow> coach_row list request" where
  "ListCoachesQuery limit offset accepting_only phase =
     select (\<lambda>d. page limit offset (directory_order
       (List.map_filter (coach_join d) (filter (listed accepting_only phase) (d_coaches d)))))"

definition queue_row :: "db \<Rightarrow> coach \<Rightarrow> (coach \<times> string \<times> string) option" where
  "queue_row d c =
     (case find (\<lambda>u. u_id u = c_user_id c) (d_users d) of None \<Rightarrow> None
      | Some u \<Rightarrow> if u_deleted_at u = None then Some (c, u_display_name u, u_email u) else None)"

definition ListCoachesByStatusQuery :: "string \<Rightarrow> nat \<Rightarrow> nat \<Rightarrow> (coach \<times> string \<times> string) list request" where
  "ListCoachesByStatusQuery status limit offset =
     select (\<lambda>d. page limit offset
       (sort_key (\<lambda>(c, n, e). c_created_at c) (sort_key (\<lambda>(c, n, e). n) (sort_key (\<lambda>(c, n, e). c_user_id c)
         (List.map_filter (queue_row d) (filter (\<lambda>c. c_approval_status c = status) (d_coaches d)))))))"

definition approval_set :: "string \<Rightarrow> instant \<Rightarrow> coach \<Rightarrow> coach" where
  "approval_set status now c = c\<lparr>c_approval_status := status, c_updated_at := now\<rparr>"

definition SetCoachApprovalQuery :: "uuid \<Rightarrow> string \<Rightarrow> coach request" where
  "SetCoachApprovalQuery i status =
     query (\<lambda>w. let d = w_db w in
       case find (\<lambda>c. c_user_id c = i) (d_coaches d) of None \<Rightarrow> Inl ErrNoRows
       | Some c \<Rightarrow> Inr (approval_set status (w_dbnow w) c,
           d\<lparr>d_coaches := update_where (\<lambda>c. c_user_id c = i) (approval_set status (w_dbnow w)) (d_coaches d)\<rparr>))"

record profile_input =
  pi_headline :: string
  pi_bio :: string
  pi_specialties :: "string list"
  pi_phases :: "string list"
  pi_hourly_rate_cents :: int
  pi_timezone :: string
  pi_years_experience :: int
  pi_accepting_clients :: bool

definition profile_set :: "profile_input \<Rightarrow> instant \<Rightarrow> coach \<Rightarrow> coach" where
  "profile_set p now c = c\<lparr>c_headline := pi_headline p, c_bio := pi_bio p,
     c_specialties := pi_specialties p, c_phases := pi_phases p,
     c_hourly_rate_cents := pi_hourly_rate_cents p, c_timezone := pi_timezone p,
     c_years_experience := pi_years_experience p, c_accepting_clients := pi_accepting_clients p,
     c_updated_at := now\<rparr>"

text \<open>The columns an inserted profile takes from the table's defaults.\<close>

definition new_coach :: "uuid \<Rightarrow> profile_input \<Rightarrow> instant \<Rightarrow> coach" where
  "new_coach i p now =
     profile_set p now
       \<lparr>c_user_id = i, c_headline = [], c_bio = [], c_specialties = [], c_hourly_rate_cents = 0,
        c_timezone = ''UTC'', c_years_experience = 0, c_accepting_clients = True,
        c_created_at = now, c_updated_at = now, c_phases = [], c_approval_status = ''pending''\<rparr>"

definition UpsertCoachProfile :: "uuid \<Rightarrow> profile_input \<Rightarrow> coach request" where
  "UpsertCoachProfile i p =
     query (\<lambda>w. let d = w_db w; now = w_dbnow w in
       case find (\<lambda>c. c_user_id c = i) (d_coaches d) of
         Some c \<Rightarrow> Inr (profile_set p now c,
           d\<lparr>d_coaches := update_where (\<lambda>c. c_user_id c = i) (profile_set p now) (d_coaches d)\<rparr>)
       | None \<Rightarrow>
           if i \<in> u_id ` set (d_users d)
           then Inr (new_coach i p now, d\<lparr>d_coaches := d_coaches d @ [new_coach i p now]\<rparr>)
           else Inl (ErrSql ForeignKeyViolation))"

definition ListCoachAvailability :: "uuid \<Rightarrow> availability list request" where
  "ListCoachAvailability i =
     select (\<lambda>d. sort_key a_weekday (sort_key a_start_minute
       (filter (\<lambda>a. a_coach_id a = i) (d_availability d))))"

definition ReplaceCoachAvailability :: "uuid \<Rightarrow> unit request" where
  "ReplaceCoachAvailability i =
     query (\<lambda>w. Inr ((), (w_db w)\<lparr>d_availability :=
       filter (\<lambda>a. a_coach_id a \<noteq> i) (d_availability (w_db w))\<rparr>))"

record window =
  w_weekday :: int
  w_start_minute :: int
  w_end_minute :: int

definition window_ok :: "window \<Rightarrow> bool" where
  "window_ok v \<longleftrightarrow> 0 \<le> w_weekday v \<and> w_weekday v \<le> 6 \<and> 0 \<le> w_start_minute v \<and>
     w_start_minute v < w_end_minute v \<and> w_end_minute v \<le> 1440"

definition AddCoachAvailability :: "uuid \<Rightarrow> window \<Rightarrow> availability request" where
  "AddCoachAvailability coach_id v =
     bindE fresh_id (\<lambda>i.
     query (\<lambda>w. let d = w_db w;
                    a = \<lparr>a_id = i, a_coach_id = coach_id, a_weekday = w_weekday v,
                         a_start_minute = w_start_minute v, a_end_minute = w_end_minute v\<rparr>
       in if \<not> window_ok v then Inl (ErrSql CheckViolation)
          else if coach_id \<notin> c_user_id ` set (d_coaches d) then Inl (ErrSql ForeignKeyViolation)
          else Inr (a, d\<lparr>d_availability := d_availability d @ [a]\<rparr>)))"

section \<open>The service\<close>

record coach_view =
  cv_id :: string
  cv_display_name :: string
  cv_headline :: string
  cv_bio :: string
  cv_specialties :: "string list"
  cv_phases :: "string list"
  cv_hourly_rate_cents :: int
  cv_timezone :: string
  cv_years_experience :: int
  cv_accepting_clients :: bool
  cv_approval_status :: string
  cv_avg_rating :: rat
  cv_review_count :: int
  cv_recommend_count :: int

definition coach_view_of :: "env \<Rightarrow> coach_row \<Rightarrow> coach_view" where
  "coach_view_of env k =
     (let c = k_coach k
      in \<lparr>cv_id = x_uuid_text env (c_user_id c), cv_display_name = k_display_name k,
          cv_headline = c_headline c, cv_bio = c_bio c, cv_specialties = c_specialties c,
          cv_phases = c_phases c, cv_hourly_rate_cents = c_hourly_rate_cents c,
          cv_timezone = c_timezone c, cv_years_experience = c_years_experience c,
          cv_accepting_clients = c_accepting_clients c, cv_approval_status = c_approval_status c,
          cv_avg_rating = k_avg_rating k, cv_review_count = k_review_count k,
          cv_recommend_count = k_recommend_count k\<rparr>)"

definition DatingPhases :: "string list" where
  "DatingPhases = [''opening'', ''first_messages'', ''building_rapport'', ''flirting'',
     ''asking_out'', ''first_date'', ''follow_up'', ''defining_relationship'']"

definition not_found :: "go_error \<Rightarrow> go_error" where
  "not_found e = (if e = ErrNoRows then ErrNotFound else e)"

definition GetCoach :: "env \<Rightarrow> uuid \<Rightarrow> coach_view request" where
  "GetCoach env i =
     attempt (GetCoachQuery i) (\<lambda>e. throw (not_found e)) (\<lambda>row. ret (coach_view_of env row))"

definition ListCoaches :: "env \<Rightarrow> nat \<Rightarrow> nat \<Rightarrow> bool \<Rightarrow> string option \<Rightarrow> coach_view list request" where
  "ListCoaches env limit offset accepting_only phase =
     (let norm = map_option (\<lambda>p. to_lower (trim_space p)) phase in
      if (case norm of None \<Rightarrow> False | Some p \<Rightarrow> p \<notin> set DatingPhases) then throw ErrInvalidInput
      else bindE (ListCoachesQuery limit offset (Some accepting_only) norm)
             (\<lambda>rows. ret (map (coach_view_of env) rows)))"

definition valid_approval_status :: "string \<Rightarrow> string option" where
  "valid_approval_status status =
     (let s = to_lower (trim_space status)
      in if s \<in> {''pending'', ''approved'', ''rejected''} then Some s else None)"

definition ListCoachesByApproval ::
  "env \<Rightarrow> string \<Rightarrow> nat \<Rightarrow> nat \<Rightarrow> (coach_view \<times> string) list request" where
  "ListCoachesByApproval env status limit offset =
     (case valid_approval_status status of None \<Rightarrow> throw ErrInvalidInput
      | Some s \<Rightarrow>
          bindE (ListCoachesByStatusQuery s limit offset) (\<lambda>rows.
          ret (map (\<lambda>(c, name, mail).
            (coach_view_of env \<lparr>k_coach = c, k_display_name = name, k_email = mail,
               k_avg_rating = 0, k_review_count = 0, k_recommend_count = 0\<rparr>, mail)) rows)))"

definition SetCoachApproval :: "env \<Rightarrow> uuid \<Rightarrow> string \<Rightarrow> coach_view request" where
  "SetCoachApproval env i status =
     (case valid_approval_status status of None \<Rightarrow> throw ErrInvalidInput
      | Some s \<Rightarrow>
          attempt (SetCoachApprovalQuery i s) (\<lambda>e. throw (not_found e)) (\<lambda>row.
          bindE (GetCoach env (c_user_id row)) (\<lambda>coach.
          ret (coach\<lparr>cv_approval_status := c_approval_status row\<rparr>))))"

text \<open>The loop of \<open>normalisePhases\<close>: the set of values chosen, or a rejected value.\<close>

fun choose_phases :: "string list \<Rightarrow> string list option" where
  "choose_phases [] = Some []"
| "choose_phases (p # ps) =
     (let q = to_lower (trim_space p) in
      if q = [] then choose_phases ps
      else if q \<notin> set DatingPhases then None
      else map_option (\<lambda>c. q # c) (choose_phases ps))"

definition normalise_phases :: "string list \<Rightarrow> string list option" where
  "normalise_phases ps =
     map_option (\<lambda>chosen. filter (\<lambda>p. p \<in> set chosen) DatingPhases) (choose_phases ps)"

definition max_session_minutes :: int where "max_session_minutes = 240"
definition min_session_minutes :: int where "min_session_minutes = 15"

definition max_int32 :: int where "max_int32 = 2147483647"

definition max_hourly_rate_cents :: int where
  "max_hourly_rate_cents = max_int32 div (max_session_minutes div 60)"

definition UpsertProfile :: "env \<Rightarrow> uuid \<Rightarrow> profile_input \<Rightarrow> coach_view request" where
  "UpsertProfile env coach_id p0 =
     (let p = (if pi_timezone p0 = [] then p0\<lparr>pi_timezone := ''UTC''\<rparr> else p0) in
      if x_load_location env (pi_timezone p) = None then throw ErrInvalidInput
      else if pi_hourly_rate_cents p < 0
              \<or> (payments_enabled env \<and> max_hourly_rate_cents < pi_hourly_rate_cents p)
      then throw ErrInvalidInput
      else (case normalise_phases (pi_phases p) of
          None \<Rightarrow> throw ErrInvalidInput
        | Some phases \<Rightarrow>
            bindE (UpsertCoachProfile coach_id (p\<lparr>pi_phases := phases\<rparr>)) (\<lambda>row.
            GetCoach env (c_user_id row))))"

definition window_of :: "availability \<Rightarrow> window" where
  "window_of a = \<lparr>w_weekday = a_weekday a, w_start_minute = a_start_minute a, w_end_minute = a_end_minute a\<rparr>"

definition ListAvailability :: "uuid \<Rightarrow> window list request" where
  "ListAvailability coach_id =
     bindE (ListCoachAvailability coach_id) (\<lambda>rows. ret (map window_of rows))"

definition SetAvailability :: "uuid \<Rightarrow> window list \<Rightarrow> window list request" where
  "SetAvailability coach_id windows =
     (if \<not> list_all window_ok windows then throw ErrInvalidInput
      else bindE (transaction
             (bindE (ReplaceCoachAvailability coach_id) (\<lambda>_.
              bindE (forE windows (\<lambda>v. bindE (AddCoachAvailability coach_id v) (\<lambda>_. ret ()))) (\<lambda>_.
              commit ()))))
           (\<lambda>_. ListAvailability coach_id))"

lemmas directory_query_defs = GetCoachQuery_def ListCoachesQuery_def ListCoachesByStatusQuery_def
  ListCoachAvailability_def

end
