(* ===== verification/Scheduling.thy ===== *)
theory Scheduling
  imports Directory
begin

text \<open>
  Slots and bookability (internal/coaching/service.go): \<open>OpenSlots\<close> expands the weekly
  windows of a coach into concrete start times, \<open>assertBookable\<close> decides whether one
  start time may be booked, \<open>respondDeadline\<close> is how long the coach has to answer.
  The day loop of \<open>OpenSlots\<close> runs on fuel, \<open>None\<close> when it is exhausted: the loop
  ends exactly when the coach's time zone lets \<open>AddDate\<close> make progress.
\<close>

definition default_session_minutes :: int where "default_session_minutes = 45"
definition slot_step_minutes :: int where "slot_step_minutes = 30"
definition max_availability_days :: int where "max_availability_days = 30"
definition min_checkout_window :: int where "min_checkout_window = minutes 5"
definition respond_window :: int where "respond_window = hours 24"
definition respond_lead_time :: int where "respond_lead_time = hours 2"

lemmas scheduling_consts = default_session_minutes_def slot_step_minutes_def
  max_availability_days_def min_checkout_window_def respond_window_def respond_lead_time_def
  max_session_minutes_def min_session_minutes_def

section \<open>Overlap with booked sessions\<close>

definition overlaps_booked :: "instant \<Rightarrow> int \<Rightarrow> booked list \<Rightarrow> uuid option \<Rightarrow> bool" where
  "overlaps_booked start duration rows exclude =
     list_ex (\<lambda>b. exclude \<noteq> Some (b_id b) \<and>
        start < b_scheduled_time b + minutes (b_duration_minutes b) \<and>
        b_scheduled_time b < start + minutes duration) rows"

definition respond_deadline :: "instant \<Rightarrow> instant \<Rightarrow> instant" where
  "respond_deadline now start =
     (let deadline = now + respond_window;
          latest = start - respond_lead_time;
          capped = (if latest < deadline then latest else deadline)
      in if capped < now then start else capped)"

section \<open>Open slots\<close>

definition wall_minute :: "location \<Rightarrow> instant \<Rightarrow> int" where
  "wall_minute loc t = wall_hour loc t * 60 + wall_min loc t"

record slot_request =
  sr_loc :: location
  sr_from :: instant
  sr_to :: instant
  sr_duration :: int
  sr_booked :: "booked list"
  sr_exclude :: "uuid option"

text \<open>The start time built for a minute of a day, and the three reasons to skip it.\<close>

definition slot_start :: "slot_request \<Rightarrow> instant \<Rightarrow> int \<Rightarrow> instant" where
  "slot_start r day minute = go_date (sr_loc r) (day_number (sr_loc r) day * 86400 + minute * 60)"

definition slot_open :: "slot_request \<Rightarrow> instant \<Rightarrow> int \<Rightarrow> bool" where
  "slot_open r day minute =
     (let start = slot_start r day minute
      in wall_minute (sr_loc r) start = minute \<and>
         \<not> (start < sr_from r \<or> \<not> start < sr_to r) \<and>
         \<not> overlaps_booked start (sr_duration r) (sr_booked r) (sr_exclude r))"

text \<open>\<open>for minute := w.StartMinute; minute+duration <= w.EndMinute; minute += slotStepMinutes\<close>\<close>

function window_slots :: "slot_request \<Rightarrow> instant \<Rightarrow> int \<Rightarrow> int \<Rightarrow> instant list" where
  "window_slots r day minute stop =
     (if minute + sr_duration r \<le> stop
      then (if slot_open r day minute then [slot_start r day minute] else []) @
           window_slots r day (minute + 30) stop
      else [])"
  by pat_completeness auto
termination
  by (relation "measure (\<lambda>(r, day, minute, stop). nat (stop - sr_duration r - minute + 30))") auto

declare window_slots.simps [simp del]

definition day_slots :: "slot_request \<Rightarrow> window list \<Rightarrow> instant \<Rightarrow> instant list" where
  "day_slots r windows day =
     concat (map (\<lambda>v. window_slots r day (w_start_minute v) (w_end_minute v))
       (filter (\<lambda>v. w_weekday v = weekday (sr_loc r) day) windows))"

text \<open>\<open>for !day.After(to.In(loc)) { ...; day = day.AddDate(0, 0, 1) }\<close>\<close>

fun days_loop :: "nat \<Rightarrow> slot_request \<Rightarrow> window list \<Rightarrow> instant \<Rightarrow> instant list option" where
  "days_loop 0 r windows day = None"
| "days_loop (Suc fuel) r windows day =
     (if sr_to r < day then Some []
      else map_option (\<lambda>rest. day_slots r windows day @ rest)
             (days_loop fuel r windows (add_day (sr_loc r) day)))"

definition first_day :: "slot_request \<Rightarrow> instant" where
  "first_day r = go_date (sr_loc r) (day_number (sr_loc r) (sr_from r) * 86400)"

definition all_slots :: "nat \<Rightarrow> slot_request \<Rightarrow> window list \<Rightarrow> instant list option" where
  "all_slots fuel r windows = days_loop fuel r windows (first_day r)"

section \<open>The service operations\<close>

definition participant :: "uuid \<Rightarrow> uuid \<Rightarrow> session request" where
  "participant session_id user_id =
     attempt (GetCoachingSession session_id) (\<lambda>e. throw (not_found e)) (\<lambda>s.
     if s_user_id s \<noteq> user_id \<and> s_coach_id s \<noteq> user_id then throw ErrForbidden else ret s)"

definition location_or_utc :: "env \<Rightarrow> string \<Rightarrow> location" where
  "location_or_utc env name = (case x_load_location env name of Some l \<Rightarrow> l | None \<Rightarrow> utc)"

definition excluded_session_ok :: "uuid \<Rightarrow> uuid \<Rightarrow> uuid option \<Rightarrow> unit request" where
  "excluded_session_ok coach_id actor_id exclude =
     (case exclude of None \<Rightarrow> ret ()
      | Some i \<Rightarrow>
          bindE (participant i actor_id) (\<lambda>s.
          failIf (s_coach_id s \<noteq> coach_id) ErrInvalidInput))"

text \<open>With payments on, a new booking must leave time for the checkout.\<close>

definition earliest_start :: "env \<Rightarrow> uuid option \<Rightarrow> instant \<Rightarrow> instant \<Rightarrow> instant" where
  "earliest_start env exclude now from =
     (if payments_enabled env \<and> exclude = None \<and> from < now + min_checkout_window
      then now + min_checkout_window else from)"

definition OpenSlots ::
  "env \<Rightarrow> nat \<Rightarrow> uuid \<Rightarrow> uuid \<Rightarrow> instant \<Rightarrow> instant \<Rightarrow> int \<Rightarrow> uuid option \<Rightarrow> (instant \<times> int) list request" where
  "OpenSlots env fuel coach_id actor_id from to duration0 exclude =
     bindE (excluded_session_ok coach_id actor_id exclude) (\<lambda>_.
     let duration = (if duration0 \<le> 0 then default_session_minutes else duration0) in
     bindE (failIf (\<not> from < to) ErrInvalidInput) (\<lambda>_.
     bindE (failIf (hours (max_availability_days * 24) < to - from) ErrInvalidInput) (\<lambda>_.
     bindE (GetCoach env coach_id) (\<lambda>coach.
     if cv_approval_status coach \<noteq> ''approved'' then ret []
     else
       let loc = location_or_utc env (cv_timezone coach) in
       bindE (ListAvailability coach_id) (\<lambda>windows.
       bindE (ListBookedSlots coach_id (from - minutes max_session_minutes) to) (\<lambda>rows.
       bindE (asks w_now) (\<lambda>now.
       let r = \<lparr>sr_loc = loc, sr_from = earliest_start env exclude now from, sr_to = to,
                sr_duration = duration, sr_booked = rows, sr_exclude = exclude\<rparr>
       in case all_slots fuel r windows of
            None \<Rightarrow> throw OutOfFuel
          | Some starts \<Rightarrow> ret (map (\<lambda>t. (t, duration)) starts))))))))"

definition inside_window :: "location \<Rightarrow> instant \<Rightarrow> int \<Rightarrow> window list \<Rightarrow> bool" where
  "inside_window loc start duration windows =
     (let minute = wall_hour loc start * 60 + wall_min loc start
      in list_ex (\<lambda>v. w_weekday v = weekday loc start \<and> w_start_minute v \<le> minute \<and>
                     minute + duration \<le> w_end_minute v) windows)"

definition assertBookable :: "env \<Rightarrow> uuid \<Rightarrow> instant \<Rightarrow> int \<Rightarrow> bool \<Rightarrow> uuid option \<Rightarrow> unit request" where
  "assertBookable env coach_id start duration require_accepting exclude =
     bindE (failIf (duration < min_session_minutes \<or> max_session_minutes < duration) ErrInvalidInput) (\<lambda>_.
     bindE (GetCoach env coach_id) (\<lambda>coach.
     bindE (failIf (cv_approval_status coach \<noteq> ''approved'') ErrUnavailable) (\<lambda>_.
     bindE (failIf (require_accepting \<and> \<not> cv_accepting_clients coach) ErrUnavailable) (\<lambda>_.
     bindE (ListAvailability coach_id) (\<lambda>windows.
     bindE (failIf (\<not> inside_window (location_or_utc env (cv_timezone coach)) start duration windows)
              ErrUnavailable) (\<lambda>_.
     bindE (ListBookedSlots coach_id (start - minutes max_session_minutes) (start + minutes duration)) (\<lambda>rows.
     failIf (overlaps_booked start duration rows exclude) ErrSlotTaken)))))))"

section \<open>Lemmas on the slot loops\<close>

lemma window_slots_mem:
  "t \<in> set (window_slots r day minute stop) \<Longrightarrow>
   \<exists>k. minute \<le> k \<and> k + sr_duration r \<le> stop \<and> t = slot_start r day k \<and> slot_open r day k"
proof (induction r day minute stop rule: window_slots.induct)
  case (1 r day minute stop)
  show ?case
  proof (cases "minute + sr_duration r \<le> stop")
    case True
    with "1.prems" consider "t = slot_start r day minute \<and> slot_open r day minute"
      | "t \<in> set (window_slots r day (minute + 30) stop)"
      by (subst (asm) window_slots.simps) (auto split: if_splits)
    then show ?thesis
    proof cases
      case 1
      then show ?thesis using True by blast
    next
      case 2
      with "1.IH" True obtain k where
        "minute + 30 \<le> k \<and> k + sr_duration r \<le> stop \<and> t = slot_start r day k \<and> slot_open r day k"
        by auto
      then show ?thesis by (intro exI [of _ k]) auto
    qed
  next
    case False
    with "1.prems" show ?thesis by (subst (asm) window_slots.simps) simp
  qed
qed

lemma day_slots_mem:
  assumes "t \<in> set (day_slots r windows day)"
  obtains v k where "v \<in> set windows" "w_weekday v = weekday (sr_loc r) day"
    "w_start_minute v \<le> k" "k + sr_duration r \<le> w_end_minute v"
    "t = slot_start r day k" "slot_open r day k"
  using assms by (force simp: day_slots_def dest: window_slots_mem)

lemma days_loop_mem:
  "days_loop fuel r windows day = Some ts \<Longrightarrow> t \<in> set ts \<Longrightarrow> \<exists>d. t \<in> set (day_slots r windows d)"
proof (induction fuel arbitrary: day ts)
  case (Suc fuel)
  then show ?case by (fastforce split: if_splits)
qed simp

lemma all_slots_mem:
  assumes "all_slots fuel r windows = Some ts" and "t \<in> set ts"
  obtains day v k where "v \<in> set windows" "w_weekday v = weekday (sr_loc r) day"
    "w_start_minute v \<le> k" "k + sr_duration r \<le> w_end_minute v"
    "t = slot_start r day k" "slot_open r day k"
proof -
  from assms obtain d where "t \<in> set (day_slots r windows d)"
    unfolding all_slots_def by (blast dest: days_loop_mem)
  then show thesis by (rule day_slots_mem) (rule that)
qed

text \<open>More fuel does not change the answer.\<close>

lemma days_loop_mono:
  "days_loop fuel r windows day = Some ts \<Longrightarrow> fuel \<le> fuel' \<Longrightarrow> days_loop fuel' r windows day = Some ts"
proof (induction fuel arbitrary: fuel' day ts)
  case (Suc fuel)
  from Suc.prems(2) obtain f where f: "fuel' = Suc f" "fuel \<le> f" by (cases fuel') auto
  show ?case
  proof (cases "sr_to r < day")
    case False
    with Suc.prems(1) obtain rest where
      rest: "days_loop fuel r windows (add_day (sr_loc r) day) = Some rest"
      and ts: "ts = day_slots r windows day @ rest" by auto
    from Suc.IH [OF rest f(2)] ts f False show ?thesis by simp
  qed (use Suc.prems f in simp)
qed simp

text \<open>A day that \<open>AddDate\<close> does not leave keeps the loop running for ever.\<close>

lemma days_loop_stuck:
  "add_day (sr_loc r) day = day \<Longrightarrow> \<not> sr_to r < day \<Longrightarrow> days_loop fuel r windows day = None"
  by (induction fuel) simp_all

lemma days_loop_skip:
  "\<not> sr_to r < day \<Longrightarrow> (\<And>f. days_loop f r windows (add_day (sr_loc r) day) = None) \<Longrightarrow>
   days_loop fuel r windows day = None"
  by (cases fuel) simp_all

text \<open>
  In a narrow location each round advances by at least a minute, so the loop ends; the
  fuel needed is bounded by the minutes between the first day and the end of the range.
\<close>

lemma days_loop_terminates:
  assumes "narrow (sr_loc r)"
  shows "unix (sr_to r) - unix day < 60 * int fuel \<Longrightarrow> \<exists>ts. days_loop (Suc fuel) r windows day = Some ts"
proof (induction fuel arbitrary: day)
  case 0
  then have "unix (sr_to r) < unix day" by simp
  then have "sr_to r < day" by (simp add: unix_def)
  then show ?case by simp
next
  case (Suc fuel)
  show ?case
  proof (cases "sr_to r < day")
    case False
    have "unix day + 60 < unix (add_day (sr_loc r) day)" by (rule add_day_progress [OF assms])
    with Suc.prems have "unix (sr_to r) - unix (add_day (sr_loc r) day) < 60 * int fuel" by simp
    then obtain ts where "days_loop (Suc fuel) r windows (add_day (sr_loc r) day) = Some ts"
      using Suc.IH by blast
    then show ?thesis by simp
  qed simp
qed

lemma first_day_near:
  assumes "narrow (sr_loc r)"
  shows "unix (sr_from r) - 172740 < unix (first_day r)"
proof -
  let ?loc = "sr_loc r" and ?t = "sr_from r"
  let ?l = "day_number ?loc ?t * 86400"
  have "date_offset ?loc ?l - offset_at ?loc (unix ?t) < 86340"
    by (rule narrowD [OF assms date_offset_zero offset_at_in])
  moreover have "wall ?loc ?t < ?l + 86400"
    unfolding day_number_def by presburger
  moreover have "unix (first_day r) = ?l - date_offset ?loc ?l"
    by (simp add: first_day_def)
  ultimately show ?thesis by (simp add: wall_def)
qed

lemma unix_mono_diff: "t - f \<le> hours 720 \<Longrightarrow> unix t - unix f \<le> 2592000"
proof -
  assume "t - f \<le> hours 720"
  then have "t div 1000000 \<le> (f + 2592000 * 1000000) div 1000000"
    by (intro zdiv_mono1) (simp_all add: hours_def)
  then show ?thesis by (simp add: unix_def)
qed

text \<open>Rounds of the day loop that a range of 30 days can need.\<close>

definition slot_fuel :: nat where "slot_fuel = Suc 46999"

lemma all_slots_terminates:
  assumes "narrow (sr_loc r)" and "sr_to r - sr_from r \<le> hours 720"
  shows "\<exists>ts. all_slots slot_fuel r windows = Some ts"
proof -
  have "unix (sr_to r) - unix (first_day r) < 60 * int 46999"
    using first_day_near [OF assms(1)] unix_mono_diff [OF assms(2)] by simp
  from days_loop_terminates [OF assms(1) this] have "\<exists>ts. days_loop (Suc 46999) r windows (first_day r) = Some ts" .
  then show ?thesis unfolding all_slots_def slot_fuel_def .
qed

section \<open>Slots on the wall clock\<close>

lemma wall_minute_eq: "wall_minute loc t = (wall loc t mod 86400) div 60"
proof -
  define x where "x = wall loc t mod 86400"
  have m: "wall loc t mod 3600 = x mod 3600"
    by (simp add: x_def mod_mod_cancel)
  have "x div 60 = (x mod 3600 + (x div 3600 * 60) * 60) div 60"
    by (simp add: mult.assoc)
  also have "\<dots> = x div 3600 * 60 + x mod 3600 div 60"
    by (rule div_mult_self1) simp
  finally show ?thesis
    by (simp add: wall_minute_def wall_hour_def wall_min_def m flip: x_def)
qed

lemma slot_same_day:
  assumes loc: "narrow (sr_loc r)" and minute: "wall_minute (sr_loc r) (slot_start r day k) = k"
  shows "day_number (sr_loc r) (slot_start r day k) = day_number (sr_loc r) day"
proof -
  let ?l = "day_number (sr_loc r) day * 86400 + k * 60"
  let ?w = "wall (sr_loc r) (slot_start r day k)"
  have w: "?w = ?l - date_offset (sr_loc r) ?l + offset_at (sr_loc r) (?l - date_offset (sr_loc r) ?l)"
    by (simp add: slot_start_def wall_go_date)
  have "date_offset (sr_loc r) ?l - offset_at (sr_loc r) (?l - date_offset (sr_loc r) ?l) < 86340"
    "offset_at (sr_loc r) (?l - date_offset (sr_loc r) ?l) - date_offset (sr_loc r) ?l < 86340"
    by (rule narrowD [OF loc]; rule date_offset_zero offset_at_in)+
  with w have near: "\<bar>?w - ?l\<bar> < 86340" by simp
  have "(?w mod 86400) div 60 = k" using minute by (simp add: wall_minute_eq)
  then have "?w = ?w div 86400 * 86400 + k * 60 + ?w mod 86400 mod 60"
    by (metis (no_types, opaque_lifting) add.assoc div_mult_mod_eq)
  moreover have "0 \<le> ?w mod 86400 mod 60" "?w mod 86400 mod 60 < 60" by simp_all
  moreover have "q = n" if "\<bar>q * 86400 + k * 60 + m - (n * 86400 + k * 60)\<bar> < 86340" "0 \<le> m" "m < 60" for q m n :: int
    using that by (cases "q < n"; cases "n < q") auto
  ultimately have "?w div 86400 = day_number (sr_loc r) day" using near by metis
  then show ?thesis by (simp add: day_number_def)
qed

text \<open>A session that overlaps a slot appears in the list of either query.\<close>

lemma overlaps_booked_slots:
  assumes "from \<le> t - minutes max_session_minutes" and "t + minutes dur \<le> to"
    and "\<not> overlaps_booked t dur (booked_slots c from to d) ex"
  shows "\<not> overlaps_booked t dur (booked_slots c (t - minutes max_session_minutes) (t + minutes dur) d) ex"
  using assms
  by (force simp: overlaps_booked_def booked_slots_def list_ex_iff booked_of_def)

section \<open>The queries answered\<close>

lemma GetCoach_calm:
  "w_sched w = [] \<Longrightarrow> GetCoach env c w =
     (case coach_lookup c (w_db w) of None \<Rightarrow> (Inl ErrNotFound, w)
      | Some row \<Rightarrow> (Inr (coach_view_of env row), w))"
  by (simp add: GetCoach_def GetCoachQuery_def attempt_def select_one_calm not_found_def ret_def throw_def
      split: option.splits)

lemma ListAvailability_calm:
  "w_sched w = [] \<Longrightarrow> ListAvailability c w =
     (Inr (map window_of (sort_key a_weekday (sort_key a_start_minute
        (filter (\<lambda>a. a_coach_id a = c) (d_availability (w_db w)))))), w)"
  by (simp add: ListAvailability_def ListCoachAvailability_def bindE_def select_calm ret_def)

lemma ListBookedSlots_calm:
  "w_sched w = [] \<Longrightarrow> ListBookedSlots c from to w = (Inr (booked_slots c from to (w_db w)), w)"
  by (simp add: ListBookedSlots_def select_calm)

lemma excluded_calm:
  "w_sched w = [] \<Longrightarrow> excluded_session_ok c u ex w = (r, w') \<Longrightarrow> w' = w"
  by (auto simp: excluded_session_ok_def participant_def GetCoachingSession_def go_defs
      select_one_calm split: option.splits sum.splits if_splits prod.splits)

lemma OpenSlots_calm:
  assumes calm: "w_sched w = []" and coach: "GetCoach env c w = (Inr cv, w)"
    and ex: "excluded_session_ok c u ex w = (Inr x, w)" and approved: "cv_approval_status cv = ''approved''"
    and d: "d = (if dur0 \<le> 0 then default_session_minutes else dur0)"
  shows "OpenSlots env fuel c u from to dur0 ex w =
      (if \<not> from < to then (Inl ErrInvalidInput, w)
       else if hours (max_availability_days * 24) < to - from then (Inl ErrInvalidInput, w)
       else case all_slots fuel
              \<lparr>sr_loc = location_or_utc env (cv_timezone cv), sr_from = earliest_start env ex (w_now w) from,
               sr_to = to, sr_duration = d, sr_booked = booked_slots c (from - minutes max_session_minutes) to (w_db w),
               sr_exclude = ex\<rparr>
              (map window_of (sort_key a_weekday (sort_key a_start_minute
                (filter (\<lambda>a. a_coach_id a = c) (d_availability (w_db w)))))) of
              None \<Rightarrow> (Inl OutOfFuel, w)
            | Some starts \<Rightarrow> (Inr (map (\<lambda>t. (t, d)) starts), w))"
  by (simp add: OpenSlots_def bindE_def ex failIf_def coach approved calm ListAvailability_calm
      ListBookedSlots_calm asks_def ret_def throw_def Let_def d split: option.splits)

text \<open>What \<open>OpenSlots\<close> returned, when the answers of its queries are known.\<close>

lemma OpenSlots_Inr:
  assumes calm: "w_sched w = []" and coach: "GetCoach env c w = (Inr cv, w)"
    and run: "OpenSlots env fuel c u from to dur0 ex w = (Inr slots, w')" and mem: "(t, dur) \<in> set slots"
  obtains r v k day where
    "sr_loc r = location_or_utc env (cv_timezone cv)" "from \<le> sr_from r" "sr_duration r = dur"
    "sr_booked r = booked_slots c (from - minutes max_session_minutes) to (w_db w)" "sr_exclude r = ex"
    "sr_to r = to"
    "cv_approval_status cv = ''approved''"
    "v \<in> set (map window_of (sort_key a_weekday (sort_key a_start_minute
        (filter (\<lambda>a. a_coach_id a = c) (d_availability (w_db w))))))"
    "w_weekday v = weekday (sr_loc r) day" "w_start_minute v \<le> k" "k + dur \<le> w_end_minute v"
    "t = slot_start r day k" "slot_open r day k"
proof -
  define windows where "windows = map window_of (sort_key a_weekday (sort_key a_start_minute
        (filter (\<lambda>a. a_coach_id a = c) (d_availability (w_db w)))))"
  define d where "d = (if dur0 \<le> 0 then default_session_minutes else dur0)"
  define r where "r = \<lparr>sr_loc = location_or_utc env (cv_timezone cv), sr_from = earliest_start env ex (w_now w) from,
      sr_to = to, sr_duration = d, sr_booked = booked_slots c (from - minutes max_session_minutes) to (w_db w),
      sr_exclude = ex\<rparr>"
  from run obtain x w1 where ex: "excluded_session_ok c u ex w = (Inr x, w1)"
    by (auto simp: OpenSlots_def bindE_Inr)
  then have w1: "w1 = w" using excluded_calm calm by blast
  from run mem have approved: "cv_approval_status cv = ''approved''"
    by (auto simp: OpenSlots_def bindE_def ex w1 failIf_def coach ret_def Let_def split: if_splits)
  note eq = OpenSlots_calm [OF calm coach ex [unfolded w1] approved refl, of fuel "from" "to" dur0,
      folded windows_def d_def, folded r_def]
  from run eq obtain starts where starts: "all_slots fuel r windows = Some starts" and slots: "slots = map (\<lambda>t. (t, d)) starts"
    by (auto split: if_splits option.splits)
  from slots mem have t: "t \<in> set starts" "dur = d" by auto
  from all_slots_mem [OF starts t(1)] obtain day v k where v: "v \<in> set windows"
    "w_weekday v = weekday (sr_loc r) day" "w_start_minute v \<le> k" "k + sr_duration r \<le> w_end_minute v"
    "t = slot_start r day k" "slot_open r day k" .
  show thesis
    by (rule that [of r v day k])
      (use v t approved in \<open>auto simp: r_def windows_def earliest_start_def\<close>)
qed

lemma assertBookable_calm:
  assumes "w_sched w = []" and "GetCoach env c w = (Inr cv, w)"
  shows "assertBookable env c t dur acc ex w =
    (if dur < min_session_minutes \<or> max_session_minutes < dur then (Inl ErrInvalidInput, w)
     else if cv_approval_status cv \<noteq> ''approved'' then (Inl ErrUnavailable, w)
     else if acc \<and> \<not> cv_accepting_clients cv then (Inl ErrUnavailable, w)
     else if \<not> inside_window (location_or_utc env (cv_timezone cv)) t dur
                (map window_of (sort_key a_weekday (sort_key a_start_minute
                  (filter (\<lambda>a. a_coach_id a = c) (d_availability (w_db w)))))) then (Inl ErrUnavailable, w)
     else if overlaps_booked t dur (booked_slots c (t - minutes max_session_minutes) (t + minutes dur) (w_db w)) ex
          then (Inl ErrSlotTaken, w)
     else (Inr (), w))"
  using assms
  by (simp add: assertBookable_def bindE_def failIf_def ListAvailability_calm ListBookedSlots_calm)

section \<open>Errors of the reads\<close>

lemma raises_directory:
  "raises sql_error (GetCoachQuery c)" "raises sql_error (ListCoachAvailability c)"
  "raises sql_error (ListBookedSlots c from until)" "raises sql_error (GetCoachingSession i)"
  unfolding directory_query_defs session_select_defs by (rule raises_select)+

lemma plain_reads:
  "raises (\<lambda>e. e \<noteq> OutOfFuel) (GetCoach env c)" "raises (\<lambda>e. e \<noteq> OutOfFuel) (ListAvailability c)"
  "raises (\<lambda>e. e \<noteq> OutOfFuel) (ListBookedSlots c from until)"
  "raises (\<lambda>e. e \<noteq> OutOfFuel) (participant i u)"
proof -
  note sql = raises_directory [THEN raises_weaken, of "\<lambda>e. e \<noteq> OutOfFuel"]
  show "raises (\<lambda>e. e \<noteq> OutOfFuel) (GetCoach env c)"
    unfolding GetCoach_def by (intro raises_intros sql) (auto simp: not_found_def dest: sql_error_plain)
  show "raises (\<lambda>e. e \<noteq> OutOfFuel) (ListAvailability c)"
    unfolding ListAvailability_def by (intro raises_intros sql) (auto dest: sql_error_plain)
  show "raises (\<lambda>e. e \<noteq> OutOfFuel) (ListBookedSlots c from until)"
    by (rule sql(3)) (auto dest: sql_error_plain)
  show "raises (\<lambda>e. e \<noteq> OutOfFuel) (participant i u)"
    unfolding participant_def
    by (intro raises_intros sql) (auto simp: not_found_def dest: sql_error_plain)
qed

lemma earliest_start_le: "from \<le> earliest_start env ex now from"
  by (simp add: earliest_start_def)

end
