(* ===== verification/Emails.thy ===== *)
theory Emails
  imports Session_Store Go_Text
begin

text \<open>
  The emails of the booking flow (internal/coaching/emails.go) and the calendar invite
  attached to them (internal/coaching/ics.go).  A mail is composed from the joined session
  row and recorded in \<open>email_outbox\<close> by \<open>enqueue\<close>, inside the caller's transaction.
  Strings are UTF-8 bytes.
\<close>

section \<open>iCalendar\<close>

definition lf :: string where "lf = [CHR 0x0A]"
definition crlf :: string where "crlf = [CHR 0x0D, CHR 0x0A]"

fun escape_char :: "char \<Rightarrow> string" where
  "escape_char c =
     (if c = CHR 0x5C then [CHR 0x5C, CHR 0x5C]
      else if c = CHR '';'' then [CHR 0x5C, CHR '';'']
      else if c = CHR '','' then [CHR 0x5C, CHR '','']
      else if c = CHR 0x0A then [CHR 0x5C, CHR ''n'']
      else [c])"

definition escapeICS :: "string \<Rightarrow> string" where
  "escapeICS v = concat (map escape_char v)"

definition param_char :: "char \<Rightarrow> string" where
  "param_char c =
     (if c = CHR 0x22 then [CHR 0x27]
      else if of_char c < (0x20::nat) \<or> c = CHR 0x7F then []
      else [c])"

definition paramICS :: "string \<Rightarrow> string" where
  "paramICS v =
     (let v' = concat (map param_char v)
      in if list_ex (\<lambda>c. c \<in> {CHR '':'', CHR '';'', CHR '',''}) v'
         then [CHR 0x22] @ v' @ [CHR 0x22] else v')"

text \<open>METHOD and STATUS of the invite for a session status.\<close>

fun invite_method :: "session_status \<Rightarrow> string \<times> string" where
  "invite_method Scheduled = (''REQUEST'', ''CONFIRMED'')"
| "invite_method Pending = (''REQUEST'', ''TENTATIVE'')"
| "invite_method _ = (''CANCEL'', ''CANCELLED'')"

definition invite_lines :: "env \<Rightarrow> instant \<Rightarrow> parties \<Rightarrow> string list" where
  "invite_lines env now p =
     (let s = pt_session p;
          (method, status) = invite_method (s_status s);
          summary = ''Dating Coach session: '' @ pt_user_name p @ '' with '' @ pt_coach_name p;
          topic = (if s_topic s \<noteq> [] then ''Topic: '' @ s_topic s else ''Coaching session'');
          description = topic @
            (if s_meeting_url s \<noteq> [] then lf @ ''Join: '' @ s_meeting_url s else [])
      in [''BEGIN:VCALENDAR'', ''VERSION:2.0'', ''PRODID:-//Dating Coach//Coaching//EN'',
          ''METHOD:'' @ method, ''BEGIN:VEVENT'',
          ''UID:'' @ x_uuid_text env (s_id s) @ ''@datingcoach'',
          ''SEQUENCE:'' @ decimal (s_calendar_sequence s),
          ''DTSTAMP:'' @ format_ics now,
          ''DTSTART:'' @ format_ics (s_scheduled_time s),
          ''DTEND:'' @ format_ics (session_end s),
          ''SUMMARY:'' @ escapeICS summary,
          ''DESCRIPTION:'' @ escapeICS description]
         @ (if s_meeting_url s \<noteq> [] then [''LOCATION:'' @ escapeICS (s_meeting_url s)] else [])
         @ [''STATUS:'' @ status,
            ''ORGANIZER:mailto:'' @ x_mail_from env,
            ''ATTENDEE;CN='' @ paramICS (pt_coach_name p) @ '';ROLE=REQ-PARTICIPANT:mailto:'' @ pt_coach_email p,
            ''ATTENDEE;CN='' @ paramICS (pt_user_name p) @ '';ROLE=REQ-PARTICIPANT:mailto:'' @ pt_user_email p,
            ''END:VEVENT'', ''END:VCALENDAR''])"

definition invite :: "env \<Rightarrow> instant \<Rightarrow> parties \<Rightarrow> string" where
  "invite env now p = concat (map (\<lambda>l. l @ crlf) (invite_lines env now p))"

section \<open>Composing the mails\<close>

record mail =
  m_to :: string
  m_subject :: string
  m_body :: string
  m_ics :: string

definition zone_of :: "env \<Rightarrow> parties \<Rightarrow> bool \<Rightarrow> location" where
  "zone_of env p for_coach =
     (if for_coach
      then (case x_load_location env (pt_coach_timezone p) of Some l \<Rightarrow> l | None \<Rightarrow> utc)
      else utc)"

definition when_text :: "env \<Rightarrow> parties \<Rightarrow> bool \<Rightarrow> string" where
  "when_text env p for_coach =
     format_clock (zone_of env p for_coach) (s_scheduled_time (pt_session p)) @
     '' ('' @ decimal (s_duration_minutes (pt_session p)) @ '' minutes)''"

definition or_none :: "string \<Rightarrow> string" where
  "or_none v = (if v = [] then ''(none)'' else v)"

definition trim_right_slash :: "string \<Rightarrow> string" where
  "trim_right_slash v = rev (dropWhile (\<lambda>c. c = CHR ''/'') (rev v))"

definition respond_link :: "env \<Rightarrow> parties \<Rightarrow> string \<Rightarrow> string \<Rightarrow> string" where
  "respond_link env p token action =
     trim_right_slash (x_app_url env) @ ''/booking/respond?session='' @
     x_uuid_text env (s_id (pt_session p)) @ ''&token='' @ token @ ''&action='' @ action"

definition possessive :: string where "possessive = CHR 0x27 # ''s''"
definition em_dash :: string where "em_dash = [CHR 0xE2, CHR 0x80, CHR 0x94]"

definition coach_request :: "env \<Rightarrow> instant \<Rightarrow> parties \<Rightarrow> string \<Rightarrow> bool \<Rightarrow> mail" where
  "coach_request env now p token rescheduled =
     (let s = pt_session p;
          subject = (if rescheduled
            then pt_user_name p @ '' moved their session '' @ em_dash @ '' please reconfirm''
            else ''Session request from '' @ pt_user_name p);
          intro = (if rescheduled
            then pt_user_name p @ '' has moved their session with you to a new time and needs you to reconfirm it.''
            else pt_user_name p @ '' has requested a coaching session with you.'');
          deadline = (case s_respond_by s of None \<Rightarrow> []
            | Some t \<Rightarrow> lf @ lf @ ''Please respond by '' @ format_clock (zone_of env p True) t @
                ''; after that the request expires and the slot is released.'')
      in \<lparr>m_to = pt_coach_email p, m_subject = subject,
          m_body = ''Hi '' @ pt_coach_name p @ '','' @ lf @ lf @ intro @ lf @ lf @
            ''When: '' @ when_text env p True @ lf @ ''Topic: '' @ or_none (s_topic s) @ lf @ lf @
            ''Confirm: '' @ respond_link env p token ''confirm'' @ lf @
            ''Decline: '' @ respond_link env p token ''decline'' @ deadline @ lf @ lf @
            ''You can also respond from your coach dashboard.'',
          m_ics = invite env now p\<rparr>)"

definition client_requested :: "env \<Rightarrow> parties \<Rightarrow> mail" where
  "client_requested env p =
     \<lparr>m_to = pt_user_email p, m_subject = ''Request sent to '' @ pt_coach_name p,
      m_body = ''Hi '' @ pt_user_name p @ '','' @ lf @ lf @
        ''Your session request has been sent to '' @ pt_coach_name p @ ''.'' @ lf @ lf @
        ''When: '' @ when_text env p False @ lf @
        ''Topic: '' @ or_none (s_topic (pt_session p)) @ lf @ lf @
        ''We will email you as soon as '' @ pt_coach_name p @
        '' confirms. The time is held for you until then.'',
      m_ics = []\<rparr>"

definition client_confirmed :: "env \<Rightarrow> instant \<Rightarrow> parties \<Rightarrow> mail" where
  "client_confirmed env now p =
     \<lparr>m_to = pt_user_email p, m_subject = pt_coach_name p @ '' confirmed your session'',
      m_body = ''Hi '' @ pt_user_name p @ '','' @ lf @ lf @
        pt_coach_name p @ '' has confirmed your session.'' @ lf @ lf @
        ''When: '' @ when_text env p False @ lf @
        ''Topic: '' @ or_none (s_topic (pt_session p)) @ lf @
        (if s_meeting_url (pt_session p) \<noteq> []
         then ''Join: '' @ s_meeting_url (pt_session p) @ lf else []) @
        lf @ ''A calendar invite is attached.'',
      m_ics = invite env now p\<rparr>"

definition client_declined :: "env \<Rightarrow> instant \<Rightarrow> parties \<Rightarrow> mail" where
  "client_declined env now p =
     \<lparr>m_to = pt_user_email p, m_subject = pt_coach_name p @ '' declined your session request'',
      m_body = ''Hi '' @ pt_user_name p @ '','' @ lf @ lf @
        pt_coach_name p @ '' is unable to take your session on '' @ when_text env p False @ ''.'' @ lf @ lf @
        ''The time has been released; you can request another slot from the app.'',
      m_ics = invite env now p\<rparr>"

definition client_expired :: "env \<Rightarrow> instant \<Rightarrow> parties \<Rightarrow> mail" where
  "client_expired env now p =
     \<lparr>m_to = pt_user_email p,
      m_subject = ''Your session request to '' @ pt_coach_name p @ '' expired'',
      m_body = ''Hi '' @ pt_user_name p @ '','' @ lf @ lf @
        pt_coach_name p @ '' did not respond to your request for '' @ when_text env p False @
        '' in time, so it has expired and the time has been released.'' @ lf @ lf @
        ''You can request another slot from the app.'',
      m_ics = invite env now p\<rparr>"

text \<open>Sent only when the request has just left pending; other statuses send nothing.\<close>

definition coach_calendar_update :: "env \<Rightarrow> instant \<Rightarrow> parties \<Rightarrow> mail option" where
  "coach_calendar_update env now p =
     (let s = pt_session p; hi = ''Hi '' @ pt_coach_name p @ '','' @ lf @ lf;
          mk = (\<lambda>subject body. Some \<lparr>m_to = pt_coach_email p, m_subject = subject,
                  m_body = hi @ body, m_ics = invite env now p\<rparr>)
      in case s_status s of
           Scheduled \<Rightarrow> mk (''Confirmed: session with '' @ pt_user_name p)
             (''Your session with '' @ pt_user_name p @ '' is confirmed.'' @ lf @ lf @
              ''When: '' @ when_text env p True @ lf @ ''Topic: '' @ or_none (s_topic s) @ lf @ lf @
              ''The attached invite updates the tentative event in your calendar.'')
         | Declined \<Rightarrow> mk (''Declined: session request from '' @ pt_user_name p)
             (''You declined '' @ pt_user_name p @ possessive @ '' request for '' @ when_text env p True @
              ''. The slot is open again and the attached update removes the tentative event from your calendar.'')
         | Expired \<Rightarrow> mk (''Expired: session request from '' @ pt_user_name p)
             (pt_user_name p @ possessive @ '' request for '' @ when_text env p True @
              '' was not answered in time and has expired. The slot is open again and the attached update removes the tentative event from your calendar.'')
         | _ \<Rightarrow> None)"

definition cancelled_mail :: "env \<Rightarrow> instant \<Rightarrow> parties \<Rightarrow> bool \<Rightarrow> mail" where
  "cancelled_mail env now p by_coach =
     (if by_coach
      then \<lparr>m_to = pt_user_email p, m_subject = pt_coach_name p @ '' cancelled your session'',
            m_body = ''Hi '' @ pt_user_name p @ '','' @ lf @ lf @
              pt_coach_name p @ '' has cancelled your session on '' @ when_text env p False @ ''.'' @ lf @ lf @
              ''You can request another slot from the app.'',
            m_ics = invite env now p\<rparr>
      else \<lparr>m_to = pt_coach_email p, m_subject = pt_user_name p @ '' cancelled their session'',
            m_body = ''Hi '' @ pt_coach_name p @ '','' @ lf @ lf @
              pt_user_name p @ '' has cancelled their session on '' @ when_text env p True @
              ''. The slot is open again.'',
            m_ics = invite env now p\<rparr>)"

definition self_calendar_update :: "env \<Rightarrow> instant \<Rightarrow> parties \<Rightarrow> bool \<Rightarrow> mail" where
  "self_calendar_update env now p to_coach =
     (let (addr, name, other) =
            (if to_coach then (pt_coach_email p, pt_coach_name p, pt_user_name p)
             else (pt_user_email p, pt_user_name p, pt_coach_name p));
          hi = ''Hi '' @ name @ '','' @ lf @ lf
      in if s_status (pt_session p) = Cancelled
         then \<lparr>m_to = addr, m_subject = ''Cancelled: session with '' @ other,
               m_body = hi @ ''You cancelled your session with '' @ other @ '' on '' @
                 when_text env p to_coach @ ''. The attached update removes it from your calendar.'',
               m_ics = invite env now p\<rparr>
         else \<lparr>m_to = addr, m_subject = ''Moved: session with '' @ other,
               m_body = hi @ ''You moved your session with '' @ other @ ''.'' @ lf @ lf @
                 ''New time: '' @ when_text env p to_coach @ lf @
                 ''Topic: '' @ or_none (s_topic (pt_session p)) @ lf @ lf @
                 ''The attached update moves the event in your calendar.'',
               m_ics = invite env now p\<rparr>)"

definition coach_rescheduled :: "env \<Rightarrow> instant \<Rightarrow> parties \<Rightarrow> mail" where
  "coach_rescheduled env now p =
     \<lparr>m_to = pt_user_email p, m_subject = pt_coach_name p @ '' moved your session'',
      m_body = ''Hi '' @ pt_user_name p @ '','' @ lf @ lf @
        pt_coach_name p @ '' has moved your session.'' @ lf @ lf @
        ''New time: '' @ when_text env p False @ lf @
        ''Topic: '' @ or_none (s_topic (pt_session p)) @ lf @ lf @
        ''An updated calendar invite is attached.'',
      m_ics = invite env now p\<rparr>"

definition meeting_link_changed :: "env \<Rightarrow> instant \<Rightarrow> parties \<Rightarrow> bool \<Rightarrow> mail" where
  "meeting_link_changed env now p to_coach =
     (let (addr, name, other) =
            (if to_coach then (pt_coach_email p, pt_coach_name p, pt_user_name p)
             else (pt_user_email p, pt_user_name p, pt_coach_name p));
          url = s_meeting_url (pt_session p);
          hi = ''Hi '' @ name @ '','' @ lf @ lf
      in if url = []
         then \<lparr>m_to = addr, m_subject = ''Join link removed: session with '' @ other,
               m_body = hi @ ''The join link for your session with '' @ other @ '' on '' @
                 when_text env p to_coach @ '' has been removed.'' @ lf @ lf @
                 ''The attached update clears the location in your calendar.'',
               m_ics = invite env now p\<rparr>
         else \<lparr>m_to = addr, m_subject = ''Join link: session with '' @ other,
               m_body = hi @ ''Your session with '' @ other @ '' on '' @ when_text env p to_coach @
                 '' now has a join link.'' @ lf @ lf @ ''Join: '' @ url @ lf @ lf @
                 ''The attached update adds it to the event in your calendar.'',
               m_ics = invite env now p\<rparr>)"

section \<open>The outbox\<close>

text \<open>The row \<open>EnqueueEmail\<close> inserts; an empty invite is stored as NULL.\<close>

definition email_of :: "mail \<Rightarrow> uuid \<Rightarrow> instant \<Rightarrow> email" where
  "email_of m i now =
     \<lparr>e_id = i, e_to = m_to m, e_subject = m_subject m, e_body = m_body m,
      e_ics = (if m_ics m = [] then None else Some (m_ics m)), e_attempts = 0, e_last_error = [],
      e_next_attempt_at = now, e_created_at = now, e_sent_at = None\<rparr>"

definition enqueue :: "mail \<Rightarrow> unit request" where
  "enqueue m =
     bindE fresh_id (\<lambda>i.
     query (\<lambda>w. Inr ((), (w_db w)\<lparr>d_outbox := d_outbox (w_db w) @ [email_of m i (w_dbnow w)]\<rparr>)))"

definition enqueue_opt :: "mail option \<Rightarrow> unit request" where
  "enqueue_opt m = (case m of None \<Rightarrow> ret () | Some m \<Rightarrow> enqueue m)"

section \<open>Facts about the invite\<close>

lemma escape_char_no_lf: "CHR 0x0A \<notin> set (escape_char c)"
  by simp

lemma escapeICS_no_lf: "CHR 0x0A \<notin> set (escapeICS v)"
  unfolding escapeICS_def using escape_char_no_lf by (auto simp del: escape_char.simps)

lemma escapeICS_Nil [simp]: "escapeICS [] = []"
  by (simp add: escapeICS_def)

lemma escapeICS_Cons: "escapeICS (c # v) = escape_char c @ escapeICS v"
  by (simp add: escapeICS_def)

text \<open>How a calendar reader undoes the escapes of a TEXT value (RFC 5545, 3.3.11).\<close>

fun unescape_text :: "string \<Rightarrow> string" where
  "unescape_text [] = []"
| "unescape_text [c] = [c]"
| "unescape_text (c # d # v) =
     (if c = CHR 0x5C then (if d = CHR ''n'' then CHR 0x0A else d) # unescape_text v
      else c # unescape_text (d # v))"

lemma unescape_escape_char: "unescape_text (escape_char c @ v) = c # unescape_text v"
  by (cases v) auto

lemma unescape_escapeICS: "unescape_text (escapeICS v) = v"
  by (induction v) (simp_all add: escapeICS_Cons unescape_escape_char del: escape_char.simps)

lemma param_char_safe:
  "x \<in> set (param_char c) \<Longrightarrow> x \<noteq> CHR 0x22 \<and> \<not> of_char x < (0x20::nat) \<and> x \<noteq> CHR 0x7F"
  by (auto simp: param_char_def split: if_splits)

lemma param_body_safe:
  "x \<in> set (concat (map param_char v)) \<Longrightarrow> x \<noteq> CHR 0x22 \<and> \<not> of_char x < (0x20::nat)"
  using param_char_safe by auto

lemma paramICS_no_lf: "CHR 0x0A \<notin> set (paramICS v)"
  by (auto simp: paramICS_def Let_def dest: param_char_safe)

lemma digit_not_lf [simp]: "digit n \<noteq> CHR 0x0A" "CHR 0x0A \<noteq> digit n"
proof -
  have "nat (n mod 10) < 10" by simp
  then have "of_char (digit n) = (48 + nat (n mod 10) :: nat)"
    by (simp add: digit_def)
  then show 1: "digit n \<noteq> CHR 0x0A" by auto
  then show "CHR 0x0A \<noteq> digit n" by metis
qed

lemma pad_no_lf [simp]: "CHR 0x0A \<notin> set (pad k n)"
  by (induction k arbitrary: n) auto

lemma decimal_nat_no_lf [simp]: "CHR 0x0A \<notin> set (decimal_nat n)"
proof (induction n rule: decimal_nat.induct)
  case (1 n)
  then show ?case by (subst decimal_nat.simps) auto
qed

lemma decimal_no_lf [simp]: "CHR 0x0A \<notin> set (decimal n)"
  by (simp add: decimal_def)

lemma format_ics_no_lf [simp]: "CHR 0x0A \<notin> set (format_ics t)"
  by (simp add: format_ics_def split: prod.splits)

context world_property
begin

lemma keeps_enqueue:
  assumes "\<And>d m i t. I d \<Longrightarrow> I (d\<lparr>d_outbox := d_outbox d @ [email_of m i t]\<rparr>)"
  shows "keeps W (enqueue m)"
  unfolding enqueue_def
  by (rule keeps_bindE [OF keeps_fresh_id], rule keeps_query) (auto intro: assms)

lemma keeps_enqueue_opt:
  assumes "\<And>d m i t. I d \<Longrightarrow> I (d\<lparr>d_outbox := d_outbox d @ [email_of m i t]\<rparr>)"
  shows "keeps W (enqueue_opt m)"
  unfolding enqueue_opt_def
  by (cases m) (auto intro: keeps_ret keeps_enqueue assms)

end

lemmas enqueue_keeps =
  dbi.keeps_enqueue txi.keeps_enqueue sci.keeps_enqueue both.keeps_enqueue
  dbi.keeps_enqueue_opt txi.keeps_enqueue_opt sci.keeps_enqueue_opt both.keeps_enqueue_opt
declare enqueue_keeps [keeps_intros]

text \<open>Without faults a mail is simply queued.\<close>

lemma enqueue_calm:
  "w_sched w = [] \<Longrightarrow> enqueue m w =
     (Inr (), w\<lparr>w_next_id := Suc (w_next_id w),
        w_db := (w_db w)\<lparr>d_outbox := d_outbox (w_db w) @ [email_of m (w_next_id w) (w_dbnow w)]\<rparr>\<rparr>)"
  by (simp add: enqueue_def bindE_def fresh_id_def query_calm)

lemma enqueue_opt_calm:
  "w_sched w = [] \<Longrightarrow> enqueue_opt mo w = (case mo of None \<Rightarrow> (Inr (), w) | Some m \<Rightarrow> enqueue m w)"
  by (simp add: enqueue_opt_def ret_def split: option.splits)

end
