(* ===== verification/Accounts.thy ===== *)
theory Accounts
  imports Session_Store
begin

text \<open>
  The statements on \<open>users\<close>, \<open>refresh_tokens\<close> and \<open>account_deletions\<close>
  (internal/store/db/users.sql.go, refresh_tokens.sql.go, account_deletions.sql.go), with
  the constraints and the \<open>ON DELETE\<close> actions of the migrations that they set off.
\<close>

section \<open>Users\<close>

text \<open>A row marked deleted is hidden from every query but the ones that look for the row itself.\<close>

definition live :: "user \<Rightarrow> bool" where
  "live u \<longleftrightarrow> u_deleted_at u = None"

definition GetUserByID :: "uuid \<Rightarrow> user request" where
  "GetUserByID i = select_one (\<lambda>d. find (\<lambda>u. u_id u = i \<and> live u) (d_users d))"

definition GetUserByEmail :: "string \<Rightarrow> user request" where
  "GetUserByEmail email = select_one (\<lambda>d. find (\<lambda>u. u_email u = email \<and> live u) (d_users d))"

definition UserActive :: "uuid \<Rightarrow> bool request" where
  "UserActive i = select (\<lambda>d. list_ex (\<lambda>u. u_id u = i \<and> live u) (d_users d))"

definition UserRowExists :: "uuid \<Rightarrow> bool request" where
  "UserRowExists i = select (\<lambda>d. list_ex (\<lambda>u. u_id u = i) (d_users d))"

text \<open>The role check, then the primary key and the unique address.\<close>

definition users_violation :: "user list \<Rightarrow> sqlstate option" where
  "users_violation us =
     (if \<not> list_all (\<lambda>u. u_role u = ''user'' \<or> u_role u = ''coach'' \<or> u_role u = ''admin'') us then Some CheckViolation
      else if \<not> (distinct (map u_id us) \<and> distinct (map u_email us)) then Some UniqueViolation
      else None)"

definition new_user :: "string \<Rightarrow> string \<Rightarrow> string \<Rightarrow> string \<Rightarrow> bool \<Rightarrow> uuid \<Rightarrow> instant \<Rightarrow> user" where
  "new_user email hash name role verified i now =
     \<lparr>u_id = i, u_email = email, u_password_hash = hash, u_display_name = name, u_role = role,
      u_email_verified = verified, u_created_at = now, u_updated_at = now, u_deleted_at = None,
      u_dating_styles = [], u_phases_strong = [], u_phases_working_on = [], u_dating_preferences = []\<rparr>"

definition insert_user :: "(uuid \<Rightarrow> instant \<Rightarrow> user) \<Rightarrow> user request" where
  "insert_user mk =
     bindE fresh_id (\<lambda>i.
     query (\<lambda>w. let u = mk i (w_dbnow w); us = d_users (w_db w) @ [u]
                in case users_violation us of Some v \<Rightarrow> Inl (ErrSql v)
                   | None \<Rightarrow> Inr (u, (w_db w)\<lparr>d_users := us\<rparr>)))"

definition CreateUser :: "string \<Rightarrow> string \<Rightarrow> string \<Rightarrow> string \<Rightarrow> user request" where
  "CreateUser email hash name role = insert_user (new_user email hash name role False)"

definition CreateVerifiedUser :: "string \<Rightarrow> string \<Rightarrow> string \<Rightarrow> string \<Rightarrow> user request" where
  "CreateVerifiedUser email hash name role = insert_user (new_user email hash name role True)"

definition update_user :: "uuid \<Rightarrow> (instant \<Rightarrow> user \<Rightarrow> user) \<Rightarrow> user request" where
  "update_user i f =
     query (\<lambda>w. let d = w_db w; p = (\<lambda>u. u_id u = i \<and> live u) in
       case filter p (d_users d) of [] \<Rightarrow> Inl ErrNoRows
       | u # _ \<Rightarrow> Inr (f (w_dbnow w) u, d\<lparr>d_users := update_where p (f (w_dbnow w)) (d_users d)\<rparr>))"

definition verified_set :: "instant \<Rightarrow> user \<Rightarrow> user" where
  "verified_set now u = u\<lparr>u_email_verified := True, u_updated_at := now\<rparr>"

definition VerifyUserEmail :: "uuid \<Rightarrow> user request" where
  "VerifyUserEmail i = update_user i verified_set"

definition dating_set :: "string list \<Rightarrow> string list \<Rightarrow> string list \<Rightarrow> string \<Rightarrow> instant \<Rightarrow> user \<Rightarrow> user" where
  "dating_set styles strong working preferences now u =
     u\<lparr>u_dating_styles := styles, u_phases_strong := strong, u_phases_working_on := working,
       u_dating_preferences := preferences, u_updated_at := now\<rparr>"

definition UpdateUserDatingProfile :: "uuid \<Rightarrow> string list \<Rightarrow> string list \<Rightarrow> string list \<Rightarrow> string \<Rightarrow> user request" where
  "UpdateUserDatingProfile i styles strong working preferences =
     update_user i (dating_set styles strong working preferences)"

section \<open>Deleting a user\<close>

text \<open>
  What \<open>DELETE FROM users WHERE id = i\<close> sets off.  Rows that refer to the user, or to a row
  that goes, cascade; references to a session that goes become null in events, reviews and
  threads.  The outbox and the recorded deletions refer to nobody.
\<close>

definition gone_session :: "uuid \<Rightarrow> session \<Rightarrow> bool" where
  "gone_session i s \<longleftrightarrow> s_user_id s = i \<or> s_coach_id s = i"

definition gone_thread :: "uuid \<Rightarrow> chat_thread \<Rightarrow> bool" where
  "gone_thread i t \<longleftrightarrow> ct_user_id t = i \<or> ct_coach_id t = i"

definition null_if :: "(uuid \<Rightarrow> bool) \<Rightarrow> uuid option \<Rightarrow> uuid option" where
  "null_if gone r = (case r of None \<Rightarrow> None | Some k \<Rightarrow> if gone k then None else Some k)"

definition cascade_user :: "uuid \<Rightarrow> db \<Rightarrow> db" where
  "cascade_user i d =
     (let sessions = map s_id (filter (gone_session i) (d_sessions d));
          threads = map ct_id (filter (gone_thread i) (d_threads d));
          conversations = map cn_id (filter (\<lambda>c. cn_user_id c = i) (d_conversations d));
          lost = (\<lambda>k. k \<in> set sessions);
          scrapped = (\<lambda>k. k \<in> set conversations)
      in d\<lparr>d_users := filter (\<lambda>u. u_id u \<noteq> i) (d_users d),
           d_coaches := filter (\<lambda>c. c_user_id c \<noteq> i) (d_coaches d),
           d_availability := filter (\<lambda>a. a_coach_id a \<noteq> i) (d_availability d),
           d_sessions := filter (\<lambda>s. \<not> gone_session i s) (d_sessions d),
           d_events := map (\<lambda>e. e\<lparr>pe_session_id := null_if lost (pe_session_id e)\<rparr>) (d_events d),
           d_reviews := map (\<lambda>r. r\<lparr>r_session_id := null_if lost (r_session_id r)\<rparr>)
             (filter (\<lambda>r. r_coach_id r \<noteq> i \<and> r_user_id r \<noteq> i) (d_reviews d)),
           d_tokens := filter (\<lambda>t. t_user_id t \<noteq> i) (d_tokens d),
           d_threads := map (\<lambda>t. t\<lparr>ct_session_id := null_if lost (ct_session_id t)\<rparr>)
             (filter (\<lambda>t. \<not> gone_thread i t) (d_threads d)),
           d_chats := filter (\<lambda>m. cm_thread_id m \<notin> set threads \<and> cm_sender_id m \<noteq> i) (d_chats d),
           d_conversations := filter (\<lambda>c. cn_user_id c \<noteq> i) (d_conversations d),
           d_messages := filter (\<lambda>m. \<not> scrapped (ms_conversation_id m)) (d_messages d),
           d_analyses := filter (\<lambda>a. \<not> scrapped (an_conversation_id a)) (d_analyses d),
           d_examples := filter (\<lambda>e. \<not> scrapped (te_conversation_id e)) (d_examples d),
           d_notifications := filter (\<lambda>n. nt_user_id n \<noteq> i) (d_notifications d)\<rparr>)"

definition DeleteUser :: "uuid \<Rightarrow> nat request" where
  "DeleteUser i =
     query (\<lambda>w. Inr (length (filter (\<lambda>u. u_id u = i) (d_users (w_db w))),
       if list_ex (\<lambda>u. u_id u = i) (d_users (w_db w)) then cascade_user i (w_db w) else w_db w))"

section \<open>Refresh tokens\<close>

definition tokens_violation :: "db \<Rightarrow> refresh_token list \<Rightarrow> sqlstate option" where
  "tokens_violation d ts =
     (if \<not> (distinct (map t_id ts) \<and> distinct (map t_token_hash ts)) then Some UniqueViolation
      else if \<not> list_all (\<lambda>t. t_user_id t \<in> u_id ` set (d_users d)) ts then Some ForeignKeyViolation
      else None)"

definition CreateRefreshToken :: "uuid \<Rightarrow> string \<Rightarrow> instant \<Rightarrow> uuid \<Rightarrow> refresh_token request" where
  "CreateRefreshToken user_id hash expires_at family_id =
     bindE fresh_id (\<lambda>i.
     query (\<lambda>w. let t = \<lparr>t_id = i, t_user_id = user_id, t_token_hash = hash, t_issued_at = w_dbnow w,
                         t_expires_at = expires_at, t_used_at = None, t_family_id = family_id\<rparr>;
                    ts = d_tokens (w_db w) @ [t]
                in case tokens_violation (w_db w) ts of Some v \<Rightarrow> Inl (ErrSql v)
                   | None \<Rightarrow> Inr (t, (w_db w)\<lparr>d_tokens := ts\<rparr>)))"

definition GetRefreshToken :: "string \<Rightarrow> refresh_token request" where
  "GetRefreshToken hash = select_one (\<lambda>d. find (\<lambda>t. t_token_hash t = hash) (d_tokens d))"

definition usable :: "uuid \<Rightarrow> instant \<Rightarrow> refresh_token \<Rightarrow> bool" where
  "usable i now t \<longleftrightarrow> t_id t = i \<and> t_used_at t = None \<and> now < t_expires_at t"

definition spent_set :: "instant \<Rightarrow> refresh_token \<Rightarrow> refresh_token" where
  "spent_set now t = t\<lparr>t_used_at := Some now\<rparr>"

definition UseRefreshToken :: "uuid \<Rightarrow> nat request" where
  "UseRefreshToken i =
     query (\<lambda>w. let now = w_dbnow w; ts = d_tokens (w_db w) in
       Inr (length (filter (usable i now) ts), (w_db w)\<lparr>d_tokens := update_where (usable i now) (spent_set now) ts\<rparr>))"

text \<open>Spending is a compare-and-set: a second statement finds the token spent.\<close>

interpretation use_once: guarded_update "usable i now" "spent_set now" for i now
  by unfold_locales (simp add: usable_def spent_set_def)

definition delete_tokens :: "(instant \<Rightarrow> refresh_token \<Rightarrow> bool) \<Rightarrow> nat request" where
  "delete_tokens p =
     query (\<lambda>w. let ts = d_tokens (w_db w); q = p (w_dbnow w) in
       Inr (length (filter q ts), (w_db w)\<lparr>d_tokens := filter (\<lambda>t. \<not> q t) ts\<rparr>))"

definition RevokeUserRefreshTokens :: "uuid \<Rightarrow> nat request" where
  "RevokeUserRefreshTokens i = delete_tokens (\<lambda>now t. t_user_id t = i)"

definition DeleteExpiredRefreshTokens :: "nat request" where
  "DeleteExpiredRefreshTokens = delete_tokens (\<lambda>now t. t_expires_at t \<le> now)"

section \<open>Recorded deletions\<close>

text \<open>One statement marks the row and records the deletion, anew if it was recorded before.\<close>

definition deleted_mark :: "instant \<Rightarrow> user \<Rightarrow> user" where
  "deleted_mark now u =
     u\<lparr>u_deleted_at := (case u_deleted_at u of None \<Rightarrow> Some now | Some t \<Rightarrow> Some t), u_updated_at := now\<rparr>"

definition record_deletion :: "uuid \<Rightarrow> instant \<Rightarrow> account_deletion list \<Rightarrow> account_deletion list" where
  "record_deletion i now ds =
     (if list_ex (\<lambda>a. ad_user_id a = i) ds
      then update_where (\<lambda>a. ad_user_id a = i) (\<lambda>a. a\<lparr>ad_requested_at := now, ad_published_at := None\<rparr>) ds
      else ds @ [\<lparr>ad_user_id = i, ad_requested_at = now, ad_published_at = None\<rparr>])"

definition RequestUserDeletion :: "uuid \<Rightarrow> nat request" where
  "RequestUserDeletion i =
     query (\<lambda>w. let d = w_db w; now = w_dbnow w in
       if list_ex (\<lambda>u. u_id u = i) (d_users d)
       then Inr (1, d\<lparr>d_users := update_where (\<lambda>u. u_id u = i) (deleted_mark now) (d_users d),
                      d_deletions := record_deletion i now (d_deletions d)\<rparr>)
       else Inr (0, d))"

definition unpublished :: "uuid \<Rightarrow> account_deletion \<Rightarrow> bool" where
  "unpublished i a \<longleftrightarrow> ad_user_id a = i \<and> ad_published_at a = None"

definition MarkDeletionPublished :: "uuid \<Rightarrow> nat request" where
  "MarkDeletionPublished i =
     query (\<lambda>w. let ds = d_deletions (w_db w) in
       Inr (length (filter (unpublished i) ds),
         (w_db w)\<lparr>d_deletions := update_where (unpublished i) (\<lambda>a. a\<lparr>ad_published_at := Some (w_dbnow w)\<rparr>) ds\<rparr>))"

definition PendingDeletions :: "nat \<Rightarrow> uuid list request" where
  "PendingDeletions limit =
     select (\<lambda>d. map ad_user_id (take limit (sort_key ad_requested_at
       (filter (\<lambda>a. ad_published_at a = None) (d_deletions d)))))"

definition FinishUserDeletion :: "uuid \<Rightarrow> unit request" where
  "FinishUserDeletion i =
     query (\<lambda>w. Inr ((), (w_db w)\<lparr>d_deletions := filter (\<lambda>a. ad_user_id a \<noteq> i) (d_deletions (w_db w))\<rparr>))"

section \<open>References\<close>

text \<open>Every foreign key of the schema.\<close>

definition references_ok :: "db \<Rightarrow> bool" where
  "references_ok d \<longleftrightarrow>
     (let users = u_id ` set (d_users d); coaches = c_user_id ` set (d_coaches d);
          sessions = s_id ` set (d_sessions d); threads = ct_id ` set (d_threads d);
          conversations = cn_id ` set (d_conversations d)
      in coaches \<subseteq> users \<and> a_coach_id ` set (d_availability d) \<subseteq> coaches \<and>
         s_user_id ` set (d_sessions d) \<subseteq> users \<and> s_coach_id ` set (d_sessions d) \<subseteq> coaches \<and>
         set (present pe_session_id (d_events d)) \<subseteq> sessions \<and>
         r_coach_id ` set (d_reviews d) \<subseteq> coaches \<and> r_user_id ` set (d_reviews d) \<subseteq> users \<and>
         set (present r_session_id (d_reviews d)) \<subseteq> sessions \<and>
         t_user_id ` set (d_tokens d) \<subseteq> users \<and>
         ct_user_id ` set (d_threads d) \<subseteq> users \<and> ct_coach_id ` set (d_threads d) \<subseteq> coaches \<and>
         set (present ct_session_id (d_threads d)) \<subseteq> sessions \<and>
         cm_thread_id ` set (d_chats d) \<subseteq> threads \<and> cm_sender_id ` set (d_chats d) \<subseteq> users \<and>
         cn_user_id ` set (d_conversations d) \<subseteq> users \<and>
         ms_conversation_id ` set (d_messages d) \<subseteq> conversations \<and>
         an_conversation_id ` set (d_analyses d) \<subseteq> conversations \<and>
         te_conversation_id ` set (d_examples d) \<subseteq> conversations \<and>
         nt_user_id ` set (d_notifications d) \<subseteq> users)"

text \<open>The user is in no row but those that refer to nobody.\<close>

definition mentions :: "uuid \<Rightarrow> db \<Rightarrow> bool" where
  "mentions i d \<longleftrightarrow>
     i \<in> u_id ` set (d_users d) \<or> i \<in> c_user_id ` set (d_coaches d) \<or> i \<in> a_coach_id ` set (d_availability d) \<or>
     list_ex (gone_session i) (d_sessions d) \<or> i \<in> r_coach_id ` set (d_reviews d) \<or> i \<in> r_user_id ` set (d_reviews d) \<or>
     i \<in> t_user_id ` set (d_tokens d) \<or> list_ex (gone_thread i) (d_threads d) \<or> i \<in> cm_sender_id ` set (d_chats d) \<or>
     i \<in> cn_user_id ` set (d_conversations d) \<or> i \<in> nt_user_id ` set (d_notifications d)"

lemma mem_present: "k \<in> set (present f xs) \<longleftrightarrow> (\<exists>x \<in> set xs. f x = Some k)"
  by (induction xs) (auto simp: present_def List.map_filter_simps split: option.splits)

lemma null_if_Some: "null_if gone r = Some k \<longleftrightarrow> r = Some k \<and> \<not> gone k"
  by (auto simp: null_if_def split: option.splits)

text \<open>
  A user's rows and everything that hangs on them go together: no reference dangles, and no
  row of another user but those hanging on them is lost.
\<close>

lemma cascade_mentions: "\<not> mentions i (cascade_user i d)"
  by (auto simp: mentions_def cascade_user_def Let_def list_ex_iff gone_thread_def image_image)

end
