(* ===== verification/Paid_Booking.thy ===== *)
theory Paid_Booking
  imports Scheduling Emails Accounts
begin

text \<open>
  Paid bookings (internal/coaching/payment.go): the price of a session, the
  pending-payment hold and its checkout, webhook events, the capture made when the coach
  confirms, and the periodic reconciliation with the provider.  Also what every session
  handler shares: the API view of a session and confirmation tokens.
\<close>

section \<open>Shared by the session handlers\<close>

record session_view =
  sv_id :: string
  sv_user_id :: string
  sv_coach_id :: string
  sv_counterpart :: string
  sv_scheduled_time :: string
  sv_duration_minutes :: int
  sv_status :: string
  sv_topic :: string
  sv_coach_notes :: string
  sv_meeting_url :: string
  sv_respond_by :: string
  sv_payment_status :: string
  sv_amount_cents :: int
  sv_currency :: string
  sv_hold_expires_at :: string
  sv_checkout_url :: string

definition rfc3339_opt :: "instant option \<Rightarrow> string" where
  "rfc3339_opt t = (case t of None \<Rightarrow> [] | Some t \<Rightarrow> format_rfc3339 t)"

definition session_of :: "env \<Rightarrow> session \<Rightarrow> string \<Rightarrow> session_view" where
  "session_of env s counterpart =
     \<lparr>sv_id = x_uuid_text env (s_id s), sv_user_id = x_uuid_text env (s_user_id s),
      sv_coach_id = x_uuid_text env (s_coach_id s), sv_counterpart = counterpart,
      sv_scheduled_time = format_rfc3339 (s_scheduled_time s),
      sv_duration_minutes = s_duration_minutes s, sv_status = status_text (s_status s),
      sv_topic = s_topic s, sv_coach_notes = s_coach_notes s, sv_meeting_url = s_meeting_url s,
      sv_respond_by = rfc3339_opt (s_respond_by s),
      sv_payment_status = payment_text (s_payment_status s), sv_amount_cents = s_amount_cents s,
      sv_currency = s_currency s, sv_hold_expires_at = rfc3339_opt (s_hold_expires_at s),
      sv_checkout_url = []\<rparr>"

definition is_slot_conflict :: "go_error \<Rightarrow> bool" where
  "is_slot_conflict e \<longleftrightarrow> e = ErrSql UniqueViolation \<or> e = ErrSql ExclusionViolation"

definition slot_error :: "go_error \<Rightarrow> go_error" where
  "slot_error e = (if is_slot_conflict e then ErrSlotTaken else e)"

section \<open>Price\<close>

text \<open>Go's integer division truncates towards zero.  With int32 arguments nothing leaves int64.\<close>

definition go_div :: "int \<Rightarrow> int \<Rightarrow> int" where
  "go_div a b = sgn a * sgn b * (\<bar>a\<bar> div \<bar>b\<bar>)"

definition price_cents :: "int \<Rightarrow> int \<Rightarrow> int" where
  "price_cents rate duration = go_div (rate * duration + 30) 60"

section \<open>Booking with payment\<close>

definition uuid_nil :: uuid where "uuid_nil = 0"

text \<open>
  What happens when \<open>AttachCheckout\<close> fails.  The assignment has overwritten the session
  variable with the zero row, so the id the hold is released under is the nil UUID.
\<close>

definition attach_failed :: "env \<Rightarrow> string \<Rightarrow> go_error \<Rightarrow> session_view request" where
  "attach_failed env ref e =
     attempt (provider_call (\<lambda>h. p_expire_checkout (x_provider env) h ref) (CallExpireCheckout ref))
       (\<lambda>_. attempt (CancelPendingPaymentSession uuid_nil) (\<lambda>_. throw e) (\<lambda>_. throw e))
       (\<lambda>_. attempt (CancelPendingPaymentSession uuid_nil) (\<lambda>_. throw e) (\<lambda>_. throw e))"

definition hold_lapsed :: "env \<Rightarrow> string \<Rightarrow> uuid \<Rightarrow> session_view request" where
  "hold_lapsed env ref i =
     attempt (provider_call (\<lambda>h. p_expire_checkout (x_provider env) h ref) (CallExpireCheckout ref))
       (\<lambda>_. throw ErrPayment)
       (\<lambda>_. attempt (MarkCheckoutExpired i) (\<lambda>_. throw ErrPayment) (\<lambda>_. throw ErrPayment))"

definition checkout_for :: "env \<Rightarrow> session \<Rightarrow> int \<Rightarrow> int \<Rightarrow> string \<Rightarrow> string \<Rightarrow> instant \<Rightarrow> checkout_input" where
  "checkout_for env s amount duration coach_name user_email hold_until =
     \<lparr>ci_session_id = x_uuid_text env (s_id s), ci_amount_cents = amount, ci_currency = ''usd'',
      ci_description = decimal duration @ '' min coaching session with '' @ coach_name,
      ci_customer_email = user_email, ci_expires_at = hold_until,
      ci_success_url = x_app_url env @ ''/?payment=success&session='' @ x_uuid_text env (s_id s),
      ci_cancel_url = x_app_url env @ ''/?payment=cancelled&session='' @ x_uuid_text env (s_id s)\<rparr>"

definition start_checkout ::
  "env \<Rightarrow> session \<Rightarrow> checkout_input \<Rightarrow> session_view request" where
  "start_checkout env s input =
     attempt (provider_call (\<lambda>h. p_create_checkout (x_provider env) h input) (CallCreateCheckout input))
       (\<lambda>_. bindE (CancelPendingPaymentSession (s_id s)) (\<lambda>_. throw ErrPayment))
       (\<lambda>co. attempt (AttachCheckout (s_id s) (co_ref co))
         (attach_failed env (co_ref co))
         (\<lambda>s'. if s_status s' \<noteq> PendingPayment then hold_lapsed env (co_ref co) (s_id s')
               else ret ((session_of env s' [])\<lparr>sv_checkout_url := co_url co\<rparr>)))"

definition hold_until :: "env \<Rightarrow> instant \<Rightarrow> instant \<Rightarrow> instant" where
  "hold_until env now scheduled =
     (if scheduled < now + x_hold_ttl env then scheduled else now + x_hold_ttl env)"

definition bookPaid :: "env \<Rightarrow> uuid \<Rightarrow> uuid \<Rightarrow> instant \<Rightarrow> int \<Rightarrow> string \<Rightarrow> session_view request" where
  "bookPaid env user_id coach_id scheduled duration topic =
     bindE (GetCoachQuery coach_id) (\<lambda>coach.
     bindE (GetUserByID user_id) (\<lambda>user.
     let amount = price_cents (c_hourly_rate_cents (k_coach coach)) duration in
     bindE (failIf (amount < 0 \<or> max_int32 < amount) ErrInvalidInput) (\<lambda>_.
     bindE (asks w_now) (\<lambda>now.
     bindE (failIf (scheduled - now < min_checkout_window) ErrInvalidInput) (\<lambda>_.
     let hold = hold_until env now scheduled in
     attempt (CreatePendingPaymentSession user_id coach_id scheduled duration topic amount ''usd'' (Some hold))
       (\<lambda>e. throw (slot_error e))
       (\<lambda>s. start_checkout env s
              (checkout_for env s amount duration (k_display_name coach) (u_email user) hold)))))))"

section \<open>Webhook events\<close>

definition ask_coach :: "env \<Rightarrow> uuid \<Rightarrow> string \<Rightarrow> unit request" where
  "ask_coach env i token =
     bindE (asks w_now) (\<lambda>now.
     bindE (GetSessionParties i) (\<lambda>p.
     bindE (enqueue (coach_request env now p token False)) (\<lambda>_.
     enqueue (client_requested env p))))"

definition give_back :: "uuid \<Rightarrow> unit request" where
  "give_back i = bindE (MarkAuthorizationToRelease i) (\<lambda>_. ret ())"

definition authorized :: "env \<Rightarrow> session \<Rightarrow> unit request" where
  "authorized env s =
     bindE random_token (\<lambda>token.
     bindE (asks w_now) (\<lambda>now.
     let respond_by = respond_deadline now (s_scheduled_time s);
         hash = hash_token env token
     in if \<not> now < s_scheduled_time s then
          (if s_status s = PendingPayment
           then bindE (ExpireLateAuthorizedHold (s_id s)) (\<lambda>_. ret ())
           else give_back (s_id s))
        else if s_status s = PendingPayment then
          bindE (AuthorizeSession (s_id s) (Some hash) (Some respond_by)) (\<lambda>_. ask_coach env (s_id s) token)
        else if s_status s = Expired then
          savepoint (ReinstateAuthorizedSession (s_id s) (Some hash) (Some respond_by))
            (\<lambda>e. if e = ErrNoRows \<or> is_slot_conflict e then give_back (s_id s) else throw e)
            (\<lambda>_. ask_coach env (s_id s) token)
        else give_back (s_id s)))"

definition ApplyPaymentEvent :: "env \<Rightarrow> event \<Rightarrow> unit request" where
  "ApplyPaymentEvent env ev =
     (if ev_kind ev = EventIgnored \<or> ev_checkout_ref ev = [] then ret ()
      else transaction
        (attempt (GetSessionByPaymentRefForUpdate (ev_checkout_ref ev)) (\<lambda>e. throw (not_found e)) (\<lambda>s.
         bindE (RecordPaymentEvent (ev_id ev) (Some (s_id s)) (event_text (ev_kind ev))) (\<lambda>inserted.
         if inserted = 0 then abandon ()
         else bindE (case ev_kind ev of
                EventAuthorized \<Rightarrow> authorized env s
              | EventExpired \<Rightarrow> bindE (CancelPendingPaymentSession (s_id s)) (\<lambda>_. ret ())
              | EventIgnored \<Rightarrow> ret ()) (\<lambda>_. commit ())))))"

section \<open>Capture\<close>

definition capture :: "env \<Rightarrow> session \<Rightarrow> unit request" where
  "capture env s =
     (case s_payment_ref s of None \<Rightarrow> throw ErrPayment
      | Some ref \<Rightarrow>
          let key = x_uuid_text env (s_id s) in
          attempt (provider_call (\<lambda>h. p_capture (x_provider env) h ref key) (CallCapture ref key))
            (\<lambda>_. throw ErrPayment)
            (\<lambda>_. bindE (MarkSessionCaptured (s_id s)) (\<lambda>_. ret ())))"

section \<open>Reconciliation\<close>

record sweep_result =
  sw_holds_released :: nat
  sw_checkouts_expired :: nat
  sw_authorizations_freed :: nat
  sw_refunds_issued :: nat

text \<open>One provider call and the row update that records it; a NULL reference would panic.\<close>

definition with_ref :: "session \<Rightarrow> (string \<Rightarrow> unit request) \<Rightarrow> unit request" where
  "with_ref s f = (case s_payment_ref s of None \<Rightarrow> throw Panic | Some ref \<Rightarrow> f ref)"

definition expire_one :: "env \<Rightarrow> session \<Rightarrow> unit request" where
  "expire_one env s = with_ref s (\<lambda>ref.
     bindE (provider_call (\<lambda>h. p_expire_checkout (x_provider env) h ref) (CallExpireCheckout ref)) (\<lambda>_.
     bindE (MarkCheckoutExpired (s_id s)) (\<lambda>_. ret ())))"

definition release_one :: "env \<Rightarrow> session \<Rightarrow> unit request" where
  "release_one env s = with_ref s (\<lambda>ref. let key = x_uuid_text env (s_id s) in
     bindE (provider_call (\<lambda>h. p_release (x_provider env) h ref key) (CallRelease ref key)) (\<lambda>_.
     bindE (MarkAuthorizationReleased (s_id s)) (\<lambda>_. ret ())))"

definition refund_one :: "env \<Rightarrow> session \<Rightarrow> unit request" where
  "refund_one env s = with_ref s (\<lambda>ref. let key = x_uuid_text env (s_id s) in
     bindE (provider_call (\<lambda>h. p_refund (x_provider env) h ref key) (CallRefund ref key)) (\<lambda>_.
     bindE (MarkSessionRefunded (s_id s)) (\<lambda>_. ret ())))"

text \<open>
  The counts are returned with the error, so a pass never fails: its value is the counts
  and the first error.  The next stage runs only when there was none.
\<close>

type_synonym sweep_outcome = "sweep_result \<times> go_error option"

fun sweep_each ::
  "(session \<Rightarrow> unit request) \<Rightarrow> (sweep_result \<Rightarrow> sweep_result) \<Rightarrow> session list \<Rightarrow> sweep_result \<Rightarrow>
   sweep_outcome request" where
  "sweep_each act bump [] res = ret (res, None)"
| "sweep_each act bump (s # ss) res =
     attempt (act s) (\<lambda>e. ret (res, Some e)) (\<lambda>_. sweep_each act bump ss (bump res))"

definition sweep_stage ::
  "session list request \<Rightarrow> (session \<Rightarrow> unit request) \<Rightarrow> (sweep_result \<Rightarrow> sweep_result) \<Rightarrow>
   sweep_outcome \<Rightarrow> sweep_outcome request" where
  "sweep_stage listing act bump out =
     (case out of
        (res, Some e) \<Rightarrow> ret (res, Some e)
      | (res, None) \<Rightarrow> attempt listing (\<lambda>e. ret (res, Some e)) (\<lambda>rows. sweep_each act bump rows res))"

definition SweepPayments :: "env \<Rightarrow> instant \<Rightarrow> sweep_outcome request" where
  "SweepPayments env now =
     (let zero = \<lparr>sw_holds_released = 0, sw_checkouts_expired = 0, sw_authorizations_freed = 0,
                  sw_refunds_issued = 0\<rparr> in
      attempt (ExpirePaymentHolds now) (\<lambda>e. ret (zero, Some e)) (\<lambda>n.
      bindE (sweep_stage ListCheckoutsToExpire (expire_one env)
        (\<lambda>r. r\<lparr>sw_checkouts_expired := Suc (sw_checkouts_expired r)\<rparr>) (zero\<lparr>sw_holds_released := n\<rparr>, None)) (\<lambda>out.
      bindE (sweep_stage ListAuthorizationsToRelease (release_one env)
        (\<lambda>r. r\<lparr>sw_authorizations_freed := Suc (sw_authorizations_freed r)\<rparr>) out) (\<lambda>out.
      sweep_stage ListRefundsDue (refund_one env)
        (\<lambda>r. r\<lparr>sw_refunds_issued := Suc (sw_refunds_issued r)\<rparr>) out))))"

end
