(* ===== verification/Booking.thy ===== *)
theory Booking
  imports Paid_Booking
begin

text \<open>
  The lifecycle of a session (internal/coaching/service.go): booking, the coach's answer,
  expiry, status changes, rescheduling, notes and meeting link, and the session lists.
  A handler that reads a row and later updates it conditionally takes the row it read as an
  argument, so the lemmas hold for a stale row too.
\<close>

section \<open>Booking\<close>

record book_input =
  bi_coach_id :: string
  bi_scheduled_time :: string
  bi_duration_minutes :: int
  bi_topic :: string

definition book_unpaid :: "env \<Rightarrow> uuid \<Rightarrow> uuid \<Rightarrow> instant \<Rightarrow> int \<Rightarrow> string \<Rightarrow> session_view request" where
  "book_unpaid env user_id coach_id scheduled duration topic =
     bindE random_token (\<lambda>token.
     bindE (asks w_now) (\<lambda>now.
     let respond_by = respond_deadline now scheduled; hash = hash_token env token in
     transaction
       (attempt (CreateCoachingSession user_id coach_id scheduled duration topic (Some hash) (Some respond_by))
          (\<lambda>e. throw (slot_error e)) (\<lambda>s.
        bindE (ask_coach env (s_id s) token) (\<lambda>_.
        commit (session_of env s []))))))"

definition BookSession :: "env \<Rightarrow> uuid \<Rightarrow> book_input \<Rightarrow> session_view request" where
  "BookSession env user_id b =
     (case x_parse_uuid env (bi_coach_id b) of None \<Rightarrow> throw ErrInvalidInput
      | Some coach_id \<Rightarrow>
     (case x_parse_rfc3339 env (bi_scheduled_time b) of None \<Rightarrow> throw ErrInvalidInput
      | Some scheduled \<Rightarrow>
     bindE (asks w_now) (\<lambda>now.
     bindE (failIf (scheduled < now) ErrInvalidInput) (\<lambda>_.
     let duration = (if bi_duration_minutes b \<le> 0 then default_session_minutes else bi_duration_minutes b) in
     bindE (assertBookable env coach_id scheduled duration True None) (\<lambda>_.
     if payments_enabled env then bookPaid env user_id coach_id scheduled duration (bi_topic b)
     else book_unpaid env user_id coach_id scheduled duration (bi_topic b))))))"

section \<open>The coach's answer\<close>

definition whyNotPending :: "uuid \<Rightarrow> go_error request" where
  "whyNotPending i =
     attempt (GetCoachingSession i) (\<lambda>_. ret ErrInvalidInput) (\<lambda>s.
     ret (if s_status s = Pending then ErrExpired else ErrInvalidInput))"

definition answer_update :: "bool \<Rightarrow> uuid \<Rightarrow> session request" where
  "answer_update confirm i =
     attempt (if confirm then ConfirmSession i else DeclineSession i)
       (\<lambda>e. if e = ErrNoRows then bindE (whyNotPending i) throw else throw e) ret"

definition answer_capture :: "env \<Rightarrow> bool \<Rightarrow> session \<Rightarrow> session request" where
  "answer_capture env confirm s =
     (if confirm \<and> s_payment_status s = PayAuthorized
      then bindE (capture env s) (\<lambda>_. ret (s\<lparr>s_payment_status := PayPaid\<rparr>))
      else ret s)"

definition answer_mails :: "env \<Rightarrow> bool \<Rightarrow> uuid \<Rightarrow> unit request" where
  "answer_mails env confirm i =
     bindE (asks w_now) (\<lambda>now.
     bindE (GetSessionParties i) (\<lambda>p.
     bindE (enqueue (if confirm then client_confirmed env now p else client_declined env now p)) (\<lambda>_.
     enqueue_opt (coach_calendar_update env now p))))"

definition respond :: "env \<Rightarrow> session \<Rightarrow> string \<Rightarrow> session_view request" where
  "respond env s action =
     bindE (failIf (action \<noteq> ''confirm'' \<and> action \<noteq> ''decline'') ErrInvalidInput) (\<lambda>_.
     bindE (failIf (s_status s \<noteq> Pending) ErrInvalidInput) (\<lambda>_.
     bindE (asks w_now) (\<lambda>now.
     bindE (failIf (case s_respond_by s of None \<Rightarrow> False | Some t \<Rightarrow> t < now) ErrExpired) (\<lambda>_.
     transaction
       (bindE (answer_update (action = ''confirm'') (s_id s)) (\<lambda>updated.
        bindE (answer_capture env (action = ''confirm'') updated) (\<lambda>updated.
        bindE (answer_mails env (action = ''confirm'') (s_id s)) (\<lambda>_.
        commit (session_of env updated [])))))))))"

definition RespondWithToken :: "env \<Rightarrow> uuid \<Rightarrow> string \<Rightarrow> string \<Rightarrow> session_view request" where
  "RespondWithToken env i token action =
     (if token = [] then throw ErrInvalidInput
      else attempt (GetSessionByConfirmationToken i (hash_token env token))
             (\<lambda>e. throw (not_found e)) (\<lambda>s. respond env s action))"

definition RespondAsCoach :: "env \<Rightarrow> uuid \<Rightarrow> uuid \<Rightarrow> string \<Rightarrow> session_view request" where
  "RespondAsCoach env i coach_id action =
     bindE (participant i coach_id) (\<lambda>s.
     if s_coach_id s \<noteq> coach_id then throw ErrForbidden else respond env s action)"

section \<open>Expiry\<close>

definition expire_batch_size :: nat where "expire_batch_size = 100"

definition expire_mails :: "env \<Rightarrow> session \<Rightarrow> unit request" where
  "expire_mails env s =
     bindE (asks w_now) (\<lambda>now.
     bindE (GetSessionParties (s_id s)) (\<lambda>p.
     bindE (enqueue (client_expired env now p)) (\<lambda>_.
     enqueue_opt (coach_calendar_update env now p))))"

definition expireBatch :: "env \<Rightarrow> nat request" where
  "expireBatch env =
     transaction
       (bindE (ExpirePendingSessions expire_batch_size) (\<lambda>expired.
        bindE (forE expired (expire_mails env)) (\<lambda>_.
        commit (length expired))))"

text \<open>The total is returned with the error, as for the payment sweep.\<close>

fun ExpirePending :: "nat \<Rightarrow> env \<Rightarrow> nat \<Rightarrow> (nat \<times> go_error option) request" where
  "ExpirePending 0 env done_so_far = ret (done_so_far, Some OutOfFuel)"
| "ExpirePending (Suc fuel) env done_so_far =
     attempt (expireBatch env) (\<lambda>e. ret (done_so_far, Some e)) (\<lambda>n.
     if n < expire_batch_size then ret (done_so_far + n, None) else ExpirePending fuel env (done_so_far + n))"

section \<open>Status changes\<close>

fun status_transitions :: "session_status \<Rightarrow> session_status set" where
  "status_transitions PendingPayment = {Cancelled}"
| "status_transitions Pending = {Cancelled}"
| "status_transitions Scheduled = {Completed, Cancelled, NoShow}"
| "status_transitions _ = {}"

definition coach_only :: "session_status \<Rightarrow> bool" where
  "coach_only s \<longleftrightarrow> s = Completed \<or> s = NoShow"

definition all_statuses :: "session_status list" where
  "all_statuses = [PendingPayment, Pending, Scheduled, Declined, Expired, Completed, Cancelled, NoShow]"

text \<open>The status a request names; a text that is none of them is in no transition.\<close>

definition status_named :: "string \<Rightarrow> session_status option" where
  "status_named t = find (\<lambda>s. status_text s = t) all_statuses"

definition status_mails :: "env \<Rightarrow> session \<Rightarrow> session_status \<Rightarrow> bool \<Rightarrow> unit request" where
  "status_mails env s status by_coach =
     (if status = Cancelled
      then bindE (asks w_now) (\<lambda>now.
           bindE (GetSessionParties (s_id s)) (\<lambda>p.
           bindE (enqueue (cancelled_mail env now p by_coach)) (\<lambda>_.
           if by_coach \<or> s_status s = Scheduled
           then enqueue (self_calendar_update env now p by_coach) else ret ())))
      else ret ())"

definition set_status_tx :: "env \<Rightarrow> session \<Rightarrow> session_status \<Rightarrow> bool \<Rightarrow> session_view request" where
  "set_status_tx env s status by_coach =
     transaction
       (attempt (UpdateSessionStatus (s_id s) status (s_status s))
          (\<lambda>e. throw (if e = ErrNoRows then ErrInvalidInput else e)) (\<lambda>updated.
        bindE (status_mails env s status by_coach) (\<lambda>_.
        commit (session_of env updated []))))"

text \<open>
  \<open>SetStatus\<close> calls itself when the payment hold it read was gone by the time it tried to
  release it.
\<close>

fun SetStatus :: "nat \<Rightarrow> env \<Rightarrow> uuid \<Rightarrow> uuid \<Rightarrow> string \<Rightarrow> session_view request" where
  "SetStatus 0 env i actor_id status = throw OutOfFuel"
| "SetStatus (Suc fuel) env i actor_id status =
     bindE (participant i actor_id) (\<lambda>s.
     case status_named status of None \<Rightarrow> throw ErrInvalidInput
     | Some target \<Rightarrow>
         bindE (failIf (target \<notin> status_transitions (s_status s)) ErrInvalidInput) (\<lambda>_.
         bindE (failIf (coach_only target \<and> actor_id \<noteq> s_coach_id s) ErrForbidden) (\<lambda>_.
         if s_status s = PendingPayment
         then attempt (ReleasePendingPaymentSession i)
                (\<lambda>e. if e = ErrNoRows then SetStatus fuel env i actor_id status else throw e)
                (\<lambda>updated. ret (session_of env updated []))
         else set_status_tx env s target (actor_id = s_coach_id s))))"

section \<open>Rescheduling\<close>

definition reschedule_tx :: "env \<Rightarrow> session \<Rightarrow> reschedule_params \<Rightarrow> bool \<Rightarrow> string \<Rightarrow> session_view request" where
  "reschedule_tx env s params by_coach token =
     transaction
       (attempt (RescheduleSession params)
          (\<lambda>e. throw (if is_slot_conflict e then ErrSlotTaken
                      else if e = ErrNoRows then ErrInvalidInput else e)) (\<lambda>updated.
        bindE (asks w_now) (\<lambda>now.
        bindE (GetSessionParties (s_id s)) (\<lambda>p.
        bindE (if by_coach
               then bindE (enqueue (coach_rescheduled env now p)) (\<lambda>_.
                    enqueue (self_calendar_update env now p True))
               else enqueue (coach_request env now p token True)) (\<lambda>_.
        commit (session_of env updated []))))))"

definition keep_params :: "session \<Rightarrow> instant \<Rightarrow> reschedule_params" where
  "keep_params s scheduled =
     \<lparr>rp_id = s_id s, rp_scheduled_time = scheduled, rp_status = s_status s,
      rp_confirmation_token = s_confirmation_token s, rp_respond_by = s_respond_by s,
      rp_expected_status = s_status s\<rparr>"

definition Reschedule :: "env \<Rightarrow> uuid \<Rightarrow> uuid \<Rightarrow> string \<Rightarrow> session_view request" where
  "Reschedule env i actor_id scheduled_time =
     (case x_parse_rfc3339 env scheduled_time of None \<Rightarrow> throw ErrInvalidInput
      | Some scheduled \<Rightarrow>
     bindE (asks w_now) (\<lambda>now.
     bindE (failIf (scheduled < now) ErrInvalidInput) (\<lambda>_.
     bindE (participant i actor_id) (\<lambda>s.
     bindE (failIf (s_status s \<noteq> Pending \<and> s_status s \<noteq> Scheduled) ErrInvalidInput) (\<lambda>_.
     bindE (assertBookable env (s_coach_id s) scheduled (s_duration_minutes s) False (Some i)) (\<lambda>_.
     if actor_id = s_coach_id s then reschedule_tx env s (keep_params s scheduled) True []
     else
       bindE random_token (\<lambda>token.
       reschedule_tx env s
         ((keep_params s scheduled)\<lparr>rp_status := Pending,
            rp_confirmation_token := Some (hash_token env token),
            rp_respond_by := Some (respond_deadline now scheduled)\<rparr>) False token)))))))"

section \<open>Notes and meeting link\<close>

definition SetNotes :: "env \<Rightarrow> uuid \<Rightarrow> uuid \<Rightarrow> string \<Rightarrow> session_view request" where
  "SetNotes env i coach_id notes =
     bindE (participant i coach_id) (\<lambda>s.
     if s_coach_id s \<noteq> coach_id then throw ErrForbidden
     else bindE (UpdateSessionNotes i notes) (\<lambda>updated. ret (session_of env updated [])))"

definition normaliseMeetingURL :: "env \<Rightarrow> string \<Rightarrow> string option" where
  "normaliseMeetingURL env raw0 =
     (let raw = trim_space raw0 in
      if raw = [] then Some []
      else (case x_parse_url env raw of None \<Rightarrow> None
            | Some (scheme, host) \<Rightarrow>
                if (scheme \<noteq> ''http'' \<and> scheme \<noteq> ''https'') \<or> host = [] then None else Some raw))"

definition meetingLinkAllowed :: "session \<Rightarrow> unit request" where
  "meetingLinkAllowed s = failIf (s_status s \<noteq> Pending \<and> s_status s \<noteq> Scheduled) ErrInvalidInput"

definition meeting_unchanged :: "env \<Rightarrow> uuid \<Rightarrow> (bool \<times> session_view) request" where
  "meeting_unchanged env i =
     attempt (GetCoachingSession i) (\<lambda>e. throw (not_found e)) (\<lambda>current.
     bindE (meetingLinkAllowed current) (\<lambda>_. abandon (session_of env current [])))"

definition meeting_mails :: "env \<Rightarrow> session \<Rightarrow> unit request" where
  "meeting_mails env updated =
     (if s_status updated = Scheduled
      then bindE (asks w_now) (\<lambda>now.
           bindE (GetSessionParties (s_id updated)) (\<lambda>p.
           bindE (enqueue (meeting_link_changed env now p False)) (\<lambda>_.
           enqueue (meeting_link_changed env now p True))))
      else ret ())"

definition SetMeetingURL :: "env \<Rightarrow> uuid \<Rightarrow> uuid \<Rightarrow> string \<Rightarrow> session_view request" where
  "SetMeetingURL env i coach_id raw =
     (case normaliseMeetingURL env raw of None \<Rightarrow> throw ErrInvalidInput
      | Some url \<Rightarrow>
     bindE (participant i coach_id) (\<lambda>s.
     bindE (failIf (s_coach_id s \<noteq> coach_id) ErrForbidden) (\<lambda>_.
     bindE (meetingLinkAllowed s) (\<lambda>_.
     transaction
       (attempt (UpdateSessionMeetingURL i url)
          (\<lambda>e. if e = ErrNoRows then meeting_unchanged env i else throw e) (\<lambda>updated.
        bindE (meeting_mails env updated) (\<lambda>_.
        commit (session_of env updated []))))))))"

section \<open>Lists\<close>

text \<open>The join with the name of the other side; a session whose other side is gone has no row.\<close>

definition named_session :: "db \<Rightarrow> (session \<Rightarrow> uuid) \<Rightarrow> session \<Rightarrow> (session \<times> string) option" where
  "named_session d other s =
     map_option (\<lambda>u. (s, u_display_name u)) (find (\<lambda>u. u_id u = other s) (d_users d))"

definition ListSessionsForUser :: "uuid \<Rightarrow> string option \<Rightarrow> (session \<times> string) list request" where
  "ListSessionsForUser user_id status =
     select (\<lambda>d. List.map_filter (named_session d s_coach_id)
       (sort_key s_scheduled_time (filter (\<lambda>s. s_user_id s = user_id \<and>
          (status = None \<or> status = Some (status_text (s_status s)))) (d_sessions d))))"

definition ListSessionsForCoach :: "uuid \<Rightarrow> string option \<Rightarrow> instant option \<Rightarrow> (session \<times> string) list request" where
  "ListSessionsForCoach coach_id status from_time =
     select (\<lambda>d. List.map_filter (named_session d s_user_id)
       (sort_key s_scheduled_time (filter (\<lambda>s. s_coach_id s = coach_id \<and>
          (status = None \<or> status = Some (status_text (s_status s))) \<and>
          (case from_time of None \<Rightarrow> True | Some t \<Rightarrow> t \<le> s_scheduled_time s)) (d_sessions d))))"

definition ListForUser :: "env \<Rightarrow> uuid \<Rightarrow> string option \<Rightarrow> session_view list request" where
  "ListForUser env user_id status =
     bindE (ListSessionsForUser user_id status) (\<lambda>rows. ret (map (\<lambda>(s, name). session_of env s name) rows))"

definition ListForCoach :: "env \<Rightarrow> uuid \<Rightarrow> string option \<Rightarrow> instant option \<Rightarrow> session_view list request" where
  "ListForCoach env coach_id status from_time =
     bindE (ListSessionsForCoach coach_id status from_time) (\<lambda>rows. ret (map (\<lambda>(s, name). session_of env s name) rows))"

end
