(* ===== verification/Session_Invariant.thy ===== *)
theory Session_Invariant
  imports Session_Store
begin

text \<open>
  What every row of \<open>coaching_sessions\<close> satisfies between requests, and that each
  statement of theory Session_Store keeps it, under the condition its caller provides.
\<close>

section \<open>The invariant of a row\<close>

text \<open>
  Per lifecycle status: the payment states it can carry, and which of the confirmation
  token, the answer deadline, the confirmation time and the hold deadline are set.
\<close>

fun status_ok :: "session_status \<Rightarrow> session \<Rightarrow> bool" where
  "status_ok PendingPayment s \<longleftrightarrow> s_payment_status s = PayPending \<and> s_confirmation_token s = None \<and>
     s_respond_by s = None \<and>
     (case s_hold_expires_at s of None \<Rightarrow> False | Some h \<Rightarrow> h \<le> s_scheduled_time s)"
| "status_ok Pending s \<longleftrightarrow> s_payment_status s \<in> {PayNotRequired, PayAuthorized, PayPaid} \<and>
     s_confirmation_token s \<noteq> None \<and> s_respond_by s \<noteq> None"
| "status_ok Scheduled s \<longleftrightarrow> s_payment_status s \<in> {PayNotRequired, PayPaid} \<and>
     s_confirmation_token s = None \<and> s_respond_by s = None \<and> s_confirmed_at s \<noteq> None"
| "status_ok Completed s \<longleftrightarrow> s_payment_status s \<in> {PayNotRequired, PayPaid} \<and>
     s_confirmation_token s = None \<and> s_confirmed_at s \<noteq> None"
| "status_ok NoShow s \<longleftrightarrow> s_payment_status s \<in> {PayNotRequired, PayPaid} \<and>
     s_confirmation_token s = None \<and> s_confirmed_at s \<noteq> None"
| "status_ok Declined s \<longleftrightarrow> s_confirmation_token s = None \<and>
     s_payment_status s \<in> {PayNotRequired, PayReleasing, PayReleased, PayRefundDue, PayRefunded}"
| "status_ok Expired s \<longleftrightarrow> s_confirmation_token s = None \<and>
     s_payment_status s \<in> {PayNotRequired, PayFailed, PayExpiring, PayReleasing, PayReleased,
       PayRefundDue, PayRefunded}"
| "status_ok Cancelled s \<longleftrightarrow>
     s_payment_status s \<in> {PayNotRequired, PayFailed, PayExpiring, PayReleasing, PayReleased, PayPaid}"

text \<open>Money moves only for a session with a checkout reference.\<close>

definition row_ok :: "session \<Rightarrow> bool" where
  "row_ok s \<longleftrightarrow> status_ok (s_status s) s \<and>
     (s_payment_ref s = None \<longrightarrow> s_payment_status s \<in> {PayNotRequired, PayPending, PayFailed})"

text \<open>
  \<open>reserved G\<close>: the ids \<open>G\<close> belong to bookings in flight whose checkout is still being
  created, so nobody has attached a reference to their rows.
\<close>

definition reserved :: "uuid set \<Rightarrow> session \<Rightarrow> bool" where
  "reserved G s \<longleftrightarrow> (s_id s \<in> G \<longrightarrow> s_payment_status s \<noteq> PayNotRequired \<and> s_payment_ref s = None)"

definition row_inv :: "uuid set \<Rightarrow> session \<Rightarrow> bool" where
  "row_inv G s \<longleftrightarrow> row_ok s \<and> reserved G s"

definition constraints_ok :: "db \<Rightarrow> bool" where
  "constraints_ok d \<longleftrightarrow> sessions_violation d (d_sessions d) = None"

definition rows_inv :: "(session \<Rightarrow> bool) \<Rightarrow> db \<Rightarrow> bool" where
  "rows_inv R d \<longleftrightarrow> constraints_ok d \<and> list_all R (d_sessions d)"

abbreviation sessions_inv :: "uuid set \<Rightarrow> db \<Rightarrow> bool" where
  "sessions_inv G \<equiv> rows_inv (row_inv G)"

lemmas row_defs = row_inv_def row_ok_def reserved_def

lemma constraints_ok_iff:
  "constraints_ok d \<longleftrightarrow> list_all session_checks (d_sessions d) \<and> distinct (map s_id (d_sessions d)) \<and>
     distinct (present s_confirmation_token (d_sessions d)) \<and> distinct (present s_payment_ref (d_sessions d)) \<and>
     no_overlap (d_sessions d) \<and>
     list_all (\<lambda>s. s_user_id s \<in> u_id ` set (d_users d) \<and> s_coach_id s \<in> c_user_id ` set (d_coaches d)) (d_sessions d)"
  unfolding constraints_ok_def sessions_violation_def by (auto split: if_splits)

lemma constraints_ok_write:
  "sessions_violation d ss = None \<Longrightarrow> constraints_ok (d\<lparr>d_sessions := ss\<rparr>)"
  unfolding constraints_ok_def sessions_violation_def by (auto split: if_splits)

lemma rows_inv_write:
  "write_sessions d ss = Inr d' \<Longrightarrow> list_all R ss \<Longrightarrow> rows_inv R d'"
  by (auto simp: write_sessions_Inr rows_inv_def intro: constraints_ok_write)

lemma rows_inv_mem: "rows_inv R d \<Longrightarrow> s \<in> set (d_sessions d) \<Longrightarrow> R s"
  by (simp add: rows_inv_def list_all_iff)

lemma rows_inv_distinct: "rows_inv R d \<Longrightarrow> distinct (map s_id (d_sessions d))"
  by (simp add: rows_inv_def constraints_ok_iff)

lemma rows_inv_same_id:
  "rows_inv R d \<Longrightarrow> s \<in> set (d_sessions d) \<Longrightarrow> t \<in> set (d_sessions d) \<Longrightarrow> s_id s = s_id t \<Longrightarrow> s = t"
  using rows_inv_distinct distinct_keys_eq by metis

lemma rows_inv_mono: "rows_inv R d \<Longrightarrow> (\<And>s. R s \<Longrightarrow> R' s) \<Longrightarrow> rows_inv R' d"
  by (auto simp: rows_inv_def list_all_iff)

lemma sessions_inv_mono: "sessions_inv H d \<Longrightarrow> G \<subseteq> H \<Longrightarrow> sessions_inv G d"
  by (erule rows_inv_mono) (auto simp: row_inv_def reserved_def)

text \<open>Tables a session's constraints do not look at, and coaches that are only added.\<close>

lemma rows_inv_other_tables [simp]:
  "rows_inv R (d\<lparr>d_outbox := o'\<rparr>) = rows_inv R d"
  "rows_inv R (d\<lparr>d_events := e'\<rparr>) = rows_inv R d"
  "rows_inv R (d\<lparr>d_availability := a'\<rparr>) = rows_inv R d"
  "rows_inv R (d\<lparr>d_reviews := r'\<rparr>) = rows_inv R d"
  by (simp_all add: rows_inv_def constraints_ok_iff)

lemma rows_inv_coaches:
  assumes "rows_inv R d" and "c_user_id ` set (d_coaches d) \<subseteq> c_user_id ` set cs"
  shows "rows_inv R (d\<lparr>d_coaches := cs\<rparr>)"
  using assms by (auto simp: rows_inv_def constraints_ok_iff list_all_iff)

section \<open>Statements on invariant rows\<close>

locale session_frame = world_frame W "rows_inv R" for W and R
begin

lemma keeps_update_rows:
  assumes "\<And>now s. R s \<Longrightarrow> p now s \<Longrightarrow> R (f now s)"
  shows "keeps W (update_sessions p f)" "keeps W (update_one p f)" "keeps W (update_count p f)"
proof -
  have "rows_inv R d'"
    if "rows_inv R d" "write_sessions d (update_where (p now) (f now) (d_sessions d)) = Inr d'" for d now d'
    using that(2)
    by (rule rows_inv_write) (use that(1) assms in \<open>auto simp: rows_inv_def intro: list_all_update_where\<close>)
  then show "keeps W (update_sessions p f)" "keeps W (update_one p f)" "keeps W (update_count p f)"
    by (blast intro: keeps_update_sessions keeps_update_one keeps_update_count)+
qed

end

locale session_world = session_frame + world_property W "rows_inv R"
begin

lemma keeps_insert_row:
  assumes "\<And>i now. R (mk i now)"
  shows "keeps W (insert_session mk)"
  by (rule keeps_insert_session, erule rows_inv_write) (use assms in \<open>simp add: rows_inv_def\<close>)

end

interpretation dbr: session_world "db_inv (rows_inv R)" R for R
  by (simp add: session_world_def session_frame_def dbi.world_frame_axioms dbi.world_property_axioms)

interpretation txr: session_world "tx_inv (rows_inv R)" R for R
  by (simp add: session_world_def session_frame_def txi.world_frame_axioms txi.world_property_axioms)

interpretation ownr: session_frame "own_inv i (rows_inv R) J" R for i R J
  by (simp add: session_frame_def own.world_frame_axioms)

interpretation bothr: session_world "both_inv (rows_inv R) J" R for R J
  by (simp add: session_world_def session_frame_def both.world_frame_axioms both.world_property_axioms)

lemmas update_rows_keeps = dbr.keeps_update_rows txr.keeps_update_rows bothr.keeps_update_rows

lemmas statement_keeps = update_rows_keeps dbr.keeps_insert_row txr.keeps_insert_row


section \<open>The statements, row by row\<close>

text \<open>\<open>set_clause\<close> lemmas: an assignment keeps the row invariant where its guard holds.\<close>

lemma row_created:
  "row_inv G ((new_session u c t dur topic Pending i now)
     \<lparr>s_confirmation_token := Some tok, s_respond_by := Some rb\<rparr>)" if "i \<notin> G"
  using that by (simp add: row_defs new_session_def)

lemma row_held:
  "hold \<le> t \<Longrightarrow> row_inv G ((new_session u c t dur topic PendingPayment i now)
     \<lparr>s_payment_status := PayPending, s_amount_cents := amount, s_currency := cur, s_hold_expires_at := Some hold\<rparr>)"
  by (simp add: row_defs new_session_def)

lemma row_decline: "row_inv G s \<Longrightarrow> answerable now s \<Longrightarrow> row_inv G (decline_set now s)"
  by (cases "s_payment_status s") (auto simp: row_defs decline_set_def answerable_def)

lemma row_expire: "row_inv G s \<Longrightarrow> overdue now s \<Longrightarrow> row_inv G (expire_set now s)"
  by (cases "s_payment_status s") (auto simp: row_defs expire_set_def overdue_def)

lemma row_status_changed:
  assumes "row_inv G s" and "s_status s \<in> {Pending, Scheduled}"
    and "target = Cancelled \<or> s_status s = Scheduled \<and> target \<in> {Completed, NoShow}"
  shows "row_inv G (status_set target now s)"
  using assms by (auto simp: row_defs status_set_def)

definition reschedule_ok :: "reschedule_params \<Rightarrow> bool" where
  "reschedule_ok p \<longleftrightarrow> rp_expected_status p \<in> {Pending, Scheduled} \<and>
     (rp_status p = Pending \<and> rp_confirmation_token p \<noteq> None \<and> rp_respond_by p \<noteq> None \<or>
      rp_status p = Scheduled \<and> rp_expected_status p = Scheduled \<and>
      rp_confirmation_token p = None \<and> rp_respond_by p = None)"

lemma row_rescheduled:
  "row_inv G s \<Longrightarrow> reschedule_ok p \<Longrightarrow> s_status s = rp_expected_status p \<Longrightarrow>
   row_inv G (reschedule_set p now s)"
  by (auto simp: row_defs reschedule_set_def reschedule_ok_def)

lemma row_notes: "row_inv G s \<Longrightarrow> row_inv G (s\<lparr>s_coach_notes := n, s_updated_at := now\<rparr>)"
  by (cases "s_status s") (auto simp: row_defs split: option.splits)

lemma row_meeting: "row_inv G s \<Longrightarrow> meeting_guard url now s \<Longrightarrow> row_inv G (meeting_set url now s)"
  by (auto simp: row_defs meeting_set_def meeting_guard_def)

lemma row_hold_cancelled: "row_inv G s \<Longrightarrow> awaiting_payment now s \<Longrightarrow> row_inv G (cancel_hold_set now s)"
  by (simp add: row_defs cancel_hold_set_def)

lemma row_hold_released: "row_inv G s \<Longrightarrow> awaiting_payment now s \<Longrightarrow> row_inv G (release_hold_set now s)"
  by (auto simp: row_defs release_hold_set_def close_checkout_def)

lemma row_lapsed: "row_inv G s \<Longrightarrow> lapsed limit now s \<Longrightarrow> row_inv G (lapse_set now s)"
  by (auto simp: row_defs lapse_set_def lapsed_def close_checkout_def)

lemma row_authorized:
  "row_inv G s \<Longrightarrow> s_payment_ref s \<noteq> None \<Longrightarrow>
   row_inv G (authorize_set (Some tok) (Some rb) now s)"
  by (auto simp: row_defs authorize_set_def)

lemma row_late: "row_inv G s \<Longrightarrow> awaiting_payment now s \<Longrightarrow> s_payment_ref s \<noteq> None \<Longrightarrow> row_inv G (late_set now s)"
  by (auto simp: row_defs late_set_def awaiting_payment_def)

lemma row_to_release:
  "row_inv G s \<Longrightarrow> release_guard now s \<Longrightarrow> s_status s \<noteq> PendingPayment \<Longrightarrow> s_payment_ref s \<noteq> None \<Longrightarrow>
   row_inv G (pay_set PayReleasing now s)"
  by (cases "s_status s") (auto simp: row_defs pay_set_def release_guard_def)

lemma row_released: "row_inv G s \<Longrightarrow> pay_guard PayReleasing now s \<Longrightarrow> row_inv G (pay_set PayReleased now s)"
  by (cases "s_status s") (auto simp: row_defs pay_set_def pay_guard_def)

lemma row_checkout_expired: "row_inv G s \<Longrightarrow> pay_guard PayExpiring now s \<Longrightarrow> row_inv G (pay_set PayFailed now s)"
  by (cases "s_status s") (auto simp: row_defs pay_set_def pay_guard_def)

lemma row_refunded: "row_inv G s \<Longrightarrow> pay_guard PayRefundDue now s \<Longrightarrow> row_inv G (pay_set PayRefunded now s)"
  by (cases "s_status s") (auto simp: row_defs pay_set_def pay_guard_def)

text \<open>Attaching a checkout to a row nobody else may attach one to.\<close>

lemma row_attached:
  "row_inv (insert i G) s \<Longrightarrow> i \<notin> G \<Longrightarrow> s_id s = i \<Longrightarrow> row_inv G (attach_set ref now s)"
  by (cases "s_status s") (auto simp: row_defs attach_set_def split: option.splits)

lemmas row_rules = row_decline row_expire row_notes row_meeting row_hold_cancelled row_hold_released
  row_lapsed row_released row_checkout_expired row_refunded


section \<open>The statements as computations\<close>

text \<open>
  A world in which every session row satisfies its invariant; the statements that need
  nothing from their caller keep it.
\<close>

locale coaching_world = session_world W "row_inv G" for W and G
begin

lemma keeps_by_id:
  assumes "\<And>now s. row_inv G s \<Longrightarrow> p now s \<Longrightarrow> row_inv G (f now s)"
  shows "keeps W (update_one (by_id i p) f)" "keeps W (update_count (by_id i p) f)"
  using assms by (auto simp: by_id_def intro!: keeps_update_rows)

lemma keeps_holds:
  "keeps W (CancelPendingPaymentSession i)" "keeps W (ReleasePendingPaymentSession i)"
  "keeps W (ExpirePaymentHolds limit)"
  unfolding session_query_defs
  by (intro keeps_by_id keeps_update_rows row_rules; assumption)+

lemma keeps_marks:
  "keeps W (MarkAuthorizationReleased i)" "keeps W (MarkCheckoutExpired i)" "keeps W (MarkSessionRefunded i)"
  unfolding session_query_defs
  by (intro keeps_by_id row_rules; assumption)+

lemma keeps_edits:
  "keeps W (DeclineSession i)" "keeps W (UpdateSessionNotes i notes)" "keeps W (UpdateSessionMeetingURL i url)"
  unfolding session_query_defs
  by (intro keeps_by_id row_rules; assumption)+

lemma keeps_UpdateSessionStatus:
  assumes "expected \<in> {Pending, Scheduled}"
    and "target = Cancelled \<or> expected = Scheduled \<and> target \<in> {Completed, NoShow}"
  shows "keeps W (UpdateSessionStatus i target expected)"
  unfolding session_query_defs
  by (rule keeps_by_id) (use assms in \<open>auto intro!: row_status_changed\<close>)

lemma keeps_RescheduleSession: "reschedule_ok p \<Longrightarrow> keeps W (RescheduleSession p)"
  unfolding session_query_defs by (rule keeps_by_id) (auto intro: row_rescheduled)

lemma overdue_ids_mem:
  assumes "distinct (map s_id ss)" and "s \<in> set ss" and "s_id s \<in> set (overdue_ids limit now ss)"
  shows "overdue now s"
proof -
  from assms(3) obtain t where "t \<in> set ss" "overdue now t" "s_id t = s_id s"
    by (fastforce simp: overdue_ids_def dest: in_set_takeD)
  with assms(1,2) show ?thesis using distinct_keys_eq by metis
qed

lemma keeps_ExpirePendingSessions: "keeps W (ExpirePendingSessions limit)"
proof -
  have "sessions_inv G d'"
    if inv: "sessions_inv G d"
      and wr: "write_sessions d (update_where (\<lambda>s. s_id s \<in> set (overdue_ids limit now (d_sessions d)))
                   (expire_set now) (d_sessions d)) = Inr d'" for d d' now
  proof (rule rows_inv_write [OF wr])
    have "row_inv G (if s_id s \<in> set (overdue_ids limit now (d_sessions d)) then expire_set now s else s)"
      if "s \<in> set (d_sessions d)" for s
      using that rows_inv_mem [OF inv that] overdue_ids_mem [OF rows_inv_distinct [OF inv] that]
      by (auto intro: row_expire)
    then show "list_all (row_inv G) (update_where (\<lambda>s. s_id s \<in> set (overdue_ids limit now (d_sessions d)))
                   (expire_set now) (d_sessions d))"
      by (auto simp: list_all_iff set_update_where)
  qed
  then show ?thesis
    unfolding ExpirePendingSessions_def Let_def
    by (intro keeps_query) (auto split: sum.splits)
qed

end

interpretation dbc: coaching_world "db_inv (sessions_inv G)" G for G
  by (simp add: coaching_world_def dbr.session_world_axioms)

interpretation txc: coaching_world "tx_inv (sessions_inv G)" G for G
  by (simp add: coaching_world_def txr.session_world_axioms)

interpretation bothc: coaching_world "both_inv (sessions_inv G) J" G for G J
  by (simp add: coaching_world_def bothr.session_world_axioms)

lemmas coaching_keeps =
  dbc.keeps_holds txc.keeps_holds bothc.keeps_holds dbc.keeps_marks txc.keeps_marks
  dbc.keeps_edits txc.keeps_edits dbc.keeps_UpdateSessionStatus dbc.keeps_RescheduleSession
  dbc.keeps_ExpirePendingSessions
declare coaching_keeps [keeps_intros]

section \<open>Creating a row\<close>

text \<open>An insert draws the id; its outcome differs from its error in who the row belongs to.\<close>

lemma hoare_insert_session:
  assumes "\<And>d now d'. I d \<Longrightarrow> write_sessions d (d_sessions d @ [mk i now]) = Inr d' \<Longrightarrow> I' d'"
  shows "hoare (own_inv i I J) (insert_session mk)
           (\<lambda>s w. s \<in> range (mk i) \<and> I' (w_db w) \<and> rely I (w_sched w) \<and> rely J (w_sched w)) (\<lambda>_. db_inv I)"
proof -
  have "case insert_session mk w of
          (Inr s, w') \<Rightarrow> s \<in> range (mk i) \<and> I' (w_db w') \<and> rely I (w_sched w') \<and> rely J (w_sched w')
        | (Inl e, w') \<Rightarrow> db_inv I w'" if own: "own_inv i I J w" for w
  proof -
    define w0 where "w0 = w\<lparr>w_next_id := Suc (w_next_id w)\<rparr>"
    obtain b w1 where n: "next_entry w0 = (b, w1)" by (cases "next_entry w0")
    have "both_inv I J w0" using own by (simp add: w0_def own_inv_def both_inv_def db_inv_def)
    with n have b1: "both_inv I J w1" by (blast intro: both_inv_entry)
    then have I1: "I (w_db w1)" by (simp add: both_inv_def db_inv_def)
    have i: "w_next_id w = i" using own by (simp add: own_inv_def)
    have eq: "insert_session mk w =
        (if b then (Inl ErrDriver, w1)
         else case write_sessions (w_db w1) (d_sessions (w_db w1) @ [mk i (w_dbnow w1)]) of
                Inl e \<Rightarrow> (Inl e, w1) | Inr d \<Rightarrow> (Inr (mk i (w_dbnow w1)), w1\<lparr>w_db := d\<rparr>))"
      using n i
      by (cases b)
        (simp_all add: insert_session_def bindE_def fresh_id_def query_def w0_def Let_def split: sum.splits)
    show ?thesis
      unfolding eq using b1 assms [OF I1]
      by (auto simp: both_inv_def db_inv_def split: sum.splits)
  qed
  then show ?thesis by (simp add: hoare_def)
qed

lemma rows_inv_append:
  "rows_inv R d \<Longrightarrow> write_sessions d (d_sessions d @ [s]) = Inr d' \<Longrightarrow> R s \<Longrightarrow> rows_inv R d'"
  by (erule rows_inv_write) (simp add: rows_inv_def)

lemma leads_CreateCoachingSession:
  assumes "i \<notin> G"
  shows "leads (own_inv i (sessions_inv G) J) (db_inv (sessions_inv G))
           (CreateCoachingSession u c t dur topic (Some tok) (Some rb))"
proof -
  have "hoare (own_inv i (sessions_inv G) J) (CreateCoachingSession u c t dur topic (Some tok) (Some rb))
          (\<lambda>s w. s \<in> range (\<lambda>now. (new_session u c t dur topic Pending i now)
              \<lparr>s_confirmation_token := Some tok, s_respond_by := Some rb\<rparr>) \<and> sessions_inv G (w_db w) \<and>
            rely (sessions_inv G) (w_sched w) \<and> rely J (w_sched w)) (\<lambda>_. db_inv (sessions_inv G))"
    unfolding CreateCoachingSession_def
    by (rule hoare_insert_session, erule rows_inv_append) (use row_created [OF assms] in auto)
  then show ?thesis
    unfolding leads_def hoare_def db_inv_def by (fastforce split: prod.splits sum.splits)
qed

text \<open>A new hold belongs to the request that made it until its checkout is attached.\<close>

lemma hoare_CreatePendingPaymentSession:
  assumes "i \<notin> G" and "hold \<le> t"
  shows "hoare (own_inv i (sessions_inv G) (sessions_inv (insert i G)))
           (CreatePendingPaymentSession u c t dur topic amount cur (Some hold))
           (\<lambda>s w. s_id s = i \<and> both_inv (sessions_inv (insert i G)) (sessions_inv G) w)
           (\<lambda>_. db_inv (sessions_inv G))"
proof -
  let ?mk = "\<lambda>i now. (new_session u c t dur topic PendingPayment i now)
         \<lparr>s_payment_status := PayPending, s_amount_cents := amount, s_currency := cur, s_hold_expires_at := Some hold\<rparr>"
  have step: "sessions_inv (insert i G) d'"
    if inv: "sessions_inv G d" and wr: "write_sessions d (d_sessions d @ [?mk i now]) = Inr d'" for d d' now
  proof (rule rows_inv_write [OF wr])
    have "distinct (map s_id (d_sessions d @ [?mk i now]))"
      using wr by (auto simp: write_sessions_Inr sessions_violation_def split: if_splits)
    then have "\<forall>s \<in> set (d_sessions d). s_id s \<noteq> i" by (auto simp: new_session_def)
    moreover have "\<forall>s \<in> set (d_sessions d). row_inv G s" using inv by (simp add: rows_inv_def list_all_iff)
    ultimately have "\<forall>s \<in> set (d_sessions d). row_inv (insert i G) s"
      by (auto simp: row_inv_def reserved_def)
    then show "list_all (row_inv (insert i G)) (d_sessions d @ [?mk i now])"
      using row_held [OF assms(2)] by (simp add: list_all_iff)
  qed
  have "hoare (own_inv i (sessions_inv G) (sessions_inv (insert i G)))
          (CreatePendingPaymentSession u c t dur topic amount cur (Some hold))
          (\<lambda>s w. s \<in> range (?mk i) \<and> sessions_inv (insert i G) (w_db w) \<and>
            rely (sessions_inv G) (w_sched w) \<and> rely (sessions_inv (insert i G)) (w_sched w))
          (\<lambda>_. db_inv (sessions_inv G))"
    unfolding CreatePendingPaymentSession_def by (rule hoare_insert_session [OF step])
  then show ?thesis
    unfolding hoare_def both_inv_def db_inv_def
    by (fastforce simp: new_session_def split: prod.splits sum.splits)
qed

lemma leads_AttachCheckout:
  assumes "i \<notin> G"
  shows "leads (both_inv (sessions_inv (insert i G)) (sessions_inv G)) (db_inv (sessions_inv G))
           (AttachCheckout i ref)"
proof (rule leadsI)
  fix w assume inv: "both_inv (sessions_inv (insert i G)) (sessions_inv G) w"
  obtain b w1 where n: "next_entry w = (b, w1)" by (cases "next_entry w")
  with inv have b1: "both_inv (sessions_inv (insert i G)) (sessions_inv G) w1" by (rule both_inv_entry)
  then have ins: "sessions_inv (insert i G) (w_db w1)" and rel: "rely (sessions_inv G) (w_sched w1)"
    by (simp_all add: both_inv_def db_inv_def)
  then have 1: "db_inv (sessions_inv G) w1"
    by (auto simp: db_inv_def intro: sessions_inv_mono)
  define ss where "ss = update_where (by_id i (\<lambda>_ _. True) (w_dbnow w1)) (attach_set ref (w_dbnow w1)) (d_sessions (w_db w1))"
  have rows: "list_all (row_inv G) ss"
  proof -
    have "row_inv G (if s_id s = i then attach_set ref (w_dbnow w1) s else s)"
      if "s \<in> set (d_sessions (w_db w1))" for s
    proof (cases "s_id s = i")
      case True
      with rows_inv_mem [OF ins that] assms show ?thesis by (simp add: row_attached)
    next
      case False
      with rows_inv_mem [OF ins that] show ?thesis by (simp add: row_inv_def reserved_def)
    qed
    then show ?thesis by (auto simp: list_all_iff ss_def set_update_where by_id_def)
  qed
  have eq: "snd (AttachCheckout i ref w) =
      (if b then w1 else case write_sessions (w_db w1) ss of Inl e \<Rightarrow> w1 | Inr d \<Rightarrow> w1\<lparr>w_db := d\<rparr>)"
    using n
    by (cases b) (simp_all add: AttachCheckout_def update_one_def update_sessions_def bindE_def
        query_def Let_def ss_def ret_def throw_def split: list.splits sum.splits)
  show "db_inv (sessions_inv G) (snd (AttachCheckout i ref w))"
    unfolding eq using 1 rows_inv_write [OF _ rows]
    by (auto simp: db_inv_def split: sum.splits)
qed

end
