(* ===== verification/Session_Updates.thy ===== *)
theory Session_Updates
  imports Session_Invariant
begin

text \<open>
  Updates that cannot break a constraint, and what the statements of theory Session_Store
  do when no fault or interference is left.
\<close>

section \<open>Gentle updates\<close>

text \<open>
  An assignment that keeps the keys, references and lengths of a row, at most clears the
  token, and does not make the row hold a slot or a time it did not hold.
\<close>

definition gentle :: "(session \<Rightarrow> session) \<Rightarrow> session \<Rightarrow> bool" where
  "gentle f s \<longleftrightarrow> s_id (f s) = s_id s \<and> s_user_id (f s) = s_user_id s \<and> s_coach_id (f s) = s_coach_id s \<and>
     s_payment_ref (f s) = s_payment_ref s \<and> s_duration_minutes (f s) = s_duration_minutes s \<and>
     s_amount_cents (f s) = s_amount_cents s \<and> s_confirmation_token (f s) \<in> {s_confirmation_token s, None} \<and>
     (holds_slot (f s) \<longrightarrow> holds_slot s \<and> s_scheduled_time (f s) = s_scheduled_time s)"

lemma present_simps [simp]:
  "present k [] = []"
  "present k (r # rs) = (case k r of None \<Rightarrow> present k rs | Some x \<Rightarrow> x # present k rs)"
  by (simp_all add: present_def List.map_filter_simps split: option.splits)

lemma set_present: "x \<in> set (present k rs) \<longleftrightarrow> (\<exists>r \<in> set rs. k r = Some x)"
  by (induction rs) (auto split: option.splits)

lemma distinct_present_update:
  assumes "distinct (present k rs)" and "\<And>r. r \<in> set rs \<Longrightarrow> p r \<Longrightarrow> k (f r) \<in> {k r, None}"
  shows "distinct (present k (update_where p f rs))"
  using assms
proof (induction rs)
  case (Cons r rs)
  have sub: "set (present k (update_where p f rs)) \<subseteq> set (present k rs)"
  proof
    fix x assume "x \<in> set (present k (update_where p f rs))"
    then obtain q where q: "q \<in> set rs" "k (if p q then f q else q) = Some x"
      unfolding set_present by (auto simp: set_update_where)
    with Cons.prems(2) [of q] have "k q = Some x" by (cases "p q") auto
    with q(1) show "x \<in> set (present k rs)" by (auto simp: set_present)
  qed
  have rs: "distinct (present k rs)" using Cons.prems(1) by (simp split: option.splits)
  have IH: "distinct (present k (update_where p f rs))"
    by (rule Cons.IH [OF rs]) (use Cons.prems(2) in simp)
  have "k (if p r then f r else r) \<in> {k r, None}" using Cons.prems(2) [of r] by simp
  then show ?case
    using Cons.prems(1) sub IH by (cases "k r"; cases "k (if p r then f r else r)") auto
qed simp

lemma clash_gentle: "gentle f s \<Longrightarrow> gentle g t \<Longrightarrow> clash (f s) (g t) \<Longrightarrow> clash s t"
  by (auto simp: gentle_def clash_def session_end_def)

lemma gentle_id: "gentle (\<lambda>s. s) s"
  by (simp add: gentle_def)

lemma no_overlap_gentle:
  assumes "no_overlap ss" and "\<And>s. s \<in> set ss \<Longrightarrow> gentle f s"
  shows "no_overlap (map f ss)"
  using assms clash_gentle unfolding no_overlap_def sorted_wrt_map
  by (metis (mono_tags, lifting) sorted_wrt_mono_rel)

lemma gentle_no_violation:
  assumes ok: "constraints_ok d" and g: "\<And>s. s \<in> set (d_sessions d) \<Longrightarrow> p s \<Longrightarrow> gentle f s"
  shows "sessions_violation d (update_where p f (d_sessions d)) = None"
proof -
  let ?ss = "d_sessions d" and ?h = "\<lambda>s. if p s then f s else s"
  have h: "gentle ?h s" if "s \<in> set ?ss" for s using g [OF that] by (auto simp: gentle_def)
  have 1: "list_all session_checks (update_where p f ?ss)"
    using ok g by (force simp: constraints_ok_iff list_all_iff set_update_where gentle_def session_checks_def)
  have "map s_id (update_where p f ?ss) = map s_id ?ss"
    using h by (auto simp: update_where_def gentle_def)
  then have 2: "distinct (map s_id (update_where p f ?ss))" using ok by (simp add: constraints_ok_iff)
  have 3: "distinct (present s_confirmation_token (update_where p f ?ss))"
    by (rule distinct_present_update) (use ok g in \<open>auto simp: constraints_ok_iff gentle_def\<close>)
  have 4: "distinct (present s_payment_ref (update_where p f ?ss))"
    by (rule distinct_present_update) (use ok g in \<open>auto simp: constraints_ok_iff gentle_def\<close>)
  have 5: "no_overlap (update_where p f ?ss)"
    unfolding update_where_def using ok h by (auto simp: constraints_ok_iff intro: no_overlap_gentle)
  have 6: "list_all (\<lambda>s. s_user_id s \<in> u_id ` set (d_users d) \<and> s_coach_id s \<in> c_user_id ` set (d_coaches d))
      (update_where p f ?ss)"
    using ok g by (force simp: constraints_ok_iff list_all_iff set_update_where gentle_def)
  show ?thesis unfolding sessions_violation_def using 1 2 3 4 5 6 by simp
qed

lemma gentle_sets:
  "answerable now s \<Longrightarrow> gentle (confirm_set now') s" "gentle (decline_set now') s" "gentle (expire_set now') s"
  "st \<notin> {PendingPayment, Pending, Scheduled} \<Longrightarrow> gentle (status_set st now') s"
  "gentle (\<lambda>s. s\<lparr>s_coach_notes := n, s_updated_at := now'\<rparr>) s" "gentle (meeting_set url now') s"
  "gentle (cancel_hold_set now') s" "gentle (release_hold_set now') s" "gentle (late_set now') s"
  "gentle (lapse_set now') s" "gentle (pay_set pay now') s"
  by (auto simp: gentle_def set_clause_defs holds_slot_def answerable_def)

section \<open>Statements that run undisturbed\<close>

definition with_sessions :: "(session list \<Rightarrow> session list) \<Rightarrow> world \<Rightarrow> world" where
  "with_sessions f w = w\<lparr>w_db := (w_db w)\<lparr>d_sessions := f (d_sessions (w_db w))\<rparr>\<rparr>"

lemma with_sessions_simps [simp]:
  "w_sched (with_sessions f w) = w_sched w" "w_in_tx (with_sessions f w) = w_in_tx w"
  "w_now (with_sessions f w) = w_now w" "w_dbnow (with_sessions f w) = w_dbnow w"
  "w_calls (with_sessions f w) = w_calls w" "w_random (with_sessions f w) = w_random w"
  "w_next_id (with_sessions f w) = w_next_id w"
  "d_sessions (w_db (with_sessions f w)) = f (d_sessions (w_db w))"
  "d_users (w_db (with_sessions f w)) = d_users (w_db w)" "d_coaches (w_db (with_sessions f w)) = d_coaches (w_db w)"
  "d_outbox (w_db (with_sessions f w)) = d_outbox (w_db w)" "d_events (w_db (with_sessions f w)) = d_events (w_db w)"
  by (simp_all add: with_sessions_def)

lemma update_sessions_calm:
  assumes "w_sched w = []"
    and "sessions_violation (w_db w) (update_where (p (w_dbnow w)) (f (w_dbnow w)) (d_sessions (w_db w))) = None"
  shows "update_sessions p f w =
    (Inr (map (f (w_dbnow w)) (filter (p (w_dbnow w)) (d_sessions (w_db w)))),
     with_sessions (update_where (p (w_dbnow w)) (f (w_dbnow w))) w)"
  using assms by (simp add: update_sessions_def query_calm write_sessions_def Let_def with_sessions_def)

text \<open>A statement on the one row with an id.\<close>

lemma filter_by_id:
  assumes "distinct (map s_id ss)" and "s \<in> set ss"
  shows "filter (by_id (s_id s) p now) ss = (if p now s then [s] else [])"
  using assms by (induction ss) (auto simp: by_id_def filter_empty_conv image_iff)

lemma update_by_id:
  assumes "distinct (map s_id ss)" and "s \<in> set ss"
  shows "update_where (by_id (s_id s) p now) f ss = (if p now s then update_where (\<lambda>t. s_id t = s_id s) f ss else ss)"
proof -
  have "by_id (s_id s) p now t \<longleftrightarrow> s_id t = s_id s \<and> p now s" if "t \<in> set ss" for t
    using distinct_keys_eq [OF assms(1) that assms(2)] by (auto simp: by_id_def)
  then show ?thesis
    by (cases "p now s") (auto simp: update_where_def intro!: map_idI)
qed

lemma update_one_calm:
  assumes calm: "w_sched w = []" and ok: "constraints_ok (w_db w)" and s: "s \<in> set (d_sessions (w_db w))"
    and g: "p (w_dbnow w) s \<Longrightarrow> gentle (f (w_dbnow w)) s"
  shows "update_one (by_id (s_id s) p) f w =
    (if p (w_dbnow w) s
     then (Inr (f (w_dbnow w) s), with_sessions (update_where (\<lambda>t. s_id t = s_id s) (f (w_dbnow w))) w)
     else (Inl ErrNoRows, w))"
    and "update_count (by_id (s_id s) p) f w =
    (if p (w_dbnow w) s
     then (Inr 1, with_sessions (update_where (\<lambda>t. s_id t = s_id s) (f (w_dbnow w))) w)
     else (Inr 0, w))"
proof -
  have dist: "distinct (map s_id (d_sessions (w_db w)))" using ok by (simp add: constraints_ok_iff)
  have "sessions_violation (w_db w) (update_where (by_id (s_id s) p (w_dbnow w)) (f (w_dbnow w)) (d_sessions (w_db w))) = None"
  proof (rule gentle_no_violation [OF ok])
    fix t assume "t \<in> set (d_sessions (w_db w))" "by_id (s_id s) p (w_dbnow w) t"
    moreover from this have "t = s" using distinct_keys_eq [OF dist] s by (simp add: by_id_def)
    ultimately show "gentle (f (w_dbnow w)) t" using g by (simp add: by_id_def)
  qed
  note run = update_sessions_calm [of w "by_id (s_id s) p" f, OF calm this]
  have same: "with_sessions (\<lambda>ss. ss) w = w" by (simp add: with_sessions_def)
  have upd: "with_sessions (update_where (by_id (s_id s) p (w_dbnow w)) (f (w_dbnow w))) w =
      (if p (w_dbnow w) s then with_sessions (update_where (\<lambda>t. s_id t = s_id s) (f (w_dbnow w))) w else w)"
    using update_by_id [OF dist s] by (simp add: with_sessions_def)
  show "update_one (by_id (s_id s) p) f w =
    (if p (w_dbnow w) s
     then (Inr (f (w_dbnow w) s), with_sessions (update_where (\<lambda>t. s_id t = s_id s) (f (w_dbnow w))) w)
     else (Inl ErrNoRows, w))"
    by (simp add: update_one_def bindE_def run upd filter_by_id [OF dist s] ret_def throw_def)
  show "update_count (by_id (s_id s) p) f w =
    (if p (w_dbnow w) s
     then (Inr 1, with_sessions (update_where (\<lambda>t. s_id t = s_id s) (f (w_dbnow w))) w)
     else (Inr 0, w))"
    by (simp add: update_count_def bindE_def run upd filter_by_id [OF dist s] ret_def)
qed

lemma constraints_ok_with_sessions:
  "constraints_ok (w_db w) \<Longrightarrow> (\<And>s. s \<in> set (d_sessions (w_db w)) \<Longrightarrow> p s \<Longrightarrow> gentle f s) \<Longrightarrow>
   constraints_ok (w_db (with_sessions (update_where p f) w))"
  unfolding with_sessions_def by (simp add: constraints_ok_write gentle_no_violation)

lemma constraints_ok_with_row:
  assumes "constraints_ok (w_db w)" and "s \<in> set (d_sessions (w_db w))" and "gentle f s"
  shows "constraints_ok (w_db (with_sessions (update_where (\<lambda>t. s_id t = s_id s) f) w))"
proof (rule constraints_ok_with_sessions [OF assms(1)])
  fix t assume "t \<in> set (d_sessions (w_db w))" "s_id t = s_id s"
  with assms(1,2) have "t = s" using distinct_keys_eq [of s_id "d_sessions (w_db w)" t s]
    by (simp add: constraints_ok_iff)
  with assms(3) show "gentle f t" by simp
qed

lemma with_row_mem:
  "u \<in> set (d_sessions (w_db w)) \<Longrightarrow> s_id u = i \<Longrightarrow>
   f u \<in> set (d_sessions (w_db (with_sessions (update_where (\<lambda>t. s_id t = i) f) w)))"
  by (auto simp: set_update_where intro!: bexI [of _ u])

lemma GetCoachingSession_calm:
  "w_sched w = [] \<Longrightarrow> GetCoachingSession i w =
     (case find (\<lambda>s. s_id s = i) (d_sessions (w_db w)) of None \<Rightarrow> (Inl ErrNoRows, w) | Some s \<Rightarrow> (Inr s, w))"
  by (simp add: GetCoachingSession_def select_one_calm)

lemma find_id: "constraints_ok d \<Longrightarrow> s \<in> set (d_sessions d) \<Longrightarrow> find (\<lambda>t. s_id t = s_id s) (d_sessions d) = Some s"
  using find_key_unique [of s_id "d_sessions d" s] by (simp add: constraints_ok_iff)

lemma GetSessionParties_calm:
  "w_sched w = [] \<Longrightarrow> GetSessionParties i w =
     (case parties_of i (w_db w) of None \<Rightarrow> (Inl ErrNoRows, w) | Some p \<Rightarrow> (Inr p, w))"
  by (simp add: GetSessionParties_def select_one_calm)

text \<open>Every coach has an account (the key of \<open>coaches\<close> references \<open>users\<close>).\<close>

definition coaches_have_accounts :: "db \<Rightarrow> bool" where
  "coaches_have_accounts d \<longleftrightarrow> c_user_id ` set (d_coaches d) \<subseteq> u_id ` set (d_users d)"

lemma find_in_image: "k \<in> f ` set xs \<Longrightarrow> \<exists>x. find (\<lambda>x. f x = k) xs = Some x"
  by (induction xs) auto

lemma parties_exist:
  assumes "constraints_ok d" "coaches_have_accounts d" "s \<in> set (d_sessions d)"
  shows "\<exists>p. parties_of (s_id s) d = Some p"
proof -
  have keys: "s_user_id s \<in> u_id ` set (d_users d)" "s_coach_id s \<in> c_user_id ` set (d_coaches d)"
    using assms(1,3) by (auto simp: constraints_ok_iff list_all_iff)
  moreover have "s_coach_id s \<in> u_id ` set (d_users d)"
    using keys(2) assms(2) by (auto simp: coaches_have_accounts_def)
  ultimately obtain u cu c where "find (\<lambda>u. u_id u = s_user_id s) (d_users d) = Some u"
    "find (\<lambda>u. u_id u = s_coach_id s) (d_users d) = Some cu"
    "find (\<lambda>c. c_user_id c = s_coach_id s) (d_coaches d) = Some c"
    using find_in_image by metis
  with find_id [OF assms(1,3)] show ?thesis by (simp add: parties_of_def)
qed

lemma update_where_const:
  assumes "distinct (map s_id ss)" and "s \<in> set ss"
  shows "update_where (\<lambda>t. s_id t = s_id s) f ss = update_where (\<lambda>t. s_id t = s_id s) (\<lambda>_. f s) ss"
proof -
  have "f t = f s" if "t \<in> set ss" "s_id t = s_id s" for t
    using distinct_keys_eq [OF assms(1) that(1) assms(2) that(2)] by simp
  then show ?thesis by (auto simp: update_where_def)
qed

section \<open>Provider calls\<close>

text \<open>What only database operations leave alone.\<close>

definition calls_are :: "provider_call list \<Rightarrow> world \<Rightarrow> bool" where
  "calls_are cs w \<longleftrightarrow> w_calls w = cs"

lemma keeps_calls_are [keeps_intros]:
  "keeps (calls_are cs) (query f)" "keeps (calls_are cs) fresh_id"
proof -
  have "w_calls (snd (query f w)) = w_calls w" for w
    using next_entry_frame(6) [of w] by (auto simp: query_def split: prod.splits bool.splits sum.splits)
  then show "keeps (calls_are cs) (query f)" by (simp add: keeps_def calls_are_def)
  show "keeps (calls_are cs) fresh_id" by (simp add: keeps_def calls_are_def fresh_id_def)
qed

end
