(* ===== verification/Coaching_Invariant.thy ===== *)
theory Coaching_Invariant
  imports Booking Session_Updates
begin

text \<open>
  Every coaching operation keeps the invariant of the session table
  (\<open>sessions_inv\<close>, theory Session_Invariant), whatever faults and interference its
  statements meet, as long as the interference keeps it too.
\<close>

section \<open>Parts that only read, write mail, or draw a token\<close>

context world_frame
begin

lemma keeps_reads:
  "keeps W (GetCoachQuery c)" "keeps W (GetCoachingSession i)" "keeps W (GetSessionParties i)"
  "keeps W (GetUserByID u)" "keeps W (ListBookedSlots c from until)" "keeps W (ListCoachAvailability c)"
  "keeps W (GetSessionByConfirmationToken i tok)" "keeps W (GetSessionByPaymentRefForUpdate ref)"
  "keeps W ListCheckoutsToExpire" "keeps W ListAuthorizationsToRelease" "keeps W ListRefundsDue"
  "keeps W (ListCoachesQuery limit offset acc phase)" "keeps W (ListCoachesByStatusQuery st limit offset)"
  unfolding session_select_defs directory_query_defs GetUserByID_def
  by (rule keeps_select keeps_select_one)+

lemma keeps_random_token: "keeps W random_token"
  by (auto simp: keeps_def random_token_def W_random split: list.splits)

lemma keeps_participant: "keeps W (participant i u)"
  unfolding participant_def by (intro keeps_intros keeps_reads)

lemma keeps_directory_reads:
  "keeps W (GetCoach env c)" "keeps W (ListAvailability c)"
  unfolding GetCoach_def ListAvailability_def by (intro keeps_intros keeps_reads)+

lemma keeps_assertBookable: "keeps W (assertBookable env c start dur acc ex)"
  unfolding assertBookable_def by (intro keeps_intros keeps_reads keeps_directory_reads)

lemma keeps_OpenSlots: "keeps W (OpenSlots env fuel c u from to dur ex)"
  unfolding OpenSlots_def excluded_session_ok_def
  by (intro keeps_intros keeps_reads keeps_directory_reads keeps_participant)

lemma keeps_lists:
  "keeps W (ListCoaches env limit offset acc phase)" "keeps W (ListCoachesByApproval env st limit offset)"
  "keeps W (ListForUser env u so)" "keeps W (ListForCoach env c so from)"
  unfolding ListCoaches_def ListCoachesByApproval_def ListForUser_def ListForCoach_def ListSessionsForUser_def ListSessionsForCoach_def
  by (intro keeps_intros keeps_reads keeps_select)+

end

context coaching_world
begin

lemma keeps_mail: "keeps W (enqueue m)" "keeps W (enqueue_opt mo)"
  by (intro keeps_enqueue keeps_enqueue_opt; simp)+

lemma keeps_mails:
  "keeps W (ask_coach env i tok)" "keeps W (answer_mails env confirm i)" "keeps W (expire_mails env s)"
  "keeps W (status_mails env s st by_coach)" "keeps W (meeting_mails env s)"
  unfolding ask_coach_def answer_mails_def expire_mails_def status_mails_def meeting_mails_def
  by (intro keeps_intros keeps_reads keeps_mail)+

end

lemmas part_keeps =
  dbi.keeps_reads txi.keeps_reads sci.keeps_reads own.keeps_reads both.keeps_reads
  dbi.keeps_random_token txi.keeps_random_token sci.keeps_random_token own.keeps_random_token
  dbi.keeps_participant own.keeps_participant dbi.keeps_directory_reads own.keeps_directory_reads
  dbi.keeps_assertBookable own.keeps_assertBookable dbi.keeps_OpenSlots dbi.keeps_lists
  dbc.keeps_mail txc.keeps_mail dbc.keeps_mails txc.keeps_mails
declare part_keeps [keeps_intros]

section \<open>Reading a row\<close>

lemma yields_select_one:
  assumes "\<And>d x. I d \<Longrightarrow> f d = Some x \<Longrightarrow> V x"
  shows "yields (db_inv I) (select_one f) V"
  unfolding yields_def select_one_Inr
proof (intro allI impI, elim exE conjE)
  fix w x w' w1
  assume inv: "db_inv I w" and n: "next_entry w = (False, w1)" and f: "f (w_db w1) = Some x"
  from next_entry_inv [OF inv n] have "I (w_db w1)" by (simp add: db_inv_def)
  then show "V x" using f by (rule assms)
qed

lemma yields_participant: "yields (db_inv (sessions_inv G)) (participant i u) (row_inv G)"
proof -
  have "yields (db_inv (sessions_inv G)) (GetCoachingSession i) (row_inv G)"
    unfolding GetCoachingSession_def
    by (rule yields_select_one) (auto dest!: find_Some_mem intro: rows_inv_mem)
  then show ?thesis
    unfolding yields_def participant_def
    by (fastforce simp: go_results split: if_splits)
qed

section \<open>The handlers\<close>

lemma rows_inv_coach_update:
  assumes "rows_inv R d" and "\<And>c. c_user_id (f c) = c_user_id c"
  shows "rows_inv R (d\<lparr>d_coaches := update_where p f (d_coaches d)\<rparr>)"
proof (rule rows_inv_coaches [OF assms(1)])
  have "map c_user_id (update_where p f (d_coaches d)) = map c_user_id (d_coaches d)"
    by (rule map_update_where) (rule assms(2))
  then show "c_user_id ` set (d_coaches d) \<subseteq> c_user_id ` set (update_where p f (d_coaches d))"
    by (metis list.set_map order_refl)
qed

lemma keeps_SetCoachApproval: "keeps (db_inv (sessions_inv G)) (SetCoachApproval env i st)"
proof -
  have "keeps (db_inv (sessions_inv G)) (SetCoachApprovalQuery i s)" for s
    unfolding SetCoachApprovalQuery_def
    by (rule dbi.keeps_query)
      (auto simp: Let_def approval_set_def split: option.splits intro!: rows_inv_coach_update)
  then show ?thesis unfolding SetCoachApproval_def by (intro keeps_intros)
qed

lemma keeps_UpsertProfile: "keeps (db_inv (sessions_inv G)) (UpsertProfile env i p)"
proof -
  have "keeps (db_inv (sessions_inv G)) (UpsertCoachProfile i q)" for q
    unfolding UpsertCoachProfile_def
    by (rule dbi.keeps_query)
      (fastforce simp: Let_def profile_set_def split: option.splits if_splits
        intro: rows_inv_coach_update rows_inv_coaches)
  then show ?thesis unfolding UpsertProfile_def Let_def by (intro keeps_intros)
qed

lemma keeps_SetAvailability: "keeps (db_inv (sessions_inv G)) (SetAvailability i ws)"
proof -
  have "keeps (db_inv (sessions_inv G)) (AddCoachAvailability i v)" for v
    unfolding AddCoachAvailability_def
    by (rule keeps_bindE [OF dbi.keeps_fresh_id], rule dbi.keeps_query)
      (auto simp: Let_def split: if_splits)
  moreover have "keeps (db_inv (sessions_inv G)) (ReplaceCoachAvailability i)"
    unfolding ReplaceCoachAvailability_def by (rule dbi.keeps_query) auto
  ultimately show ?thesis unfolding SetAvailability_def by (intro keeps_intros)
qed

lemma keeps_SetNotes: "keeps (db_inv (sessions_inv G)) (SetNotes env i c notes)"
  unfolding SetNotes_def by (intro keeps_intros)

lemma keeps_SetMeetingURL: "keeps (db_inv (sessions_inv G)) (SetMeetingURL env i c raw)"
  unfolding SetMeetingURL_def meeting_unchanged_def meetingLinkAllowed_def by (intro keeps_intros)

lemma keeps_expireBatch: "keeps (db_inv (sessions_inv G)) (expireBatch env)"
  unfolding expireBatch_def by (intro keeps_intros)

lemma keeps_ExpirePending: "keeps (db_inv (sessions_inv G)) (ExpirePending fuel env n)"
  by (induction fuel arbitrary: n) (auto intro!: keeps_intros keeps_expireBatch)

lemma status_transitions_cases:
  "target \<in> status_transitions st \<Longrightarrow> st \<noteq> PendingPayment \<Longrightarrow>
   st \<in> {Pending, Scheduled} \<and> (target = Cancelled \<or> st = Scheduled \<and> target \<in> {Completed, NoShow})"
  by (cases st) auto

lemma keeps_SetStatus: "keeps (db_inv (sessions_inv G)) (SetStatus fuel env i u st)"
proof (induction fuel)
  case 0
  show ?case by (simp add: keeps_throw)
next
  case (Suc fuel)
  show ?case
    unfolding SetStatus.simps set_status_tx_def
    by (intro keeps_guard keeps_intros Suc) (auto dest: status_transitions_cases)
qed


lemma keeps_reschedule_tx:
  "reschedule_ok p \<Longrightarrow> keeps (db_inv (sessions_inv G)) (reschedule_tx env s p by_coach tok)"
  unfolding reschedule_tx_def by (intro keeps_intros) auto

lemma reschedule_ok_keep:
  "row_inv G s \<Longrightarrow> s_status s \<in> {Pending, Scheduled} \<Longrightarrow> reschedule_ok (keep_params s t)"
  by (auto simp: row_defs reschedule_ok_def keep_params_def)

lemma reschedule_ok_reask:
  "s_status s \<in> {Pending, Scheduled} \<Longrightarrow>
   reschedule_ok ((keep_params s t)\<lparr>rp_status := Pending, rp_confirmation_token := Some tok, rp_respond_by := Some rb\<rparr>)"
  by (auto simp: reschedule_ok_def keep_params_def)

lemma keeps_Reschedule: "keeps (db_inv (sessions_inv G)) (Reschedule env i u st)"
  unfolding Reschedule_def
  by (intro keeps_guard keeps_bindE_yields [OF dbi.keeps_participant yields_participant] keeps_intros
      keeps_reschedule_tx)
    (auto intro: reschedule_ok_keep reschedule_ok_reask)

section \<open>Reconciliation\<close>

lemma keeps_sweep_each:
  "(\<And>s. keeps W (act s)) \<Longrightarrow> keeps W (sweep_each act bump ss res)"
  by (induction ss arbitrary: res) (auto intro!: keeps_intros)

lemma keeps_sweep_stage:
  "keeps W listing \<Longrightarrow> (\<And>s. keeps W (act s)) \<Longrightarrow> keeps W (sweep_stage listing act bump out)"
  unfolding sweep_stage_def by (intro keeps_intros keeps_sweep_each)

lemma keeps_SweepPayments: "keeps (db_inv (sessions_inv G)) (SweepPayments env now)"
  unfolding SweepPayments_def Let_def expire_one_def release_one_def refund_one_def with_ref_def
  by (intro keeps_intros keeps_sweep_stage)


section \<open>Webhook events\<close>

text \<open>
  The row a webhook found under a checkout reference: it has one, and for the rest of the
  transaction its status is the one that was read.
\<close>

definition row_found :: "uuid set \<Rightarrow> session \<Rightarrow> db \<Rightarrow> bool" where
  "row_found G s d \<longleftrightarrow> sessions_inv G d \<and>
     (\<forall>t \<in> set (d_sessions d). s_id t = s_id s \<longrightarrow> s_payment_ref t \<noteq> None \<and> s_status t = s_status s)"

lemma row_found_mem:
  assumes inv: "sessions_inv G d" and mem: "s \<in> set (d_sessions d)" and ref: "s_payment_ref s \<noteq> None"
  shows "row_found G s d"
  unfolding row_found_def
proof (intro conjI ballI impI)
  fix t assume "t \<in> set (d_sessions d)" and "s_id t = s_id s"
  with rows_inv_same_id [OF inv _ mem] have "t = s" by blast
  with ref show "s_payment_ref t \<noteq> None" "s_status t = s_status s" by simp_all
qed (rule inv)

lemma leads_found_update:
  assumes "\<And>now t. row_inv G t \<Longrightarrow> s_payment_ref t \<noteq> None \<Longrightarrow> s_status t = s_status s \<Longrightarrow> p now t \<Longrightarrow>
             row_inv G (f now t)"
  shows "leads (tx_inv (row_found G s)) (tx_inv (sessions_inv G)) (update_one (by_id (s_id s) p) f)"
    "leads (tx_inv (row_found G s)) (tx_inv (sessions_inv G)) (update_count (by_id (s_id s) p) f)"
proof -
  have step: "sessions_inv G d'"
    if found: "row_found G s d"
      and wr: "write_sessions d (update_where (by_id (s_id s) p now) (f now) (d_sessions d)) = Inr d'" for d now d'
  proof (rule rows_inv_write [OF wr])
    have "row_inv G (if by_id (s_id s) p now t then f now t else t)" if "t \<in> set (d_sessions d)" for t
      using found that assms by (auto simp: row_found_def by_id_def dest: rows_inv_mem)
    then show "list_all (row_inv G) (update_where (by_id (s_id s) p now) (f now) (d_sessions d))"
      by (auto simp: list_all_iff set_update_where)
  qed
  show "leads (tx_inv (row_found G s)) (tx_inv (sessions_inv G)) (update_one (by_id (s_id s) p) f)"
    by (rule leads_update_tx(2) [OF _ step]) (simp_all add: row_found_def)
  show "leads (tx_inv (row_found G s)) (tx_inv (sessions_inv G)) (update_count (by_id (s_id s) p) f)"
    by (rule leads_update_tx(3) [OF _ step]) (simp_all add: row_found_def)
qed

lemma leads_give_back:
  "s_status s \<noteq> PendingPayment \<Longrightarrow>
   leads (tx_inv (row_found G s)) (tx_inv (sessions_inv G)) (give_back (s_id s))"
  unfolding give_back_def MarkAuthorizationToRelease_def
  by (rule leads_bindE [OF leads_found_update(2)]) (auto intro: row_to_release leads_ret)

lemma leads_authorized: "leads (tx_inv (row_found G s)) (tx_inv (sessions_inv G)) (authorized env s)"
proof -
  have weak: "tx_inv (sessions_inv G) w" if "tx_inv (row_found G s) w" for w
    using that by (simp add: tx_inv_def row_found_def)
  have found: "leads (tx_inv (row_found G s)) (tx_inv (row_found G s)) random_token"
    "leads (tx_inv (row_found G s)) (tx_inv (row_found G s)) (asks w_now)"
    by (simp_all add: leads_keeps txi.keeps_random_token keeps_asks)
  have mail: "leads (tx_inv (sessions_inv G)) (tx_inv (sessions_inv G)) (ask_coach env i tok)" for i tok
    by (simp add: leads_keeps txc.keeps_mails)
  have late: "leads (tx_inv (row_found G s)) (tx_inv (sessions_inv G)) (ExpireLateAuthorizedHold (s_id s))"
    unfolding ExpireLateAuthorizedHold_def
    by (rule leads_found_update(2)) (rule row_late)
  have auth: "leads (tx_inv (row_found G s)) (tx_inv (sessions_inv G)) (AuthorizeSession (s_id s) (Some h) (Some rb))"
    "leads (tx_inv (row_found G s)) (tx_inv (sessions_inv G)) (ReinstateAuthorizedSession (s_id s) (Some h) (Some rb))"
    for h rb
    unfolding AuthorizeSession_def ReinstateAuthorizedSession_def
    by (rule leads_found_update(1), erule (1) row_authorized)+
  show ?thesis
    unfolding authorized_def Let_def
    apply (rule leads_bindE [OF found(1) weak], assumption)
    apply (rule leads_bindE [OF found(2) weak], assumption)
    apply (auto intro!: leads_bindE [OF late] leads_bindE [OF auth(1)] leads_ret mail leads_give_back
        leads_savepoint_tx [OF auth(2)] leads_throw weak)
    done
qed


lemma hoare_found:
  "hoare (tx_inv (sessions_inv G)) (GetSessionByPaymentRefForUpdate ref)
     (\<lambda>s. tx_inv (row_found G s)) (\<lambda>_. tx_inv (sessions_inv G))"
proof -
  have "case GetSessionByPaymentRefForUpdate ref w of
          (Inr s, w') \<Rightarrow> tx_inv (row_found G s) w' | (Inl e, w') \<Rightarrow> tx_inv (sessions_inv G) w'"
    if w: "tx_inv (sessions_inv G) w" for w
  proof -
    obtain r w' where run: "GetSessionByPaymentRefForUpdate ref w = (r, w')"
      by (cases "GetSessionByPaymentRefForUpdate ref w")
    from keepsD [OF txi.keeps_reads(8) w run] have w': "tx_inv (sessions_inv G) w'" .
    show ?thesis
    proof (cases r)
      case (Inr s)
      with run have "find (\<lambda>s. s_payment_ref s = Some ref) (d_sessions (w_db w')) = Some s"
        by (auto simp: GetSessionByPaymentRefForUpdate_def select_one_Inr)
      then have "s \<in> set (d_sessions (w_db w')) \<and> s_payment_ref s = Some ref" by (rule find_Some_mem)
      with w' have "tx_inv (row_found G s) w'" by (auto simp: tx_inv_def intro: row_found_mem)
      with run Inr show ?thesis by simp
    qed (use run w' in simp)
  qed
  then show ?thesis by (simp add: hoare_def)
qed

lemma keeps_record_event: "keeps (tx_inv (row_found G s)) (RecordPaymentEvent i so kind)"
  unfolding RecordPaymentEvent_def
  by (rule txi.keeps_query) (auto simp: Let_def row_found_def split: if_splits)

lemmas event_handler_defs = authorized_def give_back_def ask_coach_def session_query_defs
  session_select_defs RecordPaymentEvent_def Let_def

lemma schedule_event_handler:
  "keeps (sched_inv I) (GetSessionByPaymentRefForUpdate ref)"
  "keeps (sched_inv I) (RecordPaymentEvent i so kind)"
  "keeps (sched_inv I) (authorized env s)"
  "keeps (sched_inv I) (CancelPendingPaymentSession j)"
  unfolding event_handler_defs by (intro keeps_intros TrueI)+

lemma keeps_ApplyPaymentEvent: "keeps (db_inv (sessions_inv G)) (ApplyPaymentEvent env ev)"
proof -
  have weak: "tx_inv (sessions_inv G) w" if "tx_inv (row_found G s) w" for w s
    using that by (simp add: tx_inv_def row_found_def)
  have cancel: "leads (tx_inv (row_found G s)) (tx_inv (sessions_inv G)) (CancelPendingPaymentSession i)" for s i
    by (rule leads_weaken [OF _ weak]) (auto simp: leads_keeps txc.keeps_holds)
  show ?thesis
    unfolding ApplyPaymentEvent_def
    apply (rule keeps_if, rule keeps_ret)
    apply (rule keeps_transaction_tx)
     apply (subst leads_keeps [symmetric])
     apply (rule leads_attempt_hoare [OF hoare_found])
      apply (simp add: leads_throw)
     apply (rule leads_bindE [OF keeps_record_event [folded leads_keeps] weak], assumption)
     apply (auto simp: abandon_def commit_def leads_ret weak split: event_kind.splits
        intro!: leads_bindE [OF leads_authorized] leads_bindE [OF cancel] leads_bindE [where R = "tx_inv (sessions_inv G)"] leads_ret weak) []
    apply (intro keeps_intros schedule_event_handler)
    apply (auto split: event_kind.splits intro!: keeps_intros schedule_event_handler)
    done
qed

section \<open>Booking\<close>

lemma leads_after: "(\<And>w. P w \<Longrightarrow> db_inv I w) \<Longrightarrow> keeps (db_inv I) m \<Longrightarrow> leads P (db_inv I) m"
  by (simp add: leads_def keeps_def)

lemma own_inv_weak: "own_inv i I J w \<Longrightarrow> db_inv I w"
  by (simp add: own_inv_def)

lemma leads_book_unpaid:
  assumes "i \<notin> G"
  shows "leads (own_inv i (sessions_inv G) J) (db_inv (sessions_inv G)) (book_unpaid env u c t dur topic)"
proof -
  have body: "leads (own_inv i (sessions_inv G) J) (db_inv (sessions_inv G))
      (attempt (CreateCoachingSession u c t dur topic (Some hash) (Some rb)) (\<lambda>e. throw (slot_error e)) (\<lambda>s.
        bindE (ask_coach env (s_id s) tok) (\<lambda>_. commit (session_of env s []))))" for hash rb tok
    by (rule leads_attempt [OF leads_CreateCoachingSession [OF assms]])
      (auto simp: leads_keeps intro!: keeps_intros)
  show ?thesis
    unfolding book_unpaid_def Let_def
    apply (rule leads_bindE [OF own.keeps_random_token [folded leads_keeps] own_inv_weak], assumption)
    apply (rule leads_bindE [OF keeps_asks [folded leads_keeps] own_inv_weak], assumption)
    apply (rule leads_transaction [OF body own_inv_weak own_inv_entry])
      apply (assumption | simp add: own_inv_def db_inv_def)+
    done
qed

lemma leads_start_checkout:
  assumes "i \<notin> G" and "s_id s = i"
  shows "leads (both_inv (sessions_inv (insert i G)) (sessions_inv G)) (db_inv (sessions_inv G))
           (start_checkout env s input)"
proof -
  have weak: "db_inv (sessions_inv G) w" if "both_inv (sessions_inv (insert i G)) (sessions_inv G) w" for w
    using that by (auto simp: both_inv_def db_inv_def intro: sessions_inv_mono)
  show ?thesis
    unfolding start_checkout_def
    apply (rule leads_attempt [OF both.keeps_provider_call [folded leads_keeps]])
     apply (rule leads_bindE [OF bothc.keeps_holds(1) [folded leads_keeps] weak], assumption)
     apply (rule leads_throw, erule weak)
    apply (simp only: assms(2))
    apply (rule leads_attempt [OF leads_AttachCheckout [OF assms(1)]])
     apply (auto simp: leads_keeps attach_failed_def hold_lapsed_def intro!: keeps_intros)
    done
qed


lemma leads_own_read:
  assumes "keeps (own_inv i I J) m" and "\<And>x. leads (own_inv i I J) (db_inv I) (f x)"
  shows "leads (own_inv i I J) (db_inv I) (bindE m f)"
  by (rule leads_bindE [OF assms(1) [folded leads_keeps] own_inv_weak assms(2)])

lemma hold_until_le: "hold_until env now t \<le> t"
  by (simp add: hold_until_def)

lemma leads_bookPaid:
  assumes "i \<notin> G"
  shows "leads (own_inv i (sessions_inv G) (sessions_inv (insert i G))) (db_inv (sessions_inv G))
           (bookPaid env u c t dur topic)"
proof -
  have start: "leads (\<lambda>w. s_id s = i \<and> both_inv (sessions_inv (insert i G)) (sessions_inv G) w) (db_inv (sessions_inv G))
      (start_checkout env s (input s))" for s input
    using leads_start_checkout [OF assms] by (auto simp: leads_def)
  show ?thesis
    unfolding bookPaid_def Let_def
    apply (rule leads_own_read [OF own.keeps_reads(1)])
    apply (rule leads_own_read [OF own.keeps_reads(4)])
    apply (rule leads_own_read [OF keeps_failIf])
    apply (rule leads_own_read [OF keeps_asks])
    apply (rule leads_own_read [OF keeps_failIf])
    apply (rule leads_attempt_hoare [OF hoare_CreatePendingPaymentSession [OF assms hold_until_le]])
     apply (simp add: leads_throw)
    apply (rule start)
    done
qed

lemma leads_BookSession:
  assumes "i \<notin> G"
  shows "leads (own_inv i (sessions_inv G) (sessions_inv (insert i G))) (db_inv (sessions_inv G))
           (BookSession env u b)"
proof -
  have err: "leads (own_inv i (sessions_inv G) (sessions_inv (insert i G))) (db_inv (sessions_inv G)) (throw e)" for e
    by (rule leads_throw) (rule own_inv_weak)
  show ?thesis
    unfolding BookSession_def Let_def
    by (auto split: option.splits intro!: err leads_own_read keeps_asks keeps_failIf own.keeps_assertBookable
      leads_bookPaid [OF assms] leads_book_unpaid [OF assms])
qed

section \<open>The coach's answer\<close>

text \<open>
  Confirming sets the status first and captures the card afterwards; in between, the row of
  the session is scheduled with a card still only authorized.
\<close>

definition awaiting_capture :: "uuid set \<Rightarrow> uuid \<Rightarrow> session \<Rightarrow> bool" where
  "awaiting_capture G i s \<longleftrightarrow> row_inv G s \<or>
     s_id s = i \<and> s_payment_status s = PayAuthorized \<and> row_inv G (s\<lparr>s_payment_status := PayPaid\<rparr>)"

lemma row_confirmed:
  "row_inv G s \<Longrightarrow> answerable now s \<Longrightarrow>
   (if s_payment_status s = PayAuthorized then row_inv G ((confirm_set now s)\<lparr>s_payment_status := PayPaid\<rparr>)
    else row_inv G (confirm_set now s))"
  by (auto simp: row_defs confirm_set_def answerable_def)

lemma confirmed_state:
  assumes inv: "tx_inv (sessions_inv G) w" and run: "ConfirmSession i w = (Inr u, w')"
  shows "tx_inv (rows_inv (awaiting_capture G i)) w'"
    and "u \<in> set (d_sessions (w_db w'))" and "s_id u = i" and "s_status u = Scheduled"
    and "s_payment_status u \<noteq> PayAuthorized \<Longrightarrow> tx_inv (sessions_inv G) w'"
proof -
  let ?p = "by_id i answerable" and ?now = "\<lambda>w. w_dbnow w"
  from run obtain rs w1 d where n: "next_entry w = (False, w1)"
    and wr: "write_sessions (w_db w1) (update_where (?p (?now w1)) (confirm_set (?now w1)) (d_sessions (w_db w1))) = Inr d"
    and rows: "u # rs = map (confirm_set (?now w1)) (filter (?p (?now w1)) (d_sessions (w_db w1)))"
    and w': "w' = w1\<lparr>w_db := d\<rparr>"
    by (auto simp: ConfirmSession_def update_one_Inr update_sessions_Inr)
  from tx_inv_entry [OF inv n] have tx: "w_in_tx w1" and inv1: "sessions_inv G (w_db w1)"
    by (simp_all add: tx_inv_def)
  from rows have "u \<in> set (map (confirm_set (?now w1)) (filter (?p (?now w1)) (d_sessions (w_db w1))))"
    by (metis list.set_intros(1))
  then obtain r where r: "r \<in> set (d_sessions (w_db w1))" "?p (?now w1) r" "u = confirm_set (?now w1) r"
    by auto
  let ?ss = "update_where (?p (?now w1)) (confirm_set (?now w1)) (d_sessions (w_db w1))"
  from r show "s_id u = i" "s_status u = Scheduled" by (auto simp: by_id_def confirm_set_def)
  have d: "d_sessions d = ?ss" using wr by (auto simp: write_sessions_Inr)
  show "u \<in> set (d_sessions (w_db w'))" using r by (auto simp: w' d set_update_where)
  have "awaiting_capture G i (if ?p (?now w1) t then confirm_set (?now w1) t else t)"
    if t: "t \<in> set (d_sessions (w_db w1))" for t
  proof (cases "?p (?now w1) t")
    case True
    with row_confirmed [OF rows_inv_mem [OF inv1 t]] show ?thesis
      by (cases "s_payment_status t = PayAuthorized") (auto simp: awaiting_capture_def by_id_def confirm_set_def)
  qed (use rows_inv_mem [OF inv1 t] in \<open>simp add: awaiting_capture_def\<close>)
  then have "list_all (awaiting_capture G i) ?ss" by (auto simp: list_all_iff set_update_where)
  from rows_inv_write [OF wr this] tx show "tx_inv (rows_inv (awaiting_capture G i)) w'"
    by (simp add: tx_inv_def w')
  assume unpaid: "s_payment_status u \<noteq> PayAuthorized"
  have "row_inv G (if ?p (?now w1) t then confirm_set (?now w1) t else t)" if t: "t \<in> set (d_sessions (w_db w1))" for t
  proof (cases "?p (?now w1) t")
    case True
    with r rows_inv_same_id [OF inv1 t r(1)] have "t = r" by (simp add: by_id_def)
    with r unpaid True row_confirmed [OF rows_inv_mem [OF inv1 t]] show ?thesis
      by (auto simp: by_id_def confirm_set_def)
  qed (use rows_inv_mem [OF inv1 t] in simp)
  then have "list_all (row_inv G) ?ss" by (auto simp: list_all_iff set_update_where)
  from rows_inv_write [OF wr this] tx show "tx_inv (sessions_inv G) w'" by (simp add: tx_inv_def w')
qed

lemma captured_state:
  assumes inv: "tx_inv (rows_inv (awaiting_capture G i)) w" and mem: "u \<in> set (d_sessions (w_db w))"
    and u: "s_id u = i" "s_status u = Scheduled"
    and run: "capture env u w = (Inr x, w')"
  shows "tx_inv (sessions_inv G) w'"
proof -
  from run u obtain n w1 where mark: "MarkSessionCaptured i w1 = (Inr n, w')" and w1: "w_db w1 = w_db w" "w_in_tx w1 = w_in_tx w"
    by (auto simp: capture_def go_results Let_def provider_call_def split: option.splits sum.splits)
  from mark obtain w2 d where n: "next_entry w1 = (False, w2)"
    and wr: "write_sessions (w_db w2) (update_where (by_id i (pay_guard PayAuthorized) (w_dbnow w2))
        (pay_set PayPaid (w_dbnow w2)) (d_sessions (w_db w2))) = Inr d"
    and w': "w' = w2\<lparr>w_db := d\<rparr>"
    by (auto simp: MarkSessionCaptured_def update_count_Inr update_sessions_Inr)
  have tx: "w_in_tx w1" "w_in_tx w2" and db: "w_db w2 = w_db w"
    using inv w1 next_entry_frame [OF n] by (auto simp: tx_inv_def)
  have inv2: "rows_inv (awaiting_capture G i) (w_db w2)" using inv db by (simp add: tx_inv_def)
  have "row_inv G (if by_id i (pay_guard PayAuthorized) now t then pay_set PayPaid now t else t)"
    if t: "t \<in> set (d_sessions (w_db w2))" for t now
  proof (cases "by_id i (pay_guard PayAuthorized) now t")
    case True
    then have "t = u" using rows_inv_same_id [OF inv2 t] mem u db by (simp add: by_id_def)
    with True u rows_inv_mem [OF inv2 t] show ?thesis
      by (auto simp: awaiting_capture_def by_id_def row_defs pay_set_def pay_guard_def)
  next
    case False
    with rows_inv_mem [OF inv2 t] show ?thesis
      by (auto simp: awaiting_capture_def by_id_def pay_guard_def)
  qed
  then have "list_all (row_inv G) (update_where (by_id i (pay_guard PayAuthorized) (w_dbnow w2))
        (pay_set PayPaid (w_dbnow w2)) (d_sessions (w_db w2)))"
    by (auto simp: list_all_iff set_update_where)
  from rows_inv_write [OF wr this] tx show ?thesis by (simp add: tx_inv_def w')
qed

lemma answer_update_Inr:
  "answer_update c i w = (Inr u, w') \<longleftrightarrow> (if c then ConfirmSession i else DeclineSession i) w = (Inr u, w')"
  by (auto simp: answer_update_def go_results split: if_splits)

lemma answered_state:
  assumes inv: "tx_inv (sessions_inv G) w"
    and run: "bindE (answer_update c i) (answer_capture env c) w = (Inr u, w')"
  shows "tx_inv (sessions_inv G) w'"
proof -
  from run obtain v w1 where upd: "answer_update c i w = (Inr v, w1)"
    and cap: "answer_capture env c v w1 = (Inr u, w')" by (auto simp: bindE_Inr)
  show ?thesis
  proof (cases c)
    case False
    with upd have "DeclineSession i w = (Inr v, w1)" by (simp add: answer_update_Inr)
    from keepsD [OF txc.keeps_edits(1) inv this] cap False show ?thesis
      by (simp add: answer_capture_def ret_Inr)
  next
    case True
    with upd have "ConfirmSession i w = (Inr v, w1)" by (simp add: answer_update_Inr)
    note st = confirmed_state [OF inv this]
    show ?thesis
    proof (cases "s_payment_status v = PayAuthorized")
      case False
      with st(5) cap True show ?thesis by (simp add: answer_capture_def ret_Inr)
    next
      case pay: True
      with cap True obtain x where "capture env v w1 = (Inr x, w')"
        by (auto simp: answer_capture_def go_results)
      with captured_state [OF st(1-4)] show ?thesis .
    qed
  qed
qed

lemma keeps_respond: "keeps (db_inv (sessions_inv G)) (respond env s action)"
proof -
  have body: "tx_inv (sessions_inv G) w'"
    if "sessions_inv G (w_db w)" "w_in_tx w"
      and run: "bindE (answer_update c i) (\<lambda>u. bindE (answer_capture env c u) (\<lambda>u.
        bindE (answer_mails env c i) (\<lambda>_. commit (session_of env u [])))) w = (Inr (True, x), w')" for w c i x w'
  proof -
    from run obtain u w1 w2 where "bindE (answer_update c i) (answer_capture env c) w = (Inr u, w1)"
      and mails: "answer_mails env c i w1 = (Inr w2, w')"
      by (auto simp: go_results commit_def)
    have "tx_inv (sessions_inv G) w" using that(1,2) by (simp add: tx_inv_def)
    from answered_state [OF this \<open>bindE (answer_update c i) (answer_capture env c) w = (Inr u, w1)\<close>]
    have "tx_inv (sessions_inv G) w1" .
    from keepsD [OF txc.keeps_mails(2) this mails] show ?thesis .
  qed
  have sched: "keeps (sched_inv (sessions_inv G)) (bindE (answer_update c i) (\<lambda>u. bindE (answer_capture env c u) (\<lambda>u.
        bindE (answer_mails env c i) (\<lambda>_. commit (session_of env u [])))))" for c i
    unfolding answer_update_def answer_capture_def answer_mails_def capture_def whyNotPending_def
      session_query_defs Let_def
    by (intro keeps_intros TrueI)
  show ?thesis
    unfolding respond_def
    by (intro keeps_intros keeps_transaction_commit body sched; assumption)
qed

lemmas to_queries = enqueue_def enqueue_opt_def select_def select_one_def update_sessions_def
  update_one_def update_count_def insert_session_def session_query_defs session_select_defs

end
