(* ===== verification/Reviews.thy ===== *)
theory Reviews
  imports Paid_Booking
begin

text \<open>
  Coach reviews (internal/coaching/service.go): creating or replacing a review after a
  completed session, listing, and the summary with its deterministic fallback.  The
  summariser (ml-analyzer) is an argument, \<open>None\<close> when none is configured.
\<close>

section \<open>Statements\<close>

definition review_key :: "review \<Rightarrow> uuid \<times> uuid" where
  "review_key r = (r_coach_id r, r_user_id r)"

definition review_set :: "uuid option \<Rightarrow> int \<Rightarrow> string \<Rightarrow> instant \<Rightarrow> review \<Rightarrow> review" where
  "review_set session_id rating comment now r = r\<lparr>r_session_id := session_id, r_rating := rating,
     r_comment := comment, r_updated_at := now\<rparr>"

definition new_review :: "uuid \<Rightarrow> uuid \<Rightarrow> uuid \<Rightarrow> uuid option \<Rightarrow> int \<Rightarrow> string \<Rightarrow> instant \<Rightarrow> review" where
  "new_review i coach_id user_id session_id rating comment now =
     \<lparr>r_id = i, r_coach_id = coach_id, r_user_id = user_id, r_session_id = session_id,
      r_rating = rating, r_comment = comment, r_created_at = now, r_updated_at = now\<rparr>"

text \<open>The references and the rating bounds the table checks for the proposed row.\<close>

definition review_violation :: "db \<Rightarrow> uuid \<Rightarrow> uuid \<Rightarrow> uuid option \<Rightarrow> int \<Rightarrow> sqlstate option" where
  "review_violation d coach_id user_id session_id rating =
     (if \<not> (1 \<le> rating \<and> rating \<le> 5) then Some CheckViolation
      else if coach_id \<notin> c_user_id ` set (d_coaches d) \<or> user_id \<notin> u_id ` set (d_users d) \<or>
              (case session_id of None \<Rightarrow> False | Some s \<Rightarrow> s \<notin> s_id ` set (d_sessions d))
           then Some ForeignKeyViolation else None)"

definition UpsertCoachReview ::
  "uuid \<Rightarrow> uuid \<Rightarrow> uuid option \<Rightarrow> int \<Rightarrow> string \<Rightarrow> review request" where
  "UpsertCoachReview coach_id user_id session_id rating comment =
     bindE fresh_id (\<lambda>i.
     query (\<lambda>w. let d = w_db w; now = w_dbnow w; key = (\<lambda>r. review_key r = (coach_id, user_id)) in
       case review_violation d coach_id user_id session_id rating of
         Some v \<Rightarrow> Inl (ErrSql v)
       | None \<Rightarrow>
         (case find key (d_reviews d) of
            Some r \<Rightarrow> Inr (review_set session_id rating comment now r,
              d\<lparr>d_reviews := update_where key (review_set session_id rating comment now) (d_reviews d)\<rparr>)
          | None \<Rightarrow> (let r = new_review i coach_id user_id session_id rating comment now
                     in Inr (r, d\<lparr>d_reviews := d_reviews d @ [r]\<rparr>)))))"

definition reviewer_join :: "db \<Rightarrow> review \<Rightarrow> (review \<times> string) option" where
  "reviewer_join d r =
     map_option (\<lambda>u. (r, u_display_name u)) (find (\<lambda>u. u_id u = r_user_id r) (d_users d))"

definition ListCoachReviews :: "uuid \<Rightarrow> nat \<Rightarrow> nat \<Rightarrow> (review \<times> string) list request" where
  "ListCoachReviews coach_id limit offset =
     select (\<lambda>d. page limit offset (sort_key (\<lambda>(r, n). - r_created_at r)
       (List.map_filter (reviewer_join d) (reviews_of coach_id d))))"

definition ListCoachReviewTexts :: "uuid \<Rightarrow> nat \<Rightarrow> (int \<times> string) list request" where
  "ListCoachReviewTexts coach_id limit =
     select (\<lambda>d. map (\<lambda>r. (r_rating r, r_comment r))
       (take limit (sort_key (\<lambda>r. - r_updated_at r) (sort_key r_id (reviews_of coach_id d)))))"

section \<open>The service\<close>

definition max_review_comment :: nat where "max_review_comment = 2000"
definition recommend_threshold :: int where "recommend_threshold = 4"
definition max_summary_reviews :: nat where "max_summary_reviews = 200"

record review_view =
  rv_id :: string
  rv_coach_id :: string
  rv_user_id :: string
  rv_session_id :: string
  rv_reviewer_name :: string
  rv_rating :: int
  rv_recommended :: bool
  rv_comment :: string
  rv_created_at :: instant
  rv_updated_at :: instant

definition reviewOf :: "env \<Rightarrow> review \<Rightarrow> string \<Rightarrow> review_view" where
  "reviewOf env r reviewer =
     \<lparr>rv_id = x_uuid_text env (r_id r), rv_coach_id = x_uuid_text env (r_coach_id r),
      rv_user_id = x_uuid_text env (r_user_id r),
      rv_session_id = (case r_session_id r of None \<Rightarrow> [] | Some s \<Rightarrow> x_uuid_text env s),
      rv_reviewer_name = reviewer, rv_rating = r_rating r,
      rv_recommended = (recommend_threshold \<le> r_rating r), rv_comment = r_comment r,
      rv_created_at = r_created_at r, rv_updated_at = r_updated_at r\<rparr>"

record review_input =
  ri_rating :: int
  ri_comment :: string
  ri_session_id :: "uuid option"

definition CreateReview :: "env \<Rightarrow> uuid \<Rightarrow> uuid \<Rightarrow> review_input \<Rightarrow> review_view request" where
  "CreateReview env coach_id user_id b =
     bindE (failIf (coach_id = user_id) ErrForbidden) (\<lambda>_.
     bindE (failIf (ri_rating b < 1 \<or> 5 < ri_rating b) ErrInvalidInput) (\<lambda>_.
     let comment = trim_space (ri_comment b) in
     bindE (failIf (max_review_comment < rune_count comment) ErrInvalidInput) (\<lambda>_.
     attempt (GetCoachQuery coach_id) (\<lambda>e. throw (not_found e)) (\<lambda>_.
     bindE (HasCompletedSession coach_id user_id (ri_session_id b)) (\<lambda>completed.
     bindE (failIf (\<not> completed) ErrForbidden) (\<lambda>_.
     bindE (UpsertCoachReview coach_id user_id (ri_session_id b) (ri_rating b) comment) (\<lambda>row.
     bindE (GetUserByID user_id) (\<lambda>reviewer.
     ret (reviewOf env row (u_display_name reviewer))))))))))"

definition ListReviews :: "env \<Rightarrow> uuid \<Rightarrow> nat \<Rightarrow> nat \<Rightarrow> review_view list request" where
  "ListReviews env coach_id limit offset =
     attempt (GetCoachQuery coach_id) (\<lambda>e. throw (not_found e)) (\<lambda>_.
     bindE (ListCoachReviews coach_id limit offset) (\<lambda>rows.
     ret (map (\<lambda>(r, name). reviewOf env r name) rows)))"

definition recommendationLine :: "int \<Rightarrow> int \<Rightarrow> string \<Rightarrow> string" where
  "recommendationLine recommended all coach_name =
     (if all = 0 then []
      else if recommended = all then ''Every client so far recommends '' @ coach_name @ ''.''
      else decimal recommended @ '' of '' @ decimal all @ '' clients recommend '' @ coach_name @ ''.'')"

record review_summary =
  rs_model_version :: string
  rs_recommended :: int
  rs_total :: int
  rs_summary :: string
  rs_strengths :: "string list"

text \<open>The summariser gets the coach's name and the ratings with comments; \<open>None\<close> is any failure.\<close>

type_synonym summarizer = "string \<Rightarrow> (int \<times> string) list \<Rightarrow> review_summary option"

definition merge_summary :: "review_summary \<Rightarrow> review_summary \<Rightarrow> string \<Rightarrow> review_summary" where
  "merge_summary fallback out coach_name =
     (let sample_line = recommendationLine (rs_recommended out) (rs_total out) coach_name
      in out\<lparr>rs_summary := trim_space (rs_summary fallback @ '' '' @
               trim_space (trim_prefix (rs_summary out) sample_line)),
             rs_recommended := rs_recommended fallback, rs_total := rs_total fallback\<rparr>)"

definition ReviewSummary :: "env \<Rightarrow> summarizer option \<Rightarrow> uuid \<Rightarrow> review_summary request" where
  "ReviewSummary env summarizer coach_id =
     bindE (GetCoach env coach_id) (\<lambda>coach.
     let fallback = \<lparr>rs_model_version = ''aggregate'', rs_recommended = cv_recommend_count coach,
           rs_total = cv_review_count coach,
           rs_summary = recommendationLine (cv_recommend_count coach) (cv_review_count coach) (cv_display_name coach),
           rs_strengths = []\<rparr>
     in case summarizer of None \<Rightarrow> ret fallback
        | Some summarize \<Rightarrow>
            if cv_review_count coach = 0 then ret fallback
            else bindE (ListCoachReviewTexts coach_id max_summary_reviews) (\<lambda>rows.
              case summarize (cv_display_name coach) rows of None \<Rightarrow> ret fallback
              | Some out \<Rightarrow> ret (merge_summary fallback out (cv_display_name coach))))"

section \<open>Lemmas\<close>

definition reviews_ok :: "db \<Rightarrow> bool" where
  "reviews_ok d \<longleftrightarrow> distinct (map review_key (d_reviews d)) \<and>
     list_all (\<lambda>r. 1 \<le> r_rating r \<and> r_rating r \<le> 5 \<and> r_coach_id r \<noteq> r_user_id r) (d_reviews d)"

lemma review_key_set [simp]: "review_key (review_set s x c t r) = review_key r"
  by (simp add: review_key_def review_set_def)

lemma reviews_ok_update:
  assumes "reviews_ok d" and "1 \<le> rating" "rating \<le> 5"
  shows "reviews_ok (d\<lparr>d_reviews := update_where key (review_set s rating c t) (d_reviews d)\<rparr>)"
proof -
  have "map review_key (update_where key (review_set s rating c t) (d_reviews d)) = map review_key (d_reviews d)"
    by (rule map_update_where) simp
  moreover have "list_all (\<lambda>r. 1 \<le> r_rating r \<and> r_rating r \<le> 5 \<and> r_coach_id r \<noteq> r_user_id r)
      (update_where key (review_set s rating c t) (d_reviews d))"
    by (rule list_all_update_where) (use assms in \<open>auto simp: reviews_ok_def review_set_def\<close>)
  ultimately show ?thesis using assms(1) by (simp add: reviews_ok_def)
qed

lemma reviews_ok_insert:
  assumes "reviews_ok d" and "1 \<le> rating" "rating \<le> 5" and "coach_id \<noteq> user_id"
    and "find (\<lambda>r. review_key r = (coach_id, user_id)) (d_reviews d) = None"
  shows "reviews_ok (d\<lparr>d_reviews := d_reviews d @ [new_review i coach_id user_id s rating c t]\<rparr>)"
  using assms
  by (auto simp: reviews_ok_def new_review_def find_None_iff_all review_key_def list_all_iff)

lemma keeps_UpsertCoachReview:
  assumes "coach_id \<noteq> user_id"
  shows "keeps (db_inv reviews_ok) (UpsertCoachReview coach_id user_id s rating c)"
proof -
  have rating: "1 \<le> rating \<and> rating \<le> 5" if "review_violation d coach_id user_id s rating = None" for d
    using that by (auto simp: review_violation_def split: if_splits)
  show ?thesis
    unfolding UpsertCoachReview_def
    by (rule keeps_bindE [OF dbi.keeps_fresh_id], rule dbi.keeps_query)
      (auto simp: Let_def split: option.splits dest!: rating intro!: reviews_ok_update reviews_ok_insert assms)
qed

end
