(* ===== verification/Handlers.thy ===== *)
theory Handlers
  imports Booking Reviews
begin

text \<open>
  The HTTP handlers of the coaching package (internal/coaching/handler.go) and the helpers
  of internal/httpx they use.  A handler answers with a status: \<open>Inl\<close> the status of an
  error response, \<open>Inr\<close> the success status and the payload.  Bodies arrive decoded:
  \<open>None\<close> is a body \<open>json\<close> rejects.  Error messages and logging are left out.
\<close>

section \<open>httpx\<close>

definition QueryInt :: "string \<Rightarrow> int \<Rightarrow> int \<Rightarrow> int" where
  "QueryInt raw fallback limit =
     (let v = (case atoi raw of None \<Rightarrow> fallback | Some v \<Rightarrow> if v < 1 then fallback else v)
      in if limit < v then limit else v)"

section \<open>Requests and answers\<close>

type_synonym 'a answer = "(world, nat, nat \<times> 'a) go"

text \<open>What the router and the authentication middleware hand to a handler.\<close>

record http =
  h_principal :: "uuid option"
  h_path :: "string \<Rightarrow> string"
  h_query :: "string \<Rightarrow> string"

definition error_status :: "go_error \<Rightarrow> nat" where
  "error_status e =
     (if e = ErrNotFound then 404
      else if e = ErrForbidden then 403
      else if e = ErrInvalidInput then 400
      else if e = ErrSlotTaken \<or> e = ErrUnavailable then 409
      else if e = ErrPayment then 502
      else if e = ErrExpired then 410
      else 500)"

definition respondErr :: "go_error \<Rightarrow> 'a answer" where
  "respondErr e = throw (error_status e)"

definition answer :: "nat \<Rightarrow> 'a request \<Rightarrow> 'a answer" where
  "answer status m = attempt m respondErr (\<lambda>x. ret (status, x))"

definition as_principal :: "http \<Rightarrow> (uuid \<Rightarrow> 'a answer) \<Rightarrow> 'a answer" where
  "as_principal h f = (case h_principal h of None \<Rightarrow> throw 401 | Some u \<Rightarrow> f u)"

definition pathUUID :: "'x env_scheme \<Rightarrow> http \<Rightarrow> string \<Rightarrow> (uuid \<Rightarrow> 'a answer) \<Rightarrow> 'a answer" where
  "pathUUID env h param f = (case x_parse_uuid env (h_path h param) of None \<Rightarrow> throw 400 | Some i \<Rightarrow> f i)"

definition optionalQuery :: "http \<Rightarrow> string \<Rightarrow> string option" where
  "optionalQuery h key = (let v = h_query h key in if v \<noteq> [] then Some v else None)"

definition with_body :: "'b option \<Rightarrow> ('b \<Rightarrow> 'a answer) \<Rightarrow> 'a answer" where
  "with_body body f = (case body of None \<Rightarrow> throw 400 | Some b \<Rightarrow> f b)"

definition page_limit :: "http \<Rightarrow> nat" where
  "page_limit h = nat (QueryInt (h_query h ''limit'') 25 100)"

definition page_offset :: "http \<Rightarrow> nat" where
  "page_offset h = nat (QueryInt (h_query h ''offset'') 1 10000 - 1)"

section \<open>Client routes\<close>

definition config_handler :: "env \<Rightarrow> http \<Rightarrow> bool answer" where
  "config_handler env h = ret (200, payments_enabled env)"

definition listCoaches_handler :: "env \<Rightarrow> http \<Rightarrow> coach_view list answer" where
  "listCoaches_handler env h =
     answer 200 (ListCoaches env (page_limit h) (page_offset h)
       (h_query h ''accepting_only'' \<noteq> ''false'') (optionalQuery h ''phase''))"

definition getCoach_handler :: "env \<Rightarrow> http \<Rightarrow> coach_view answer" where
  "getCoach_handler env h = pathUUID env h ''coachID'' (\<lambda>c. answer 200 (GetCoach env c))"

definition listReviews_handler :: "env \<Rightarrow> http \<Rightarrow> review_view list answer" where
  "listReviews_handler env h =
     pathUUID env h ''coachID'' (\<lambda>c. answer 200 (ListReviews env c (page_limit h) (page_offset h)))"

definition reviewSummary_handler :: "env \<Rightarrow> summarizer option \<Rightarrow> http \<Rightarrow> review_summary answer" where
  "reviewSummary_handler env sm h =
     pathUUID env h ''coachID'' (\<lambda>c. answer 200 (ReviewSummary env sm c))"

definition createReview_handler :: "env \<Rightarrow> http \<Rightarrow> review_input option \<Rightarrow> review_view answer" where
  "createReview_handler env h body =
     as_principal h (\<lambda>u. pathUUID env h ''coachID'' (\<lambda>c. with_body body (\<lambda>b.
     answer 201 (CreateReview env c u b))))"

definition coachAvailability_handler :: "env \<Rightarrow> http \<Rightarrow> window list answer" where
  "coachAvailability_handler env h =
     pathUUID env h ''coachID'' (\<lambda>c. answer 200 (ListAvailability c))"

text \<open>A time parameter: the default when absent, 400 when it does not parse.\<close>

definition query_time :: "env \<Rightarrow> http \<Rightarrow> string \<Rightarrow> instant \<Rightarrow> (instant \<Rightarrow> 'a answer) \<Rightarrow> 'a answer" where
  "query_time env h key fallback f =
     (if h_query h key \<noteq> []
      then (case x_parse_rfc3339 env (h_query h key) of None \<Rightarrow> throw 400 | Some t \<Rightarrow> f t)
      else f fallback)"

definition coachSlots_handler :: "env \<Rightarrow> nat \<Rightarrow> http \<Rightarrow> (instant \<times> int) list answer" where
  "coachSlots_handler env fuel h =
     pathUUID env h ''coachID'' (\<lambda>c.
     bindE (asks w_now) (\<lambda>now.
     query_time env h ''from'' now (\<lambda>from.
     query_time env h ''to'' (from + hours (7 * 24)) (\<lambda>to.
     let duration = QueryInt (h_query h ''duration_minutes'') default_session_minutes 240 in
     as_principal h (\<lambda>u.
     if h_query h ''exclude_session_id'' \<noteq> []
     then (case x_parse_uuid env (h_query h ''exclude_session_id'') of None \<Rightarrow> throw 400
           | Some i \<Rightarrow> answer 200 (OpenSlots env fuel c u from to duration (Some i)))
     else answer 200 (OpenSlots env fuel c u from to duration None))))))"

definition bookSession_handler :: "env \<Rightarrow> http \<Rightarrow> book_input option \<Rightarrow> session_view answer" where
  "bookSession_handler env h body =
     as_principal h (\<lambda>u. with_body body (\<lambda>b. answer 201 (BookSession env u b)))"

definition listMySessions_handler :: "env \<Rightarrow> http \<Rightarrow> session_view list answer" where
  "listMySessions_handler env h =
     as_principal h (\<lambda>u. answer 200 (ListForUser env u (optionalQuery h ''status'')))"

definition cancelSession_handler :: "env \<Rightarrow> nat \<Rightarrow> http \<Rightarrow> session_view answer" where
  "cancelSession_handler env fuel h =
     as_principal h (\<lambda>u. pathUUID env h ''sessionID'' (\<lambda>i.
     answer 200 (SetStatus fuel env i u ''cancelled'')))"

definition rescheduleSession_handler :: "env \<Rightarrow> http \<Rightarrow> string option \<Rightarrow> session_view answer" where
  "rescheduleSession_handler env h body =
     as_principal h (\<lambda>u. pathUUID env h ''sessionID'' (\<lambda>i. with_body body (\<lambda>t.
     answer 200 (Reschedule env i u t))))"

definition respondWithToken_handler :: "env \<Rightarrow> (string \<times> string \<times> string) option \<Rightarrow> session_view answer" where
  "respondWithToken_handler env body =
     with_body body (\<lambda>(session_id, token, action).
     case x_parse_uuid env session_id of None \<Rightarrow> throw 400
     | Some i \<Rightarrow> answer 200 (RespondWithToken env i token action))"

section \<open>Coach routes\<close>

definition respondAsCoach_handler :: "env \<Rightarrow> http \<Rightarrow> string option \<Rightarrow> session_view answer" where
  "respondAsCoach_handler env h body =
     as_principal h (\<lambda>u. pathUUID env h ''sessionID'' (\<lambda>i. with_body body (\<lambda>action.
     answer 200 (RespondAsCoach env i u action))))"

definition upsertProfile_handler :: "env \<Rightarrow> http \<Rightarrow> profile_input option \<Rightarrow> coach_view answer" where
  "upsertProfile_handler env h body =
     as_principal h (\<lambda>u. with_body body (\<lambda>p. answer 200 (UpsertProfile env u p)))"

definition setAvailability_handler :: "http \<Rightarrow> window list option \<Rightarrow> window list answer" where
  "setAvailability_handler h body =
     as_principal h (\<lambda>u. with_body body (\<lambda>ws. answer 200 (SetAvailability u ws)))"

definition listCoachSessions_handler :: "env \<Rightarrow> http \<Rightarrow> session_view list answer" where
  "listCoachSessions_handler env h =
     as_principal h (\<lambda>u.
     if h_query h ''from'' \<noteq> []
     then (case x_parse_rfc3339 env (h_query h ''from'') of None \<Rightarrow> throw 400
           | Some t \<Rightarrow> answer 200 (ListForCoach env u (optionalQuery h ''status'') (Some t)))
     else answer 200 (ListForCoach env u (optionalQuery h ''status'') None))"

definition setSessionStatus_handler :: "env \<Rightarrow> nat \<Rightarrow> http \<Rightarrow> string option \<Rightarrow> session_view answer" where
  "setSessionStatus_handler env fuel h body =
     as_principal h (\<lambda>u. pathUUID env h ''sessionID'' (\<lambda>i. with_body body (\<lambda>status.
     answer 200 (SetStatus fuel env i u status))))"

definition setSessionNotes_handler :: "env \<Rightarrow> http \<Rightarrow> string option \<Rightarrow> session_view answer" where
  "setSessionNotes_handler env h body =
     as_principal h (\<lambda>u. pathUUID env h ''sessionID'' (\<lambda>i. with_body body (\<lambda>notes.
     answer 200 (SetNotes env i u notes))))"

definition setSessionMeetingURL_handler :: "env \<Rightarrow> http \<Rightarrow> string option \<Rightarrow> session_view answer" where
  "setSessionMeetingURL_handler env h body =
     as_principal h (\<lambda>u. pathUUID env h ''sessionID'' (\<lambda>i. with_body body (\<lambda>url.
     answer 200 (SetMeetingURL env i u url))))"

section \<open>Admin routes\<close>

definition listCoachesByApproval_handler :: "env \<Rightarrow> http \<Rightarrow> (coach_view \<times> string) list answer" where
  "listCoachesByApproval_handler env h =
     (let status = h_query h ''status'' in
      answer 200 (ListCoachesByApproval env (if status = [] then ''pending'' else status)
        (page_limit h) (page_offset h)))"

definition decideCoach_handler :: "env \<Rightarrow> string \<Rightarrow> http \<Rightarrow> coach_view answer" where
  "decideCoach_handler env status h =
     pathUUID env h ''coachID'' (\<lambda>c. answer 200 (SetCoachApproval env c status))"

lemmas handler_combinators = answer_def as_principal_def pathUUID_def with_body_def query_time_def
  respondErr_def

lemma keeps_answer [keeps_intros]: "keeps I m \<Longrightarrow> keeps I (answer st m)"
  unfolding answer_def respondErr_def by (intro keeps_intros)

lemma QueryInt_range: "1 \<le> fallback \<Longrightarrow> fallback \<le> limit \<Longrightarrow> 1 \<le> QueryInt raw fallback limit \<and> QueryInt raw fallback limit \<le> limit"
  by (auto simp: QueryInt_def Let_def split: option.splits)

end
