(* ===== verification/Backend.thy ===== *)
theory Backend
  imports Coaching_Invariant Handlers
begin

text \<open>
  The coaching backend as a transition system over the database: one step is one HTTP
  request of the coaching API, one webhook event or one tick of its passes, run to its end or to its last error.  Between two
  statements of a request other requests may run: the entries \<open>Others f\<close> of its schedule
  are themselves sequences of steps.
\<close>

datatype call =
    GetConfig http
  | GetCoaches http
  | GetCoachPage http
  | GetCoachReviews http
  | GetReviewSummary http
  | PostReview http "review_input option"
  | GetCoachAvailability http
  | GetCoachSlots http
  | PostSession http "book_input option"
  | GetMySessions http
  | PostCancel http
  | PostReschedule http "string option"
  | PostTokenAnswer "(string \<times> string \<times> string) option"
  | PostCoachAnswer http "string option"
  | PutProfile http "profile_input option"
  | PutAvailability http "window list option"
  | GetCoachSessions http
  | PostStatus http "string option"
  | PostNotes http "string option"
  | PostMeetingURL http "string option"
  | GetApprovalQueue http
  | PostApproval string http
  | PaymentWebhook event
  | ExpiryTick
  | SweepTick instant

text \<open>The world a call leaves; \<open>fuel\<close> bounds the loops that run on it.\<close>

fun perform :: "env \<Rightarrow> nat \<Rightarrow> summarizer option \<Rightarrow> call \<Rightarrow> world \<Rightarrow> world" where
  "perform env fuel sm (GetConfig h) w = snd (config_handler env h w)"
| "perform env fuel sm (GetCoaches h) w = snd (listCoaches_handler env h w)"
| "perform env fuel sm (GetCoachPage h) w = snd (getCoach_handler env h w)"
| "perform env fuel sm (GetCoachReviews h) w = snd (listReviews_handler env h w)"
| "perform env fuel sm (GetReviewSummary h) w = snd (reviewSummary_handler env sm h w)"
| "perform env fuel sm (PostReview h b) w = snd (createReview_handler env h b w)"
| "perform env fuel sm (GetCoachAvailability h) w = snd (coachAvailability_handler env h w)"
| "perform env fuel sm (GetCoachSlots h) w = snd (coachSlots_handler env fuel h w)"
| "perform env fuel sm (PostSession h b) w = snd (bookSession_handler env h b w)"
| "perform env fuel sm (GetMySessions h) w = snd (listMySessions_handler env h w)"
| "perform env fuel sm (PostCancel h) w = snd (cancelSession_handler env fuel h w)"
| "perform env fuel sm (PostReschedule h b) w = snd (rescheduleSession_handler env h b w)"
| "perform env fuel sm (PostTokenAnswer b) w = snd (respondWithToken_handler env b w)"
| "perform env fuel sm (PostCoachAnswer h b) w = snd (respondAsCoach_handler env h b w)"
| "perform env fuel sm (PutProfile h b) w = snd (upsertProfile_handler env h b w)"
| "perform env fuel sm (PutAvailability h b) w = snd (setAvailability_handler h b w)"
| "perform env fuel sm (GetCoachSessions h) w = snd (listCoachSessions_handler env h w)"
| "perform env fuel sm (PostStatus h b) w = snd (setSessionStatus_handler env fuel h b w)"
| "perform env fuel sm (PostNotes h b) w = snd (setSessionNotes_handler env h b w)"
| "perform env fuel sm (PostMeetingURL h b) w = snd (setSessionMeetingURL_handler env h b w)"
| "perform env fuel sm (GetApprovalQueue h) w = snd (listCoachesByApproval_handler env h w)"
| "perform env fuel sm (PostApproval st h) w = snd (decideCoach_handler env st h w)"
| "perform env fuel sm (PaymentWebhook ev) w = snd (ApplyPaymentEvent env ev w)"
| "perform env fuel sm ExpiryTick w = snd (ExpirePending fuel env 0 w)"
| "perform env fuel sm (SweepTick now) w = snd (SweepPayments env now w)"

text \<open>
  \<open>G\<close> are ids already given out to bookings in flight: \<open>gen_random_uuid()\<close> does not
  draw them again, neither for this call nor for a call that runs during it.
\<close>

inductive serve :: "env \<Rightarrow> summarizer option \<Rightarrow> uuid set \<Rightarrow> db \<Rightarrow> db \<Rightarrow> bool" for env sm where
  serve: "\<lbrakk>\<not> w_in_tx w; w_next_id w \<notin> G;
           \<forall>f. Others f \<in> set (w_sched w) \<longrightarrow> (\<forall>d. (serve env sm (insert (w_next_id w) G))\<^sup>*\<^sup>* d (f d))\<rbrakk> \<Longrightarrow>
          serve env sm G (w_db w) (w_db (perform env fuel sm c w))"

inductive_cases serve_elim: "serve env sm G d d'"

section \<open>Every call keeps the invariant\<close>

lemma keeps_wrappers [keeps_intros]:
  "(\<And>u. keeps I (f u)) \<Longrightarrow> keeps I (as_principal h f)"
  "(\<And>u. keeps I (f u)) \<Longrightarrow> keeps I (pathUUID env h key f)"
  "(\<And>b. keeps I (g b)) \<Longrightarrow> keeps I (with_body body g)"
  "(\<And>t. keeps I (k t)) \<Longrightarrow> keeps I (query_time env h key t0 k)"
  unfolding as_principal_def pathUUID_def with_body_def query_time_def
  by (auto intro!: keeps_intros)

lemma keeps_review_handlers:
  "keeps (db_inv (sessions_inv G)) (ListReviews env c limit offset)"
  "keeps (db_inv (sessions_inv G)) (ReviewSummary env sm c)"
  "keeps (db_inv (sessions_inv G)) (CreateReview env c u b)"
proof -
  have upsert: "keeps (db_inv (sessions_inv G)) (UpsertCoachReview c u so r t)" for so r t
    unfolding UpsertCoachReview_def
    by (rule keeps_bindE [OF dbi.keeps_fresh_id], rule dbi.keeps_query)
      (auto simp: Let_def split: option.splits)
  show "keeps (db_inv (sessions_inv G)) (ListReviews env c limit offset)"
    unfolding ListReviews_def ListCoachReviews_def by (intro keeps_intros)
  show "keeps (db_inv (sessions_inv G)) (ReviewSummary env sm c)"
    unfolding ReviewSummary_def ListCoachReviewTexts_def by (intro keeps_intros)
  show "keeps (db_inv (sessions_inv G)) (CreateReview env c u b)"
    unfolding CreateReview_def HasCompletedSession_def by (intro keeps_intros upsert)
qed

lemmas operation_keeps = keeps_review_handlers keeps_SetCoachApproval keeps_UpsertProfile
  keeps_SetAvailability keeps_SetNotes keeps_SetMeetingURL keeps_ExpirePending keeps_SetStatus
  keeps_Reschedule keeps_SweepPayments keeps_ApplyPaymentEvent keeps_respond
declare operation_keeps [keeps_intros]

lemma keeps_answers:
  "keeps (db_inv (sessions_inv G)) (RespondWithToken env i tok action)"
  "keeps (db_inv (sessions_inv G)) (RespondAsCoach env i c action)"
  unfolding RespondWithToken_def RespondAsCoach_def by (intro keeps_intros)+

lemmas handler_defs = config_handler_def listCoaches_handler_def getCoach_handler_def
  listReviews_handler_def reviewSummary_handler_def createReview_handler_def
  coachAvailability_handler_def coachSlots_handler_def listMySessions_handler_def
  cancelSession_handler_def rescheduleSession_handler_def respondWithToken_handler_def
  respondAsCoach_handler_def upsertProfile_handler_def setAvailability_handler_def
  listCoachSessions_handler_def setSessionStatus_handler_def setSessionNotes_handler_def
  setSessionMeetingURL_handler_def listCoachesByApproval_handler_def decideCoach_handler_def

lemma keeps_handlers:
  "keeps (db_inv (sessions_inv G)) (config_handler env h)"
  "keeps (db_inv (sessions_inv G)) (listCoaches_handler env h)"
  "keeps (db_inv (sessions_inv G)) (getCoach_handler env h)"
  "keeps (db_inv (sessions_inv G)) (listReviews_handler env h)"
  "keeps (db_inv (sessions_inv G)) (reviewSummary_handler env sm h)"
  "keeps (db_inv (sessions_inv G)) (createReview_handler env h rb)"
  "keeps (db_inv (sessions_inv G)) (coachAvailability_handler env h)"
  "keeps (db_inv (sessions_inv G)) (coachSlots_handler env fuel h)"
  "keeps (db_inv (sessions_inv G)) (listMySessions_handler env h)"
  "keeps (db_inv (sessions_inv G)) (cancelSession_handler env fuel h)"
  "keeps (db_inv (sessions_inv G)) (rescheduleSession_handler env h b)"
  "keeps (db_inv (sessions_inv G)) (respondWithToken_handler env tb)"
  "keeps (db_inv (sessions_inv G)) (respondAsCoach_handler env h b)"
  "keeps (db_inv (sessions_inv G)) (upsertProfile_handler env h pb)"
  "keeps (db_inv (sessions_inv G)) (setAvailability_handler h wb)"
  "keeps (db_inv (sessions_inv G)) (listCoachSessions_handler env h)"
  "keeps (db_inv (sessions_inv G)) (setSessionStatus_handler env fuel h b)"
  "keeps (db_inv (sessions_inv G)) (setSessionNotes_handler env h b)"
  "keeps (db_inv (sessions_inv G)) (setSessionMeetingURL_handler env h b)"
  "keeps (db_inv (sessions_inv G)) (listCoachesByApproval_handler env h)"
  "keeps (db_inv (sessions_inv G)) (decideCoach_handler env st h)"
  unfolding handler_defs Let_def by (intro keeps_intros keeps_answers)+

lemma leads_bookSession_handler:
  assumes "i \<notin> G"
  shows "leads (own_inv i (sessions_inv G) (sessions_inv (insert i G))) (db_inv (sessions_inv G))
           (bookSession_handler env h b)"
proof -
  have err: "leads (own_inv i (sessions_inv G) (sessions_inv (insert i G))) (db_inv (sessions_inv G)) (throw e)" for e
    by (rule leads_throw) (rule own_inv_weak)
  show ?thesis
    unfolding bookSession_handler_def handler_combinators
    by (auto split: option.splits intro!: err leads_attempt [OF leads_BookSession [OF assms]] leads_ret leads_throw)
qed

lemma perform_keeps:
  assumes own: "own_inv (w_next_id w) (sessions_inv G) (sessions_inv (insert (w_next_id w) G)) w"
    and fresh: "w_next_id w \<notin> G"
  shows "sessions_inv G (w_db (perform env fuel sm c w))"
proof -
  have inv: "db_inv (sessions_inv G) w" using own by (rule own_inv_weak)
  have step: "sessions_inv G (w_db (snd (m w)))" if "keeps (db_inv (sessions_inv G)) m" for m :: "(world, nat, 'a) go"
    using that inv by (simp add: keeps_def db_inv_def)
  have tick: "sessions_inv G (w_db (snd (m w)))" if "keeps (db_inv (sessions_inv G)) m" for m :: "'a request"
    using that inv by (simp add: keeps_def db_inv_def)
  have book: "sessions_inv G (w_db (snd (bookSession_handler env h b w)))" for h b
    using leads_bookSession_handler [OF fresh] own by (simp add: leads_def db_inv_def)
  show ?thesis
    by (cases c) (simp_all add: step tick book keeps_handlers keeps_ApplyPaymentEvent keeps_ExpirePending keeps_SweepPayments)
qed

section \<open>Reachable databases\<close>

lemma serve_keeps:
  assumes "serve env sm H d d'"
  shows "\<forall>G. G \<subseteq> H \<longrightarrow> sessions_inv G d \<longrightarrow> sessions_inv G d'"
  using assms
proof (induction rule: serve.induct)
  case (serve w H fuel c)
  let ?i = "w_next_id w"
  have others: "sessions_inv G (f d)"
    if "Others f \<in> set (w_sched w)" "G \<subseteq> insert ?i H" "sessions_inv G d" for f G d
  proof -
    from serve(3) that(1) have "(\<lambda>x y. serve env sm (insert ?i H) x y \<and>
        (\<forall>G. G \<subseteq> insert ?i H \<longrightarrow> sessions_inv G x \<longrightarrow> sessions_inv G y))\<^sup>*\<^sup>* d (f d)" by blast
    then show ?thesis
      using that(3) by (induction rule: rtranclp_induct) (use that(2) in auto)
  qed
  show ?case
  proof (intro allI impI)
    fix G assume "G \<subseteq> H" and inv: "sessions_inv G (w_db w)"
    with others have "own_inv ?i (sessions_inv G) (sessions_inv (insert ?i G)) w"
      by (auto simp: own_inv_def db_inv_def rely_def) (metis insert_mono)
    then show "sessions_inv G (w_db (perform env fuel sm c w))"
      by (rule perform_keeps) (use serve(2) \<open>G \<subseteq> H\<close> in auto)
  qed
qed

text \<open>A database before the first booking.\<close>

definition no_bookings :: "db \<Rightarrow> bool" where
  "no_bookings d \<longleftrightarrow> d_sessions d = []"

interpretation backend: invariant_system no_bookings "serve env sm {}" "sessions_inv {}" for env sm
proof unfold_locales
  show "no_bookings d \<Longrightarrow> sessions_inv {} d" for d
    by (simp add: no_bookings_def rows_inv_def constraints_ok_iff present_def no_overlap_def List.map_filter_def)
  show "sessions_inv {} d \<Longrightarrow> serve env sm {} d d' \<Longrightarrow> sessions_inv {} d'" for d d'
    by (blast dest: serve_keeps)
qed

end
