(* ===== verification/Scenario.thy ===== *)
theory Scenario
  imports Backend
begin

text \<open>
  A concrete deployment the witnesses run on: one coach available on Mondays in UTC, one
  client, and a payment provider that accepts every call or, in \<open>free_env\<close>, no payments.
\<close>

definition monday_8 :: instant where "monday_8 = seconds 1767600000"
definition monday_10 :: instant where "monday_10 = seconds 1767607200"
definition monday_14 :: instant where "monday_14 = seconds 1767621600"

text \<open>Samoa skipped 30 December 2011; Sao Paulo's summer time of 2018 began at midnight.\<close>

definition apia :: location where
  "apia = \<lparr>l_first = \<lparr>z_offset = -36000, z_abbrev = ''-10''\<rparr>,
     l_trans = [(1325239200, \<lparr>z_offset = 50400, z_abbrev = ''+14''\<rparr>)]\<rparr>"

definition sao_paulo :: location where
  "sao_paulo = \<lparr>l_first = \<lparr>z_offset = -10800, z_abbrev = ''-03''\<rparr>,
     l_trans = [(1541300400, \<lparr>z_offset = -7200, z_abbrev = ''-02''\<rparr>)]\<rparr>"

definition ok_provider :: provider where
  "ok_provider =
     \<lparr>p_enabled = True,
      p_create_checkout = (\<lambda>h c. Inr \<lparr>co_ref = ''cs_'' @ ci_session_id c, co_url = ''https://pay''\<rparr>),
      p_expire_checkout = (\<lambda>_ _. Inr ()),
      p_capture = (\<lambda>_ _ _. Inr ()),
      p_release = (\<lambda>_ _ _. Inr ()),
      p_refund = (\<lambda>_ _ _. Inr ()),
      p_parse_webhook = (\<lambda>_ _. Inl ErrDisabled)\<rparr>"

definition env_of :: "provider \<Rightarrow> env" where
  "env_of p =
     \<lparr>x_provider = p, x_hold_ttl = minutes 30, x_app_url = ''https://app'', x_mail_from = ''no-reply@app'',
      x_load_location = (\<lambda>n. if n = ''UTC'' then Some utc else if n = ''Pacific/Apia'' then Some apia
        else if n = ''America/Sao_Paulo'' then Some sao_paulo else None),
      x_sha256_hex = (\<lambda>t. ''h'' @ t), x_uuid_text = (\<lambda>i. decimal (int i)),
      x_parse_uuid = (\<lambda>t. map_option nat (atoi t)),
      x_parse_rfc3339 = (\<lambda>t. if t = ''mon10'' then Some monday_10 else if t = ''mon14'' then Some monday_14 else None),
      x_parse_url = (\<lambda>u. Some (''https'', u))\<rparr>"

definition paid_env :: env where "paid_env = env_of ok_provider"
definition free_env :: env where "free_env = env_of disabled"

definition account_row :: "uuid \<Rightarrow> string \<Rightarrow> string \<Rightarrow> user" where
  "account_row i name role =
     \<lparr>u_id = i, u_email = name @ ''@mail'', u_password_hash = [], u_display_name = name, u_role = role,
      u_email_verified = True, u_created_at = 0, u_updated_at = 0, u_deleted_at = None,
      u_dating_styles = [], u_phases_strong = [], u_phases_working_on = [], u_dating_preferences = []\<rparr>"

definition coach_profile :: coach where
  "coach_profile =
     \<lparr>c_user_id = 11, c_headline = [], c_bio = [], c_specialties = [], c_hourly_rate_cents = 9000,
      c_timezone = ''UTC'', c_years_experience = 5, c_accepting_clients = True, c_created_at = 0,
      c_updated_at = 0, c_phases = [''flirting''], c_approval_status = ''approved''\<rparr>"

definition start_db :: db where
  "start_db =
     \<lparr>d_users = [account_row 11 ''Ann'' ''coach'', account_row 12 ''Bob'' ''client'', account_row 13 ''Cy'' ''client''],
      d_coaches = [coach_profile],
      d_availability = [\<lparr>a_id = 10, a_coach_id = 11, a_weekday = 1, a_start_minute = 540, a_end_minute = 960\<rparr>],
      d_sessions = [], d_events = [], d_reviews = [], d_outbox = [], d_tokens = [], d_deletions = [],
      d_threads = [], d_chats = [], d_conversations = [], d_messages = [], d_analyses = [],
      d_examples = [], d_notifications = []\<rparr>"

definition coach_in :: "string \<Rightarrow> db" where
  "coach_in tz = start_db\<lparr>d_coaches := [coach_profile\<lparr>c_timezone := tz\<rparr>]\<rparr>"

definition world_at :: "db \<Rightarrow> sched list \<Rightarrow> instant \<Rightarrow> uuid \<Rightarrow> world" where
  "world_at d sch now i =
     \<lparr>w_db = d, w_sched = sch, w_in_tx = False, w_now = now, w_dbnow = now, w_next_id = i,
      w_random = [''tok1'', ''tok2''], w_calls = [],
      w_redis = \<lparr>v_strings = (\<lambda>_. None), v_sets = (\<lambda>_. None)\<rparr>, w_codes = [42, 123456, 7], w_signals = []\<rparr>"

definition bob :: http where
  "bob = \<lparr>h_principal = Some 12, h_path = (\<lambda>_. ''100''), h_query = (\<lambda>_. [])\<rparr>"

definition booking :: book_input where
  "booking = \<lparr>bi_coach_id = ''11'', bi_scheduled_time = ''mon10'', bi_duration_minutes = 45, bi_topic = ''hi''\<rparr>"

definition before :: world where "before = world_at start_db [] monday_8 100"

lemma before_calm [simp]: "w_sched before = []"
  by (simp add: before_def world_at_def)

lemma coach_before:
  "coach_lookup 11 (w_db before) = Some (coach_row_of start_db coach_profile (account_row 11 ''Ann'' ''coach''))"
  by (simp add: before_def world_at_def coach_lookup_def coach_join_def start_db_def coach_profile_def account_row_def)

lemma coach_view_simps [simp]:
  "cv_timezone (coach_view_of env (coach_row_of d c u)) = c_timezone c"
  "cv_accepting_clients (coach_view_of env (coach_row_of d c u)) = c_accepting_clients c"
  "cv_approval_status (coach_view_of env (coach_row_of d c u)) = c_approval_status c"
  by (simp_all add: coach_view_of_def coach_row_of_def Let_def)

definition straddle_world :: world where
  "straddle_world = world_at (start_db\<lparr>d_sessions := [new_session 13 11 (monday_10 + minutes 60) 45 [] Scheduled 7 0]\<rparr>) [] monday_8 100"

definition sp_world :: world where
  "sp_world = world_at ((coach_in ''America/Sao_Paulo'')\<lparr>d_availability :=
     [\<lparr>a_id = 10, a_coach_id = 11, a_weekday = 1, a_start_minute = 540, a_end_minute = 780\<rparr>,
      \<lparr>a_id = 11, a_coach_id = 11, a_weekday = 6, a_start_minute = 540, a_end_minute = 780\<rparr>]\<rparr>) [] 0 100"

end
