(* ===== verification/Slot_Properties.thy ===== *)
theory Slot_Properties
  imports Scenario
begin

text \<open>
  Properties of slots and bookability (theory Scheduling): what \<open>OpenSlots\<close> offers can be
  booked, \<open>assertBookable\<close> agrees with the exclusion constraint, the day loop ends in
  every ordinary time zone, and the cases in which these fail.
\<close>

text \<open>
  C32: a slot of 15 to 240 minutes that \<open>OpenSlots\<close> offers and that ends within the
  queried range passes \<open>assertBookable\<close> in the same state, for a coach in an ordinary
  time zone (offsets within a day of each other) who, where that is asked, accepts clients.
  (Shorter slots are offered too, and refused.)
\<close>

theorem open_slots_are_bookable:
  assumes calm: "w_sched w = []" and coach: "GetCoach env c w = (Inr cv, w)"
    and slots: "OpenSlots env fuel c u from to dur0 ex w = (Inr slots, w')" "(t, dur) \<in> set slots"
    and loc: "narrow (location_or_utc env (cv_timezone cv))"
    and dur: "min_session_minutes \<le> dur" "dur \<le> max_session_minutes"
    and inside: "t + minutes dur \<le> to" and acc: "acc \<Longrightarrow> cv_accepting_clients cv"
  shows "assertBookable env c t dur acc ex w = (Inr (), w)"
proof -
  obtain r v k day where r: "sr_loc r = location_or_utc env (cv_timezone cv)" "from \<le> sr_from r" "sr_duration r = dur"
      "sr_booked r = booked_slots c (from - minutes max_session_minutes) to (w_db w)" "sr_exclude r = ex"
      "sr_to r = to" and approved: "cv_approval_status cv = ''approved''"
    and v: "v \<in> set (map window_of (sort_key a_weekday (sort_key a_start_minute
        (filter (\<lambda>a. a_coach_id a = c) (d_availability (w_db w))))))"
      "w_weekday v = weekday (sr_loc r) day" "w_start_minute v \<le> k" "k + dur \<le> w_end_minute v"
    and t: "t = slot_start r day k" "slot_open r day k"
    by (rule OpenSlots_Inr [OF calm coach slots])
  from t have open': "wall_minute (sr_loc r) t = k" "sr_from r \<le> t" "\<not> overlaps_booked t dur (sr_booked r) ex"
    using r by (auto simp: slot_open_def Let_def)
  have "weekday (sr_loc r) t = weekday (sr_loc r) day"
    using slot_same_day [of r day k] loc open'(1) t(1) r(1) by (simp add: weekday_def)
  with v open'(1) r(1) have window: "inside_window (location_or_utc env (cv_timezone cv)) t dur
      (map window_of (sort_key a_weekday (sort_key a_start_minute
         (filter (\<lambda>a. a_coach_id a = c) (d_availability (w_db w))))))"
    unfolding inside_window_def list_ex_iff by (auto simp: wall_minute_def intro!: bexI [of _ v])
  have "\<not> overlaps_booked t dur (booked_slots c (t - minutes max_session_minutes) (t + minutes dur) (w_db w)) ex"
    by (rule overlaps_booked_slots [of "from - minutes max_session_minutes" _ _ to])
      (use r open' inside in auto)
  with window approved acc dur show ?thesis
    by (simp add: assertBookable_calm [OF calm coach])
qed

lemma open_slots_are_bookable_witness:
  "assertBookable free_env 11 monday_10 45 True None before = (Inr (), before)"
proof -
  have coach: "GetCoach free_env 11 before =
      (Inr (coach_view_of free_env (coach_row_of start_db coach_profile (account_row 11 ''Ann'' ''coach''))), before)"
    by (simp add: GetCoach_calm coach_before)
  have "(case fst (OpenSlots free_env 40 11 12 monday_8 monday_14 45 None before) of
      Inl e \<Rightarrow> False | Inr x \<Rightarrow> (monday_10, 45) \<in> set x) = True"
    by code_simp
  then obtain slots where s: "fst (OpenSlots free_env 40 11 12 monday_8 monday_14 45 None before) = Inr slots" "(monday_10, 45) \<in> set slots"
    by (auto split: sum.splits)
  show ?thesis
    by (rule open_slots_are_bookable [OF before_calm coach fst_run [OF s(1)] s(2)])
      (simp_all add: coach_profile_def free_env_def env_of_def location_or_utc_def scheduling_consts
        monday_10_def monday_14_def seconds_def minutes_def)
qed

text \<open>The booked slots around a start time clash with it exactly when some session does.\<close>

lemma overlaps_booked_clash:
  assumes ok: "constraints_ok (w_db w)"
    and new: "holds_slot s'" "s_coach_id s' = c" "s_scheduled_time s' = t" "session_end s' = t + minutes dur"
  shows "overlaps_booked t dur (booked_slots c (t - minutes max_session_minutes) (t + minutes dur) (w_db w)) None \<longleftrightarrow>
    (\<exists>s \<in> set (d_sessions (w_db w)). clash s s')"
proof
  assume "overlaps_booked t dur (booked_slots c (t - minutes max_session_minutes) (t + minutes dur) (w_db w)) None"
  then show "\<exists>s \<in> set (d_sessions (w_db w)). clash s s'"
    using new by (fastforce simp: overlaps_booked_def booked_slots_def booked_of_def list_ex_iff clash_def session_end_def)
next
  assume "\<exists>s \<in> set (d_sessions (w_db w)). clash s s'"
  then obtain s where s: "s \<in> set (d_sessions (w_db w))" "clash s s'" by blast
  from s(2) new have c: "holds_slot s" "s_coach_id s = c" "s_scheduled_time s < t + minutes dur" "t < session_end s"
    by (auto simp: clash_def)
  from ok s(1) have "session_checks s" by (simp add: constraints_ok_iff list_all_iff)
  with c(4) have "t - minutes max_session_minutes \<le> s_scheduled_time s"
    by (simp add: session_checks_def session_end_def minutes_def max_session_minutes_def)
  with s(1) c have "booked_of s \<in> set (booked_slots c (t - minutes max_session_minutes) (t + minutes dur) (w_db w))" by (auto simp: booked_slots_def)
  moreover have "t < b_scheduled_time (booked_of s) + minutes (b_duration_minutes (booked_of s))"
    "b_scheduled_time (booked_of s) < t + minutes dur"
    using c by (simp_all add: booked_of_def session_end_def)
  ultimately show "overlaps_booked t dur (booked_slots c (t - minutes max_session_minutes) (t + minutes dur) (w_db w)) None"
    by (auto simp: overlaps_booked_def list_ex_iff)
qed

text \<open>
  C33: \<open>assertBookable\<close> and the exclusion constraint agree.  When it lets a start time pass,
  inserting the session overlaps no other; when it answers \<open>ErrSlotTaken\<close>, it would.
\<close>

theorem assertBookable_agrees:
  assumes calm: "w_sched w = []" and inv: "constraints_ok (w_db w)" and holds: "st \<in> {PendingPayment, Pending, Scheduled}"
    and run: "assertBookable env c t dur acc None w = (res, w')"
  shows "(res = Inr () \<longrightarrow> no_overlap (d_sessions (w_db w) @ [new_session u c t dur topic st i now])) \<and>
         (res = Inl ErrSlotTaken \<longrightarrow> \<not> no_overlap (d_sessions (w_db w) @ [new_session u c t dur topic st i now]))"
proof -
  let ?new = "new_session u c t dur topic st i now"
  let ?rows = "booked_slots c (t - minutes max_session_minutes) (t + minutes dur) (w_db w)"
  have old: "no_overlap (d_sessions (w_db w))" using inv by (simp add: constraints_ok_iff)
  have new: "holds_slot ?new" "s_coach_id ?new = c" "s_scheduled_time ?new = t" "session_end ?new = t + minutes dur"
    using holds by (auto simp: new_session_def holds_slot_def session_end_def)
  note taken = overlaps_booked_clash [OF inv new]
  have iff: "no_overlap (d_sessions (w_db w) @ [?new]) \<longleftrightarrow> \<not> overlaps_booked t dur ?rows None"
    using old taken by (auto simp: no_overlap_def sorted_wrt_append)
  show ?thesis
  proof (cases "GetCoach env c w")
    case (Pair r w1)
    with calm have w1: "w1 = w" by (auto simp: GetCoach_calm split: option.splits)
    show ?thesis
    proof (cases r)
      case (Inr cv)
      with Pair w1 have "GetCoach env c w = (Inr cv, w)" by simp
      from assertBookable_calm [OF calm this] run show ?thesis
        by (auto simp: iff split: if_splits)
    next
      case (Inl e)
      with Pair w1 calm have "e = ErrNotFound" by (auto simp: GetCoach_calm split: option.splits)
      with Inl Pair run show ?thesis
        by (auto simp: assertBookable_def bindE_def failIf_def split: if_splits)
    qed
  qed
qed

lemma assertBookable_agrees_witness:
  "no_overlap (d_sessions (w_db before) @ [new_session 12 11 monday_10 45 [] Pending 100 monday_8])"
proof -
  have inv: "constraints_ok (w_db before)" by code_simp
  have "fst (assertBookable free_env 11 monday_10 45 True None before) = Inr ()" by code_simp
  from assertBookable_agrees [OF before_calm inv _ fst_run [OF this], of Pending 12 "[]" 100 monday_8]
  show ?thesis by simp
qed

section \<open>Termination of the slot search\<close>

text \<open>Errors of a computation started where \<open>I\<close> holds.\<close>

definition raises_in :: "('w \<Rightarrow> bool) \<Rightarrow> ('e \<Rightarrow> bool) \<Rightarrow> ('w, 'e, 'a) go \<Rightarrow> bool" where
  "raises_in I E m \<longleftrightarrow> (\<forall>w e w'. I w \<longrightarrow> m w = (Inl e, w') \<longrightarrow> E e)"

lemma raises_in: "raises E m \<Longrightarrow> raises_in I E m"
  by (auto simp: raises_in_def dest: raisesD)

lemma raises_in_bindE:
  assumes "keeps I m" and "raises E m" and "\<And>x. raises_in I E (f x)"
  shows "raises_in I E (bindE m f)"
  using assms unfolding raises_in_def bindE_Inl by (meson keepsD raisesD)

lemma raises_in_yields:
  assumes "yields I m V" and "raises E m" and "\<And>x. V x \<Longrightarrow> raises E (f x)"
  shows "raises_in I E (bindE m f)"
  using assms unfolding raises_in_def yields_def bindE_Inl by (meson raisesD)

lemma raises_in_guard: "E e \<Longrightarrow> (\<not> b \<Longrightarrow> raises_in I E (f ())) \<Longrightarrow> raises_in I E (bindE (failIf b e) f)"
  by (auto simp: raises_in_def bindE_def failIf_def)

text \<open>The coach's own time zone is an ordinary one.\<close>

definition ordinary_zone :: "env \<Rightarrow> uuid \<Rightarrow> db \<Rightarrow> bool" where
  "ordinary_zone env c d \<longleftrightarrow>
     (\<forall>k \<in> set (d_coaches d). c_user_id k = c \<longrightarrow> narrow (location_or_utc env (c_timezone k)))"

lemma yields_GetCoach_zone:
  "yields (db_inv (ordinary_zone env c)) (GetCoach env c) (\<lambda>cv. narrow (location_or_utc env (cv_timezone cv)))"
proof -
  have "yields (db_inv (ordinary_zone env c)) (GetCoachQuery c)
      (\<lambda>k. narrow (location_or_utc env (c_timezone (k_coach k))))"
    unfolding GetCoachQuery_def
    by (rule yields_select_one)
      (auto simp: coach_lookup_def coach_join_def coach_row_of_def ordinary_zone_def bind_eq_Some_conv Let_def
        dest!: find_Some_mem)
  then show ?thesis
    unfolding yields_def GetCoach_def by (fastforce simp: go_results coach_view_of_def Let_def)
qed

lemma slots_of_coach:
  assumes zone: "narrow (location_or_utc env (cv_timezone cv))" and range: "\<not> hours (max_availability_days * 24) < to - from"
  shows "raises (\<lambda>e. e \<noteq> OutOfFuel)
    (if cv_approval_status cv \<noteq> ''approved'' then ret []
     else bindE (ListAvailability c) (\<lambda>windows.
       bindE (ListBookedSlots c (from - minutes max_session_minutes) to) (\<lambda>rows.
       bindE (asks w_now) (\<lambda>now.
       case all_slots slot_fuel \<lparr>sr_loc = location_or_utc env (cv_timezone cv), sr_from = earliest_start env ex now from,
              sr_to = to, sr_duration = dur, sr_booked = rows, sr_exclude = ex\<rparr> windows of
         None \<Rightarrow> throw OutOfFuel
       | Some starts \<Rightarrow> ret (map (\<lambda>t. (t, dur)) starts)))))"
proof -
  have range: "all_slots slot_fuel \<lparr>sr_loc = location_or_utc env (cv_timezone cv), sr_from = earliest_start env ex now from,
      sr_to = to, sr_duration = dur, sr_booked = rows, sr_exclude = ex\<rparr> ws \<noteq> None" for now rows ws
  proof -
    have "\<exists>ts. all_slots slot_fuel \<lparr>sr_loc = location_or_utc env (cv_timezone cv), sr_from = earliest_start env ex now from,
        sr_to = to, sr_duration = dur, sr_booked = rows, sr_exclude = ex\<rparr> ws = Some ts"
      by (rule all_slots_terminates)
        (use zone range earliest_start_le [of "from" env ex now] in \<open>auto simp: max_availability_days_def\<close>)
    then show ?thesis by auto
  qed
  show ?thesis by (intro raises_intros plain_reads) (auto simp: range)
qed

text \<open>
  C34: \<open>OpenSlots\<close> never runs out of fuel for a coach in an ordinary time zone (offsets within
  a day of each other), whatever zones other coaches have and whatever faults and interference
  its queries meet, as long as nobody gives the coach another kind of zone meanwhile: the day
  loop ends.
\<close>

lemma open_slots_terminates:
  assumes "ordinary_zone env c (w_db w)"
    and "\<forall>f. Others f \<in> set (w_sched w) \<longrightarrow> (\<forall>d. ordinary_zone env c d \<longrightarrow> ordinary_zone env c (f d))"
  shows "fst (OpenSlots env slot_fuel c u from to dur ex w) \<noteq> Inl OutOfFuel"
proof -
  have "raises (\<lambda>e. e \<noteq> OutOfFuel) (excluded_session_ok c u ex)"
    unfolding excluded_session_ok_def by (intro raises_intros plain_reads) auto
  moreover have "keeps (db_inv (ordinary_zone env c)) (excluded_session_ok c u ex)"
    unfolding excluded_session_ok_def by (intro keeps_intros)
  ultimately have "raises_in (db_inv (ordinary_zone env c)) (\<lambda>e. e \<noteq> OutOfFuel) (OpenSlots env slot_fuel c u from to dur ex)"
    unfolding OpenSlots_def Let_def
    by (intro raises_in_bindE raises_in_guard raises_in_yields [OF yields_GetCoach_zone plain_reads(1)] slots_of_coach) auto
  moreover have "db_inv (ordinary_zone env c) w" using assms by (simp add: db_inv_def rely_def)
  ultimately show ?thesis
    by (cases "OpenSlots env slot_fuel c u from to dur ex w") (auto simp: raises_in_def)
qed

text \<open>A coach in Sao Paulo, where the clock also knows Samoa, whose hours are withdrawn meanwhile.\<close>

lemma open_slots_terminates_witness:
  "fst (OpenSlots free_env slot_fuel 11 12 monday_8 monday_14 45 None
      (sp_world\<lparr>w_sched := [Ok, Others (\<lambda>d. d\<lparr>d_availability := []\<rparr>), Fault]\<rparr>)) \<noteq> Inl OutOfFuel \<and>
   \<not> narrow (location_or_utc free_env ''Pacific/Apia'')"
proof
  have "narrow sao_paulo" by (simp add: narrow_def offsets_def sao_paulo_def)
  then show "fst (OpenSlots free_env slot_fuel 11 12 monday_8 monday_14 45 None
      (sp_world\<lparr>w_sched := [Ok, Others (\<lambda>d. d\<lparr>d_availability := []\<rparr>), Fault]\<rparr>)) \<noteq> Inl OutOfFuel"
    by (intro open_slots_terminates)
      (simp_all add: ordinary_zone_def sp_world_def world_at_def coach_in_def start_db_def coach_profile_def
        location_or_utc_def free_env_def env_of_def)
  show "\<not> narrow (location_or_utc free_env ''Pacific/Apia'')"
    by (simp add: narrow_def offsets_def location_or_utc_def free_env_def env_of_def apia_def)
qed

text \<open>
  The day loop does not end for a coach in a zone that skipped a calendar day
  (Pacific/Apia) and a range that starts before the skipped day, whatever the fuel:
  \<open>AddDate(0, 0, 1)\<close> from 29 December 2011 returns the same midnight.
\<close>

theorem day_loop_diverges:
  "fst (OpenSlots free_env fuel 11 12 (seconds 1325030400) (seconds 1325548800) 45 None
      (world_at (coach_in ''Pacific/Apia'') [] monday_8 100)) = Inl OutOfFuel"
proof -
  let ?w = "world_at (coach_in ''Pacific/Apia'') [] monday_8 100"
  let ?c = "coach_profile\<lparr>c_timezone := ''Pacific/Apia''\<rparr>"
  let ?r = "\<lparr>sr_loc = apia, sr_from = seconds 1325030400, sr_to = seconds 1325548800, sr_duration = 45,
      sr_booked = [], sr_exclude = None\<rparr>"
  let ?stuck = "seconds 1325152800"
  have calm: "w_sched ?w = []" by (simp add: world_at_def)
  have coach: "GetCoach free_env 11 ?w =
      (Inr (coach_view_of free_env (coach_row_of (coach_in ''Pacific/Apia'') ?c (account_row 11 ''Ann'' ''coach''))), ?w)"
    by (simp add: GetCoach_calm calm)
      (simp add: world_at_def coach_lookup_def coach_join_def coach_in_def start_db_def coach_profile_def account_row_def)
  have loc: "location_or_utc free_env ''Pacific/Apia'' = apia"
    by (simp add: location_or_utc_def free_env_def env_of_def)
  have stuck: "days_loop f ?r ws ?stuck = None" for f ws
  proof (rule days_loop_stuck)
    show "add_day (sr_loc ?r) ?stuck = ?stuck" by code_simp
    show "\<not> sr_to ?r < ?stuck" by code_simp
  qed
  have day2: "days_loop f ?r ws (seconds 1325066400) = None" for f ws
  proof (rule days_loop_skip)
    have "add_day (sr_loc ?r) (seconds 1325066400) = ?stuck" by code_simp
    then show "days_loop f ?r ws (add_day (sr_loc ?r) (seconds 1325066400)) = None" for f
      by (simp only: stuck)
    show "\<not> sr_to ?r < seconds 1325066400" by code_simp
  qed
  have "days_loop f ?r ws (first_day ?r) = None" for f ws
  proof (rule days_loop_skip)
    have "add_day (sr_loc ?r) (first_day ?r) = seconds 1325066400" by code_simp
    then show "days_loop f ?r ws (add_day (sr_loc ?r) (first_day ?r)) = None" for f
      by (simp only: day2)
    show "\<not> sr_to ?r < first_day ?r" by code_simp
  qed
  then have none: "all_slots fuel ?r ws = None" for ws by (simp add: all_slots_def)
  have rows: "booked_slots 11 from until (w_db ?w) = []" for "from" until
    by (simp add: booked_slots_def world_at_def coach_in_def start_db_def)
  have start: "earliest_start free_env None now from = from" for now "from"
    by (simp add: earliest_start_def payments_enabled_def free_env_def env_of_def)
  have range: "seconds 1325030400 < seconds 1325548800"
    "\<not> hours (max_availability_days * 24) < seconds 1325548800 - seconds 1325030400"
    by (simp_all add: seconds_def hours_def max_availability_days_def)
  have tz: "c_timezone ?c = ''Pacific/Apia''" "c_approval_status ?c = ''approved''"
    by (simp_all add: coach_profile_def)
  have ex: "excluded_session_ok 11 12 None ?w = (Inr (), ?w)"
    by (simp add: excluded_session_ok_def ret_def)
  show ?thesis
    by (subst OpenSlots_calm [OF calm coach ex _ refl]) (simp_all add: tz loc start rows none range)
qed

text \<open>
  Where summer time starts at midnight (Sao Paulo, 4 November 2018) the loop's day
  falls back an hour: Saturday's slot is offered twice, and Monday's, which can be booked
  and starts within the range, is not offered.
\<close>

theorem midnight_transition:
  "fst (OpenSlots free_env 9 11 12 (seconds 1541116800) (seconds 1541448000) 240 None sp_world) =
     Inr [(seconds 1541246400, 240), (seconds 1541246400, 240)] \<and>
   seconds 1541415600 < seconds 1541448000 \<and>
   fst (assertBookable free_env 11 (seconds 1541415600) 240 True None sp_world) = Inr ()"
proof (intro conjI)
  show "fst (OpenSlots free_env 9 11 12 (seconds 1541116800) (seconds 1541448000) 240 None sp_world) =
     Inr [(seconds 1541246400, 240), (seconds 1541246400, 240)]" by code_simp
  show "fst (assertBookable free_env 11 (seconds 1541415600) 240 True None sp_world) = Inr ()" by code_simp
qed (simp add: seconds_def)

text \<open>
  A slot may be offered that a booked session overlaps: the booked sessions are listed
  up to the end of the range, so one that starts at or after it is missed by a slot that
  reaches past it.
\<close>

theorem straddling_slot:
  "\<exists>slots. fst (OpenSlots free_env 40 11 12 monday_8 (monday_10 + minutes 45) 60 None straddle_world) = Inr slots \<and>
     (monday_10 + minutes 30, 60) \<in> set slots \<and>
     fst (assertBookable free_env 11 (monday_10 + minutes 30) 60 True None straddle_world) = Inl ErrSlotTaken"
proof -
  have 1: "(case fst (OpenSlots free_env 40 11 12 monday_8 (monday_10 + minutes 45) 60 None straddle_world) of
     Inl e \<Rightarrow> False | Inr x \<Rightarrow> (monday_10 + minutes 30, 60) \<in> set x) = True"
    by code_simp
  have 2: "fst (assertBookable free_env 11 (monday_10 + minutes 30) 60 True None straddle_world) = Inl ErrSlotTaken"
    by code_simp
  from 1 2 show ?thesis by (auto split: sum.splits)
qed

text \<open>
  The coach's deadline lies between now and the start of the session, at most a day
  ahead, and two hours before the start when there is that much time.
\<close>

theorem respond_deadline_bounds:
  assumes "now \<le> start"
  shows "now \<le> respond_deadline now start \<and> respond_deadline now start \<le> start \<and>
         respond_deadline now start \<le> now + hours 24 \<and>
         (hours 2 \<le> start - now \<longrightarrow> respond_deadline now start \<le> start - hours 2)"
  using assms by (auto simp: respond_deadline_def Let_def respond_window_def respond_lead_time_def hours_def)

lemma respond_deadline_bounds_witness:
  "respond_deadline monday_8 monday_10 \<le> monday_10 \<and> respond_deadline monday_8 monday_10 \<le> monday_10 - hours 2"
  using respond_deadline_bounds [of monday_8 monday_10] by (simp add: monday_8_def monday_10_def seconds_def hours_def)

end
