(* ===== verification/System_Properties.thy ===== *)
theory System_Properties
  imports Scenario
begin

text \<open>
  Properties of every database the backend can reach (theory Backend), under any
  interleaving of requests, webhook events and worker ticks, and any database faults.
\<close>

section \<open>A reachable database\<close>

lemma serve_calm:
  "i \<notin> G \<Longrightarrow> serve env sm G d (w_db (perform env fuel sm c (world_at d [] now i)))"
  using serve.intros [of "world_at d [] now i" G env sm fuel c] by (simp add: world_at_def)

definition cy :: http where
  "cy = \<lparr>h_principal = Some 13, h_path = (\<lambda>_. ''100''), h_query = (\<lambda>_. [])\<rparr>"

definition booked_once :: db where
  "booked_once = w_db (perform paid_env 5 None (PostSession bob (Some booking)) (world_at start_db [] monday_8 100))"

definition booked_twice :: db where
  "booked_twice = w_db (perform paid_env 5 None
     (PostSession cy (Some (booking\<lparr>bi_scheduled_time := ''mon14''\<rparr>)))
     ((world_at booked_once [] monday_8 200)\<lparr>w_random := [''tok9'']\<rparr>))"

lemma serve_world:
  "\<not> w_in_tx w \<Longrightarrow> w_sched w = [] \<Longrightarrow> w_next_id w \<notin> G \<Longrightarrow> w_db w = d \<Longrightarrow>
   serve env sm G d (w_db (perform env fuel sm c w))"
  using serve.intros [of w G env sm fuel c] by simp

lemma booked_twice_reachable: "(serve paid_env None {})\<^sup>*\<^sup>* start_db booked_twice"
proof (rule rtranclp.rtrancl_into_rtrancl)
  show "(serve paid_env None {})\<^sup>*\<^sup>* start_db booked_once"
    unfolding booked_once_def by (rule r_into_rtranclp) (rule serve_calm, simp)
  show "serve paid_env None {} booked_once booked_twice"
    unfolding booked_twice_def by (rule serve_world) (simp_all add: world_at_def)
qed

lemma no_bookings_start: "no_bookings start_db"
  by (simp add: no_bookings_def start_db_def)

section \<open>The properties\<close>

text \<open>
  C1: no coach is ever double-booked.  In every reachable database two different sessions
  of a coach that hold a slot do not overlap in time.
\<close>

theorem no_double_booking:
  assumes "no_bookings d0" and "(serve env sm {})\<^sup>*\<^sup>* d0 d"
    and "s \<in> set (d_sessions d)" "t \<in> set (d_sessions d)" "s_id s \<noteq> s_id t"
    and "holds_slot s" "holds_slot t" "s_coach_id s = s_coach_id t"
  shows "session_end s \<le> s_scheduled_time t \<or> session_end t \<le> s_scheduled_time s"
proof -
  have "no_overlap (d_sessions d)"
    using backend.inv_reachable [OF assms(1,2)] by (simp add: rows_inv_def constraints_ok_iff)
  then have "\<not> clash s t \<or> \<not> clash t s"
    using assms(3-5) unfolding no_overlap_def sorted_wrt_iff_nth_less in_set_conv_nth
    by (metis linorder_neqE_nat)
  with assms(6-8) show ?thesis by (auto simp: clash_def)
qed

text \<open>
  C2: in every reachable database each session is in a lawful combination of lifecycle
  status, payment state, confirmation token and deadlines (\<open>row_ok\<close>).  In particular a
  scheduled session is free or paid, a pending one can be answered and will expire, and
  money is only held, released, taken or returned for a session with a checkout reference.
\<close>

theorem sessions_lawful:
  assumes "no_bookings d0" and "(serve env sm {})\<^sup>*\<^sup>* d0 d" and "s \<in> set (d_sessions d)"
  shows "row_ok s"
  using rows_inv_mem [OF backend.inv_reachable [OF assms(1,2)] assms(3)] by (simp add: row_inv_def)

section \<open>Witnesses\<close>

lemma booked_twice_sessions:
  "map (\<lambda>s. (s_id s, s_coach_id s, s_status s)) (d_sessions booked_twice) =
     [(100, 11, PendingPayment), (200, 11, PendingPayment)]"
  by code_simp

lemma booked_twice_rows:
  obtains s t where "d_sessions booked_twice = [s, t]" "s_id s = 100" "s_id t = 200"
    "s_coach_id s = s_coach_id t" "holds_slot s" "holds_slot t"
  using booked_twice_sessions by (auto simp: map_eq_Cons_conv holds_slot_def)

lemma no_double_booking_witness:
  "\<exists>s t. d_sessions booked_twice = [s, t] \<and>
     (session_end s \<le> s_scheduled_time t \<or> session_end t \<le> s_scheduled_time s)"
proof -
  obtain s t where st: "d_sessions booked_twice = [s, t]" "s_id s = 100" "s_id t = 200"
    "s_coach_id s = s_coach_id t" "holds_slot s" "holds_slot t"
    by (rule booked_twice_rows)
  have "session_end s \<le> s_scheduled_time t \<or> session_end t \<le> s_scheduled_time s"
    by (rule no_double_booking [OF no_bookings_start booked_twice_reachable]) (simp_all add: st)
  with st show ?thesis by blast
qed

lemma sessions_lawful_witness: "\<exists>s t. d_sessions booked_twice = [s, t] \<and> row_ok s"
proof -
  obtain s t where st: "d_sessions booked_twice = [s, t]" by (rule booked_twice_rows)
  have "row_ok s"
    by (rule sessions_lawful [OF no_bookings_start booked_twice_reachable]) (simp add: st)
  with st show ?thesis by blast
qed

end
