(* ===== verification/Answer_Properties.thy ===== *)
theory Answer_Properties
  imports Scenario
begin

text \<open>
  Properties of the coach's answer (\<open>respond\<close> of theory Booking): exactly what an answer
  does to the database and to the provider, and that an answer in time goes through.
\<close>

section \<open>A run of the transaction\<close>

text \<open>Operations that keep every property no session or mail matters to.\<close>

lemma keeps_answer_parts:
  assumes "\<And>d. I d"
  shows "keeps (tx_inv I) (answer_update c i)" "keeps (tx_inv I) (answer_capture env c u)"
    "keeps (tx_inv I) (answer_mails env c i)"
proof -
  note upd = txi.keeps_update_one [of I] txi.keeps_update_count [of I]
  show "keeps (tx_inv I) (answer_update c i)" "keeps (tx_inv I) (answer_capture env c u)"
    "keeps (tx_inv I) (answer_mails env c i)"
    unfolding answer_update_def answer_capture_def answer_mails_def capture_def whyNotPending_def
      session_query_defs Let_def
    by (intro keeps_intros upd assms)+
qed

text \<open>The transaction of an answer that went through.\<close>

lemma respond_Inr:
  assumes "respond env s action w = (Inr v, w')"
  obtains w1 u u' w3 w4 w5 w6 where "action \<in> {''confirm'', ''decline''}" "s_status s = Pending"
    "next_entry w = (False, w1)"
    "answer_update (action = ''confirm'') (s_id s) (w1\<lparr>w_in_tx := True\<rparr>) = (Inr u, w3)"
    "answer_capture env (action = ''confirm'') u w3 = (Inr u', w4)"
    "answer_mails env (action = ''confirm'') (s_id s) w4 = (Inr (), w5)"
    "w_in_tx w3" "w_in_tx w4" "w_in_tx w5" "next_entry w5 = (False, w6)"
    "v = session_of env u' []" "w' = w6\<lparr>w_in_tx := w_in_tx w1\<rparr>" "w_db w' = w_db w5" "w_calls w' = w_calls w5"
proof -
  from assms obtain w1 w5 u w3 u' w4 w6 where r:
    "action \<in> {''confirm'', ''decline''}" "s_status s = Pending" "next_entry w = (False, w1)"
    "answer_update (action = ''confirm'') (s_id s) (w1\<lparr>w_in_tx := True\<rparr>) = (Inr u, w3)"
    "answer_capture env (action = ''confirm'') u w3 = (Inr u', w4)"
    "answer_mails env (action = ''confirm'') (s_id s) w4 = (Inr (), w5)"
    "v = session_of env u' []" "next_entry w5 = (False, w6)" "w' = w6\<lparr>w_in_tx := w_in_tx w1\<rparr>"
    by (auto simp: respond_def go_results transaction_Inr commit_def)
  let ?T = "tx_inv (\<lambda>_. True)"
  have "?T (w1\<lparr>w_in_tx := True\<rparr>)" by (simp add: tx_inv_def)
  from keepsD [OF keeps_answer_parts(1) this r(4)] have 3: "?T w3" by simp
  from keepsD [OF keeps_answer_parts(2) 3 r(5)] have 4: "?T w4" by simp
  from keepsD [OF keeps_answer_parts(3) 4 r(6)] have 5: "?T w5" by simp
  show thesis
    by (rule that [OF r(1-6) _ _ _ r(8) r(7) r(9)])
      (use 3 4 5 r(9) next_entry_frame [OF r(8)] in \<open>auto simp: tx_inv_def\<close>)
qed

lemma respond_Inl:
  assumes "respond env s action w = (Inl e, w')"
  shows "w' = w \<or> (\<exists>b w1. next_entry w = (b, w1) \<and> w_db w' = w_db w1)"
  using assms transaction_error_unchanged by (fastforce simp: respond_def go_results)

section \<open>The effect of an answer\<close>

lemma calls_answer_parts:
  "keeps (calls_are cs) (answer_update c i)" "keeps (calls_are cs) (answer_mails env c i)"
  unfolding answer_update_def answer_mails_def whyNotPending_def to_queries by (intro keeps_intros)+

text \<open>The row an answer leaves.\<close>

definition answered_row :: "bool \<Rightarrow> instant \<Rightarrow> session \<Rightarrow> session" where
  "answered_row confirm now s =
     (if confirm
      then if s_payment_status s = PayAuthorized then pay_set PayPaid now (confirm_set now s) else confirm_set now s
      else decline_set now s)"

lemma answer_update_calm:
  assumes "w_sched w = []" "constraints_ok (w_db w)" "s \<in> set (d_sessions (w_db w))"
    and "answer_update c (s_id s) w = (Inr u, w')"
  shows "answerable (w_dbnow w) s \<and> u = (if c then confirm_set else decline_set) (w_dbnow w) s \<and>
    w' = with_sessions (update_where (\<lambda>t. s_id t = s_id s) ((if c then confirm_set else decline_set) (w_dbnow w))) w"
proof -
  have "update_one (by_id (s_id s) answerable) (if c then confirm_set else decline_set) w = (Inr u, w')"
    using assms(4) by (auto simp: answer_update_Inr ConfirmSession_def DeclineSession_def split: if_splits)
  moreover have "gentle ((if c then confirm_set else decline_set) (w_dbnow w)) s" if "answerable (w_dbnow w) s"
    using gentle_sets(1) [OF that] gentle_sets(2) by simp
  ultimately show ?thesis
    using update_one_calm(1) [OF assms(1-3), of answerable "if c then confirm_set else decline_set"]
    by (auto split: if_splits)
qed

lemma capture_calm:
  assumes calm: "w_sched w = []" and ok: "constraints_ok (w_db w)" and u: "u \<in> set (d_sessions (w_db w))"
    and pay: "s_payment_status u = PayAuthorized"
    and run: "capture env u w = (Inr x, w')"
  obtains ref where "s_payment_ref u = Some ref"
    "p_capture (x_provider env) (w_calls w) ref (x_uuid_text env (s_id u)) = Inr ()"
    "w_calls w' = w_calls w @ [CallCapture ref (x_uuid_text env (s_id u))]"
    "d_sessions (w_db w') = update_where (\<lambda>t. s_id t = s_id u) (pay_set PayPaid (w_dbnow w)) (d_sessions (w_db w))"
    "w_sched w' = []"
proof -
  from run obtain ref where ref: "s_payment_ref u = Some ref" by (auto simp: capture_def split: option.splits)
  let ?key = "x_uuid_text env (s_id u)" and ?w = "w\<lparr>w_calls := w_calls w @ [CallCapture ref (x_uuid_text env (s_id u))]\<rparr>"
  from run ref obtain y where y: "p_capture (x_provider env) (w_calls w) ref ?key = Inr y"
    and mark: "bindE (MarkSessionCaptured (s_id u)) (\<lambda>_. ret ()) ?w = (Inr x, w')"
    by (auto simp: capture_def Let_def attempt_def provider_call_def throw_def split: sum.splits)
  have "update_count (by_id (s_id u) (pay_guard PayAuthorized)) (pay_set PayPaid) ?w =
      (Inr 1, with_sessions (update_where (\<lambda>t. s_id t = s_id u) (pay_set PayPaid (w_dbnow w))) ?w)"
    by (subst update_one_calm(2)) (use calm ok u pay gentle_sets in \<open>auto simp: pay_guard_def\<close>)
  with mark have w': "w' = with_sessions (update_where (\<lambda>t. s_id t = s_id u) (pay_set PayPaid (w_dbnow w))) ?w"
    by (simp add: MarkSessionCaptured_def bindE_def ret_def)
  show thesis
    by (rule that [OF ref]) (use y w' calm in auto)
qed

lemma mails_keep_sessions: "keeps (tx_inv (\<lambda>d. d_sessions d = ss)) (answer_mails env c i)"
  unfolding answer_mails_def by (intro keeps_intros; simp)

text \<open>The capture that goes with an answer: the row afterwards, and the one call that may have been made.\<close>

lemma answer_captured:
  assumes calm: "w_sched w = []" and ok: "constraints_ok (w_db w)" and s: "s \<in> set (d_sessions (w_db w))"
    and ans: "answerable (w_dbnow w) s" and u: "u = (if c then confirm_set else decline_set) (w_dbnow w) s"
    and w3: "w3 = with_sessions (update_where (\<lambda>t. s_id t = s_id s) ((if c then confirm_set else decline_set) (w_dbnow w))) (w\<lparr>w_in_tx := True\<rparr>)"
    and run: "answer_capture env c u w3 = (Inr u', w4)"
  shows "d_sessions (w_db w4) = update_where (\<lambda>t. s_id t = s_id s) (\<lambda>_. answered_row c (w_dbnow w) s) (d_sessions (w_db w)) \<and>
    (if c \<and> s_payment_status s = PayAuthorized
     then \<exists>ref. s_payment_ref s = Some ref \<and> p_capture (x_provider env) (w_calls w) ref (x_uuid_text env (s_id s)) = Inr () \<and>
       w_calls w4 = w_calls w @ [CallCapture ref (x_uuid_text env (s_id s))]
     else w_calls w4 = w_calls w)"
proof -
  let ?now = "w_dbnow w" and ?ss = "d_sessions (w_db w)"
  have dist: "distinct (map s_id ?ss)" using ok by (simp add: constraints_ok_iff)
  have ss3: "d_sessions (w_db w3) = update_where (\<lambda>t. s_id t = s_id s) (\<lambda>_. u) ?ss"
    using update_where_const [OF dist s] by (simp add: w3 u)
  have id_u: "s_id u = s_id s" "s_payment_ref u = s_payment_ref s"
    by (auto simp: u confirm_set_def decline_set_def)
  show ?thesis
  proof (cases "c \<and> s_payment_status s = PayAuthorized")
    case True
    then have pay: "s_payment_status u = PayAuthorized" by (simp add: u confirm_set_def)
    from run True pay have cap: "capture env u w3 = (Inr (), w4)"
      by (auto simp: answer_capture_def bindE_Inr ret_Inr)
    have ok3: "constraints_ok (w_db w3)"
      unfolding w3 by (rule constraints_ok_with_row) (use ok s True ans gentle_sets(1) in simp_all)
    have calm3: "w_sched w3 = []" using calm by (simp add: w3)
    have mem: "u \<in> set (d_sessions (w_db w3))" using s by (auto simp: ss3 set_update_where)
    from capture_calm [OF calm3 ok3 mem pay cap] obtain ref where ref: "s_payment_ref u = Some ref"
      "p_capture (x_provider env) (w_calls w3) ref (x_uuid_text env (s_id u)) = Inr ()"
      "w_calls w4 = w_calls w3 @ [CallCapture ref (x_uuid_text env (s_id u))]"
      "d_sessions (w_db w4) = update_where (\<lambda>t. s_id t = s_id u) (pay_set PayPaid (w_dbnow w3)) (d_sessions (w_db w3))"
      by metis
    have "d_sessions (w_db w4) = update_where (\<lambda>t. s_id t = s_id s) (\<lambda>_. pay_set PayPaid ?now u) ?ss"
      unfolding ref(4) ss3 by (auto simp: update_where_def id_u w3)
    with True u ref id_u show ?thesis by (simp add: answered_row_def w3)
  next
    case False
    then have "\<not> (c \<and> s_payment_status u = PayAuthorized)" by (auto simp: u confirm_set_def)
    with run have "w4 = w3" by (auto simp: answer_capture_def ret_Inr split: if_splits)
    with ss3 False show ?thesis by (auto simp: answered_row_def u w3)
  qed
qed

text \<open>
  C7: what an answer does.  An error leaves the database as it was.  A confirmation or
  refusal that succeeds met a pending session within its deadline, changed exactly that
  row, and made a provider call only for a confirmation of a held card: one capture, under
  the session's reference and id, which the provider accepted.
\<close>

theorem answer_effect:
  assumes calm: "w_sched w = []" and ok: "constraints_ok (w_db w)" and s: "s \<in> set (d_sessions (w_db w))"
    and run: "respond env s action w = (res, w')"
  shows "case res of
      Inl e \<Rightarrow> w_db w' = w_db w
    | Inr v \<Rightarrow>
        answerable (w_dbnow w) s \<and> action \<in> {''confirm'', ''decline''} \<and>
        d_sessions (w_db w') = update_where (\<lambda>t. s_id t = s_id s)
          (\<lambda>_. answered_row (action = ''confirm'') (w_dbnow w) s) (d_sessions (w_db w)) \<and>
        (if action = ''confirm'' \<and> s_payment_status s = PayAuthorized
         then \<exists>ref. s_payment_ref s = Some ref \<and>
                p_capture (x_provider env) (w_calls w) ref (x_uuid_text env (s_id s)) = Inr () \<and>
                w_calls w' = w_calls w @ [CallCapture ref (x_uuid_text env (s_id s))]
         else w_calls w' = w_calls w)"
proof (cases res)
  case (Inl e)
  with run respond_Inl [of env s action w e w'] calm show ?thesis by auto
next
  case (Inr v)
  with run have "respond env s action w = (Inr v, w')" by simp
  then obtain w1 u u' w3 w4 w5 where r: "action \<in> {''confirm'', ''decline''}" "next_entry w = (False, w1)"
    "answer_update (action = ''confirm'') (s_id s) (w1\<lparr>w_in_tx := True\<rparr>) = (Inr u, w3)"
    "answer_capture env (action = ''confirm'') u w3 = (Inr u', w4)"
    "answer_mails env (action = ''confirm'') (s_id s) w4 = (Inr (), w5)"
    "w_in_tx w3" "w_in_tx w4" "w_db w' = w_db w5" "w_calls w' = w_calls w5"
    by (rule respond_Inr) blast
  let ?c = "action = ''confirm''"
  have w1: "w1 = w" using r(2) calm by simp
  have up: "answerable (w_dbnow w) s \<and> u = (if ?c then confirm_set else decline_set) (w_dbnow w) s \<and>
      w3 = with_sessions (update_where (\<lambda>t. s_id t = s_id s) ((if ?c then confirm_set else decline_set) (w_dbnow w))) (w\<lparr>w_in_tx := True\<rparr>)"
    using answer_update_calm [of "w\<lparr>w_in_tx := True\<rparr>" s ?c u w3] r(3) calm ok s by (simp add: w1)
  note eff = answer_captured [OF calm ok s conjunct1 [OF up] conjunct1 [OF conjunct2 [OF up]] conjunct2 [OF conjunct2 [OF up]] r(4)]
  have "tx_inv (\<lambda>d. d_sessions d = d_sessions (w_db w4)) w4" using r(7) by (simp add: tx_inv_def)
  from keepsD [OF mails_keep_sessions this r(5)] have "d_sessions (w_db w') = d_sessions (w_db w4)"
    using r(8) by (simp add: tx_inv_def)
  moreover have "w_calls w' = w_calls w4"
    using keepsD [OF calls_answer_parts(2) _ r(5), of "w_calls w4"] r(9) by (simp add: calls_are_def)
  ultimately show ?thesis using Inr r(1) up eff by simp
qed

section \<open>An answer in time\<close>

lemma answer_mails_succeed:
  assumes "w_sched w = []" and "parties_of i (w_db w) = Some p"
  shows "\<exists>w'. answer_mails env c i w = (Inr (), w') \<and> w_sched w' = []"
proof -
  define first where "first = (if c then client_confirmed env (w_now w) p else client_declined env (w_now w) p)"
  obtain w1 where w1: "enqueue first w = (Inr (), w1)" "w_sched w1 = []"
    using assms(1) by (simp add: enqueue_calm)
  moreover obtain w2 where "enqueue_opt (coach_calendar_update env (w_now w) p) w1 = (Inr (), w2)" "w_sched w2 = []"
    using w1(2) by (cases "coach_calendar_update env (w_now w) p") (simp_all add: enqueue_opt_calm enqueue_calm)
  ultimately show ?thesis
    using assms by (simp add: answer_mails_def GetSessionParties_calm bindE_def asks_def flip: first_def)
qed

lemma respond_succeeds:
  assumes calm: "w_sched w = []" and ok: "constraints_ok (w_db w)" "coaches_have_accounts (w_db w)"
    and s: "s \<in> set (d_sessions (w_db w))" and action: "action \<in> {''confirm'', ''decline''}"
    and ans: "answerable (w_dbnow w) s" "answerable (w_now w) s"
    and pay: "action = ''confirm'' \<Longrightarrow> s_payment_status s = PayAuthorized \<Longrightarrow>
      \<exists>ref. s_payment_ref s = Some ref \<and> p_capture (x_provider env) (w_calls w) ref (x_uuid_text env (s_id s)) = Inr ()"
  shows "\<exists>v w'. respond env s action w = (Inr v, w') \<and> w_sched w' = []"
proof -
  let ?c = "action = ''confirm''" and ?now = "w_dbnow w"
  let ?f = "if ?c then confirm_set else decline_set"
  let ?w = "w\<lparr>w_in_tx := True\<rparr>"
  let ?w3 = "with_sessions (update_where (\<lambda>t. s_id t = s_id s) (?f ?now)) ?w" and ?u = "?f ?now s"
  have dist: "distinct (map s_id (d_sessions (w_db w)))" using ok by (simp add: constraints_ok_iff)
  have g: "gentle (?f ?now) s" using gentle_sets(1) [OF ans(1)] gentle_sets(2) by simp
  have upd: "answer_update ?c (s_id s) ?w = (Inr ?u, ?w3)"
    unfolding answer_update_Inr ConfirmSession_def DeclineSession_def
    using update_one_calm(1) [of ?w s answerable ?f] calm ok s g ans by (cases ?c) simp_all
  have ok3: "constraints_ok (w_db ?w3)"
    by (rule constraints_ok_with_row) (use ok s g in simp_all)
  have u: "?u \<in> set (d_sessions (w_db ?w3))" "s_id ?u = s_id s"
    using s by (auto simp: set_update_where confirm_set_def decline_set_def)
  have calm3: "w_sched ?w3 = []" using calm by simp
  have acc: "coaches_have_accounts (w_db ?w3)" using ok(2) by (simp add: coaches_have_accounts_def)
  have "\<exists>u' w4. answer_capture env ?c ?u ?w3 = (Inr u', w4) \<and> w_sched w4 = [] \<and>
      (\<exists>p. parties_of (s_id s) (w_db w4) = Some p)"
  proof (cases "?c \<and> s_payment_status ?u = PayAuthorized")
    case False
    with parties_exist [OF ok3 acc u(1)] calm3 u(2) show ?thesis
      by (auto simp: answer_capture_def ret_def)
  next
    case True
    then have auth: "s_payment_status s = PayAuthorized" by (auto simp: confirm_set_def)
    with True pay obtain ref where ref: "s_payment_ref s = Some ref"
      "p_capture (x_provider env) (w_calls w) ref (x_uuid_text env (s_id s)) = Inr ()"
      by (auto simp: confirm_set_def)
    let ?v = "?w3\<lparr>w_calls := w_calls w @ [CallCapture ref (x_uuid_text env (s_id s))]\<rparr>"
    let ?w4 = "with_sessions (update_where (\<lambda>t. s_id t = s_id s) (pay_set PayPaid ?now)) ?v"
    have mark: "update_count (by_id (s_id ?u) (pay_guard PayAuthorized)) (pay_set PayPaid) ?v = (Inr 1, ?w4)"
      by (subst update_one_calm(2)) (use calm ok3 u True gentle_sets in \<open>auto simp: pay_guard_def\<close>)
    have "constraints_ok (w_db ?v)" using ok3 by simp
    then have "constraints_ok (w_db ?w4)"
      by (rule constraints_ok_with_sessions) (simp add: gentle_sets)
    moreover have "coaches_have_accounts (w_db ?w4)" using ok(2) by (simp add: coaches_have_accounts_def)
    moreover have "pay_set PayPaid ?now ?u \<in> set (d_sessions (w_db ?w4))" "s_id (pay_set PayPaid ?now ?u) = s_id s"
      using with_row_mem [of ?u ?v "s_id s" "pay_set PayPaid ?now"] u by (simp_all add: pay_set_def)
    ultimately have "\<exists>p. parties_of (s_id s) (w_db ?w4) = Some p" using parties_exist by metis
    moreover have "answer_capture env ?c ?u ?w3 = (Inr (?u\<lparr>s_payment_status := PayPaid\<rparr>), ?w4)"
      using True auth ref u(2) mark
      by (simp add: answer_capture_def capture_def MarkSessionCaptured_def bindE_def attempt_def provider_call_def
          Let_def ret_def confirm_set_def)
    ultimately show ?thesis using calm by auto
  qed
  then obtain u' w4 p where cap: "answer_capture env ?c ?u ?w3 = (Inr u', w4)" "w_sched w4 = []"
    "parties_of (s_id s) (w_db w4) = Some p" by blast
  from answer_mails_succeed [OF cap(2,3)] obtain w5 where
    mails: "answer_mails env ?c (s_id s) w4 = (Inr (), w5)" "w_sched w5 = []" by blast
  have body: "bindE (answer_update ?c (s_id s)) (\<lambda>u. bindE (answer_capture env ?c u) (\<lambda>u.
        bindE (answer_mails env ?c (s_id s)) (\<lambda>_. commit (session_of env u [])))) ?w =
      (Inr (True, session_of env u' []), w5)"
    using upd cap mails by (simp add: bindE_def commit_def ret_def)
  have guards: "action = ''confirm'' \<or> action = ''decline''" "s_status s = Pending"
    "\<not> (case s_respond_by s of None \<Rightarrow> False | Some t \<Rightarrow> t < w_now w)"
    using action ans by (auto simp: answerable_def split: option.splits)
  show ?thesis
    using guards body mails(2) calm
    by (auto simp: respond_def bindE_def failIf_def asks_def transaction_def)
qed

text \<open>
  C8: an answer in time succeeds.  For a pending session within its deadline, an account
  for every coach, and, when a card is held, a provider that accepts the capture, the
  coach's answer goes through.
\<close>

theorem answer_succeeds:
  assumes calm: "w_sched w = []" and ok: "constraints_ok (w_db w)" "coaches_have_accounts (w_db w)"
    and s: "s \<in> set (d_sessions (w_db w))" and action: "action \<in> {''confirm'', ''decline''}"
    and ans: "answerable (w_dbnow w) s" "answerable (w_now w) s"
    and pay: "action = ''confirm'' \<Longrightarrow> s_payment_status s = PayAuthorized \<Longrightarrow>
      \<exists>ref. s_payment_ref s = Some ref \<and> p_capture (x_provider env) (w_calls w) ref (x_uuid_text env (s_id s)) = Inr ()"
  shows "\<exists>v w'. respond env s action w = (Inr v, w')"
  using respond_succeeds [OF calm ok s action ans pay] by blast

definition pend :: session where
  "pend = (new_session 12 11 monday_10 45 [] Pending 7 0)\<lparr>s_payment_status := PayAuthorized,
     s_payment_ref := Some ''cs'', s_confirmation_token := Some ''htok'', s_respond_by := Some monday_8\<rparr>"

definition pend_world :: world where
  "pend_world = world_at (start_db\<lparr>d_sessions := [pend]\<rparr>) [] (monday_8 - 1) 100"

lemma pend_world_facts:
  "w_sched pend_world = []" "constraints_ok (w_db pend_world)" "coaches_have_accounts (w_db pend_world)"
  "pend \<in> set (d_sessions (w_db pend_world))"
  "answerable (w_dbnow pend_world) pend" "answerable (w_now pend_world) pend"
proof -
  show "constraints_ok (w_db pend_world)" by code_simp
qed (simp_all add: pend_world_def world_at_def coaches_have_accounts_def start_db_def coach_profile_def
  account_row_def answerable_def pend_def new_session_def)

lemma answer_succeeds_witness: "\<exists>v w'. respond paid_env pend ''confirm'' pend_world = (Inr v, w')"
  by (rule answer_succeeds [OF pend_world_facts(1-4) _ pend_world_facts(5,6)])
    (simp_all add: pend_def paid_env_def env_of_def ok_provider_def)

lemma pend_confirmed: "\<exists>v w'. respond paid_env pend ''confirm'' pend_world = (Inr v, w') \<and> w_sched w' = []"
  by (rule respond_succeeds [OF pend_world_facts(1-4) _ pend_world_facts(5,6)])
    (simp_all add: pend_def paid_env_def env_of_def ok_provider_def)

lemma answer_effect_witness:
  "\<exists>v w'. respond paid_env pend ''confirm'' pend_world = (Inr v, w') \<and>
     d_sessions (w_db w') = [answered_row True (monday_8 - 1) pend] \<and> length (w_calls w') = 1"
proof -
  obtain v w' where run: "respond paid_env pend ''confirm'' pend_world = (Inr v, w')"
    using pend_confirmed by blast
  from answer_effect [OF pend_world_facts(1,2,4) run] show ?thesis
    using run by (auto simp: pend_world_def world_at_def pend_def new_session_def)
qed

end
