(* ===== verification/Answer_Once.thy ===== *)
theory Answer_Once
  imports Answer_Properties
begin

text \<open>
  At most one answer to a session request wins, whatever the rest of the system does in
  between, as long as the session is not moved to another time: no other statement brings
  an answered session back to \<open>pending\<close>.
\<close>

section \<open>Answered sessions\<close>

text \<open>A status that is neither before an answer nor one a late payment can revive.\<close>

definition answered_status :: "session_status \<Rightarrow> bool" where
  "answered_status st \<longleftrightarrow> st \<in> {Scheduled, Declined, Completed, Cancelled, NoShow}"

definition settled :: "uuid \<Rightarrow> db \<Rightarrow> bool" where
  "settled i d \<longleftrightarrow> i \<in> s_id ` set (d_sessions d) \<and>
     (\<forall>s \<in> set (d_sessions d). s_id s = i \<longrightarrow> answered_status (s_status s))"

lemma settled_other_tables [simp]:
  "settled i (d\<lparr>d_outbox := o'\<rparr>) = settled i d" "settled i (d\<lparr>d_events := e'\<rparr>) = settled i d"
  "settled i (d\<lparr>d_coaches := c'\<rparr>) = settled i d" "settled i (d\<lparr>d_availability := a'\<rparr>) = settled i d"
  "settled i (d\<lparr>d_reviews := r'\<rparr>) = settled i d"
  by (simp_all add: settled_def)

text \<open>An UPDATE that leaves an answered row answered.\<close>

definition keeps_answered :: "uuid \<Rightarrow> (instant \<Rightarrow> session \<Rightarrow> bool) \<Rightarrow> (instant \<Rightarrow> session \<Rightarrow> session) \<Rightarrow> bool" where
  "keeps_answered i p f \<longleftrightarrow> (\<forall>now s. s_id (f now s) = s_id s \<and>
     (s_id s = i \<longrightarrow> answered_status (s_status s) \<longrightarrow> p now s \<longrightarrow> answered_status (s_status (f now s))))"

lemma settled_update:
  assumes "settled i d" and "keeps_answered i p f"
    and "write_sessions d (update_where (p now) (f now) (d_sessions d)) = Inr d'"
  shows "settled i d'"
proof -
  have d': "d_sessions d' = update_where (p now) (f now) (d_sessions d)"
    using assms(3) by (auto simp: write_sessions_Inr)
  have "map s_id (d_sessions d') = map s_id (d_sessions d)"
    unfolding d' using assms(2) by (simp add: map_update_where keeps_answered_def)
  then have "s_id ` set (d_sessions d') = s_id ` set (d_sessions d)" by (metis list.set_map)
  with assms(1,2) show ?thesis
    by (auto simp: settled_def d' set_update_where keeps_answered_def)
qed

lemmas answer_guards = by_id_def answerable_def awaiting_payment_def reinstate_guard_def lapsed_def
  meeting_guard_def release_guard_def pay_guard_def

lemma keeps_answered_sets:
  "keeps_answered i (by_id j answerable) confirm_set" "keeps_answered i (by_id j answerable) decline_set"
  "answered_status target \<Longrightarrow> keeps_answered i (by_id j g) (status_set target)"
  "j \<noteq> i \<Longrightarrow> keeps_answered i (by_id j g) (reschedule_set rp)"
  "keeps_answered i (by_id j g) (\<lambda>now s. s\<lparr>s_coach_notes := n, s_updated_at := now\<rparr>)"
  "keeps_answered i (by_id j g) (meeting_set url)" "keeps_answered i (by_id j g) (attach_set ref)"
  "keeps_answered i (by_id j awaiting_payment) (authorize_set tok rb)"
  "keeps_answered i (by_id j reinstate_guard) (authorize_set tok rb)"
  "keeps_answered i (by_id j g) cancel_hold_set"
  "keeps_answered i (by_id j g) release_hold_set"
  "keeps_answered i (by_id j awaiting_payment) late_set" "keeps_answered i (lapsed limit) lapse_set"
  "keeps_answered i (by_id j g) (pay_set pay)"
  unfolding keeps_answered_def answer_guards set_clause_defs answered_status_def by auto

text \<open>The statements on sessions, in a world whose session \<open>i\<close> is answered.\<close>

locale answered_world = world_property W "settled i" for W and i
begin

lemma keeps_settled_update:
  assumes "keeps_answered i p f"
  shows "keeps W (update_one p f)" "keeps W (update_count p f)"
  using assms settled_update by (blast intro: keeps_update_one keeps_update_count)+

text \<open>An id that is taken cannot be inserted again.\<close>

lemma keeps_settled_insert: "keeps W (insert_session mk)"
proof (rule keeps_insert_session)
  fix d j now d' assume "settled i d" "write_sessions d (d_sessions d @ [mk j now]) = Inr d'"
  then show "settled i d'"
    by (auto simp: settled_def write_sessions_Inr sessions_violation_def split: if_splits)
qed

lemma keeps_settled_statements:
  "keeps W (CreateCoachingSession u c t dur topic tok rb)"
  "keeps W (CreatePendingPaymentSession u c t dur topic amount cur hold)"
  "keeps W (ConfirmSession j)" "keeps W (DeclineSession j)"
  "keeps W (UpdateSessionNotes j notes)" "keeps W (UpdateSessionMeetingURL j url)"
  "keeps W (AttachCheckout j ref)" "keeps W (AuthorizeSession j tok rb)" "keeps W (ReinstateAuthorizedSession j tok rb)"
  "keeps W (CancelPendingPaymentSession j)" "keeps W (ReleasePendingPaymentSession j)"
  "keeps W (ExpireLateAuthorizedHold j)" "keeps W (ExpirePaymentHolds limit)"
  "keeps W (MarkAuthorizationToRelease j)" "keeps W (MarkAuthorizationReleased j)" "keeps W (MarkCheckoutExpired j)"
  "keeps W (MarkSessionCaptured j)" "keeps W (MarkSessionRefunded j)"
  unfolding session_query_defs
  by (rule keeps_settled_insert keeps_settled_update keeps_answered_sets)+

lemma keeps_settled_status: "answered_status target \<Longrightarrow> keeps W (UpdateSessionStatus j target expected)"
  unfolding session_query_defs by (intro keeps_settled_update keeps_answered_sets)

lemma keeps_settled_reschedule: "rp_id p \<noteq> i \<Longrightarrow> keeps W (RescheduleSession p)"
  unfolding session_query_defs by (intro keeps_settled_update keeps_answered_sets)

lemma keeps_settled_expire: "keeps W (ExpirePendingSessions limit)"
proof -
  have "settled i d'"
    if inv: "settled i d" and wr: "write_sessions d (update_where (\<lambda>s. s_id s \<in> set (overdue_ids limit now (d_sessions d)))
        (expire_set now) (d_sessions d)) = Inr d'" for d d' now
  proof -
    have no: "i \<notin> set (overdue_ids limit now (d_sessions d))"
      using inv by (fastforce simp: overdue_ids_def overdue_def settled_def answered_status_def dest: in_set_takeD)
    have d': "d_sessions d' = update_where (\<lambda>s. s_id s \<in> set (overdue_ids limit now (d_sessions d)))
        (expire_set now) (d_sessions d)"
      using wr by (auto simp: write_sessions_Inr)
    have "map s_id (d_sessions d') = map s_id (d_sessions d)"
      unfolding d' by (simp add: map_update_where expire_set_def)
    then have "s_id ` set (d_sessions d') = s_id ` set (d_sessions d)" by (metis list.set_map)
    with inv no show ?thesis by (auto simp: settled_def d' set_update_where expire_set_def)
  qed
  then show ?thesis
    unfolding ExpirePendingSessions_def Let_def
    by (intro keeps_query) (auto split: sum.splits)
qed

lemma keeps_settled_mails:
  "keeps W (enqueue m)" "keeps W (enqueue_opt mo)"
  "keeps W (ask_coach env j tok)" "keeps W (answer_mails env confirm j)" "keeps W (expire_mails env s)"
  "keeps W (status_mails env s st by_coach)" "keeps W (meeting_mails env s)"
proof -
  have mail: "keeps W (enqueue m)" "keeps W (enqueue_opt mo)" for m mo
    by (intro keeps_enqueue keeps_enqueue_opt; simp)+
  show "keeps W (enqueue m)" "keeps W (enqueue_opt mo)" by (rule mail)+
  show "keeps W (ask_coach env j tok)" "keeps W (answer_mails env confirm j)" "keeps W (expire_mails env s)"
    "keeps W (status_mails env s st by_coach)" "keeps W (meeting_mails env s)"
    unfolding ask_coach_def answer_mails_def expire_mails_def status_mails_def meeting_mails_def
    by (intro keeps_intros keeps_reads mail)+
qed

end

interpretation dbs: answered_world "db_inv (settled i)" i for i
  by (simp add: answered_world_def dbi.world_property_axioms)

interpretation txs: answered_world "tx_inv (settled i)" i for i
  by (simp add: answered_world_def txi.world_property_axioms)

lemmas settled_keeps = dbs.keeps_settled_statements txs.keeps_settled_statements dbs.keeps_settled_mails
  txs.keeps_settled_mails dbs.keeps_settled_expire
declare settled_keeps [keeps_intros]

section \<open>Operations\<close>

lemma keeps_settled_directory:
  "keeps (db_inv (settled i)) (SetCoachApproval env c st)"
  "keeps (db_inv (settled i)) (UpsertProfile env c prof)"
  "keeps (db_inv (settled i)) (SetAvailability c ws)"
proof -
  have q: "keeps (db_inv (settled i)) (SetCoachApprovalQuery c s)" "keeps (db_inv (settled i)) (UpsertCoachProfile c q)"
    "keeps (db_inv (settled i)) (ReplaceCoachAvailability c)" for s q
    unfolding SetCoachApprovalQuery_def UpsertCoachProfile_def ReplaceCoachAvailability_def
    by (rule dbi.keeps_query; auto simp: Let_def split: option.splits if_splits)+
  have a: "keeps (db_inv (settled i)) (AddCoachAvailability c v)" for v
    unfolding AddCoachAvailability_def
    by (rule keeps_bindE [OF dbi.keeps_fresh_id], rule dbi.keeps_query) (auto simp: Let_def split: if_splits)
  show "keeps (db_inv (settled i)) (SetCoachApproval env c st)"
    "keeps (db_inv (settled i)) (UpsertProfile env c prof)"
    "keeps (db_inv (settled i)) (SetAvailability c ws)"
    unfolding SetCoachApproval_def UpsertProfile_def SetAvailability_def Let_def
    by (intro keeps_intros q a)+
qed

lemma keeps_settled_reviews:
  "keeps (db_inv (settled i)) (ListReviews env c limit offset)"
  "keeps (db_inv (settled i)) (ReviewSummary env sm c)"
  "keeps (db_inv (settled i)) (CreateReview env c u b)"
proof -
  have upsert: "keeps (db_inv (settled i)) (UpsertCoachReview c u so r t)" for so r t
    unfolding UpsertCoachReview_def
    by (rule keeps_bindE [OF dbi.keeps_fresh_id], rule dbi.keeps_query)
      (auto simp: Let_def split: option.splits)
  show "keeps (db_inv (settled i)) (ListReviews env c limit offset)"
    "keeps (db_inv (settled i)) (ReviewSummary env sm c)"
    "keeps (db_inv (settled i)) (CreateReview env c u b)"
    unfolding ListReviews_def ListCoachReviews_def ReviewSummary_def ListCoachReviewTexts_def
      CreateReview_def HasCompletedSession_def Let_def
    by (intro keeps_intros upsert)+
qed

lemma keeps_settled_booking: "keeps (db_inv (settled i)) (BookSession env u b)"
  unfolding BookSession_def bookPaid_def book_unpaid_def start_checkout_def attach_failed_def hold_lapsed_def Let_def
  by (intro keeps_intros)

lemma keeps_settled_respond:
  "keeps (db_inv (settled i)) (RespondWithToken env j tok action)"
  "keeps (db_inv (settled i)) (RespondAsCoach env j c action)"
  unfolding RespondWithToken_def RespondAsCoach_def respond_def answer_update_def whyNotPending_def answer_capture_def
    capture_def Let_def
  by (intro keeps_intros)+

lemma keeps_settled_edits:
  "keeps (db_inv (settled i)) (SetNotes env j c notes)" "keeps (db_inv (settled i)) (SetMeetingURL env j c raw)"
  unfolding SetNotes_def SetMeetingURL_def meeting_unchanged_def meetingLinkAllowed_def Let_def
  by (intro keeps_intros)+

lemma keeps_settled_expiry: "keeps (db_inv (settled i)) (ExpirePending fuel env n)"
  by (induction fuel arbitrary: n) (auto simp: expireBatch_def intro!: keeps_intros)

lemma keeps_settled_set_status: "keeps (db_inv (settled i)) (SetStatus fuel env j u st)"
proof (induction fuel)
  case 0
  show ?case by (simp add: keeps_throw)
next
  case (Suc fuel)
  have "answered_status t" if "t \<in> status_transitions s" for s t
    using that by (cases s) (auto simp: answered_status_def)
  then show ?case
    unfolding SetStatus.simps set_status_tx_def
    by (intro keeps_guard keeps_intros Suc dbs.keeps_settled_status) auto
qed

lemma keeps_settled_sweep: "keeps (db_inv (settled i)) (SweepPayments env now)"
  unfolding SweepPayments_def Let_def expire_one_def release_one_def refund_one_def with_ref_def
  by (intro keeps_intros keeps_sweep_stage)

lemma keeps_settled_event: "keeps (db_inv (settled i)) (ApplyPaymentEvent env ev)"
proof -
  have "keeps (db_inv (settled i)) (RecordPaymentEvent e so kind)" for e so kind
    unfolding RecordPaymentEvent_def by (rule dbi.keeps_query) (auto simp: Let_def split: if_splits)
  then show ?thesis
    unfolding ApplyPaymentEvent_def authorized_def give_back_def Let_def
    by (intro keeps_intros) (auto split: event_kind.splits intro!: keeps_intros)
qed

text \<open>Moving another session.\<close>

lemma yields_participant_id: "yields (db_inv (settled i)) (participant j u) (\<lambda>s. s_id s = j)"
proof -
  have "yields (db_inv (settled i)) (GetCoachingSession j) (\<lambda>s. s_id s = j)"
    unfolding GetCoachingSession_def
    by (rule yields_select_one) (auto dest!: find_Some_mem)
  then show ?thesis
    unfolding yields_def participant_def by (fastforce simp: go_results split: if_splits)
qed

lemma keeps_settled_reschedule_other:
  assumes "j \<noteq> i"
  shows "keeps (db_inv (settled i)) (Reschedule env j u t)"
  unfolding Reschedule_def reschedule_tx_def
  by (intro keeps_bindE_yields [OF dbi.keeps_participant yields_participant_id] keeps_intros
      dbs.keeps_settled_reschedule)
    (use assms in \<open>auto simp: keep_params_def\<close>)

section \<open>What may happen in between\<close>

text \<open>A request other than one to move session \<open>i\<close>.\<close>

definition leaves_time :: "env \<Rightarrow> uuid \<Rightarrow> call \<Rightarrow> bool" where
  "leaves_time env i c = (case c of
     PostReschedule h b \<Rightarrow> x_parse_uuid env (h_path h ''sessionID'') \<noteq> Some i
   | _ \<Rightarrow> True)"

text \<open>
  One request, webhook event or tick of theory Backend that does not move session \<open>i\<close>,
  with requests of the same kind in between its statements.
\<close>

inductive meanwhile :: "env \<Rightarrow> summarizer option \<Rightarrow> uuid \<Rightarrow> db \<Rightarrow> db \<Rightarrow> bool" for env sm i where
  meanwhile: "\<lbrakk>leaves_time env i c;
      \<forall>f. Others f \<in> set (w_sched w) \<longrightarrow> (\<forall>d. (meanwhile env sm i)\<^sup>*\<^sup>* d (f d))\<rbrakk> \<Longrightarrow>
    meanwhile env sm i (w_db w) (w_db (perform env fuel sm c w))"

lemma keeps_settled_handlers:
  "keeps (db_inv (settled i)) (config_handler env h)"
  "keeps (db_inv (settled i)) (listCoaches_handler env h)"
  "keeps (db_inv (settled i)) (getCoach_handler env h)"
  "keeps (db_inv (settled i)) (listReviews_handler env h)"
  "keeps (db_inv (settled i)) (reviewSummary_handler env sm h)"
  "keeps (db_inv (settled i)) (createReview_handler env h rb)"
  "keeps (db_inv (settled i)) (coachAvailability_handler env h)"
  "keeps (db_inv (settled i)) (coachSlots_handler env fuel h)"
  "keeps (db_inv (settled i)) (bookSession_handler env h bb)"
  "keeps (db_inv (settled i)) (listMySessions_handler env h)"
  "keeps (db_inv (settled i)) (cancelSession_handler env fuel h)"
  "keeps (db_inv (settled i)) (respondWithToken_handler env tb)"
  "keeps (db_inv (settled i)) (respondAsCoach_handler env h b)"
  "keeps (db_inv (settled i)) (upsertProfile_handler env h pb)"
  "keeps (db_inv (settled i)) (setAvailability_handler h wb)"
  "keeps (db_inv (settled i)) (listCoachSessions_handler env h)"
  "keeps (db_inv (settled i)) (setSessionStatus_handler env fuel h b)"
  "keeps (db_inv (settled i)) (setSessionNotes_handler env h b)"
  "keeps (db_inv (settled i)) (setSessionMeetingURL_handler env h b)"
  "keeps (db_inv (settled i)) (listCoachesByApproval_handler env h)"
  "keeps (db_inv (settled i)) (decideCoach_handler env st h)"
  unfolding handler_defs bookSession_handler_def Let_def
  by (intro keeps_intros keeps_settled_directory keeps_settled_reviews keeps_settled_booking keeps_settled_respond
      keeps_settled_edits keeps_settled_set_status)+

lemma keeps_settled_move_other:
  assumes "x_parse_uuid env (h_path h ''sessionID'') \<noteq> Some i"
  shows "keeps (db_inv (settled i)) (rescheduleSession_handler env h b)"
proof (cases "x_parse_uuid env (h_path h ''sessionID'')")
  case None
  then show ?thesis
    unfolding rescheduleSession_handler_def pathUUID_def as_principal_def by (auto intro!: keeps_intros)
next
  case (Some j)
  with assms have "j \<noteq> i" by simp
  then show ?thesis
    unfolding rescheduleSession_handler_def pathUUID_def Some option.case
    by (intro keeps_intros keeps_settled_reschedule_other)
qed

lemma perform_settled:
  assumes inv: "db_inv (settled i) w" and c: "leaves_time env i c"
  shows "settled i (w_db (perform env fuel sm c w))"
proof -
  have step: "settled i (w_db (snd (m w)))" if "keeps (db_inv (settled i)) m" for m :: "(world, nat, 'a) go"
    using that inv by (simp add: keeps_def db_inv_def)
  have tick: "settled i (w_db (snd (m w)))" if "keeps (db_inv (settled i)) m" for m :: "'a request"
    using that inv by (simp add: keeps_def db_inv_def)
  show ?thesis
    using c by (cases c) (simp_all add: leaves_time_def step tick keeps_settled_handlers keeps_settled_move_other
        keeps_settled_event keeps_settled_expiry keeps_settled_sweep)
qed

lemma meanwhile_settled: "meanwhile env sm i d d' \<Longrightarrow> settled i d \<Longrightarrow> settled i d'"
proof (induction rule: meanwhile.induct)
  case (meanwhile c w fuel)
  have "settled i (f d)" if "Others f \<in> set (w_sched w)" "settled i d" for f d
  proof -
    from meanwhile.IH that(1) have "(\<lambda>x y. meanwhile env sm i x y \<and> (settled i x \<longrightarrow> settled i y))\<^sup>*\<^sup>* d (f d)" by blast
    then show ?thesis using that(2) by (induction rule: rtranclp_induct) auto
  qed
  with meanwhile.prems have "db_inv (settled i) w" by (simp add: db_inv_def rely_def)
  with meanwhile.hyps show ?case by (blast intro: perform_settled)
qed

interpretation between_answers: invariant_system "settled i" "meanwhile env sm i" "settled i" for env sm i
  by unfold_locales (auto dest: meanwhile_settled)

section \<open>Answering twice\<close>

interpretation confirm_once: guarded_update "by_id i answerable now" "confirm_set now" for i now
  by unfold_locales (auto simp: by_id_def answerable_def confirm_set_def)

interpretation decline_once: guarded_update "by_id i answerable now" "decline_set now" for i now
  by unfold_locales (auto simp: by_id_def answerable_def decline_set_def)

lemma answered_settles:
  assumes "answer_update c i w = (Inr u, w')"
  shows "settled i (w_db w')"
proof -
  let ?f = "if c then confirm_set else decline_set"
  have "update_one (by_id i answerable) ?f w = (Inr u, w')"
    using assms by (auto simp: answer_update_Inr ConfirmSession_def DeclineSession_def split: if_splits)
  then obtain rs w1 d where n: "next_entry w = (False, w1)"
    and wr: "write_sessions (w_db w1) (update_where (by_id i answerable (w_dbnow w1)) (?f (w_dbnow w1)) (d_sessions (w_db w1))) = Inr d"
    and rows: "u # rs = map (?f (w_dbnow w1)) (filter (by_id i answerable (w_dbnow w1)) (d_sessions (w_db w1)))"
    and w': "w' = w1\<lparr>w_db := d\<rparr>"
    by (auto simp: update_one_Inr update_sessions_Inr)
  have d: "d_sessions d = update_where (by_id i answerable (w_dbnow w1)) (?f (w_dbnow w1)) (d_sessions (w_db w1))"
    and dist: "distinct (map s_id (d_sessions d))"
    using wr by (auto simp: write_sessions_Inr sessions_violation_def split: if_splits)
  from rows have "u \<in> set (map (?f (w_dbnow w1)) (filter (by_id i answerable (w_dbnow w1)) (d_sessions (w_db w1))))"
    by (metis list.set_intros(1))
  then have u: "u \<in> set (d_sessions d)" "s_id u = i" "answered_status (s_status u)"
    by (auto simp: d set_update_where by_id_def confirm_set_def decline_set_def answered_status_def split: if_splits)
  then have "answered_status (s_status s)" if "s \<in> set (d_sessions d)" "s_id s = i" for s
    using that dist distinct_keys_eq [of s_id "d_sessions d" s u] by simp
  moreover have "i \<in> s_id ` set (d_sessions d)" using u by blast
  ultimately show ?thesis by (simp add: settled_def w')
qed

lemma answer_needs_pending:
  assumes "tx_inv (settled i) w"
  shows "\<exists>e w'. answer_update c i w = (Inl e, w') \<and> w_calls w' = w_calls w"
proof -
  have none: "filter (by_id i answerable now) (d_sessions (w_db w1)) = []" if "next_entry w = (False, w1)" for w1 now
  proof -
    have "settled i (w_db w1)" using tx_inv_entry [OF assms that] by (simp add: tx_inv_def)
    then have "\<not> by_id i answerable now t" if "t \<in> set (d_sessions (w_db w1))" for t
      using that by (auto simp: settled_def by_id_def answerable_def answered_status_def)
    then show ?thesis by (simp add: filter_empty_conv)
  qed
  have "\<nexists>u w'. (if c then ConfirmSession i else DeclineSession i) w = (Inr u, w')"
    using none by (auto simp: ConfirmSession_def DeclineSession_def update_one_Inr update_sessions_Inr)
  then have no: "\<nexists>u w'. answer_update c i w = (Inr u, w')" by (simp add: answer_update_Inr)
  obtain r w' where run: "answer_update c i w = (r, w')" by (cases "answer_update c i w")
  with no obtain e where "r = Inl e" by (cases r) auto
  moreover have "w_calls w' = w_calls w"
    using keepsD [OF calls_answer_parts(1) _ run, of "w_calls w"] by (simp add: calls_are_def)
  ultimately show ?thesis using run by blast
qed

lemma keeps_settled_parts:
  "keeps (tx_inv (settled i)) (answer_capture env c u)" "keeps (tx_inv (settled i)) (answer_mails env c j)"
proof -
  show "keeps (tx_inv (settled i)) (answer_mails env c j)" by (rule txs.keeps_settled_mails)
  show "keeps (tx_inv (settled i)) (answer_capture env c u)"
    unfolding answer_capture_def capture_def Let_def
    by (intro keeps_if keeps_option keeps_bindE keeps_attempt keeps_ret keeps_throw txi.keeps_provider_call
        txs.keeps_settled_statements)
qed

lemma respond_settles:
  assumes run: "respond env s action w = (Inr v, w')"
  shows "settled (s_id s) (w_db w')"
proof -
  obtain w1 u u' w3 w4 w5 where r: "next_entry w = (False, w1)"
    "answer_update (action = ''confirm'') (s_id s) (w1\<lparr>w_in_tx := True\<rparr>) = (Inr u, w3)"
    "answer_capture env (action = ''confirm'') u w3 = (Inr u', w4)"
    "answer_mails env (action = ''confirm'') (s_id s) w4 = (Inr (), w5)" "w_in_tx w3" "w_db w' = w_db w5"
    by (rule respond_Inr [OF run]) blast
  from answered_settles [OF r(2)] r(5) have 3: "tx_inv (settled (s_id s)) w3" by (simp add: tx_inv_def)
  from keepsD [OF keeps_settled_parts(1) 3 r(3)] have 4: "tx_inv (settled (s_id s)) w4" .
  from keepsD [OF keeps_settled_parts(2) 4 r(4)] r(6) show ?thesis by (simp add: tx_inv_def)
qed

text \<open>An answer to a session that has been answered.\<close>

lemma respond_settled:
  assumes inv: "db_inv (settled (s_id s)) w"
  shows "\<exists>e w'. respond env s action w = (Inl e, w') \<and> w_calls w' = w_calls w \<and>
    w_db w' \<in> {w_db w, w_db (snd (next_entry w))}"
proof (cases "(action \<noteq> ''confirm'' \<and> action \<noteq> ''decline'') \<or> s_status s \<noteq> Pending \<or>
    (case s_respond_by s of None \<Rightarrow> False | Some t \<Rightarrow> t < w_now w)")
  case True
  then show ?thesis by (auto simp: respond_def bindE_def failIf_def asks_def)
next
  case False
  let ?c = "action = ''confirm''"
  obtain b w1 where n: "next_entry w = (b, w1)" by (cases "next_entry w")
  have w1: "w_calls w1 = w_calls w" "settled (s_id s) (w_db w1)"
    using next_entry_frame [OF n] next_entry_inv [OF inv n] by (simp_all add: db_inv_def)
  then have "tx_inv (settled (s_id s)) (w1\<lparr>w_in_tx := True\<rparr>)" by (simp add: tx_inv_def)
  from answer_needs_pending [OF this, of ?c] obtain e w2 where
    "answer_update ?c (s_id s) (w1\<lparr>w_in_tx := True\<rparr>) = (Inl e, w2)" "w_calls w2 = w_calls w1" by auto
  with False n w1 show ?thesis
    by (cases b) (auto simp: respond_def bindE_def failIf_def asks_def transaction_def)
qed

text \<open>
  C4: at most one answer to a request wins.  After an answer went through, and after any
  sequence of requests, webhook events and ticks in which nobody moves the session, any
  other answer to it, even one that has read the row before and still believes it pending,
  is an error: it changes nothing itself, in the database or at the payment provider.  The
  same requests may also run between its own statements.
\<close>

theorem one_answer_wins:
  assumes first: "respond env s action w = (Inr v, w')"
    and between: "(meanwhile env sm (s_id s))\<^sup>*\<^sup>* (w_db w') (w_db w2)"
    and during: "\<forall>f. Others f \<in> set (w_sched w2) \<longrightarrow> (\<forall>d. (meanwhile env sm (s_id s))\<^sup>*\<^sup>* d (f d))"
    and second: "s_id s' = s_id s"
  shows "\<exists>e w3. respond env s' action' w2 = (Inl e, w3) \<and> w_calls w3 = w_calls w2 \<and>
    w_db w3 \<in> {w_db w2, w_db (snd (next_entry w2))}"
proof -
  have "settled (s_id s) (w_db w2)"
    using between_answers.inv_steps [OF between] respond_settles [OF first] .
  moreover have "settled (s_id s) (f d)" if "Others f \<in> set (w_sched w2)" "settled (s_id s) d" for f d
    using between_answers.inv_steps [OF _ that(2)] during that(1) by blast
  ultimately have "db_inv (settled (s_id s')) w2" using second by (simp add: db_inv_def rely_def)
  then show ?thesis by (rule respond_settled)
qed

text \<open>The coach confirms, writes a note, and a refusal of the same request comes too late.\<close>

definition ann :: http where
  "ann = \<lparr>h_principal = Some 11, h_path = (\<lambda>_. ''7''), h_query = (\<lambda>_. [])\<rparr>"

interpretation undisturbed: world_property "\<lambda>w. w_sched w = []" "\<lambda>_. True"
  by unfold_locales auto

lemma calm_note: "keeps (\<lambda>w. w_sched w = []) (setSessionNotes_handler env h b)"
proof -
  have "keeps (\<lambda>w. w_sched w = []) (UpdateSessionNotes i n)" for i n
    unfolding UpdateSessionNotes_def by (rule undisturbed.keeps_update_one) simp
  then show ?thesis
    unfolding setSessionNotes_handler_def SetNotes_def by (intro keeps_intros undisturbed.keeps_participant)
qed

lemma one_answer_wins_witness:
  "\<exists>v w'. respond paid_env pend ''confirm'' pend_world = (Inr v, w') \<and>
     (let w2 = perform paid_env 0 None (PostNotes ann (Some ''note'')) w' in
      \<exists>e w3. respond paid_env pend ''decline'' w2 = (Inl e, w3) \<and> w_calls w3 = w_calls w2 \<and>
        w_db w3 \<in> {w_db w2, w_db (snd (next_entry w2))})"
proof -
  obtain v w' where run: "respond paid_env pend ''confirm'' pend_world = (Inr v, w')" "w_sched w' = []"
    using pend_confirmed by blast
  let ?w2 = "perform paid_env 0 None (PostNotes ann (Some ''note'')) w'"
  have "meanwhile paid_env None (s_id pend) (w_db w') (w_db ?w2)"
    by (rule meanwhile.meanwhile) (use run(2) in \<open>simp_all add: leaves_time_def\<close>)
  then have between: "(meanwhile paid_env None (s_id pend))\<^sup>*\<^sup>* (w_db w') (w_db ?w2)" by (rule r_into_rtranclp)
  have "w_sched ?w2 = []"
    using calm_note [of paid_env ann "Some ''note''"] run(2) by (simp add: keeps_def)
  then have during: "\<forall>f. Others f \<in> set (w_sched ?w2) \<longrightarrow> (\<forall>d. (meanwhile paid_env None (s_id pend))\<^sup>*\<^sup>* d (f d))" by simp
  from one_answer_wins [OF run(1) between during refl, of "''decline''"] run(1) show ?thesis
    unfolding Let_def by blast
qed

end
