(* ===== verification/Payment_Properties.thy ===== *)
theory Payment_Properties
  imports Scenario
begin

text \<open>
  Properties of the paid path (internal/coaching/payment.go): the price, the reconciliation
  pass and the webhook.  The three provider passes share one contract, the locale
  \<open>settlement\<close>, interpreted on each of them.
\<close>

section \<open>The price of a session\<close>

text \<open>
  For a rate and a duration the service accepts, the price is a nonnegative amount that
  fits 32 bits and is a nearest whole number of cents to rate times duration over an hour.
\<close>

theorem price_is_nearest_cent:
  assumes "0 \<le> rate" "rate \<le> max_hourly_rate_cents" "0 \<le> duration" "duration \<le> max_session_minutes"
  shows "0 \<le> price_cents rate duration \<and> price_cents rate duration \<le> max_int32 \<and>
    \<bar>60 * price_cents rate duration - rate * duration\<bar> \<le> 30"
proof -
  have prod: "0 \<le> rate * duration" "rate * duration \<le> max_hourly_rate_cents * max_session_minutes"
    using assms by (auto intro: mult_mono)
  then have price: "price_cents rate duration = (rate * duration + 30) div 60"
    by (simp add: price_cents_def go_div_def)
  from prod(2) have "rate * duration \<le> 536870911 * 240"
    by (simp add: max_hourly_rate_cents_def max_session_minutes_def max_int32_def)
  with prod(1) show ?thesis unfolding price max_int32_def by linarith
qed

lemma price_is_nearest_cent_witness: "price_cents 9000 45 = 6750 \<and> price_cents 9000 45 \<le> max_int32"
  using price_is_nearest_cent [of 9000 45]
  by (simp add: price_cents_def go_div_def max_hourly_rate_cents_def max_session_minutes_def max_int32_def)

section \<open>Reconciliation\<close>

text \<open>A provider that is reachable and accepts what it is asked to undo.\<close>

definition provider_accepts :: "env \<Rightarrow> bool" where
  "provider_accepts env \<longleftrightarrow>
     (\<forall>h r k. p_expire_checkout (x_provider env) h r = Inr () \<and> p_release (x_provider env) h r k = Inr () \<and>
        p_refund (x_provider env) h r k = Inr ())"

text \<open>
  One stage of the sweep: an operation \<open>act\<close> that makes one provider call for a session
  owing clean-up in state \<open>owed\<close> and records the state \<open>cleared\<close>.
\<close>

locale settlement =
  fixes act :: "env \<Rightarrow> session \<Rightarrow> unit request"
    and owed cleared :: payment_status
    and call :: "env \<Rightarrow> session \<Rightarrow> provider_call"
  assumes act_calm: "\<lbrakk>provider_accepts env; w_sched w = []; constraints_ok (w_db w); s \<in> set (d_sessions (w_db w));
      s_payment_status s = owed; s_payment_ref s \<noteq> None\<rbrakk> \<Longrightarrow>
      act env s w = (Inr (), with_sessions (update_where (\<lambda>t. s_id t = s_id s) (pay_set cleared (w_dbnow w)))
        (w\<lparr>w_calls := w_calls w @ [call env s]\<rparr>))"
begin

lemma each_calm:
  assumes "provider_accepts env"
  shows "\<lbrakk>w_sched w = []; constraints_ok (w_db w); distinct (map s_id rs); set rs \<subseteq> set (d_sessions (w_db w));
      \<forall>s \<in> set rs. s_payment_status s = owed \<and> s_payment_ref s \<noteq> None\<rbrakk> \<Longrightarrow>
    sweep_each (act env) bump rs res w =
      (Inr ((bump ^^ length rs) res, None),
       with_sessions (update_where (\<lambda>t. s_id t \<in> s_id ` set rs) (pay_set cleared (w_dbnow w)))
         (w\<lparr>w_calls := w_calls w @ map (call env) rs\<rparr>))"
proof (induction rs arbitrary: w res)
  case Nil
  then show ?case by (simp add: ret_def with_sessions_def update_where_none)
next
  case (Cons s rs)
  let ?w = "with_sessions (update_where (\<lambda>t. s_id t = s_id s) (pay_set cleared (w_dbnow w)))
        (w\<lparr>w_calls := w_calls w @ [call env s]\<rparr>)"
  have act: "act env s w = (Inr (), ?w)"
    by (rule act_calm [OF assms]) (use Cons.prems in auto)
  have ok: "constraints_ok (w_db ?w)"
    by (rule constraints_ok_with_row) (use Cons.prems gentle_sets in auto)
  have "r \<in> set (d_sessions (w_db ?w))" if "r \<in> set rs" for r
  proof -
    from that Cons.prems(3,4) have "r \<in> set (d_sessions (w_db w))" "s_id r \<noteq> s_id s" by (auto simp: image_iff)
    then show ?thesis by (auto simp: set_update_where intro!: bexI [of _ r])
  qed
  then have sub: "set rs \<subseteq> set (d_sessions (w_db ?w))" by blast
  have twice: "update_where (\<lambda>t. s_id t \<in> s_id ` set rs) (pay_set cleared n) (update_where (\<lambda>t. s_id t = s_id s) (pay_set cleared n) ss) =
      update_where (\<lambda>t. s_id t \<in> s_id ` set (s # rs)) (pay_set cleared n) ss" for ss n
    using Cons.prems(3) by (auto simp: update_where_def pay_set_def)
  have "sweep_each (act env) bump rs (bump res) ?w =
      (Inr ((bump ^^ length rs) (bump res), None),
       with_sessions (update_where (\<lambda>t. s_id t \<in> s_id ` set rs) (pay_set cleared (w_dbnow ?w)))
         (?w\<lparr>w_calls := w_calls ?w @ map (call env) rs\<rparr>))"
    by (rule Cons.IH) (use Cons.prems ok sub in auto)
  then show ?case
    using twice by (simp add: attempt_def act funpow_swap1 with_sessions_def)
qed

end

lemma mark_calm:
  assumes "w_sched w = []" "constraints_ok (w_db w)" "s \<in> set (d_sessions (w_db w))" "s_payment_status s = p"
  shows "update_count (by_id (s_id s) (pay_guard p)) (pay_set q) (w\<lparr>w_calls := cs\<rparr>) =
    (Inr 1, with_sessions (update_where (\<lambda>t. s_id t = s_id s) (pay_set q (w_dbnow w))) (w\<lparr>w_calls := cs\<rparr>))"
  by (subst update_one_calm(2)) (use assms gentle_sets in \<open>auto simp: pay_guard_def\<close>)

interpretation expire_stage: settlement expire_one PayExpiring PayFailed
  "\<lambda>env s. CallExpireCheckout (the (s_payment_ref s))"
  by unfold_locales
    (auto simp: expire_one_def with_ref_def provider_call_def bindE_def ret_def MarkCheckoutExpired_def
      provider_accepts_def Let_def mark_calm)

interpretation release_stage: settlement release_one PayReleasing PayReleased
  "\<lambda>env s. CallRelease (the (s_payment_ref s)) (x_uuid_text env (s_id s))"
  by unfold_locales
    (auto simp: release_one_def with_ref_def provider_call_def bindE_def ret_def MarkAuthorizationReleased_def
      provider_accepts_def Let_def mark_calm)

interpretation refund_stage: settlement refund_one PayRefundDue PayRefunded
  "\<lambda>env s. CallRefund (the (s_payment_ref s)) (x_uuid_text env (s_id s))"
  by unfold_locales
    (auto simp: refund_one_def with_ref_def provider_call_def bindE_def ret_def MarkSessionRefunded_def
      provider_accepts_def Let_def mark_calm)

definition owes :: "payment_status \<Rightarrow> session \<Rightarrow> bool" where
  "owes p s \<longleftrightarrow> s_payment_status s = p \<and> s_payment_ref s \<noteq> None"

definition owed_count :: "payment_status \<Rightarrow> session list \<Rightarrow> nat" where
  "owed_count p ss = length (filter (owes p) ss)"

text \<open>What the listings answer: the sessions that owe something, longest untouched first.\<close>

definition owed :: "payment_status \<Rightarrow> session list \<Rightarrow> session list" where
  "owed p ss = sort_key s_updated_at (filter (owes p) ss)"

lemma owing_owed: "owing p d = owed p (d_sessions d)"
  by (simp add: owing_def owed_def owes_def [abs_def])

lemma set_owing: "s \<in> set (owing p d) \<longleftrightarrow> s \<in> set (d_sessions d) \<and> owes p s"
  by (auto simp: owing_def owes_def)

lemma length_owing: "length (owing p d) = owed_count p (d_sessions d)"
  by (simp add: owing_def owed_count_def owes_def [abs_def])

lemma distinct_owing: "distinct (map s_id (d_sessions d)) \<Longrightarrow> distinct (map s_id (owing p d))"
  by (simp add: owing_def distinct_map inj_on_def)

context settlement
begin

lemma stage_calm:
  assumes acc: "provider_accepts env" and calm: "w_sched w = []" and ok: "constraints_ok (w_db w)"
  shows "sweep_stage (select (owing owed)) (act env) bump (res, None) w =
    (Inr ((bump ^^ length (owing owed (w_db w))) res, None),
     with_sessions (update_where (owes owed) (pay_set cleared (w_dbnow w)))
       (w\<lparr>w_calls := w_calls w @ map (call env) (owing owed (w_db w))\<rparr>))"
proof -
  let ?rs = "owing owed (w_db w)"
  have dist: "distinct (map s_id (d_sessions (w_db w)))" using ok by (simp add: constraints_ok_iff)
  have same: "s_id t \<in> s_id ` set ?rs \<longleftrightarrow> owes owed t"
    if t: "t \<in> set (d_sessions (w_db w))" for t
  proof
    assume "s_id t \<in> s_id ` set ?rs"
    then obtain r where r: "r \<in> set ?rs" "s_id t = s_id r" by (rule imageE)
    moreover have "t = r"
      by (rule distinct_keys_eq [OF dist t _ r(2)]) (use r(1) in \<open>simp add: set_owing\<close>)
    ultimately show "owes owed t" by (simp add: set_owing)
  next
    assume "owes owed t"
    with t show "s_id t \<in> s_id ` set ?rs" by (intro imageI) (simp add: set_owing)
  qed
  then have upd: "update_where (\<lambda>t. s_id t \<in> s_id ` set ?rs) f (d_sessions (w_db w)) =
      update_where (owes owed) f (d_sessions (w_db w))" for f
    by (auto simp: update_where_def)
  have "sweep_each (act env) bump ?rs res w =
      (Inr ((bump ^^ length ?rs) res, None),
       with_sessions (update_where (\<lambda>t. s_id t \<in> s_id ` set ?rs) (pay_set cleared (w_dbnow w)))
         (w\<lparr>w_calls := w_calls w @ map (call env) ?rs\<rparr>))"
    by (rule each_calm [OF acc calm ok distinct_owing [OF dist]]) (auto simp: set_owing owes_def)
  then show ?thesis
    using calm by (simp add: sweep_stage_def attempt_def select_calm with_sessions_def upd)
qed

lemma stage_ok:
  assumes "constraints_ok (w_db w)"
  shows "constraints_ok (w_db (with_sessions (update_where p (pay_set cleared now)) (w\<lparr>w_calls := cs\<rparr>)))"
  by (rule constraints_ok_with_sessions) (use assms gentle_sets in auto)

end

text \<open>What a pass makes of a row: a lapsed hold ends, and what is owed is cleared.\<close>

definition lapsed_row :: "instant \<Rightarrow> instant \<Rightarrow> session \<Rightarrow> session" where
  "lapsed_row limit now s = (if lapsed limit now s then lapse_set now s else s)"

definition settled_row :: "instant \<Rightarrow> session \<Rightarrow> session" where
  "settled_row now s =
     (if s_payment_ref s = None then s
      else case s_payment_status s of
             PayExpiring \<Rightarrow> pay_set PayFailed now s
           | PayReleasing \<Rightarrow> pay_set PayReleased now s
           | PayRefundDue \<Rightarrow> pay_set PayRefunded now s
           | _ \<Rightarrow> s)"

lemma ExpirePaymentHolds_calm:
  assumes "w_sched w = []" and "constraints_ok (w_db w)"
  shows "ExpirePaymentHolds limit w =
    (Inr (length (filter (lapsed limit (w_dbnow w)) (d_sessions (w_db w)))),
     with_sessions (map (lapsed_row limit (w_dbnow w))) w)"
proof -
  have "update_sessions (lapsed limit) lapse_set w =
      (Inr (map (lapse_set (w_dbnow w)) (filter (lapsed limit (w_dbnow w)) (d_sessions (w_db w)))),
       with_sessions (update_where (lapsed limit (w_dbnow w)) (lapse_set (w_dbnow w))) w)"
    by (rule update_sessions_calm [OF assms(1)]) (use assms(2) gentle_sets in \<open>auto intro: gentle_no_violation\<close>)
  moreover have "update_where (lapsed limit n) (lapse_set n) = map (lapsed_row limit n)" for n
    by (rule ext) (simp add: update_where_def lapsed_row_def)
  ultimately show ?thesis by (simp add: ExpirePaymentHolds_def update_count_def bindE_def ret_def)
qed

lemma bump_counts:
  "((\<lambda>r. r\<lparr>sw_checkouts_expired := Suc (sw_checkouts_expired r)\<rparr>) ^^ n) r =
     r\<lparr>sw_checkouts_expired := sw_checkouts_expired r + n\<rparr>"
  "((\<lambda>r. r\<lparr>sw_authorizations_freed := Suc (sw_authorizations_freed r)\<rparr>) ^^ n) r =
     r\<lparr>sw_authorizations_freed := sw_authorizations_freed r + n\<rparr>"
  "((\<lambda>r. r\<lparr>sw_refunds_issued := Suc (sw_refunds_issued r)\<rparr>) ^^ n) r =
     r\<lparr>sw_refunds_issued := sw_refunds_issued r + n\<rparr>"
  by (induction n) simp_all

lemma settle_in_three:
  "map (\<lambda>s. if owes PayRefundDue s then pay_set PayRefunded now s else s)
    (map (\<lambda>s. if owes PayReleasing s then pay_set PayReleased now s else s)
      (map (\<lambda>s. if owes PayExpiring s then pay_set PayFailed now s else s) ss)) =
   map (settled_row now) ss"
proof (induction ss)
  case (Cons s ss)
  then show ?case
    by (cases "s_payment_status s"; cases "s_payment_ref s") (simp_all add: settled_row_def pay_set_def owes_def)
qed simp

text \<open>Clearing one kind of debt leaves the others as they were.\<close>

lemma owes_update:
  "p \<noteq> q \<Longrightarrow> p \<noteq> q' \<Longrightarrow>
   filter (owes p) (update_where (owes q) (pay_set q' now) ss) = filter (owes p) ss"
  by (induction ss) (auto simp: pay_set_def owes_def)

lemma owed_count_update:
  "p \<noteq> q \<Longrightarrow> p \<noteq> q' \<Longrightarrow>
   owed_count p (update_where (owes q) (pay_set q' now) ss) = owed_count p ss"
  by (simp add: owed_count_def owes_update)

lemma owed_update:
  "p \<noteq> q \<Longrightarrow> p \<noteq> q' \<Longrightarrow> owed p (update_where (owes q) (pay_set q' now) ss) = owed p ss"
  by (simp add: owed_def owes_update)

text \<open>The calls of a pass over the sessions \<open>ss\<close>, in the order they are made.\<close>

definition sweep_calls :: "env \<Rightarrow> session list \<Rightarrow> provider_call list" where
  "sweep_calls env ss =
     map (\<lambda>s. CallExpireCheckout (the (s_payment_ref s))) (owed PayExpiring ss) @
     map (\<lambda>s. CallRelease (the (s_payment_ref s)) (x_uuid_text env (s_id s))) (owed PayReleasing ss) @
     map (\<lambda>s. CallRefund (the (s_payment_ref s)) (x_uuid_text env (s_id s))) (owed PayRefundDue ss)"

lemma sweep_result_calm:
  fixes env limit w
  assumes acc: "provider_accepts env" and calm: "w_sched w = []" and ok: "constraints_ok (w_db w)"
  defines "now \<equiv> w_dbnow w"
  defines "held \<equiv> map (lapsed_row limit now) (d_sessions (w_db w))"
  shows "\<exists>w'. SweepPayments env limit w =
     (Inr (\<lparr>sw_holds_released = length (filter (lapsed limit now) (d_sessions (w_db w))),
            sw_checkouts_expired = owed_count PayExpiring held,
            sw_authorizations_freed = owed_count PayReleasing held,
            sw_refunds_issued = owed_count PayRefundDue held\<rparr>, None), w') \<and>
     d_sessions (w_db w') = map (settled_row now) held \<and> w_calls w' = w_calls w @ sweep_calls env held"
proof -
  let ?u = "\<lambda>p q. update_where (owes p) (pay_set q now)"
  define w1 where "w1 = with_sessions (map (lapsed_row limit now)) w"
  have lapse_map: "map (lapsed_row limit now) = update_where (lapsed limit now) (lapse_set now)"
    by (rule ext) (simp add: update_where_def lapsed_row_def)
  have 1: "w_sched w1 = []" "constraints_ok (w_db w1)" "w_dbnow w1 = now" "d_sessions (w_db w1) = held"
  proof -
    show "constraints_ok (w_db w1)"
      unfolding w1_def lapse_map by (rule constraints_ok_with_sessions [OF ok]) (rule gentle_sets(10))
  qed (simp_all add: w1_def calm now_def held_def)
  define w2 where "w2 = with_sessions (?u PayExpiring PayFailed)
      (w1\<lparr>w_calls := w_calls w1 @ map (\<lambda>s. CallExpireCheckout (the (s_payment_ref s))) (owing PayExpiring (w_db w1))\<rparr>)"
  have 2: "w_sched w2 = []" "constraints_ok (w_db w2)" "w_dbnow w2 = now" "d_sessions (w_db w2) = ?u PayExpiring PayFailed held"
    using 1 expire_stage.stage_ok by (auto simp: w2_def)
  define w3 where "w3 = with_sessions (?u PayReleasing PayReleased)
      (w2\<lparr>w_calls := w_calls w2 @ map (\<lambda>s. CallRelease (the (s_payment_ref s)) (x_uuid_text env (s_id s))) (owing PayReleasing (w_db w2))\<rparr>)"
  have 3: "w_sched w3 = []" "constraints_ok (w_db w3)" "w_dbnow w3 = now"
    "d_sessions (w_db w3) = ?u PayReleasing PayReleased (?u PayExpiring PayFailed held)"
    using 2 release_stage.stage_ok by (auto simp: w3_def)
  define w4 where "w4 = with_sessions (?u PayRefundDue PayRefunded)
      (w3\<lparr>w_calls := w_calls w3 @ map (\<lambda>s. CallRefund (the (s_payment_ref s)) (x_uuid_text env (s_id s))) (owing PayRefundDue (w_db w3))\<rparr>)"
  have n: "length (owing PayExpiring (w_db w1)) = owed_count PayExpiring held"
    "length (owing PayReleasing (w_db w2)) = owed_count PayReleasing held"
    "length (owing PayRefundDue (w_db w3)) = owed_count PayRefundDue held"
    using 1 2 3 by (simp_all add: length_owing owed_count_update)
  have run: "SweepPayments env limit w =
     (Inr (\<lparr>sw_holds_released = length (filter (lapsed limit now) (d_sessions (w_db w))),
            sw_checkouts_expired = owed_count PayExpiring held,
            sw_authorizations_freed = owed_count PayReleasing held,
            sw_refunds_issued = owed_count PayRefundDue held\<rparr>, None), w4)"
    unfolding SweepPayments_def Let_def attempt_def ExpirePaymentHolds_calm [OF calm ok]
      ListCheckoutsToExpire_def ListAuthorizationsToRelease_def ListRefundsDue_def bindE_def
    by (simp add: expire_stage.stage_calm [OF acc 1(1,2)] release_stage.stage_calm [OF acc 2(1,2)]
        refund_stage.stage_calm [OF acc 3(1,2)] 1 2 3 bump_counts n
        flip: now_def w1_def w2_def w3_def w4_def)
  have "d_sessions (w_db w4) = map (settled_row now) held"
    using 3(4) settle_in_three [of now held] by (simp add: w4_def update_where_def)
  moreover have "w_calls w4 = w_calls w @ sweep_calls env held"
  proof -
    have "owing PayExpiring (w_db w1) = owed PayExpiring held" "owing PayReleasing (w_db w2) = owed PayReleasing held"
      "owing PayRefundDue (w_db w3) = owed PayRefundDue held"
      using 1(4) 2(4) 3(4) by (simp_all add: owing_owed owed_update)
    then show ?thesis by (simp add: w4_def w3_def w2_def w1_def sweep_calls_def)
  qed
  ultimately show ?thesis using run by blast
qed

text \<open>
  C9: a reconciliation pass that meets no fault and a provider that accepts its calls ends
  with no error.  It expires exactly the lapsed holds, clears everything sessions with a
  checkout owe, and reports how many of each there were.  The calls it makes are exactly: one to
  close the checkout of each session that owes that, then one to release the card of each that
  owes that, then one refund for each that owes one, each under the session's own reference and
  id, the sessions longest untouched first.
\<close>

theorem sweep_clears:
  assumes acc: "provider_accepts env" and calm: "w_sched w = []" and ok: "constraints_ok (w_db w)"
  shows "\<exists>w' held. held = map (lapsed_row limit (w_dbnow w)) (d_sessions (w_db w)) \<and>
     SweepPayments env limit w =
       (Inr (\<lparr>sw_holds_released = length (filter (lapsed limit (w_dbnow w)) (d_sessions (w_db w))),
              sw_checkouts_expired = owed_count PayExpiring held,
              sw_authorizations_freed = owed_count PayReleasing held,
              sw_refunds_issued = owed_count PayRefundDue held\<rparr>, None), w') \<and>
     d_sessions (w_db w') = map (settled_row (w_dbnow w)) held \<and>
     w_calls w' = w_calls w @
       map (\<lambda>s. CallExpireCheckout (the (s_payment_ref s))) (owed PayExpiring held) @
       map (\<lambda>s. CallRelease (the (s_payment_ref s)) (x_uuid_text env (s_id s))) (owed PayReleasing held) @
       map (\<lambda>s. CallRefund (the (s_payment_ref s)) (x_uuid_text env (s_id s))) (owed PayRefundDue held) \<and>
     (\<forall>p s. s \<in> set (d_sessions (w_db w')) \<and> owes p s \<longrightarrow> p \<notin> {PayExpiring, PayReleasing, PayRefundDue})"
proof -
  let ?held = "map (lapsed_row limit (w_dbnow w)) (d_sessions (w_db w))"
  obtain w' where run: "SweepPayments env limit w =
       (Inr (\<lparr>sw_holds_released = length (filter (lapsed limit (w_dbnow w)) (d_sessions (w_db w))),
              sw_checkouts_expired = owed_count PayExpiring ?held,
              sw_authorizations_freed = owed_count PayReleasing ?held,
              sw_refunds_issued = owed_count PayRefundDue ?held\<rparr>, None), w')"
    and rows: "d_sessions (w_db w') = map (settled_row (w_dbnow w)) ?held"
    and calls: "w_calls w' = w_calls w @ sweep_calls env ?held"
    using sweep_result_calm [OF acc calm ok, of limit] by blast
  have "p \<notin> {PayExpiring, PayReleasing, PayRefundDue}" if "owes p (settled_row n s)" for p n s
    using that by (cases "s_payment_status s") (auto simp: owes_def settled_row_def pay_set_def split: if_splits)
  with rows have "\<forall>p s. s \<in> set (d_sessions (w_db w')) \<and> owes p s \<longrightarrow> p \<notin> {PayExpiring, PayReleasing, PayRefundDue}"
    by (metis (no_types, lifting) imageE list.set_map)
  with run rows calls show ?thesis unfolding sweep_calls_def by blast
qed

definition owing_world :: world where
  "owing_world = world_at (start_db\<lparr>d_sessions :=
     [(new_session 12 11 monday_10 45 [] Declined 7 0)\<lparr>s_payment_status := PayReleasing, s_payment_ref := Some ''cs_7''\<rparr>,
      (new_session 13 11 monday_14 45 [] PendingPayment 8 0)\<lparr>s_payment_status := PayPending, s_payment_ref := Some ''cs_8'',
         s_hold_expires_at := Some monday_8\<rparr>]\<rparr>) [] monday_10 100"

lemma sweep_clears_witness:
  "\<exists>w'. fst (SweepPayments paid_env monday_10 owing_world) =
       Inr (\<lparr>sw_holds_released = 1, sw_checkouts_expired = 1, sw_authorizations_freed = 1, sw_refunds_issued = 0\<rparr>, None) \<and>
     snd (SweepPayments paid_env monday_10 owing_world) = w' \<and>
     w_calls w' = [CallExpireCheckout ''cs_8'', CallRelease ''cs_7'' ''7'']"
proof -
  have acc: "provider_accepts paid_env" by (simp add: provider_accepts_def paid_env_def env_of_def ok_provider_def)
  have calm: "w_sched owing_world = []" by (simp add: owing_world_def world_at_def)
  have ok: "constraints_ok (w_db owing_world)" by code_simp
  have held: "length (filter (lapsed monday_10 (w_dbnow owing_world)) (d_sessions (w_db owing_world))) = 1"
    "owed_count PayExpiring (map (lapsed_row monday_10 (w_dbnow owing_world)) (d_sessions (w_db owing_world))) = 1"
    "owed_count PayReleasing (map (lapsed_row monday_10 (w_dbnow owing_world)) (d_sessions (w_db owing_world))) = 1"
    "owed_count PayRefundDue (map (lapsed_row monday_10 (w_dbnow owing_world)) (d_sessions (w_db owing_world))) = 0"
    by code_simp+
  have calls: "map (\<lambda>s. CallExpireCheckout (the (s_payment_ref s)))
      (owed PayExpiring (map (lapsed_row monday_10 (w_dbnow owing_world)) (d_sessions (w_db owing_world)))) = [CallExpireCheckout ''cs_8'']"
    "map (\<lambda>s. CallRelease (the (s_payment_ref s)) (x_uuid_text paid_env (s_id s)))
      (owed PayReleasing (map (lapsed_row monday_10 (w_dbnow owing_world)) (d_sessions (w_db owing_world)))) = [CallRelease ''cs_7'' ''7'']"
    "owed PayRefundDue (map (lapsed_row monday_10 (w_dbnow owing_world)) (d_sessions (w_db owing_world))) = []"
    by code_simp+
  have "w_calls owing_world = []" by (simp add: owing_world_def world_at_def)
  with sweep_clears [OF acc calm ok, of monday_10] held calls show ?thesis by auto
qed

section \<open>Webhook events\<close>

text \<open>A session with the reference exists and the event is recorded.\<close>

definition event_done :: "string \<Rightarrow> string \<Rightarrow> db \<Rightarrow> bool" where
  "event_done ref ev d \<longleftrightarrow> ev \<in> pe_id ` set (d_events d) \<and> (\<exists>s \<in> set (d_sessions d). s_payment_ref s = Some ref)"

lemma event_done_outbox [simp]: "event_done ref ev (d\<lparr>d_outbox := o'\<rparr>) = event_done ref ev d"
  by (simp add: event_done_def)

lemma event_done_update:
  assumes "event_done ref ev d" and "write_sessions d (update_where p f (d_sessions d)) = Inr d'"
    and "\<And>s. s_payment_ref (f s) = s_payment_ref s"
  shows "event_done ref ev d'"
proof -
  from assms(1) obtain s where s: "s \<in> set (d_sessions d)" "s_payment_ref s = Some ref" and e: "ev \<in> pe_id ` set (d_events d)"
    by (auto simp: event_done_def)
  have "(if p s then f s else s) \<in> set (update_where p f (d_sessions d))"
    using s(1) by (auto simp: set_update_where)
  moreover have "s_payment_ref (if p s then f s else s) = Some ref" using s(2) assms(3) by simp
  ultimately show ?thesis using assms(2) e by (auto simp: event_done_def write_sessions_Inr)
qed

lemma keeps_event_done:
  "keeps (tx_inv (event_done ref ev)) (authorized env s)"
  "keeps (tx_inv (event_done ref ev)) (CancelPendingPaymentSession i)"
proof -
  have upd: "keeps (tx_inv (event_done ref ev)) (update_one p f)" "keeps (tx_inv (event_done ref ev)) (update_count p f)"
    if "\<And>now s. s_payment_ref (f now s) = s_payment_ref s" for p f
    using that by (auto intro!: txi.keeps_update_one txi.keeps_update_count intro: event_done_update)
  show "keeps (tx_inv (event_done ref ev)) (authorized env s)"
    unfolding authorized_def give_back_def ask_coach_def session_query_defs Let_def
    by (intro keeps_intros upd) (simp_all add: set_clause_defs)
  show "keeps (tx_inv (event_done ref ev)) (CancelPendingPaymentSession i)"
    unfolding session_query_defs by (intro upd) (simp add: set_clause_defs)
qed

lemma query_tx_Inr:
  assumes q: "query f w = (Inr x, w')" and tx: "w_in_tx w"
  obtains d w1 where "w_db w1 = w_db w" "w_in_tx w1" "w_dbnow w1 = w_dbnow w" "f w1 = Inr (x, d)" "w' = w1\<lparr>w_db := d\<rparr>"
proof -
  obtain b w1 where n: "next_entry w = (b, w1)" by (cases "next_entry w")
  from q n obtain d where "f w1 = Inr (x, d)" "w' = w1\<lparr>w_db := d\<rparr>"
    by (auto simp: query_def split: bool.splits sum.splits prod.splits)
  with next_entry_frame [OF n] tx that show thesis by simp
qed

lemma event_recorded:
  assumes find: "find (\<lambda>s. s_payment_ref s = Some ref) (d_sessions (w_db w)) = Some s"
    and run: "RecordPaymentEvent ev so kind w = (Inr n, w')" and tx: "w_in_tx w"
  shows "event_done ref ev (w_db w') \<and> w_in_tx w' \<and> (n = 0 \<longrightarrow> w_db w' = w_db w)"
proof -
  from find_Some_mem [OF find] have s: "s \<in> set (d_sessions (w_db w))" "s_payment_ref s = Some ref" by simp_all
  from run tx show ?thesis
    unfolding RecordPaymentEvent_def
    by (rule query_tx_Inr) (use s in \<open>auto simp: event_done_def Let_def split: if_splits\<close>)
qed

lemma found_tx:
  assumes "GetSessionByPaymentRefForUpdate ref w = (Inr s, w')" and "w_in_tx w"
  shows "find (\<lambda>s. s_payment_ref s = Some ref) (d_sessions (w_db w')) = Some s \<and> w_db w' = w_db w \<and> w_in_tx w'"
  using assms next_entry_frame by (fastforce simp: GetSessionByPaymentRefForUpdate_def select_one_Inr)

lemma applied_event_done:
  assumes run: "ApplyPaymentEvent env ev w = (Inr (), w1)"
    and kind: "ev_kind ev \<noteq> EventIgnored" "ev_checkout_ref ev \<noteq> []"
  shows "event_done (ev_checkout_ref ev) (ev_id ev) (w_db w1)"
proof -
  let ?D = "event_done (ev_checkout_ref ev) (ev_id ev)"
  define rest where "rest = (\<lambda>s. case ev_kind ev of
                EventAuthorized \<Rightarrow> authorized env s
              | EventExpired \<Rightarrow> bindE (CancelPendingPaymentSession (s_id s)) (\<lambda>_. ret ())
              | EventIgnored \<Rightarrow> ret ())"
  have rest: "keeps (tx_inv ?D) (rest s)" for s
    unfolding rest_def by (auto split: event_kind.splits intro!: keeps_event_done keeps_intros)
  define body where "body = attempt (GetSessionByPaymentRefForUpdate (ev_checkout_ref ev)) (\<lambda>e. throw (not_found e)) (\<lambda>s.
         bindE (RecordPaymentEvent (ev_id ev) (Some (s_id s)) (event_text (ev_kind ev))) (\<lambda>inserted.
         if inserted = 0 then abandon () else bindE (rest s) (\<lambda>_. commit ())))"
  have body_run: "w_in_tx w3 \<and> ?D (w_db w3) \<and> (\<not> c \<longrightarrow> ?D (w_db w0))"
    if "body w0 = (Inr (c, ()), w3)" "w_in_tx w0" for w0 w3 c
  proof -
    from that(1) obtain s wa n wb where get: "GetSessionByPaymentRefForUpdate (ev_checkout_ref ev) w0 = (Inr s, wa)"
      and rec: "RecordPaymentEvent (ev_id ev) (Some (s_id s)) (event_text (ev_kind ev)) wa = (Inr n, wb)"
      and fin: "(if n = 0 then abandon () else bindE (rest s) (\<lambda>_. commit ())) wb = (Inr (c, ()), w3)"
      by (auto simp: body_def go_results)
    note found = found_tx [OF get that(2)]
    have recd: "?D (w_db wb) \<and> w_in_tx wb \<and> (n = 0 \<longrightarrow> w_db wb = w_db wa)"
      by (rule event_recorded [OF _ rec]) (use found in auto)
    show ?thesis
    proof (cases "n = 0")
      case True
      with fin have "w3 = wb" "\<not> c" by (auto simp: abandon_def ret_Inr)
      moreover from recd have "?D (w_db wb)" "w_in_tx wb" by blast+
      moreover from True recd found have "w_db wb = w_db w0" by (metis (no_types))
      ultimately show ?thesis by metis
    next
      case False
      with fin obtain y w4 where "rest s wb = (Inr y, w4)" and c: "c" "w3 = w4" by (auto simp: bindE_Inr commit_def ret_Inr)
      from keepsD [OF rest _ this(1)] recd have "tx_inv ?D w4" by (simp add: tx_inv_def)
      with c show ?thesis by (simp add: tx_inv_def)
    qed
  qed
  have "transaction body w = (Inr (), w1)"
    using run kind unfolding body_def rest_def by (simp add: ApplyPaymentEvent_def)
  then obtain w0 w3 where w0: "next_entry w = (False, w0)"
    and alt: "body (w0\<lparr>w_in_tx := True\<rparr>) = (Inr (False, ()), w3) \<and> w1 = w3\<lparr>w_db := w_db w0, w_in_tx := w_in_tx w0\<rparr> \<or>
       body (w0\<lparr>w_in_tx := True\<rparr>) = (Inr (True, ()), w3) \<and> (\<exists>w4. next_entry w3 = (False, w4) \<and> w1 = w4\<lparr>w_in_tx := w_in_tx w0\<rparr>)"
    by (auto simp: transaction_Inr)
  from alt show ?thesis
  proof
    assume "body (w0\<lparr>w_in_tx := True\<rparr>) = (Inr (False, ()), w3) \<and> w1 = w3\<lparr>w_db := w_db w0, w_in_tx := w_in_tx w0\<rparr>"
    with body_run [of "w0\<lparr>w_in_tx := True\<rparr>" False w3] show ?thesis by simp
  next
    assume "body (w0\<lparr>w_in_tx := True\<rparr>) = (Inr (True, ()), w3) \<and> (\<exists>w4. next_entry w3 = (False, w4) \<and> w1 = w4\<lparr>w_in_tx := w_in_tx w0\<rparr>)"
    then obtain w4 where r: "body (w0\<lparr>w_in_tx := True\<rparr>) = (Inr (True, ()), w3)" "next_entry w3 = (False, w4)"
      "w1 = w4\<lparr>w_in_tx := w_in_tx w0\<rparr>" by blast
    with next_entry_frame [OF r(2)] body_run [OF r(1)] show ?thesis by simp
  qed
qed

text \<open>
  C10: webhook delivery is idempotent.  Once an event has been applied, delivering it again
  succeeds and changes nothing.
\<close>

theorem webhook_idempotent:
  assumes first: "ApplyPaymentEvent env ev w = (Inr (), w1)"
    and again: "w_sched w2 = []" "w_db w2 = w_db w1"
  shows "\<exists>w3. ApplyPaymentEvent env ev w2 = (Inr (), w3) \<and> w_db w3 = w_db w2"
proof (cases "ev_kind ev = EventIgnored \<or> ev_checkout_ref ev = []")
  case True
  then show ?thesis by (auto simp: ApplyPaymentEvent_def ret_def)
next
  case False
  with applied_event_done [OF first] again(2)
  have "event_done (ev_checkout_ref ev) (ev_id ev) (w_db w2)" by simp
  then obtain s where s: "find (\<lambda>s. s_payment_ref s = Some (ev_checkout_ref ev)) (d_sessions (w_db w2)) = Some s"
    and e: "ev_id ev \<in> pe_id ` set (d_events (w_db w2))"
    by (cases "find (\<lambda>s. s_payment_ref s = Some (ev_checkout_ref ev)) (d_sessions (w_db w2))")
      (auto simp: event_done_def find_None_iff_all)
  have "ApplyPaymentEvent env ev w2 = (Inr (), w2)"
    using False again(1) s e
    by (simp add: ApplyPaymentEvent_def transaction_def attempt_def bindE_def GetSessionByPaymentRefForUpdate_def
        select_one_calm RecordPaymentEvent_def query_calm Let_def abandon_def ret_def)
  then show ?thesis by blast
qed


definition expired_event :: event where
  "expired_event = \<lparr>ev_id = ''evt_1'', ev_kind = EventExpired, ev_checkout_ref = ''cs_8'', ev_session_id = ''''\<rparr>"

lemma webhook_idempotent_witness:
  "\<exists>w3. ApplyPaymentEvent paid_env expired_event (snd (ApplyPaymentEvent paid_env expired_event owing_world)) = (Inr (), w3) \<and>
     w_db w3 = w_db (snd (ApplyPaymentEvent paid_env expired_event owing_world))"
proof -
  have "fst (ApplyPaymentEvent paid_env expired_event owing_world) = Inr ()"
    and calm: "w_sched (snd (ApplyPaymentEvent paid_env expired_event owing_world)) = []"
    by code_simp+
  then have first: "ApplyPaymentEvent paid_env expired_event owing_world =
     (Inr (), snd (ApplyPaymentEvent paid_env expired_event owing_world))"
    by (metis prod.collapse)
  show ?thesis by (rule webhook_idempotent [OF first calm refl])
qed

end
