(* ===== verification/Session_Properties.thy ===== *)
theory Session_Properties
  imports Scenario Answer_Properties
begin

text \<open>
  What the background tick and a status change do to the sessions, to the outbox and to the
  sessions nobody asked about, in a run without faults; and that both return.
\<close>

section \<open>The expiry tick\<close>

text \<open>Only the outbox of the database grew, by mails to these addresses.\<close>

definition mailed :: "string list \<Rightarrow> world \<Rightarrow> world \<Rightarrow> bool" where
  "mailed tos w w' \<longleftrightarrow> w_sched w' = [] \<and> w_dbnow w' = w_dbnow w \<and> w_now w' = w_now w \<and> w_in_tx w' = w_in_tx w \<and>
     w_calls w' = w_calls w \<and>
     (\<exists>ms. map e_to ms = tos \<and> w_db w' = (w_db w)\<lparr>d_outbox := d_outbox (w_db w) @ ms\<rparr>)"

lemma mailed_refl: "w_sched w = [] \<Longrightarrow> mailed [] w w"
  by (simp add: mailed_def)

lemma mailed_trans:
  assumes "mailed xs u v" and "mailed ys v w"
  shows "mailed (xs @ ys) u w"
proof -
  from assms obtain ms ns where "map e_to ms = xs" "w_db v = (w_db u)\<lparr>d_outbox := d_outbox (w_db u) @ ms\<rparr>"
    "map e_to ns = ys" "w_db w = (w_db v)\<lparr>d_outbox := d_outbox (w_db v) @ ns\<rparr>"
    by (auto simp: mailed_def)
  then have "map e_to (ms @ ns) = xs @ ys" "w_db w = (w_db u)\<lparr>d_outbox := d_outbox (w_db u) @ ms @ ns\<rparr>" by simp_all
  then show ?thesis using assms unfolding mailed_def by metis
qed

lemma parties_of_cong:
  "d_sessions d' = d_sessions d \<Longrightarrow> d_users d' = d_users d \<Longrightarrow> d_coaches d' = d_coaches d \<Longrightarrow>
   parties_of i d' = parties_of i d"
  by (simp add: parties_of_def cong: option.case_cong)

lemma mailed_frame:
  assumes "mailed tos w w'"
  shows "w_sched w' = []" "w_dbnow w' = w_dbnow w" "w_now w' = w_now w" "w_in_tx w' = w_in_tx w"
    "w_calls w' = w_calls w" "d_sessions (w_db w') = d_sessions (w_db w)" "d_users (w_db w') = d_users (w_db w)"
    "d_coaches (w_db w') = d_coaches (w_db w)" "parties_of i (w_db w') = parties_of i (w_db w)"
    "map e_to (d_outbox (w_db w')) = map e_to (d_outbox (w_db w)) @ tos"
  using assms by (auto simp: mailed_def intro!: parties_of_cong)

lemma enqueue_mailed:
  assumes "w_sched w = []" obtains w' where "enqueue m w = (Inr (), w')" "mailed [m_to m] w w'"
proof (rule that [OF enqueue_calm [OF assms]])
  have "e_to (email_of m i n) = m_to m" for i n by (simp add: email_of_def)
  then have "map e_to [email_of m (w_next_id w) (w_dbnow w)] = [m_to m]" by simp
  then show "mailed [m_to m] w (w\<lparr>w_next_id := Suc (w_next_id w),
        w_db := (w_db w)\<lparr>d_outbox := d_outbox (w_db w) @ [email_of m (w_next_id w) (w_dbnow w)]\<rparr>\<rparr>)"
    using assms unfolding mailed_def by (intro conjI exI) simp_all
qed

lemma parties_of_session: "parties_of i d = Some p \<Longrightarrow> find (\<lambda>s. s_id s = i) (d_sessions d) = Some (pt_session p)"
  by (auto simp: parties_of_def split: option.splits)

definition both_parties :: "db \<Rightarrow> session \<Rightarrow> string list" where
  "both_parties d s = (case parties_of (s_id s) d of None \<Rightarrow> [] | Some p \<Rightarrow> [pt_user_email p, pt_coach_email p])"

lemma expire_mails_calm:
  assumes calm: "w_sched w = []" and p: "parties_of (s_id s) (w_db w) = Some p" "s_status (pt_session p) = Expired"
  shows "\<exists>w'. expire_mails env s w = (Inr (), w') \<and> mailed (both_parties (w_db w) s) w w'"
proof -
  obtain w1 where 1: "enqueue (client_expired env (w_now w) p) w = (Inr (), w1)"
    "mailed [m_to (client_expired env (w_now w) p)] w w1"
    by (rule enqueue_mailed [OF calm])
  obtain m where m: "coach_calendar_update env (w_now w) p = Some m" "m_to m = pt_coach_email p"
    using p(2) by (simp add: coach_calendar_update_def Let_def)
  obtain w2 where 2: "enqueue m w1 = (Inr (), w2)" "mailed [m_to m] w1 w2"
    by (rule enqueue_mailed [OF mailed_frame(1) [OF 1(2)]])
  have "expire_mails env s w = (Inr (), w2)"
    using calm p 1 2 m by (simp add: expire_mails_def bindE_def asks_def GetSessionParties_calm enqueue_opt_def)
  moreover have "[m_to (client_expired env (w_now w) p)] @ [m_to m] = both_parties (w_db w) s"
    using p m(2) by (simp add: both_parties_def client_expired_def)
  ultimately show ?thesis using mailed_trans [OF 1(2) 2(2)] by auto
qed

lemma expire_all_mails_calm:
  assumes "w_sched w = []"
    and "\<And>s. s \<in> set xs \<Longrightarrow> \<exists>p. parties_of (s_id s) (w_db w) = Some p \<and> s_status (pt_session p) = Expired"
  shows "\<exists>w'. forE xs (expire_mails env) w = (Inr (), w') \<and> mailed (concat (map (both_parties (w_db w)) xs)) w w'"
  using assms
proof (induction xs arbitrary: w)
  case Nil
  then show ?case by (simp add: ret_def mailed_refl)
next
  case (Cons s xs)
  obtain p where "parties_of (s_id s) (w_db w) = Some p" "s_status (pt_session p) = Expired"
    using Cons.prems(2) [of s] by auto
  from expire_mails_calm [OF Cons.prems(1) this] obtain w1 where
    1: "expire_mails env s w = (Inr (), w1)" "mailed (both_parties (w_db w) s) w w1" by blast
  note frame = mailed_frame [OF 1(2)]
  have "\<exists>p. parties_of (s_id t) (w_db w1) = Some p \<and> s_status (pt_session p) = Expired" if "t \<in> set xs" for t
    using Cons.prems(2) [of t] that frame(9) by simp
  with Cons.IH [OF frame(1)] obtain w2 where
    2: "forE xs (expire_mails env) w1 = (Inr (), w2)" "mailed (concat (map (both_parties (w_db w1)) xs)) w1 w2" by blast
  have "both_parties (w_db w1) = both_parties (w_db w)"
    by (rule ext) (simp add: both_parties_def frame(9))
  with 1 2(1) mailed_trans [OF 1(2) 2(2)] show ?case by (simp add: bindE_def)
qed

text \<open>The rows one batch takes.\<close>

lemma overdue_ids_facts:
  fixes now k ss
  assumes dist: "distinct (map s_id ss)"
  defines "ids \<equiv> overdue_ids k now ss"
  shows "\<And>s. s \<in> set ss \<Longrightarrow> s_id s \<in> set ids \<Longrightarrow> overdue now s"
    and "length (filter (\<lambda>s. s_id s \<in> set ids) ss) = min k (length (filter (overdue now) ss))"
proof -
  let ?key = "\<lambda>s. case s_respond_by s of None \<Rightarrow> 0 | Some t \<Rightarrow> t"
  let ?due = "sort_key ?key (filter (overdue now) ss)"
  have ids: "ids = map s_id (take k ?due)" by (simp add: ids_def overdue_ids_def)
  have sub: "set (take k ?due) \<subseteq> set (filter (overdue now) ss)" by (metis set_sort set_take_subset)
  have inj: "s = t" if "s \<in> set ss" "t \<in> set ss" "s_id s = s_id t" for s t
    using distinct_keys_eq [OF dist] that by blast
  show due: "overdue now s" if s: "s \<in> set ss" "s_id s \<in> set ids" for s
  proof -
    from s(2) obtain t where "t \<in> set (take k ?due)" "s_id t = s_id s" by (auto simp: ids)
    with sub have "t \<in> set ss" "overdue now t" by auto
    with inj [OF s(1)] \<open>s_id t = s_id s\<close> show ?thesis by metis
  qed
  have "distinct (map s_id (filter (overdue now) ss))" using dist by (rule distinct_map_filter)
  then have "distinct (map s_id ?due)" by (simp only: distinct_map distinct_sort set_sort)
  then have "distinct ids" by (simp add: ids distinct_take flip: take_map)
  have "set ids \<subseteq> s_id ` set ss" using sub by (auto simp: ids)
  then have "set (map s_id (filter (\<lambda>s. s_id s \<in> set ids) ss)) = set ids" by auto
  moreover have "distinct (map s_id (filter (\<lambda>s. s_id s \<in> set ids) ss))" using dist by (rule distinct_map_filter)
  ultimately have "length (map s_id (filter (\<lambda>s. s_id s \<in> set ids) ss)) = length ids"
    using \<open>distinct ids\<close> by (metis distinct_card)
  then show "length (filter (\<lambda>s. s_id s \<in> set ids) ss) = min k (length (filter (overdue now) ss))"
    by (simp add: ids min.commute)
qed

lemma expired_row [simp]: "s_id (expire_set now s) = s_id s" "s_status (expire_set now s) = Expired" "\<not> overdue now (expire_set now s)"
  by (simp_all add: expire_set_def overdue_def)

text \<open>What expiry makes of a row.\<close>

definition expired_if_due :: "instant \<Rightarrow> session \<Rightarrow> session" where
  "expired_if_due now s = (if overdue now s then expire_set now s else s)"

definition overdue_count :: "instant \<Rightarrow> db \<Rightarrow> nat" where
  "overdue_count now d = length (filter (overdue now) (d_sessions d))"

lemma batch_statement_calm:
  fixes k
  assumes calm: "w_sched w = []" and ok: "constraints_ok (w_db w)"
  defines "p \<equiv> \<lambda>s. s_id s \<in> set (overdue_ids k (w_dbnow w) (d_sessions (w_db w)))"
  shows "ExpirePendingSessions k w = (Inr (map (expire_set (w_dbnow w)) (filter p (d_sessions (w_db w)))),
      with_sessions (update_where p (expire_set (w_dbnow w))) w)"
    and "constraints_ok (w_db (with_sessions (update_where p (expire_set (w_dbnow w))) w))"
proof -
  have "sessions_violation (w_db w) (update_where p (expire_set (w_dbnow w)) (d_sessions (w_db w))) = None"
    by (rule gentle_no_violation [OF ok]) (rule gentle_sets)
  then show "ExpirePendingSessions k w = (Inr (map (expire_set (w_dbnow w)) (filter p (d_sessions (w_db w)))),
      with_sessions (update_where p (expire_set (w_dbnow w))) w)"
    using calm by (simp add: ExpirePendingSessions_def query_calm write_sessions_def Let_def with_sessions_def p_def)
  show "constraints_ok (w_db (with_sessions (update_where p (expire_set (w_dbnow w))) w))"
    by (rule constraints_ok_with_sessions [OF ok]) (rule gentle_sets)
qed

lemma length_concat_twos: "(\<And>x. x \<in> set xs \<Longrightarrow> length (f x) = 2) \<Longrightarrow> length (concat (map f xs)) = 2 * length xs"
  by (induction xs) simp_all

lemma expireBatch_calm:
  assumes calm: "w_sched w = []" and ok: "constraints_ok (w_db w)" "coaches_have_accounts (w_db w)"
  defines "n \<equiv> w_dbnow w" and "p \<equiv> \<lambda>s. s_id s \<in> set (overdue_ids expire_batch_size (w_dbnow w) (d_sessions (w_db w)))"
  shows "\<exists>w'. expireBatch env w = (Inr (min expire_batch_size (overdue_count n (w_db w))), w') \<and>
     w_sched w' = [] \<and> w_dbnow w' = n \<and> constraints_ok (w_db w') \<and> coaches_have_accounts (w_db w') \<and>
     d_sessions (w_db w') = update_where p (expire_set n) (d_sessions (w_db w)) \<and>
     length (d_outbox (w_db w')) = length (d_outbox (w_db w)) + 2 * min expire_batch_size (overdue_count n (w_db w))"
proof -
  let ?w = "w\<lparr>w_in_tx := True\<rparr>" and ?ss = "d_sessions (w_db w)"
  let ?w1 = "with_sessions (update_where p (expire_set n)) ?w" and ?rows = "map (expire_set n) (filter p ?ss)"
  have dist: "distinct (map s_id ?ss)" using ok by (simp add: constraints_ok_iff)
  have calm1: "w_sched ?w = []" and ok1: "constraints_ok (w_db ?w)" using calm ok by simp_all
  have run: "ExpirePendingSessions expire_batch_size ?w = (Inr ?rows, ?w1)"
    and ok2: "constraints_ok (w_db ?w1)"
    using batch_statement_calm [OF calm1 ok1, of expire_batch_size] by (simp_all add: n_def p_def)
  have acc: "coaches_have_accounts (w_db ?w1)" using ok(2) by (simp add: coaches_have_accounts_def)
  have exist: "\<exists>q. parties_of (s_id s) (w_db ?w1) = Some q \<and> s_status (pt_session q) = Expired" if "s \<in> set ?rows" for s
  proof -
    from that obtain t where t: "t \<in> set ?ss" "p t" "s = expire_set n t" by auto
    then have s: "s \<in> set (d_sessions (w_db ?w1))" by (auto simp: set_update_where)
    from parties_exist [OF ok2 acc this] obtain q where q: "parties_of (s_id s) (w_db ?w1) = Some q" by blast
    with find_id [OF ok2 s] parties_of_session [OF q] have "pt_session q = s" by simp
    with q t show ?thesis by auto
  qed
  have "w_sched ?w1 = []" using calm by simp
  from expire_all_mails_calm [OF this exist] obtain w2 where
    mails: "forE ?rows (expire_mails env) ?w1 = (Inr (), w2)" "mailed (concat (map (both_parties (w_db ?w1)) ?rows)) ?w1 w2" by blast
  note frame = mailed_frame [OF mails(2)]
  have count: "length (filter p ?ss) = min expire_batch_size (overdue_count n (w_db w))"
    using overdue_ids_facts(2) [OF dist] by (simp add: p_def n_def overdue_count_def)
  have "expireBatch env w = (Inr (length ?rows), w2\<lparr>w_in_tx := w_in_tx w\<rparr>)"
    using calm run mails(1) frame(1) by (simp add: expireBatch_def transaction_def bindE_def commit_def ret_def)
  moreover have "constraints_ok (w_db w2)"
    using ok2 frame(6-8) by (simp add: constraints_ok_iff)
  moreover have "length (concat (map (both_parties (w_db ?w1)) ?rows)) = 2 * length ?rows"
    by (rule length_concat_twos) (use exist in \<open>fastforce simp: both_parties_def\<close>)
  then have "length (d_outbox (w_db w2)) = length (d_outbox (w_db w)) + 2 * length ?rows"
    using arg_cong [OF frame(10), of length] by simp
  ultimately show ?thesis
    using frame(1,2,6,7,8) acc count by (auto simp: coaches_have_accounts_def n_def)
qed


lemma overdue_after_batch:
  assumes "\<And>s. s \<in> set ss \<Longrightarrow> p s \<Longrightarrow> overdue now s"
  shows "length (filter (overdue now) (update_where p (expire_set now) ss)) + length (filter p ss) =
      length (filter (overdue now) ss)"
    and "map (expired_if_due now) (update_where p (expire_set now) ss) = map (expired_if_due now) ss"
  using assms by (induction ss) (auto simp: expired_if_due_def)

lemma ExpirePending_calm:
  assumes "w_sched w = []" and "constraints_ok (w_db w)" and "coaches_have_accounts (w_db w)"
    and "overdue_count (w_dbnow w) (w_db w) < fuel * expire_batch_size"
  shows "\<exists>w'. ExpirePending fuel env k w = (Inr (k + overdue_count (w_dbnow w) (w_db w), None), w') \<and>
     d_sessions (w_db w') = map (expired_if_due (w_dbnow w)) (d_sessions (w_db w)) \<and>
     length (d_outbox (w_db w')) = length (d_outbox (w_db w)) + 2 * overdue_count (w_dbnow w) (w_db w)"
  using assms
proof (induction fuel arbitrary: w k)
  case 0
  then show ?case by simp
next
  case (Suc fuel)
  let ?n = "w_dbnow w" and ?ss = "d_sessions (w_db w)"
  let ?p = "\<lambda>s. s_id s \<in> set (overdue_ids expire_batch_size ?n ?ss)" and ?c = "overdue_count ?n (w_db w)"
  have dist: "distinct (map s_id ?ss)" using Suc.prems(2) by (simp add: constraints_ok_iff)
  from expireBatch_calm [OF Suc.prems(1-3), of env] obtain w1 where
    run: "expireBatch env w = (Inr (min expire_batch_size ?c), w1)"
    and w1: "w_sched w1 = []" "w_dbnow w1 = ?n" "constraints_ok (w_db w1)" "coaches_have_accounts (w_db w1)"
      "d_sessions (w_db w1) = update_where ?p (expire_set ?n) ?ss"
      "length (d_outbox (w_db w1)) = length (d_outbox (w_db w)) + 2 * min expire_batch_size ?c" by auto
  have due: "overdue ?n s" if "s \<in> set ?ss" "?p s" for s
    using overdue_ids_facts(1) [OF dist] that by blast
  have left: "overdue_count ?n (w_db w1) + min expire_batch_size ?c = ?c"
    using overdue_after_batch(1) [of ?ss ?p ?n] due overdue_ids_facts(2) [OF dist, of expire_batch_size ?n] w1(5)
    by (simp add: overdue_count_def)
  have same: "map (expired_if_due ?n) (d_sessions (w_db w1)) = map (expired_if_due ?n) ?ss"
    using overdue_after_batch(2) [of ?ss ?p ?n] due w1(5) by simp
  show ?case
  proof (cases "?c < expire_batch_size")
    case True
    then have "overdue_count ?n (w_db w1) = 0" using left by simp
    then have "\<not> overdue ?n s" if "s \<in> set (d_sessions (w_db w1))" for s
      using that by (auto simp: overdue_count_def filter_empty_conv)
    then have "map (expired_if_due ?n) (d_sessions (w_db w1)) = d_sessions (w_db w1)"
      by (simp add: expired_if_due_def map_idI)
    with True run w1(6) same show ?thesis by (simp add: attempt_def ret_def)
  next
    case False
    then have "overdue_count (w_dbnow w1) (w_db w1) < fuel * expire_batch_size"
      using left Suc.prems(4) w1(2) by simp
    from Suc.IH [OF w1(1,3,4) this, of "k + expire_batch_size"] obtain w' where
      "ExpirePending fuel env (k + expire_batch_size) w1 =
         (Inr (k + expire_batch_size + overdue_count ?n (w_db w1), None), w')"
      "d_sessions (w_db w') = map (expired_if_due ?n) (d_sessions (w_db w1))"
      "length (d_outbox (w_db w')) = length (d_outbox (w_db w1)) + 2 * overdue_count ?n (w_db w1)"
      using w1(2) by auto
    with False run left same w1(6) show ?thesis by (simp add: attempt_def)
  qed
qed

text \<open>
  C31: The expiry tick does its whole job and ends.  With no faults, and more fuel than batches of
  100 requests are overdue, it returns their number and no error; afterwards exactly the
  overdue requests are expired (a held card marked for release), every other session is as it
  was, and two mails are queued for each.
\<close>

theorem expiry_tick_complete:
  assumes "w_sched w = []" and "constraints_ok (w_db w)" and "coaches_have_accounts (w_db w)"
    and "overdue_count (w_dbnow w) (w_db w) < fuel * expire_batch_size"
  shows "\<exists>w'. ExpirePending fuel env 0 w = (Inr (overdue_count (w_dbnow w) (w_db w), None), w') \<and>
     d_sessions (w_db w') = map (expired_if_due (w_dbnow w)) (d_sessions (w_db w)) \<and>
     length (d_outbox (w_db w')) = length (d_outbox (w_db w)) + 2 * overdue_count (w_dbnow w) (w_db w)"
  using ExpirePending_calm [OF assms, of env 0] by simp

lemma expiry_tick_complete_witness:
  "\<exists>w'. ExpirePending 1 paid_env 0 (pend_world\<lparr>w_dbnow := monday_10\<rparr>) = (Inr (1, None), w') \<and>
     map s_status (d_sessions (w_db w')) = [Expired] \<and> map s_payment_status (d_sessions (w_db w')) = [PayReleasing] \<and>
     length (d_outbox (w_db w')) = 2"
proof -
  let ?w = "pend_world\<lparr>w_dbnow := monday_10\<rparr>"
  have rows: "d_sessions (w_db pend_world) = [pend]" "d_outbox (w_db pend_world) = []"
    by (simp_all add: pend_world_def world_at_def start_db_def)
  have due: "overdue monday_10 pend" by code_simp
  then have count: "overdue_count monday_10 (w_db pend_world) = 1" by (simp add: overdue_count_def rows)
  have calm: "w_sched ?w = []" "constraints_ok (w_db ?w)" "coaches_have_accounts (w_db ?w)"
    using pend_world_facts by simp_all
  have fuel: "overdue_count (w_dbnow ?w) (w_db ?w) < 1 * expire_batch_size" by (simp add: count expire_batch_size_def)
  from expiry_tick_complete [OF calm fuel, of paid_env] obtain w' where
    "ExpirePending 1 paid_env 0 ?w = (Inr (1, None), w')" "d_sessions (w_db w') = [expire_set monday_10 pend]"
    "length (d_outbox (w_db w')) = 2"
    by (auto simp: count rows expired_if_due_def due)
  moreover have "s_payment_status (expire_set monday_10 pend) = PayReleasing" by (simp add: expire_set_def pend_def)
  ultimately show ?thesis by simp
qed

section \<open>Status changes\<close>

lemma query_consumes: "query f w = (r, w') \<Longrightarrow> length (w_sched w') = length (w_sched w) - 1"
  by (auto simp: query_def next_entry_def split: list.splits sched.splits prod.splits bool.splits sum.splits if_splits)

lemma participant_consumes:
  "participant i u w = (r, w') \<Longrightarrow> length (w_sched w') = length (w_sched w) - 1"
  by (auto simp: participant_def GetCoachingSession_def select_one_def attempt_def throw_def ret_def
      split: prod.splits sum.splits if_splits dest: query_consumes)

lemma update_one_consumes: "update_one p f w = (r, w') \<Longrightarrow> length (w_sched w') = length (w_sched w) - 1"
  by (auto simp: update_one_def update_sessions_def bindE_def throw_def ret_def
      split: prod.splits sum.splits list.splits dest: query_consumes)

lemma raises_transaction [raises_intros]: "raises E body \<Longrightarrow> E ErrDriver \<Longrightarrow> raises E (transaction body)"
  by (auto simp: raises_def transaction_def split: prod.splits bool.splits sum.splits)

lemma plain_mails [raises_intros]:
  "raises (\<lambda>e. e \<noteq> OutOfFuel) (enqueue m)" "raises (\<lambda>e. e \<noteq> OutOfFuel) (GetSessionParties i)"
proof -
  have q: "raises (\<lambda>e. e \<noteq> OutOfFuel) (query f)" if "\<And>w e. f w = Inl e \<Longrightarrow> sql_error e" for f :: "world \<Rightarrow> go_error + ('a \<times> db)"
    by (rule raises_weaken [OF raises_query [OF that]]) (auto dest: sql_error_plain)
  have "raises (\<lambda>e. e \<noteq> OutOfFuel) fresh_id" by (simp add: raises_def fresh_id_def)
  then show "raises (\<lambda>e. e \<noteq> OutOfFuel) (enqueue m)"
    unfolding enqueue_def by (intro raises_intros q) auto
  show "raises (\<lambda>e. e \<noteq> OutOfFuel) (GetSessionParties i)"
    unfolding GetSessionParties_def by (rule raises_weaken [OF raises_select(2)]) (auto dest: sql_error_plain)
qed

lemma set_status_tx_plain: "raises (\<lambda>e. e \<noteq> OutOfFuel) (set_status_tx env s st c)"
proof -
  have "raises (\<lambda>e. e \<noteq> OutOfFuel) (UpdateSessionStatus i st x)" for i st x
    unfolding UpdateSessionStatus_def by (rule raises_weaken [OF raises_update(2)]) (auto dest: sql_error_plain)
  then show ?thesis
    unfolding set_status_tx_def status_mails_def commit_def
    by (intro raises_intros) simp_all
qed

lemma hold_released_calm:
  assumes "w_sched w = []" and "find (\<lambda>s. s_id s = i) (d_sessions (w_db w)) = Some s" and "s_status s = PendingPayment"
    and "ReleasePendingPaymentSession i w = (Inl e, w')"
  shows "e \<noteq> ErrNoRows"
proof -
  from find_Some_mem [OF assms(2)] have "s \<in> set (filter (by_id i awaiting_payment (w_dbnow w)) (d_sessions (w_db w)))"
    using assms(3) by (simp add: by_id_def awaiting_payment_def)
  then have "filter (by_id i awaiting_payment (w_dbnow w)) (d_sessions (w_db w)) \<noteq> []" by force
  then show ?thesis
    using assms(1,4)
    by (auto simp: ReleasePendingPaymentSession_def update_one_def update_sessions_def bindE_def query_calm Let_def
        throw_def ret_def write_sessions_def split: option.splits list.splits sum.splits)
qed

lemma participant_calm:
  "w_sched w = [] \<Longrightarrow> participant i u w = (Inr s, w') \<longleftrightarrow>
     w' = w \<and> find (\<lambda>s. s_id s = i) (d_sessions (w_db w)) = Some s \<and> (s_user_id s = u \<or> s_coach_id s = u)"
  by (auto simp: participant_def GetCoachingSession_calm attempt_def throw_def ret_def split: option.splits if_splits)

lemma participant_plain: "raises (\<lambda>e. e \<noteq> OutOfFuel) (participant i u)"
  unfolding participant_def GetCoachingSession_def
  by (intro raises_attempt [OF raises_select(2)] raises_intros) (auto simp: not_found_def dest: sql_error_plain)

text \<open>
  \<open>SetStatus\<close> ends.  It calls itself only after another request has changed the session
  between its read and its update, so with more fuel than entries in the schedule it always
  gives an answer.
\<close>

theorem set_status_terminates:
  assumes "length (w_sched w) < fuel"
  shows "fst (SetStatus fuel env i actor_id status w) \<noteq> Inl OutOfFuel"
  using assms
proof (induction fuel arbitrary: w)
  case 0
  then show ?case by simp
next
  case (Suc fuel)
  show ?case
  proof
    assume "fst (SetStatus (Suc fuel) env i actor_id status w) = Inl OutOfFuel"
    then obtain w' where run: "SetStatus (Suc fuel) env i actor_id status w = (Inl OutOfFuel, w')"
      by (metis fst_run)
    then obtain s w1 target where s: "participant i actor_id w = (Inr s, w1)"
      and rest: "(if s_status s = PendingPayment
         then attempt (ReleasePendingPaymentSession i)
                (\<lambda>e. if e = ErrNoRows then SetStatus fuel env i actor_id status else throw e)
                (\<lambda>updated. ret (session_of env updated []))
         else set_status_tx env s target (actor_id = s_coach_id s)) w1 = (Inl OutOfFuel, w')"
      using raisesD [OF participant_plain, of i actor_id w OutOfFuel]
      by (auto simp: go_results split: option.splits)
    have "s_status s = PendingPayment"
      using rest raisesD [OF set_status_tx_plain, of env s target "actor_id = s_coach_id s" w1 OutOfFuel]
      by (auto split: if_splits)
    with rest obtain e w2 where rel: "ReleasePendingPaymentSession i w1 = (Inl e, w2)"
      and h: "(if e = ErrNoRows then SetStatus fuel env i actor_id status else throw e) w2 = (Inl OutOfFuel, w')"
      by (auto simp: go_results)
    have "e \<noteq> OutOfFuel"
      using raisesD [OF raises_update(2), of "by_id i awaiting_payment" release_hold_set w1 e w2] rel
      by (auto simp: ReleasePendingPaymentSession_def dest: sql_error_plain)
    with h have e: "e = ErrNoRows" and again: "SetStatus fuel env i actor_id status w2 = (Inl OutOfFuel, w')"
      by (auto simp: throw_Inl split: if_splits)
    show False
    proof (cases "w_sched w")
      case Nil
      then have "w1 = w" "find (\<lambda>s. s_id s = i) (d_sessions (w_db w)) = Some s"
        using participant_calm s by auto
      with hold_released_calm [of w i s e w2] Nil \<open>s_status s = PendingPayment\<close> rel e show False by simp
    next
      case (Cons x xs)
      then have "length (w_sched w2) < fuel"
        using participant_consumes [OF s] update_one_consumes rel Suc.prems
        by (fastforce simp: ReleasePendingPaymentSession_def)
      from Suc.IH [OF this] again show False by simp
    qed
  qed
qed


text \<open>Who may make which change, written out.\<close>

definition may_set_status :: "session \<Rightarrow> uuid \<Rightarrow> string \<Rightarrow> bool" where
  "may_set_status s a status \<longleftrightarrow>
     a \<in> {s_user_id s, s_coach_id s} \<and> status = ''cancelled'' \<and> s_status s \<in> {PendingPayment, Pending, Scheduled} \<or>
     a = s_coach_id s \<and> status \<in> {''completed'', ''no_show''} \<and> s_status s = Scheduled"

lemma status_named_iff: "status_named t = Some st \<longleftrightarrow> t = status_text st"
  by (cases st) (auto simp: status_named_def all_statuses_def split: if_splits)

lemma ex_session_status: "(\<exists>t. P t) \<longleftrightarrow> P PendingPayment \<or> P Pending \<or> P Scheduled \<or> P Declined \<or> P Expired \<or>
    P Completed \<or> P Cancelled \<or> P NoShow"
  by (metis session_status.exhaust)

lemma may_set_status_code:
  "may_set_status s a status \<longleftrightarrow> a \<in> {s_user_id s, s_coach_id s} \<and>
     (\<exists>t. status_named status = Some t \<and> t \<in> status_transitions (s_status s) \<and> (coach_only t \<longrightarrow> a = s_coach_id s))"
  unfolding may_set_status_def status_named_iff coach_only_def ex_session_status by (cases "s_status s") auto

definition changed_row :: "session_status \<Rightarrow> instant \<Rightarrow> session \<Rightarrow> session" where
  "changed_row t now s = (if s_status s = PendingPayment then release_hold_set now s else status_set t now s)"

text \<open>Who is told about a cancellation: the other party, and the one who cancelled if they hold an invite.\<close>

definition told :: "db \<Rightarrow> session \<Rightarrow> bool \<Rightarrow> string list" where
  "told d s by_coach =
     (case parties_of (s_id s) d of None \<Rightarrow> []
      | Some p \<Rightarrow> (if by_coach then [pt_user_email p, pt_coach_email p]
                  else pt_coach_email p # (if s_status s = Scheduled then [pt_user_email p] else [])))"

lemma cancel_mails_calm:
  assumes calm: "w_sched w = []" and p: "parties_of (s_id s) (w_db w) = Some p"
  shows "\<exists>w'. status_mails env s t c w = (Inr (), w') \<and> mailed (if t = Cancelled then told (w_db w) s c else []) w w'"
proof (cases "t = Cancelled")
  case False
  then show ?thesis by (simp add: status_mails_def ret_def mailed_refl [OF calm])
next
  case True
  have to1: "m_to (cancelled_mail env (w_now w) p c) = (if c then pt_user_email p else pt_coach_email p)"
    by (simp add: cancelled_mail_def)
  have to2: "m_to (self_calendar_update env (w_now w) p c) = (if c then pt_coach_email p else pt_user_email p)"
    by (simp add: self_calendar_update_def Let_def)
  obtain w1 where 1: "enqueue (cancelled_mail env (w_now w) p c) w = (Inr (), w1)"
    "mailed [m_to (cancelled_mail env (w_now w) p c)] w w1" by (rule enqueue_mailed [OF calm])
  obtain w2 where 2: "enqueue (self_calendar_update env (w_now w) p c) w1 = (Inr (), w2)"
    "mailed [m_to (self_calendar_update env (w_now w) p c)] w1 w2" by (rule enqueue_mailed [OF mailed_frame(1) [OF 1(2)]])
  show ?thesis
  proof (cases "c \<or> s_status s = Scheduled")
    case True
    with \<open>t = Cancelled\<close> 1(1) 2(1) calm p have "status_mails env s t c w = (Inr (), w2)"
      by (simp add: status_mails_def bindE_def asks_def GetSessionParties_calm)
    with mailed_trans [OF 1(2) 2(2)] True \<open>t = Cancelled\<close> p to1 to2 show ?thesis
      by (auto simp: told_def split: if_splits)
  next
    case False
    with \<open>t = Cancelled\<close> 1(1) calm p have "status_mails env s t c w = (Inr (), w1)"
      by (simp add: status_mails_def bindE_def asks_def GetSessionParties_calm ret_def)
    with 1(2) False \<open>t = Cancelled\<close> p to1 show ?thesis by (auto simp: told_def)
  qed
qed

lemma told_cong:
  assumes "d_users d' = d_users d" "d_coaches d' = d_coaches d"
    and "find (\<lambda>t. s_id t = s_id s) (d_sessions d) = Some s" "find (\<lambda>t. s_id t = s_id s) (d_sessions d') = Some s'"
    and "s_user_id s' = s_user_id s" "s_coach_id s' = s_coach_id s"
  shows "told d' s c = told d s c"
  using assms by (auto simp: told_def parties_of_def split: option.splits)


text \<open>The transaction of a status change, its updated row and its mails.\<close>

lemma set_status_tx_calm:
  assumes calm: "w_sched w = []" and ok: "constraints_ok (w_db w)" "coaches_have_accounts (w_db w)"
    and s: "s \<in> set (d_sessions (w_db w))" and t: "t \<in> status_transitions (s_status s)"
  shows "\<exists>w'. set_status_tx env s t c w = (Inr (session_of env (status_set t (w_dbnow w) s) []), w') \<and>
    d_sessions (w_db w') = update_where (\<lambda>u. s_id u = s_id s) (\<lambda>_. status_set t (w_dbnow w) s) (d_sessions (w_db w)) \<and>
    map e_to (d_outbox (w_db w')) = map e_to (d_outbox (w_db w)) @ (if t = Cancelled then told (w_db w) s c else [])"
proof -
  let ?n = "w_dbnow w" and ?ss = "d_sessions (w_db w)" and ?w = "w\<lparr>w_in_tx := True\<rparr>"
  let ?w1 = "with_sessions (update_where (\<lambda>u. s_id u = s_id s) (status_set t ?n)) ?w" and ?u = "status_set t ?n s"
  have found: "find (\<lambda>t. s_id t = s_id s) ?ss = Some s" by (rule find_id [OF ok(1) s])
  have dist: "distinct (map s_id ?ss)" using ok by (simp add: constraints_ok_iff)
  have final: "t \<notin> {PendingPayment, Pending, Scheduled}" using t by (cases "s_status s") auto
  have g: "gentle (status_set t ?n) s" using gentle_sets(4) [OF final] by simp
  have upd: "UpdateSessionStatus (s_id s) t (s_status s) ?w = (Inr ?u, ?w1)"
    unfolding UpdateSessionStatus_def
    using update_one_calm(1) [of ?w s "\<lambda>_ u. s_status u = s_status s" "status_set t"] calm ok s g by simp
  have ok1: "constraints_ok (w_db ?w1)" by (rule constraints_ok_with_row) (use ok s g in simp_all)
  have acc1: "coaches_have_accounts (w_db ?w1)" using ok(2) by (simp add: coaches_have_accounts_def)
  have u: "?u \<in> set (d_sessions (w_db ?w1))" "s_id ?u = s_id s" "s_user_id ?u = s_user_id s" "s_coach_id ?u = s_coach_id s"
    using s by (auto simp: set_update_where status_set_def)
  from parties_exist [OF ok1 acc1 u(1)] u(2) obtain p where p: "parties_of (s_id s) (w_db ?w1) = Some p" by auto
  have "w_sched ?w1 = []" using calm by simp
  from cancel_mails_calm [OF this p, of env t c] obtain w2 where
    mails: "status_mails env s t c ?w1 = (Inr (), w2)" "mailed (if t = Cancelled then told (w_db ?w1) s c else []) ?w1 w2" by blast
  note frame = mailed_frame [OF mails(2)]
  have tx: "set_status_tx env s t c w = (Inr (session_of env ?u []), w2\<lparr>w_in_tx := w_in_tx w\<rparr>)"
    using calm upd mails(1) frame(1)
    by (simp add: set_status_tx_def transaction_def attempt_def bindE_def commit_def ret_def)
  have "find (\<lambda>v. s_id v = s_id s) (d_sessions (w_db ?w1)) = Some ?u"
    using find_id [OF ok1 u(1)] u(2) by simp
  from told_cong [OF _ _ found this] have told: "told (w_db ?w1) s c = told (w_db w) s c" using u by simp
  show ?thesis
    using tx frame(6) frame(10) [unfolded told] update_where_const [OF dist s] by simp
qed

text \<open>
  C26: What \<open>SetStatus\<close> does.  Without faults it succeeds exactly for the changes a
  participant may make: either party may cancel a session that is not over, only the coach may
  mark a scheduled one completed or missed.  Success changes the one row (an authorised card
  becomes owed for release, an open checkout owed for expiry) and mails the cancellation to
  the other party, and to the one who cancelled when they hold an invite; a refusal changes
  nothing.
\<close>

theorem set_status_effect:
  assumes calm: "w_sched w = []" and ok: "constraints_ok (w_db w)" "coaches_have_accounts (w_db w)"
    and s: "s \<in> set (d_sessions (w_db w))"
    and run: "SetStatus (Suc fuel) env (s_id s) a status w = (res, w')"
  shows "case res of
      Inl e \<Rightarrow> w' = w \<and> e \<in> {ErrForbidden, ErrInvalidInput} \<and> \<not> may_set_status s a status
    | Inr v \<Rightarrow> may_set_status s a status \<and>
        d_sessions (w_db w') = update_where (\<lambda>t. s_id t = s_id s)
          (\<lambda>_. changed_row (the (status_named status)) (w_dbnow w) s) (d_sessions (w_db w)) \<and>
        map e_to (d_outbox (w_db w')) = map e_to (d_outbox (w_db w)) @
          (if status = ''cancelled'' \<and> s_status s \<noteq> PendingPayment then told (w_db w) s (a = s_coach_id s) else [])"
proof -
  let ?n = "w_dbnow w" and ?ss = "d_sessions (w_db w)"
  have found: "find (\<lambda>t. s_id t = s_id s) ?ss = Some s" by (rule find_id [OF ok(1) s])
  have dist: "distinct (map s_id ?ss)" using ok by (simp add: constraints_ok_iff)
  have part: "participant (s_id s) a w = (if a \<in> {s_user_id s, s_coach_id s} then (Inr s, w) else (Inl ErrForbidden, w))"
    using calm found by (simp add: participant_def GetCoachingSession_calm attempt_def throw_def ret_def)
  show ?thesis
  proof (cases "may_set_status s a status")
    case False
    then have "\<exists>e \<in> {ErrForbidden, ErrInvalidInput}. SetStatus (Suc fuel) env (s_id s) a status w = (Inl e, w)"
      unfolding may_set_status_code
      using part by (cases "status_named status") (auto simp: bindE_def throw_def failIf_def)
    with run False show ?thesis by auto
  next
    case True
    then obtain t where a: "a \<in> {s_user_id s, s_coach_id s}" and t: "status_named status = Some t"
      "t \<in> status_transitions (s_status s)" "\<not> (coach_only t \<and> a \<noteq> s_coach_id s)"
      unfolding may_set_status_code by blast
    show ?thesis
    proof (cases "s_status s = PendingPayment")
      case pp: True
      have "ReleasePendingPaymentSession (s_id s) w =
          (Inr (release_hold_set ?n s), with_sessions (update_where (\<lambda>t. s_id t = s_id s) (release_hold_set ?n)) w)"
        unfolding ReleasePendingPaymentSession_def
        using update_one_calm(1) [OF calm ok(1) s, of awaiting_payment release_hold_set] pp
        by (simp add: gentle_sets awaiting_payment_def)
      then have "SetStatus (Suc fuel) env (s_id s) a status w =
          (Inr (session_of env (release_hold_set ?n s) []), with_sessions (update_where (\<lambda>t. s_id t = s_id s) (release_hold_set ?n)) w)"
        using part a t pp by (simp add: bindE_def failIf_def attempt_def ret_def)
      with run True pp t update_where_const [OF dist s] show ?thesis by (auto simp: changed_row_def)
    next
      case False
      have "SetStatus (Suc fuel) env (s_id s) a status w = set_status_tx env s t (a = s_coach_id s) w"
        using part a t False by (cases "coach_only t") (auto simp: bindE_def failIf_def)
      moreover have "(t = Cancelled) = (status = ''cancelled'')" using t(1) unfolding status_named_iff by (cases t) simp_all
      ultimately show ?thesis
        using run set_status_tx_calm [OF calm ok s t(2), of env "a = s_coach_id s"] True False t(1) by (auto simp: changed_row_def)
    qed
  qed
qed

lemma set_status_effect_witness:
  "\<exists>v w'. SetStatus 1 paid_env 7 11 ''cancelled'' pend_world = (Inr v, w') \<and>
     map s_status (d_sessions (w_db w')) = [Cancelled] \<and> length (d_outbox (w_db w')) = 2"
proof -
  have rows: "d_sessions (w_db pend_world) = [pend]" "d_outbox (w_db pend_world) = []" "s_id pend = 7"
    by (simp_all add: pend_world_def world_at_def start_db_def pend_def new_session_def)
  have may: "may_set_status pend 11 ''cancelled''" by code_simp
  obtain res w' where run: "SetStatus (Suc 0) paid_env (s_id pend) 11 ''cancelled'' pend_world = (res, w')" by fastforce
  note effect = set_status_effect [OF pend_world_facts(1-4) run]
  then obtain v where res: "res = Inr v" using may by (cases res) auto
  have facts: "told (w_db pend_world) pend (11 = s_coach_id pend) = [''Bob@mail'', ''Ann@mail'']" "s_status pend \<noteq> PendingPayment"
    "s_status (changed_row (the (status_named ''cancelled'')) (w_dbnow pend_world) pend) = Cancelled" by code_simp+
  from effect have "map e_to (d_outbox (w_db w')) = [''Bob@mail'', ''Ann@mail'']" "map s_status (d_sessions (w_db w')) = [Cancelled]"
    using facts rows by (simp_all add: res)
  then show ?thesis using run res rows map_eq_imp_length_eq by fastforce
qed

lemma set_status_terminates_witness: "fst (SetStatus 1 paid_env 7 11 ''cancelled'' pend_world) \<noteq> Inl OutOfFuel"
  by (rule set_status_terminates) (simp add: pend_world_def world_at_def)

end
