(* ===== verification/Booking_Properties.thy ===== *)
theory Booking_Properties
  imports Session_Properties
begin

text \<open>
  What booking, paid booking and rescheduling do in a run without faults, and two runs that
  show what the code does where its comments promise otherwise.
\<close>

section \<open>Booking\<close>

text \<open>A request that only reads, in a world without faults.\<close>

definition still :: "world \<Rightarrow> world \<Rightarrow> bool" where
  "still w v \<longleftrightarrow> v = w \<and> w_sched w = []"

lemma keeps_still [keeps_intros]: "keeps (still w) (select f)" "keeps (still w) (select_one g)"
  by (auto simp: keeps_def still_def select_calm select_one_calm split: option.splits)

lemma still_run: "keeps (still w) m \<Longrightarrow> w_sched w = [] \<Longrightarrow> m w = (r, w') \<Longrightarrow> w' = w"
  using keepsD [of "still w" m w r w'] by (simp add: still_def)

lemma directory_reads [keeps_intros]:
  "keeps (still w) (GetCoach env c)" "keeps (still w) (ListAvailability c)"
  "keeps (still w) (assertBookable env c t dur acc ex)" "keeps (still w) (participant i u)"
proof -
  show get: "keeps (still w) (GetCoach env c)" for env c
    unfolding GetCoach_def GetCoachQuery_def by (intro keeps_intros)
  show list: "keeps (still w) (ListAvailability c)" for c
    unfolding ListAvailability_def ListCoachAvailability_def by (intro keeps_intros)
  show "keeps (still w) (assertBookable env c t dur acc ex)"
    unfolding assertBookable_def ListBookedSlots_def by (intro keeps_intros get list)
  show "keeps (still w) (participant i u)"
    unfolding participant_def GetCoachingSession_def by (intro keeps_intros)
qed

lemma insert_session_calm:
  assumes "w_sched w = []"
  defines "s mk \<equiv> mk (w_next_id w) (w_dbnow w)"
  shows "insert_session mk w =
    (case sessions_violation (w_db w) (d_sessions (w_db w) @ [s mk]) of
       None \<Rightarrow> (Inr (s mk), (with_sessions (\<lambda>ss. ss @ [s mk]) w)\<lparr>w_next_id := Suc (w_next_id w)\<rparr>)
     | Some v \<Rightarrow> (Inl (ErrSql v), w\<lparr>w_next_id := Suc (w_next_id w)\<rparr>))"
  using assms
  by (simp add: insert_session_def bindE_def fresh_id_def query_calm write_sessions_def Let_def with_sessions_def
      split: option.splits)

lemma ask_coach_calm:
  assumes "w_sched w = []" and "parties_of i (w_db w) = Some p"
  shows "\<exists>w'. ask_coach env i token w = (Inr (), w') \<and> w_sched w' = [] \<and>
    w_db w' = (w_db w)\<lparr>d_outbox := d_outbox (w_db w) @
      [email_of (coach_request env (w_now w) p token False) (w_next_id w) (w_dbnow w),
       email_of (client_requested env p) (Suc (w_next_id w)) (w_dbnow w)]\<rparr>"
  using assms by (simp add: ask_coach_def bindE_def asks_def GetSessionParties_calm enqueue_calm)

text \<open>The request a booking stores: the hash of the token, and the deadline to answer by.\<close>

definition requested_row :: "env \<Rightarrow> world \<Rightarrow> uuid \<Rightarrow> uuid \<Rightarrow> instant \<Rightarrow> int \<Rightarrow> string \<Rightarrow> string \<Rightarrow> session" where
  "requested_row env w u c t dur topic token =
     (new_session u c t dur topic Pending (w_next_id w) (w_dbnow w))
       \<lparr>s_confirmation_token := Some (hash_token env token), s_respond_by := Some (respond_deadline (w_now w) t)\<rparr>"

lemma book_unpaid_effect:
  assumes calm: "w_sched w = []" and ok: "constraints_ok (w_db w)" "coaches_have_accounts (w_db w)"
    and run: "book_unpaid env u c t dur topic w = (res, w')"
  shows "case res of
      Inl e \<Rightarrow> w_db w' = w_db w \<and> (\<forall>token rest. w_random w = token # rest \<longrightarrow>
        sessions_violation (w_db w) (d_sessions (w_db w) @ [requested_row env w u c t dur topic token]) \<noteq> None)
    | Inr v \<Rightarrow> \<exists>token rest p. w_random w = token # rest \<and>
        sessions_violation (w_db w) (d_sessions (w_db w')) = None \<and>
        parties_of (w_next_id w) (w_db w') = Some p \<and>
        w_db w' = (w_db w)
          \<lparr>d_sessions := d_sessions (w_db w) @ [requested_row env w u c t dur topic token],
           d_outbox := d_outbox (w_db w) @
             [email_of (coach_request env (w_now w) p token False) (Suc (w_next_id w)) (w_dbnow w),
              email_of (client_requested env p) (Suc (Suc (w_next_id w))) (w_dbnow w)]\<rparr>"
proof (cases "w_random w")
  case Nil
  with run show ?thesis by (auto simp: book_unpaid_def bindE_def random_token_def)
next
  case (Cons token rest)
  let ?row = "requested_row env w u c t dur topic token"
  let ?w = "w\<lparr>w_random := rest, w_in_tx := True\<rparr>"
  let ?body = "attempt (CreateCoachingSession u c t dur topic (Some (hash_token env token)) (Some (respond_deadline (w_now w) t)))
          (\<lambda>e. throw (slot_error e)) (\<lambda>s. bindE (ask_coach env (s_id s) token) (\<lambda>_. commit (session_of env s [])))"
  have tx: "transaction ?body (w\<lparr>w_random := rest\<rparr>) = (res, w')"
    using run Cons by (simp add: book_unpaid_def bindE_def random_token_def asks_def Let_def)
  have create: "CreateCoachingSession u c t dur topic (Some (hash_token env token)) (Some (respond_deadline (w_now w) t)) ?w =
      (case sessions_violation (w_db w) (d_sessions (w_db w) @ [?row]) of
         None \<Rightarrow> (Inr ?row, (with_sessions (\<lambda>ss. ss @ [?row]) ?w)\<lparr>w_next_id := Suc (w_next_id w)\<rparr>)
       | Some v \<Rightarrow> (Inl (ErrSql v), ?w\<lparr>w_next_id := Suc (w_next_id w)\<rparr>))"
    unfolding CreateCoachingSession_def by (subst insert_session_calm) (simp_all add: calm requested_row_def cong: option.case_cong)
  show ?thesis
  proof (cases "sessions_violation (w_db w) (d_sessions (w_db w) @ [?row])")
    case (Some v)
    with tx create calm Cons show ?thesis by (auto simp: transaction_def attempt_def throw_def)
  next
    case None
    let ?w1 = "(with_sessions (\<lambda>ss. ss @ [?row]) ?w)\<lparr>w_next_id := Suc (w_next_id w)\<rparr>"
    have ok1: "constraints_ok (w_db ?w1)"
      using constraints_ok_write [OF None] by (simp add: with_sessions_def)
    have acc1: "coaches_have_accounts (w_db ?w1)" using ok(2) by (simp add: coaches_have_accounts_def)
    have mem: "?row \<in> set (d_sessions (w_db ?w1))" and id: "s_id ?row = w_next_id w"
      by (simp_all add: requested_row_def new_session_def)
    from parties_exist [OF ok1 acc1 mem] id obtain p where p: "parties_of (w_next_id w) (w_db ?w1) = Some p" by auto
    have calm1: "w_sched ?w1 = []" using calm by simp
    from ask_coach_calm [OF calm1 p, of env token] obtain w2 where
      ask: "ask_coach env (w_next_id w) token ?w1 = (Inr (), w2)" "w_sched w2 = []"
        "w_db w2 = (w_db ?w1)\<lparr>d_outbox := d_outbox (w_db w) @
          [email_of (coach_request env (w_now w) p token False) (Suc (w_next_id w)) (w_dbnow w),
           email_of (client_requested env p) (Suc (Suc (w_next_id w))) (w_dbnow w)]\<rparr>" by auto
    have p2: "parties_of (w_next_id w) (w_db w2) = Some p"
      using p ask(3) by (subst parties_of_cong [of _ "w_db ?w1"]) simp_all
    have "?body ?w = (Inr (True, session_of env ?row []), w2)"
      using create None ask(1) id by (simp add: attempt_def bindE_def commit_def ret_def)
    with tx calm ask(2) have "res = Inr (session_of env ?row [])" "w_db w' = w_db w2"
      by (auto simp: transaction_def)
    with ask(3) p2 None Cons show ?thesis by (simp add: with_sessions_def)
  qed
qed

definition asked_minutes :: "book_input \<Rightarrow> int" where
  "asked_minutes b = (if bi_duration_minutes b \<le> 0 then default_session_minutes else bi_duration_minutes b)"

text \<open>
  C29: What a booking without payment does.  Without faults an error leaves the database as it
  was, and there is none when the request names a coach and a time that is not past, which
  \<open>assertBookable\<close> lets pass, a token can be drawn and no constraint is broken.
  A booking that succeeds named a coach and a time that is not past, which
  \<open>assertBookable\<close> let pass; it adds exactly one pending session that breaks no constraint,
  storing only the hash of a fresh token, and queues the request to the coach, with the
  token, and the receipt to the client.
\<close>

theorem booking_effect:
  assumes calm: "w_sched w = []" and ok: "constraints_ok (w_db w)" "coaches_have_accounts (w_db w)"
    and free: "\<not> payments_enabled env"
    and run: "BookSession env u b w = (res, w')"
  shows "case res of
      Inl e \<Rightarrow> w_db w' = w_db w \<and>
        (\<forall>c t token rest. x_parse_uuid env (bi_coach_id b) = Some c \<and> x_parse_rfc3339 env (bi_scheduled_time b) = Some t \<and>
          w_now w \<le> t \<and>
          assertBookable env c t (asked_minutes b) True None w = (Inr (), w) \<and>
          w_random w = token # rest \<longrightarrow>
          sessions_violation (w_db w) (d_sessions (w_db w) @ [requested_row env w u c t
            (asked_minutes b) (bi_topic b) token]) \<noteq> None)
    | Inr v \<Rightarrow> \<exists>c t token rest p.
        x_parse_uuid env (bi_coach_id b) = Some c \<and> x_parse_rfc3339 env (bi_scheduled_time b) = Some t \<and> w_now w \<le> t \<and>
        assertBookable env c t (asked_minutes b) True None w = (Inr (), w) \<and>
        w_random w = token # rest \<and>
        sessions_violation (w_db w) (d_sessions (w_db w')) = None \<and>
        parties_of (w_next_id w) (w_db w') = Some p \<and>
        w_db w' = (w_db w)
          \<lparr>d_sessions := d_sessions (w_db w) @ [requested_row env w u c t (asked_minutes b) (bi_topic b) token],
           d_outbox := d_outbox (w_db w) @
             [email_of (coach_request env (w_now w) p token False) (Suc (w_next_id w)) (w_dbnow w),
              email_of (client_requested env p) (Suc (Suc (w_next_id w))) (w_dbnow w)]\<rparr>"
proof -
  let ?dur = "asked_minutes b"
  show ?thesis
  proof (cases "x_parse_uuid env (bi_coach_id b)")
    case None
    with run show ?thesis by (auto simp: BookSession_def throw_def)
  next
    case c: (Some c)
    show ?thesis
    proof (cases "x_parse_rfc3339 env (bi_scheduled_time b)")
      case None
      with c run show ?thesis by (auto simp: BookSession_def throw_def)
    next
      case t: (Some t)
      obtain r w1 where ab: "assertBookable env c t ?dur True None w = (r, w1)" by fastforce
      have w1: "w1 = w" by (rule still_run [OF directory_reads(3) calm ab])
      show ?thesis
      proof (cases "t < w_now w \<or> (\<exists>e. r = Inl e)")
        case True
        have "(\<exists>e. res = Inl e) \<and> w' = w"
        proof (cases "t < w_now w")
          case True
          with run c t show ?thesis by (auto simp: BookSession_def bindE_def asks_def failIf_def)
        next
          case False
          with True obtain e where "r = Inl e" by blast
          with run c t ab w1 False show ?thesis
            by (auto simp: BookSession_def bindE_def asks_def failIf_def Let_def asked_minutes_def)
        qed
        with True c t ab show ?thesis by (cases res) auto
      next
        case False
        then obtain x where r: "r = Inr x" and past: "\<not> t < w_now w" by (cases r) auto
        with run c t ab w1 free have "book_unpaid env u c t ?dur (bi_topic b) w = (res, w')"
          by (simp add: BookSession_def bindE_def asks_def failIf_def asked_minutes_def Let_def)
        from book_unpaid_effect [OF calm ok this] show ?thesis
          using c t ab w1 r past by (cases res) simp_all
      qed
    qed
  qed
qed

lemma booking_effect_witness:
  "\<exists>v w'. BookSession free_env 12 booking before = (Inr v, w') \<and> map s_status (d_sessions (w_db w')) = [Pending] \<and>
     map e_to (d_outbox (w_db w')) = [''Ann@mail'', ''Bob@mail'']"
proof -
  have calm: "w_sched before = []" and ok: "constraints_ok (w_db before)" "coaches_have_accounts (w_db before)"
    by (simp, code_simp, code_simp)
  have free: "\<not> payments_enabled free_env" by code_simp
  obtain res w' where run: "BookSession free_env 12 booking before = (res, w')" by fastforce
  note effect = booking_effect [OF calm ok free run]
  have facts: "x_parse_uuid free_env (bi_coach_id booking) = Some 11" "x_parse_rfc3339 free_env (bi_scheduled_time booking) = Some monday_10"
    "w_now before \<le> monday_10" "asked_minutes booking = 45"
    "w_random before = ''tok1'' # [''tok2'']" "d_sessions (w_db before) = []" "d_outbox (w_db before) = []" "w_next_id before = 100"
    "sessions_violation (w_db before) [requested_row free_env before 12 11 monday_10 45 (bi_topic booking) ''tok1''] = None"
    by code_simp+
  have "fst (assertBookable free_env 11 monday_10 45 True None before) = Inr ()" by code_simp
  from fst_run [OF this] still_run [OF directory_reads(3) calm]
  have book: "assertBookable free_env 11 monday_10 45 True None before = (Inr (), before)" by metis
  have "\<exists>v. res = Inr v"
  proof (cases res)
    case (Inl e)
    with effect facts book show ?thesis by simp
  qed simp
  then obtain v where res: "res = Inr v" by blast
  with effect facts obtain p where p: "parties_of 100 (w_db w') = Some p"
    "w_db w' = (w_db before)\<lparr>d_sessions := [requested_row free_env before 12 11 monday_10 45 (bi_topic booking) ''tok1''],
       d_outbox := [email_of (coach_request free_env (w_now before) p ''tok1'' False) 101 (w_dbnow before),
         email_of (client_requested free_env p) 102 (w_dbnow before)]\<rparr>"
    by auto
  have "map_option (\<lambda>p. (pt_coach_email p, pt_user_email p)) (parties_of 100
      ((w_db before)\<lparr>d_sessions := [requested_row free_env before 12 11 monday_10 45 (bi_topic booking) ''tok1'']\<rparr>)) =
      Some (''Ann@mail'', ''Bob@mail'')" by code_simp
  moreover have "parties_of 100 (w_db w') = parties_of 100
      ((w_db before)\<lparr>d_sessions := [requested_row free_env before 12 11 monday_10 45 (bi_topic booking) ''tok1'']\<rparr>)"
    unfolding p(2) by (rule parties_of_cong) simp_all
  ultimately have "pt_coach_email p = ''Ann@mail''" "pt_user_email p = ''Bob@mail''" using p(1) by auto
  then show ?thesis
    using run p(2) by (simp add: res requested_row_def new_session_def email_of_def coach_request_def client_requested_def Let_def)
qed

section \<open>Rescheduling\<close>

text \<open>
  What a move makes of a session: the coach's keeps status, token and deadline; the client's
  turns it back into a request, under a fresh token and deadline.
\<close>

definition moved_row :: "env \<Rightarrow> world \<Rightarrow> uuid \<Rightarrow> instant \<Rightarrow> session \<Rightarrow> session" where
  "moved_row env w a t s =
     (let moved = s\<lparr>s_scheduled_time := t, s_calendar_sequence := s_calendar_sequence s + 1, s_updated_at := w_dbnow w\<rparr>
      in if a = s_coach_id s
         then moved\<lparr>s_confirmed_at := (if s_status s = Scheduled then s_confirmed_at s else None)\<rparr>
         else moved\<lparr>s_status := Pending, s_confirmation_token := Some (hash_token env (hd (w_random w))),
                s_respond_by := Some (respond_deadline (w_now w) t), s_confirmed_at := None\<rparr>)"

definition move_params :: "env \<Rightarrow> world \<Rightarrow> uuid \<Rightarrow> instant \<Rightarrow> session \<Rightarrow> reschedule_params" where
  "move_params env w a t s =
     (if a = s_coach_id s then keep_params s t
      else (keep_params s t)\<lparr>rp_status := Pending, rp_confirmation_token := Some (hash_token env (hd (w_random w))),
             rp_respond_by := Some (respond_deadline (w_now w) t)\<rparr>)"

lemma moved_row_params: "reschedule_set (move_params env w a t s) (w_dbnow w) s = moved_row env w a t s"
  by (simp add: moved_row_def move_params_def reschedule_set_def keep_params_def Let_def)

text \<open>What a request must satisfy to be moved, apart from the constraints.\<close>

definition may_move :: "env \<Rightarrow> world \<Rightarrow> uuid \<Rightarrow> string \<Rightarrow> instant \<Rightarrow> session \<Rightarrow> bool" where
  "may_move env w a raw t s \<longleftrightarrow> x_parse_rfc3339 env raw = Some t \<and> w_now w \<le> t \<and> a \<in> {s_user_id s, s_coach_id s} \<and>
     s_status s \<in> {Pending, Scheduled} \<and> (a = s_coach_id s \<or> w_random w \<noteq> []) \<and>
     assertBookable env (s_coach_id s) t (s_duration_minutes s) False (Some (s_id s)) w = (Inr (), w)"

lemma reschedule_tx_calm:
  assumes calm: "w_sched w = []" and ok: "constraints_ok (w_db w)" "coaches_have_accounts (w_db w)"
    and s: "s \<in> set (d_sessions (w_db w))"
    and p: "rp_id p = s_id s" "rp_expected_status p = s_status s"
    and run: "reschedule_tx env s p c token w = (res, w')"
  defines "rows \<equiv> update_where (\<lambda>t. s_id t = s_id s) (\<lambda>_. reschedule_set p (w_dbnow w) s) (d_sessions (w_db w))"
  shows "case res of
      Inl e \<Rightarrow> w_db w' = w_db w \<and> sessions_violation (w_db w) rows \<noteq> None
    | Inr v \<Rightarrow> sessions_violation (w_db w) rows = None \<and> d_sessions (w_db w') = rows \<and>
        (\<exists>q. parties_of (s_id s) (w_db w') = Some q \<and>
          map e_to (d_outbox (w_db w')) = map e_to (d_outbox (w_db w)) @
            (if c then [pt_user_email q, pt_coach_email q] else [pt_coach_email q]))"
proof -
  let ?n = "w_dbnow w" and ?ss = "d_sessions (w_db w)" and ?w = "w\<lparr>w_in_tx := True\<rparr>"
  let ?p = "by_id (rp_id p) (\<lambda>_ s. s_status s = rp_expected_status p)" and ?f = "reschedule_set p"
  have dist: "distinct (map s_id ?ss)" using ok by (simp add: constraints_ok_iff)
  have rows: "update_where (?p ?n) (?f ?n) ?ss = rows"
    using update_by_id [OF dist s, of "\<lambda>_ u. s_status u = s_status s" ?n "?f ?n"] update_where_const [OF dist s, of "?f ?n"]
    by (simp add: p rows_def)
  have upd: "RescheduleSession p ?w =
      (case sessions_violation (w_db w) rows of
         None \<Rightarrow> (Inr (?f ?n s), with_sessions (\<lambda>_. rows) ?w) | Some v \<Rightarrow> (Inl (ErrSql v), ?w))"
    using calm rows filter_by_id [OF dist s, of "\<lambda>_ u. s_status u = s_status s" ?n] p
    by (simp add: RescheduleSession_def update_one_def update_sessions_def bindE_def query_calm write_sessions_def Let_def
        with_sessions_def ret_def split: option.splits)
  show ?thesis
  proof (cases "sessions_violation (w_db w) rows")
    case (Some v)
    with run upd calm show ?thesis
      by (auto simp: reschedule_tx_def transaction_def attempt_def throw_def)
  next
    case None
    let ?w1 = "with_sessions (\<lambda>_. rows) ?w"
    have ok1: "constraints_ok (w_db ?w1)" using constraints_ok_write [OF None] by (simp add: with_sessions_def)
    have acc1: "coaches_have_accounts (w_db ?w1)" using ok(2) by (simp add: coaches_have_accounts_def)
    have u: "?f ?n s \<in> set (d_sessions (w_db ?w1))" "s_id (?f ?n s) = s_id s"
      using s by (auto simp: rows_def set_update_where reschedule_set_def)
    from parties_exist [OF ok1 acc1 u(1)] u(2) obtain q where q: "parties_of (s_id s) (w_db ?w1) = Some q" by auto
    have calm1: "w_sched ?w1 = []" using calm by simp
    define m1 where "m1 = (if c then coach_rescheduled env (w_now w) q else coach_request env (w_now w) q token True)"
    obtain w2 where 2: "enqueue m1 ?w1 = (Inr (), w2)" "mailed [m_to m1] ?w1 w2" by (rule enqueue_mailed [OF calm1])
    obtain w3 where 3: "enqueue (self_calendar_update env (w_now w) q True) w2 = (Inr (), w3)"
      "mailed [m_to (self_calendar_update env (w_now w) q True)] w2 w3" by (rule enqueue_mailed [OF mailed_frame(1) [OF 2(2)]])
    let ?w4 = "if c then w3 else w2"
    have to: "m_to m1 = (if c then pt_user_email q else pt_coach_email q)" "m_to (self_calendar_update env (w_now w) q True) = pt_coach_email q"
      by (simp_all add: m1_def coach_rescheduled_def coach_request_def self_calendar_update_def Let_def)
    have 4: "mailed (if c then [pt_user_email q, pt_coach_email q] else [pt_coach_email q]) ?w1 ?w4"
      using mailed_trans [OF 2(2) 3(2)] 2(2) to by (cases c) simp_all
    note frame = mailed_frame [OF 4]
    have "reschedule_tx env s p c token w = (Inr (session_of env (?f ?n s) []), ?w4\<lparr>w_in_tx := w_in_tx w\<rparr>)"
      using calm upd None q 2(1) 3(1) frame(1)
      by (cases c) (simp_all add: reschedule_tx_def transaction_def attempt_def bindE_def asks_def GetSessionParties_calm
          commit_def ret_def m1_def)
    with run have res: "res = Inr (session_of env (?f ?n s) [])" "w' = ?w4\<lparr>w_in_tx := w_in_tx w\<rparr>" by simp_all
    have "parties_of (s_id s) (w_db w') = Some q" using frame(9) q by (simp add: res)
    moreover have "map e_to (d_outbox (w_db w')) = map e_to (d_outbox (w_db w)) @
            (if c then [pt_user_email q, pt_coach_email q] else [pt_coach_email q])"
      using frame(10) by (simp add: res)
    ultimately show ?thesis using None frame(6) by (auto simp: res)
  qed
qed

lemma reschedule_effect_calm:
  assumes calm: "w_sched w = []" and ok: "constraints_ok (w_db w)" "coaches_have_accounts (w_db w)"
    and s: "s \<in> set (d_sessions (w_db w))"
    and run: "Reschedule env (s_id s) a raw w = (res, w')"
  shows "case res of
      Inl e \<Rightarrow> w_db w' = w_db w \<and> (\<forall>t. may_move env w a raw t s \<longrightarrow>
        sessions_violation (w_db w) (update_where (\<lambda>u. s_id u = s_id s) (\<lambda>_. moved_row env w a t s) (d_sessions (w_db w))) \<noteq> None)
    | Inr v \<Rightarrow> \<exists>t q. may_move env w a raw t s \<and> sessions_violation (w_db w) (d_sessions (w_db w')) = None \<and>
        d_sessions (w_db w') = update_where (\<lambda>u. s_id u = s_id s) (\<lambda>_. moved_row env w a t s) (d_sessions (w_db w)) \<and>
        parties_of (s_id s) (w_db w') = Some q \<and>
        map e_to (d_outbox (w_db w')) = map e_to (d_outbox (w_db w)) @
          (if a = s_coach_id s then [pt_user_email q, pt_coach_email q] else [pt_coach_email q])"
proof (cases "\<exists>t. may_move env w a raw t s")
  case False
  have found: "find (\<lambda>t. s_id t = s_id s) (d_sessions (w_db w)) = Some s" by (rule find_id [OF ok(1) s])
  have part: "participant (s_id s) a w = (if a \<in> {s_user_id s, s_coach_id s} then (Inr s, w) else (Inl ErrForbidden, w))"
    using calm found by (simp add: participant_def GetCoachingSession_calm attempt_def throw_def ret_def)
  have "\<exists>e. Reschedule env (s_id s) a raw w = (Inl e, w)"
  proof (cases "x_parse_rfc3339 env raw")
    case None
    then show ?thesis by (simp add: Reschedule_def throw_def)
  next
    case (Some t)
    obtain r w1 where ab: "assertBookable env (s_coach_id s) t (s_duration_minutes s) False (Some (s_id s)) w = (r, w1)" by fastforce
    with still_run [OF directory_reads(3) calm ab] have w1: "w1 = w" by simp
    show ?thesis
    proof (cases r)
      case (Inl e)
      with Some part ab w1 show ?thesis by (auto simp: Reschedule_def bindE_def asks_def failIf_def)
    next
      case (Inr x)
      with False Some part ab w1 show ?thesis
        by (auto simp: Reschedule_def bindE_def asks_def failIf_def may_move_def random_token_def)
    qed
  qed
  with run False show ?thesis by auto
next
  case True
  then obtain t where may: "may_move env w a raw t s" by blast
  have only: "t' = t" if "may_move env w a raw t' s" for t'
    using that may by (simp add: may_move_def)
  have found: "find (\<lambda>t. s_id t = s_id s) (d_sessions (w_db w)) = Some s" by (rule find_id [OF ok(1) s])
  have part: "participant (s_id s) a w = (Inr s, w)"
    using calm found may by (auto simp: participant_def GetCoachingSession_calm attempt_def ret_def may_move_def)
  let ?w = "w\<lparr>w_random := (if a = s_coach_id s then w_random w else tl (w_random w))\<rparr>"
  let ?p = "move_params env w a t s" and ?token = "if a = s_coach_id s then [] else hd (w_random w)"
  have same: "w\<lparr>w_random := w_random w\<rparr> = w" by simp
  have "reschedule_tx env s ?p (a = s_coach_id s) ?token ?w = (res, w')"
    using run may part same
    by (auto simp: Reschedule_def bindE_def asks_def failIf_def may_move_def random_token_def move_params_def
        split: list.splits if_splits)
  moreover have w: "w_sched ?w = []" "constraints_ok (w_db ?w)" "coaches_have_accounts (w_db ?w)" "s \<in> set (d_sessions (w_db ?w))"
    using calm ok s by simp_all
  moreover have p: "rp_id ?p = s_id s" "rp_expected_status ?p = s_status s"
    by (simp_all add: move_params_def keep_params_def)
  ultimately have eff: "case res of
      Inl e \<Rightarrow> w_db w' = w_db w \<and> sessions_violation (w_db w)
        (update_where (\<lambda>t. s_id t = s_id s) (\<lambda>_. moved_row env w a t s) (d_sessions (w_db w))) \<noteq> None
    | Inr v \<Rightarrow> sessions_violation (w_db w)
        (update_where (\<lambda>t. s_id t = s_id s) (\<lambda>_. moved_row env w a t s) (d_sessions (w_db w))) = None \<and>
        d_sessions (w_db w') = update_where (\<lambda>t. s_id t = s_id s) (\<lambda>_. moved_row env w a t s) (d_sessions (w_db w)) \<and>
        (\<exists>q. parties_of (s_id s) (w_db w') = Some q \<and>
          map e_to (d_outbox (w_db w')) = map e_to (d_outbox (w_db w)) @
            (if a = s_coach_id s then [pt_user_email q, pt_coach_email q] else [pt_coach_email q]))"
    using reschedule_tx_calm [of ?w s ?p env "a = s_coach_id s" ?token res w'] moved_row_params [of env w a t s]
    by (cases res) simp_all
  show ?thesis
  proof (cases res)
    case (Inl e)
    with eff only show ?thesis by auto
  next
    case (Inr v)
    with eff may show ?thesis by auto
  qed
qed

text \<open>
  C28: What a move does.  Without faults it succeeds exactly when a participant names a time that
  is not past and that \<open>assertBookable\<close> allows, for a pending or scheduled session, and the
  moved row breaks no constraint.  The coach's move keeps status, token and deadline and
  mails both; the client's asks the coach to confirm again, under a fresh token.  A refusal
  leaves the database as it was.
\<close>

theorem reschedule_effect:
  assumes calm: "w_sched w = []" and ok: "constraints_ok (w_db w)" "coaches_have_accounts (w_db w)"
    and s: "s \<in> set (d_sessions (w_db w))"
    and run: "Reschedule env (s_id s) a raw w = (res, w')"
  shows "case res of
      Inl e \<Rightarrow> w_db w' = w_db w \<and> (\<forall>t. may_move env w a raw t s \<longrightarrow>
        sessions_violation (w_db w) (update_where (\<lambda>u. s_id u = s_id s) (\<lambda>_. moved_row env w a t s) (d_sessions (w_db w))) \<noteq> None)
    | Inr v \<Rightarrow> \<exists>t q. may_move env w a raw t s \<and> sessions_violation (w_db w) (d_sessions (w_db w')) = None \<and>
        d_sessions (w_db w') = update_where (\<lambda>u. s_id u = s_id s) (\<lambda>_. moved_row env w a t s) (d_sessions (w_db w)) \<and>
        parties_of (s_id s) (w_db w') = Some q \<and>
        map e_to (d_outbox (w_db w')) = map e_to (d_outbox (w_db w)) @
          (if a = s_coach_id s then [pt_user_email q, pt_coach_email q] else [pt_coach_email q])"
  using reschedule_effect_calm [OF assms] .

definition next_week :: session where
  "next_week = (new_session 12 11 (monday_10 + hours 168) 45 [] Pending 7 0)
     \<lparr>s_confirmation_token := Some ''htok'', s_respond_by := Some monday_14\<rparr>"

definition next_week_world :: world where
  "next_week_world = world_at (start_db\<lparr>d_sessions := [next_week]\<rparr>) [] monday_8 100"

lemma next_week_facts:
  "w_sched next_week_world = []" "constraints_ok (w_db next_week_world)" "coaches_have_accounts (w_db next_week_world)"
  "d_sessions (w_db next_week_world) = [next_week]" "d_outbox (w_db next_week_world) = []"
  "next_week \<in> set (d_sessions (w_db next_week_world))" "s_id next_week = 7" "s_coach_id next_week = 11"
  by (code_simp, code_simp, code_simp) (simp_all add: next_week_world_def world_at_def start_db_def next_week_def new_session_def)

lemma next_week_may_move: "a \<in> {11, 12} \<Longrightarrow> may_move free_env next_week_world a ''mon10'' t next_week \<longleftrightarrow> t = monday_10"
proof -
  assume a: "a \<in> {11, 12}"
  have "fst (assertBookable free_env 11 monday_10 45 False (Some 7) next_week_world) = Inr ()" by code_simp
  from fst_run [OF this] still_run [OF directory_reads(3) next_week_facts(1)]
  have "assertBookable free_env 11 monday_10 45 False (Some 7) next_week_world = (Inr (), next_week_world)" by metis
  moreover have "x_parse_rfc3339 free_env ''mon10'' = Some monday_10" "w_now next_week_world \<le> monday_10"
    "s_id next_week = 7" "s_coach_id next_week = 11" "s_user_id next_week = 12" "s_duration_minutes next_week = 45"
    "s_status next_week = Pending" "w_random next_week_world = [''tok1'', ''tok2'']" by code_simp+
  ultimately show ?thesis using a by (auto simp: may_move_def)
qed

lemma next_week_moves:
  assumes a: "a \<in> {11, 12}"
  obtains v w' q where "Reschedule free_env 7 a ''mon10'' next_week_world = (Inr v, w')"
    "d_sessions (w_db w') = [moved_row free_env next_week_world a monday_10 next_week]"
proof -
  obtain res w' where run: "Reschedule free_env (s_id next_week) a ''mon10'' next_week_world = (res, w')" by fastforce
  note effect = reschedule_effect_calm [OF next_week_facts(1-3,6) run]
  have fits: "sessions_violation (w_db next_week_world) [moved_row free_env next_week_world 11 monday_10 next_week] = None"
    "sessions_violation (w_db next_week_world) [moved_row free_env next_week_world 12 monday_10 next_week] = None" by code_simp+
  show ?thesis
  proof (cases res)
    case (Inl e)
    with effect a fits next_week_may_move [OF a] next_week_facts show ?thesis by auto
  next
    case (Inr v)
    with effect run that next_week_may_move [OF a] next_week_facts show ?thesis by auto
  qed
qed

lemma reschedule_effect_witness:
  "\<exists>v w'. Reschedule free_env 7 12 ''mon10'' next_week_world = (Inr v, w') \<and>
     map s_confirmation_token (d_sessions (w_db w')) = [Some ''htok1''] \<and> length (d_outbox (w_db w')) = 1"
proof -
  obtain v w' where run: "Reschedule free_env 7 12 ''mon10'' next_week_world = (Inr v, w')"
    by (rule next_week_moves [of 12]) simp_all
  from reschedule_effect [OF next_week_facts(1-3,6), of free_env 12 "''mon10''" "Inr v" w'] run next_week_facts
  obtain t where t: "may_move free_env next_week_world 12 ''mon10'' t next_week"
    "d_sessions (w_db w') = [moved_row free_env next_week_world 12 t next_week]"
    "length (map e_to (d_outbox (w_db w'))) = 1" by auto
  have "s_confirmation_token (moved_row free_env next_week_world 12 monday_10 next_week) = Some ''htok1''" by code_simp
  with t next_week_may_move [of 12 t] run show ?thesis by auto
qed

text \<open>
  A coach who moves a request to an earlier time leaves its deadline where it was: the request
  for next Monday, to be answered by two in the afternoon, is moved to ten this morning and
  can still be confirmed four hours after the session began.
\<close>

theorem moved_request_outlives_start:
  "\<exists>v w' s. Reschedule free_env 7 11 ''mon10'' next_week_world = (Inr v, w') \<and> d_sessions (w_db w') = [s] \<and>
     s_scheduled_time s = monday_10 \<and> answerable (monday_10 + hours 4) s"
proof -
  obtain v w' where "Reschedule free_env 7 11 ''mon10'' next_week_world = (Inr v, w')"
    "d_sessions (w_db w') = [moved_row free_env next_week_world 11 monday_10 next_week]"
    by (rule next_week_moves [of 11]) simp_all
  moreover have "s_scheduled_time (moved_row free_env next_week_world 11 monday_10 next_week) = monday_10"
    "answerable (monday_10 + hours 4) (moved_row free_env next_week_world 11 monday_10 next_week)" by code_simp+
  ultimately show ?thesis by blast
qed

section \<open>Paid bookings\<close>

text \<open>
  When the reference of the checkout cannot be stored, the hold is not given back, although
  the code means to: the session variable has been overwritten by then.
\<close>

theorem attach_failure_keeps_hold:
  "let (r, w') = BookSession paid_env 12 booking (world_at start_db [Ok, Ok, Ok, Ok, Ok, Ok, Fault] monday_8 100)
   in r = Inl ErrDriver \<and> map s_status (d_sessions (w_db w')) = [PendingPayment] \<and>
      map s_payment_ref (d_sessions (w_db w')) = [None] \<and> length (w_calls w') = 2"
  by code_simp

text \<open>The row a paid booking holds its slot with while the client is at the checkout.\<close>

definition held_row :: "env \<Rightarrow> world \<Rightarrow> uuid \<Rightarrow> uuid \<Rightarrow> instant \<Rightarrow> int \<Rightarrow> string \<Rightarrow> int \<Rightarrow> session" where
  "held_row env w u c t dur topic amount =
     (new_session u c t dur topic PendingPayment (w_next_id w) (w_dbnow w))
       \<lparr>s_payment_status := PayPending, s_amount_cents := amount, s_currency := ''usd'',
        s_hold_expires_at := Some (min t (w_now w + x_hold_ttl env))\<rparr>"

lemma hold_until_min: "hold_until env now t = min t (now + x_hold_ttl env)"
  by (simp add: hold_until_def min_def)

lemma last_row_update:
  assumes "distinct (map s_id (ss @ [r]))"
  shows "update_where (by_id (s_id r) p now) f (ss @ [r]) = ss @ [if p now r then f r else r]"
proof -
  have "s_id s \<noteq> s_id r" if "s \<in> set ss" for s using assms that by (auto simp: image_iff)
  then have "update_where (by_id (s_id r) p now) f ss = ss"
    by (induction ss) (auto simp: by_id_def)
  then show ?thesis by (simp add: update_where_def by_id_def)
qed

lemma last_row_filter:
  assumes "distinct (map s_id (ss @ [r]))"
  shows "filter (by_id (s_id r) p now) (ss @ [r]) = (if p now r then [r] else [])"
proof -
  have "s_id s \<noteq> s_id r" if "s \<in> set ss" for s using assms that by (auto simp: image_iff)
  then have "filter (by_id (s_id r) p now) ss = []" by (auto simp: filter_empty_conv by_id_def)
  then show ?thesis by (simp add: by_id_def)
qed

lemma present_append [simp]: "present k (rs @ qs) = present k rs @ present k qs"
  by (induction rs) (simp_all split: option.splits)

lemma violation_cong:
  "d_users d' = d_users d \<Longrightarrow> d_coaches d' = d_coaches d \<Longrightarrow> sessions_violation d' ss = sessions_violation d ss"
  by (simp add: sessions_violation_def)

lemma violation_ids: "sessions_violation d ss = None \<Longrightarrow> distinct (map s_id ss)"
  by (auto simp only: sessions_violation_def split: if_splits)

lemma attach_fits:
  assumes "sessions_violation d (ss @ [r]) = None" and "s_payment_ref r = None" and "ref \<notin> set (present s_payment_ref ss)"
  shows "sessions_violation d (ss @ [attach_set ref now r]) = None"
  using assms
  by (simp add: sessions_violation_def session_checks_def no_overlap_def sorted_wrt_append clash_def holds_slot_def
      session_end_def attach_set_def split: if_splits)

lemma cancelled_fits:
  assumes "sessions_violation d (ss @ [r]) = None"
  shows "sessions_violation d (ss @ [cancel_hold_set now r]) = None"
  using assms
  by (simp add: sessions_violation_def session_checks_def no_overlap_def sorted_wrt_append clash_def holds_slot_def
      session_end_def cancel_hold_set_def split: if_splits)

lemma update_last_calm:
  assumes calm: "w_sched w = []" and rows: "d_sessions (w_db w) = ss @ [r]" and dist: "distinct (map s_id (ss @ [r]))"
    and p: "p (w_dbnow w) r" and fits: "sessions_violation (w_db w) (ss @ [f (w_dbnow w) r]) = None"
  shows "update_one (by_id (s_id r) p) f w = (Inr (f (w_dbnow w) r), with_sessions (\<lambda>_. ss @ [f (w_dbnow w) r]) w)"
    and "update_count (by_id (s_id r) p) f w = (Inr 1, with_sessions (\<lambda>_. ss @ [f (w_dbnow w) r]) w)"
proof -
  have "update_sessions (by_id (s_id r) p) f w = (Inr [f (w_dbnow w) r], with_sessions (\<lambda>_. ss @ [f (w_dbnow w) r]) w)"
    using calm p fits last_row_update [OF dist, of p "w_dbnow w" "f (w_dbnow w)"] last_row_filter [OF dist, of p "w_dbnow w"]
    by (simp add: update_sessions_def query_calm write_sessions_def Let_def rows with_sessions_def)
  then show "update_one (by_id (s_id r) p) f w = (Inr (f (w_dbnow w) r), with_sessions (\<lambda>_. ss @ [f (w_dbnow w) r]) w)"
    "update_count (by_id (s_id r) p) f w = (Inr 1, with_sessions (\<lambda>_. ss @ [f (w_dbnow w) r]) w)"
    by (simp_all add: update_one_def update_count_def bindE_def ret_def)
qed

definition paid_checkout :: "env \<Rightarrow> world \<Rightarrow> uuid \<Rightarrow> uuid \<Rightarrow> instant \<Rightarrow> int \<Rightarrow> string \<Rightarrow> coach_row \<Rightarrow> user \<Rightarrow> checkout_input" where
  "paid_checkout env w u c t dur topic k usr =
     checkout_for env (held_row env w u c t dur topic (price_cents (c_hourly_rate_cents (k_coach k)) dur))
       (price_cents (c_hourly_rate_cents (k_coach k)) dur) dur (k_display_name k) (u_email usr)
       (min t (w_now w + x_hold_ttl env))"

text \<open>What happens once the coach and the client are known and the hold fits.\<close>

lemma bookPaid_steps:
  fixes t :: instant and dur :: int and topic :: string and env :: env
  assumes calm: "w_sched w = []" and ok: "constraints_ok (w_db w)"
    and k: "coach_lookup c (w_db w) = Some k" and usr: "find (\<lambda>x. u_id x = u \<and> live x) (d_users (w_db w)) = Some usr"
  defines "amount \<equiv> price_cents (c_hourly_rate_cents (k_coach k)) dur"
  defines "row \<equiv> held_row env w u c t dur topic amount"
  shows "bookPaid env u c t dur topic w =
     (if amount < 0 \<or> max_int32 < amount \<or> t - w_now w < min_checkout_window then (Inl ErrInvalidInput, w)
      else case sessions_violation (w_db w) (d_sessions (w_db w) @ [row]) of
        Some v \<Rightarrow> (Inl (slot_error (ErrSql v)), w\<lparr>w_next_id := Suc (w_next_id w)\<rparr>)
      | None \<Rightarrow> start_checkout env row (paid_checkout env w u c t dur topic k usr)
          ((with_sessions (\<lambda>ss. ss @ [row]) w)\<lparr>w_next_id := Suc (w_next_id w)\<rparr>))"
proof -
  have create: "CreatePendingPaymentSession u c t dur topic amount ''usd'' (Some (min t (w_now w + x_hold_ttl env))) w =
      (case sessions_violation (w_db w) (d_sessions (w_db w) @ [row]) of
         None \<Rightarrow> (Inr row, (with_sessions (\<lambda>ss. ss @ [row]) w)\<lparr>w_next_id := Suc (w_next_id w)\<rparr>)
       | Some v \<Rightarrow> (Inl (ErrSql v), w\<lparr>w_next_id := Suc (w_next_id w)\<rparr>))"
    unfolding CreatePendingPaymentSession_def
    by (subst insert_session_calm) (simp_all add: calm row_def held_row_def cong: option.case_cong)
  show ?thesis
    using calm k usr create
    by (auto simp: bookPaid_def GetCoachQuery_def GetUserByID_def select_one_calm bindE_def asks_def failIf_def
        attempt_def throw_def Let_def hold_until_min paid_checkout_def amount_def row_def split: option.splits)
qed

lemma start_checkout_calm:
  assumes calm: "w_sched w = []" and rows: "d_sessions (w_db w) = ss @ [r]" and dist: "distinct (map s_id (ss @ [r]))"
    and fits: "sessions_violation (w_db w) (ss @ [r]) = None"
    and r: "s_status r = PendingPayment" "s_payment_ref r = None"
    and fresh: "\<And>co. p_create_checkout (x_provider env) (w_calls w) input = Inr co \<Longrightarrow>
      co_ref co \<notin> set (present s_payment_ref ss)"
    and run: "start_checkout env r input w = (res, w')"
  shows "case p_create_checkout (x_provider env) (w_calls w) input of
      Inl e \<Rightarrow> res = Inl ErrPayment \<and> d_sessions (w_db w') = ss @ [cancel_hold_set (w_dbnow w) r]
    | Inr co \<Rightarrow> res = Inr ((session_of env (attach_set (co_ref co) (w_dbnow w) r) [])\<lparr>sv_checkout_url := co_url co\<rparr>) \<and>
        d_sessions (w_db w') = ss @ [attach_set (co_ref co) (w_dbnow w) r]"
    and "w_calls w' = w_calls w @ [CallCreateCheckout input]"
proof -
  let ?w = "w\<lparr>w_calls := w_calls w @ [CallCreateCheckout input]\<rparr>"
  have calm1: "w_sched ?w = []" and rows1: "d_sessions (w_db ?w) = ss @ [r]" using calm rows by simp_all
  have "case p_create_checkout (x_provider env) (w_calls w) input of
      Inl e \<Rightarrow> res = Inl ErrPayment \<and> w' = with_sessions (\<lambda>_. ss @ [cancel_hold_set (w_dbnow w) r]) ?w
    | Inr co \<Rightarrow> res = Inr ((session_of env (attach_set (co_ref co) (w_dbnow w) r) [])\<lparr>sv_checkout_url := co_url co\<rparr>) \<and>
        w' = with_sessions (\<lambda>_. ss @ [attach_set (co_ref co) (w_dbnow w) r]) ?w"
  proof (cases "p_create_checkout (x_provider env) (w_calls w) input")
    case (Inl e)
    have "CancelPendingPaymentSession (s_id r) ?w = (Inr 1, with_sessions (\<lambda>_. ss @ [cancel_hold_set (w_dbnow w) r]) ?w)"
      unfolding CancelPendingPaymentSession_def
      using update_last_calm(2) [OF calm1 rows1 dist, of awaiting_payment cancel_hold_set] r cancelled_fits [OF fits]
      by (simp add: awaiting_payment_def)
    with run Inl show ?thesis
      by (simp add: start_checkout_def attempt_def provider_call_def bindE_def throw_def Let_def)
  next
    case (Inr co)
    have "AttachCheckout (s_id r) (co_ref co) ?w =
        (Inr (attach_set (co_ref co) (w_dbnow w) r), with_sessions (\<lambda>_. ss @ [attach_set (co_ref co) (w_dbnow w) r]) ?w)"
      unfolding AttachCheckout_def
      using update_last_calm(1) [OF calm1 rows1 dist, of "\<lambda>_ _. True" "attach_set (co_ref co)"]
        attach_fits [OF fits r(2) fresh [OF Inr]] by simp
    with run Inr r show ?thesis
      by (simp add: start_checkout_def attempt_def provider_call_def ret_def Let_def attach_set_def)
  qed
  then show "case p_create_checkout (x_provider env) (w_calls w) input of
      Inl e \<Rightarrow> res = Inl ErrPayment \<and> d_sessions (w_db w') = ss @ [cancel_hold_set (w_dbnow w) r]
    | Inr co \<Rightarrow> res = Inr ((session_of env (attach_set (co_ref co) (w_dbnow w) r) [])\<lparr>sv_checkout_url := co_url co\<rparr>) \<and>
        d_sessions (w_db w') = ss @ [attach_set (co_ref co) (w_dbnow w) r]"
    and "w_calls w' = w_calls w @ [CallCreateCheckout input]"
    by (auto split: sum.splits)
qed

text \<open>A hold that fits: what the provider's answer makes of it.\<close>

lemma fitting_hold_effect:
  assumes calm: "w_sched w = []" and ok: "constraints_ok (w_db w)"
    and fresh: "\<And>co. p_create_checkout (x_provider env) (w_calls w) (paid_checkout env w u c t dur topic k usr) = Inr co \<Longrightarrow>
      co_ref co \<notin> set (present s_payment_ref (d_sessions (w_db w)))"
    and run: "bookPaid env u c t dur topic w = (res, w')"
    and k: "coach_lookup c (w_db w) = Some k" and usr: "find (\<lambda>x. u_id x = u \<and> live x) (d_users (w_db w)) = Some usr"
  defines "amount \<equiv> price_cents (c_hourly_rate_cents (k_coach k)) dur"
  defines "row \<equiv> held_row env w u c t dur topic amount"
  assumes price: "0 \<le> amount" "amount \<le> max_int32" "min_checkout_window \<le> t - w_now w"
    and fit: "sessions_violation (w_db w) (d_sessions (w_db w) @ [row]) = None"
  shows "case p_create_checkout (x_provider env) (w_calls w) (paid_checkout env w u c t dur topic k usr) of
      Inl e \<Rightarrow> res = Inl ErrPayment \<and> d_sessions (w_db w') = d_sessions (w_db w) @ [cancel_hold_set (w_dbnow w) row]
    | Inr co \<Rightarrow> (\<exists>v. res = Inr v \<and> sv_checkout_url v = co_url co) \<and>
        d_sessions (w_db w') = d_sessions (w_db w) @ [row\<lparr>s_payment_ref := Some (co_ref co)\<rparr>]"
    and "w_calls w' = w_calls w @ [CallCreateCheckout (paid_checkout env w u c t dur topic k usr)]"
proof -
  let ?ss = "d_sessions (w_db w)" and ?input = "paid_checkout env w u c t dur topic k usr"
  let ?w1 = "(with_sessions (\<lambda>ss. ss @ [row]) w)\<lparr>w_next_id := Suc (w_next_id w)\<rparr>"
  have start: "start_checkout env row ?input ?w1 = (res, w')"
    using run bookPaid_steps [OF calm ok k usr, where env = env and t = t and dur = dur and topic = topic] price fit
    by (simp add: amount_def row_def)
  have calm1: "w_sched ?w1 = []" and rows1: "d_sessions (w_db ?w1) = ?ss @ [row]" using calm by simp_all
  have fits: "sessions_violation (w_db ?w1) (?ss @ [row]) = None"
    using fit violation_cong [of "w_db ?w1" "w_db w" "?ss @ [row]"] by simp
  then have dist: "distinct (map s_id (?ss @ [row]))" by (rule violation_ids)
  have r: "s_status row = PendingPayment" "s_payment_ref row = None" by (simp_all add: row_def held_row_def new_session_def)
  have fresh1: "co_ref co \<notin> set (present s_payment_ref ?ss)"
    if "p_create_checkout (x_provider env) (w_calls ?w1) ?input = Inr co" for co
    using that fresh by simp
  have "attach_set ref (w_dbnow w) row = row\<lparr>s_payment_ref := Some ref\<rparr>" for ref
    by (simp add: row_def attach_set_def held_row_def new_session_def)
  with start_checkout_calm [OF calm1 rows1 dist fits r fresh1 start]
  show "case p_create_checkout (x_provider env) (w_calls w) ?input of
      Inl e \<Rightarrow> res = Inl ErrPayment \<and> d_sessions (w_db w') = ?ss @ [cancel_hold_set (w_dbnow w) row]
    | Inr co \<Rightarrow> (\<exists>v. res = Inr v \<and> sv_checkout_url v = co_url co) \<and> d_sessions (w_db w') = ?ss @ [row\<lparr>s_payment_ref := Some (co_ref co)\<rparr>]"
    and "w_calls w' = w_calls w @ [CallCreateCheckout ?input]"
    by (auto split: sum.splits)
qed

text \<open>
  C27: What a paid booking does.  Without faults, and with a provider that does not reuse a
  checkout reference, it ends in one of three ways.  It is refused with nothing changed and no
  call to the provider.  The provider refuses the one checkout it is asked for, and the slot held
  for it is free again.  Or the provider creates that checkout, and there is one more session,
  waiting for payment under the reference the provider answered, whose price is the coach's rate
  for the length, within 32 bits, and whose hold ends by the start; the client is sent to the
  address the provider answered.
\<close>

theorem paid_booking_effect:
  assumes calm: "w_sched w = []" and ok: "constraints_ok (w_db w)"
    and fresh: "\<And>input co. p_create_checkout (x_provider env) (w_calls w) input = Inr co \<Longrightarrow>
      co_ref co \<notin> set (present s_payment_ref (d_sessions (w_db w)))"
    and run: "bookPaid env u c t dur topic w = (res, w')"
  shows "case res of
      Inl e \<Rightarrow> w_db w' = w_db w \<and> w_calls w' = w_calls w \<or>
        e = ErrPayment \<and> (\<exists>input refused row. p_create_checkout (x_provider env) (w_calls w) input = Inl refused \<and>
          w_calls w' = w_calls w @ [CallCreateCheckout input] \<and> ci_session_id input = x_uuid_text env (s_id row) \<and>
          d_sessions (w_db w') = d_sessions (w_db w) @ [row] \<and> \<not> holds_slot row \<and> s_payment_status row = PayFailed)
    | Inr v \<Rightarrow> \<exists>k co amount row input. coach_lookup c (w_db w) = Some k \<and> amount = price_cents (c_hourly_rate_cents (k_coach k)) dur \<and>
        0 \<le> amount \<and> amount \<le> max_int32 \<and> min_checkout_window \<le> t - w_now w \<and>
        w_calls w' = w_calls w @ [CallCreateCheckout input] \<and>
        p_create_checkout (x_provider env) (w_calls w) input = Inr co \<and>
        ci_amount_cents input = amount \<and> ci_session_id input = x_uuid_text env (s_id row) \<and>
        row = (held_row env w u c t dur topic amount)\<lparr>s_payment_ref := Some (co_ref co)\<rparr> \<and>
        d_sessions (w_db w') = d_sessions (w_db w) @ [row] \<and> sv_checkout_url v = co_url co"
proof (cases "coach_lookup c (w_db w)")
  case None
  with run calm show ?thesis by (auto simp: bookPaid_def GetCoachQuery_def select_one_calm bindE_def)
next
  case k: (Some k)
  show ?thesis
  proof (cases "find (\<lambda>x. u_id x = u \<and> live x) (d_users (w_db w))")
    case None
    with k run calm show ?thesis by (auto simp: bookPaid_def GetCoachQuery_def GetUserByID_def select_one_calm bindE_def)
  next
    case usr: (Some usr)
    let ?amount = "price_cents (c_hourly_rate_cents (k_coach k)) dur"
    let ?row = "held_row env w u c t dur topic ?amount" and ?ss = "d_sessions (w_db w)"
    let ?input = "paid_checkout env w u c t dur topic k usr"
    note steps = bookPaid_steps [OF calm ok k usr, where env = env and t = t and dur = dur and topic = topic]
    show ?thesis
    proof (cases "?amount < 0 \<or> max_int32 < ?amount \<or> t - w_now w < min_checkout_window \<or>
        sessions_violation (w_db w) (?ss @ [?row]) \<noteq> None")
      case True
      with run steps have "(\<exists>e. res = Inl e) \<and> w_db w' = w_db w \<and> w_calls w' = w_calls w" by (auto split: if_splits option.splits)
      then show ?thesis by auto
    next
      case False
      then have "0 \<le> ?amount" "?amount \<le> max_int32" "min_checkout_window \<le> t - w_now w"
        "sessions_violation (w_db w) (?ss @ [?row]) = None" by auto
      note fit = this
      have "co_ref co \<notin> set (present s_payment_ref ?ss)" if "p_create_checkout (x_provider env) (w_calls w) ?input = Inr co" for co
        using that by (rule fresh)
      note eff = fitting_hold_effect [OF calm ok this run k usr fit]
      have input: "ci_amount_cents ?input = ?amount" "ci_session_id ?input = x_uuid_text env (s_id ?row)"
        by (simp_all add: paid_checkout_def checkout_for_def)
      show ?thesis
      proof (cases "p_create_checkout (x_provider env) (w_calls w) ?input")
        case (Inl refused)
        let ?gone = "cancel_hold_set (w_dbnow w) ?row"
        have "s_id ?gone = s_id ?row" "\<not> holds_slot ?gone" "s_payment_status ?gone = PayFailed"
          by (simp_all add: cancel_hold_set_def holds_slot_def)
        with eff input Inl show ?thesis by (auto intro!: exI [of _ ?input])
      next
        case (Inr co)
        with eff obtain v where "res = Inr v" "sv_checkout_url v = co_url co"
          "d_sessions (w_db w') = ?ss @ [?row\<lparr>s_payment_ref := Some (co_ref co)\<rparr>]" by auto
        with eff(2) input fit k Inr show ?thesis by simp
      qed
    qed
  qed
qed

lemma paid_booking_effect_witness:
  "\<exists>v w'. bookPaid paid_env 12 11 monday_10 45 ''hi'' before = (Inr v, w') \<and>
     map s_amount_cents (d_sessions (w_db w')) = [6750] \<and>
     map s_payment_ref (d_sessions (w_db w')) = [Some ''cs_100''] \<and> sv_checkout_url v = ''https://pay'' \<and>
     length (w_calls w') = 1"
proof -
  have ok: "constraints_ok (w_db before)" by code_simp
  have rows: "d_sessions (w_db before) = []" "w_calls before = []" by (simp_all add: before_def world_at_def start_db_def)
  have won: "(case fst (bookPaid paid_env 12 11 monday_10 45 ''hi'' before) of Inl _ \<Rightarrow> False | Inr _ \<Rightarrow> True)" by code_simp
  obtain res w' where run: "bookPaid paid_env 12 11 monday_10 45 ''hi'' before = (res, w')" by fastforce
  with won obtain v where res: "res = Inr v" by (cases res) auto
  have price: "price_cents (c_hourly_rate_cents coach_profile) 45 = 6750" by code_simp
  have fresh: "co_ref co \<notin> set (present s_payment_ref (d_sessions (w_db before)))" for co :: checkout
    using rows by simp
  from paid_booking_effect [OF before_calm ok fresh run]
  obtain k co row input where k: "coach_lookup 11 (w_db before) = Some k"
    and row: "d_sessions (w_db w') = d_sessions (w_db before) @ [row]"
      "row = (held_row paid_env before 12 11 monday_10 45 ''hi''
       (price_cents (c_hourly_rate_cents (k_coach k)) 45))\<lparr>s_payment_ref := Some (co_ref co)\<rparr>"
    and calls: "w_calls w' = w_calls before @ [CallCreateCheckout input]" "ci_session_id input = x_uuid_text paid_env (s_id row)"
    and co: "p_create_checkout (x_provider paid_env) (w_calls before) input = Inr co" "sv_checkout_url v = co_url co"
    unfolding res sum.case by blast
  have "decimal 100 = ''100''" by code_simp
  then have id: "x_uuid_text paid_env (s_id row) = ''100''"
    by (simp add: row(2) held_row_def new_session_def before_def world_at_def paid_env_def env_of_def)
  have "co = \<lparr>co_ref = ''cs_100'', co_url = ''https://pay''\<rparr>"
    using co(1) calls(2) id by (simp add: paid_env_def env_of_def ok_provider_def)
  moreover from k coach_before have "k_coach k = coach_profile" by (auto simp: coach_row_of_def Let_def)
  ultimately show ?thesis
    using run row rows price calls co(2) unfolding res by (intro exI [of _ v] exI [of _ w']) (simp add: held_row_def)
qed

end
