(* ===== verification/Outbox.thy ===== *)
theory Outbox
  imports Emails
begin

text \<open>
  Delivery of the queued mails: the notifier (internal/notify/notify.go), the statements on
  \<open>email_outbox\<close> (internal/store/db/email_outbox.sql.go) and the relay
  (internal/notify/outbox.go).  The outcome of the SMTP conversation is a
  parameter here (theory Smtp has the conversation), told what left the process before, the
  recipient and the bytes.  It answers whether the server took the mail and, separately, the error it returned: a server
  can take a mail and the connection still fail before QUIT.
\<close>

section \<open>The notifier\<close>

record mailer =
  n_smtp_host :: string
  n_mail_from :: string
  n_boundary :: "signal list \<Rightarrow> string"
  n_deliver :: "signal list \<Rightarrow> string \<Rightarrow> string \<Rightarrow> bool \<times> string option"

text \<open>The lines of a payload as \<open>bytes.Split\<close> cuts them, and \<open>bytes.TrimRight(line, CR)\<close>.\<close>

fun split_on :: "char \<Rightarrow> string \<Rightarrow> string list" where
  "split_on c [] = [[]]"
| "split_on c (x # xs) =
     (if x = c then [] # split_on c xs
      else (case split_on c xs of [] \<Rightarrow> [[x]] | l # ls \<Rightarrow> (x # l) # ls))"

definition trim_right_cr :: "string \<Rightarrow> string" where
  "trim_right_cr v = rev (dropWhile (\<lambda>c. c = CHR 0x0D) (rev v))"

fun method_line :: "string list \<Rightarrow> string" where
  "method_line [] = ''REQUEST''"
| "method_line (l # ls) =
     (case strip_prefix ''METHOD:'' (trim_right_cr l) of Some m \<Rightarrow> m | None \<Rightarrow> method_line ls)"

definition icsMethod :: "string \<Rightarrow> string" where
  "icsMethod ics = method_line (split_on (CHR 0x0A) ics)"

text \<open>
  What \<open>encode\<close> writes.  The multipart writer of the standard library separates parts by the
  boundary it drew and writes a part's headers in the order of their names.
\<close>

definition encode :: "string \<Rightarrow> string \<Rightarrow> mail_message \<Rightarrow> string" where
  "encode boundary from m =
     ''From: '' @ from @ crlf @ ''To: '' @ mm_to m @ crlf @ ''Subject: '' @ mm_subject m @ crlf @
     ''MIME-Version: 1.0'' @ crlf @
     (if mm_ics m = []
      then ''Content-Type: text/plain; charset=utf-8'' @ crlf @ crlf @ mm_body m
      else ''Content-Type: multipart/mixed; boundary='' @ boundary @ crlf @ crlf @
        ''--'' @ boundary @ crlf @ ''Content-Type: text/plain; charset=utf-8'' @ crlf @ crlf @ mm_body m @
        crlf @ ''--'' @ boundary @ crlf @
        ''Content-Disposition: attachment; filename='' @ [CHR 0x22] @ ''invite.ics'' @ [CHR 0x22] @ crlf @
        ''Content-Type: text/calendar; charset=utf-8; method='' @ icsMethod (mm_ics m) @ crlf @ crlf @ mm_ics m @
        crlf @ ''--'' @ boundary @ ''--'' @ crlf)"

text \<open>
  \<open>Send\<close>: without SMTP the message is only logged.  The error is its text, which the relay
  stores.
\<close>

definition Send :: "mailer \<Rightarrow> mail_message \<Rightarrow> (world, string, unit) go" where
  "Send mx m w =
     (if n_smtp_host mx = [] then (Inr (), w)
      else
        let raw = encode (n_boundary mx (w_signals w)) (n_mail_from mx) m;
            (taken, err) = n_deliver mx (w_signals w) (mm_to m) raw;
            w' = (if taken then w\<lparr>w_signals := w_signals w @ [Mailed m]\<rparr> else w)
        in case err of None \<Rightarrow> (Inr (), w') | Some e \<Rightarrow> (Inl (''send mail: '' @ e), w'))"

definition Email :: "mailer \<Rightarrow> string \<Rightarrow> string \<Rightarrow> string \<Rightarrow> (world, string, unit) go" where
  "Email mx to subject body = Send mx \<lparr>mm_to = to, mm_subject = subject, mm_body = body, mm_ics = []\<rparr>"

text \<open>Push is a stub that records the intent.\<close>

definition Push :: "string \<Rightarrow> string \<Rightarrow> string \<Rightarrow> unit request" where
  "Push user_id title body w = (Inr (), w\<lparr>w_signals := w_signals w @ [Pushed user_id title body]\<rparr>)"

section \<open>The statements\<close>

definition pending_email :: "int \<Rightarrow> instant \<Rightarrow> email \<Rightarrow> bool" where
  "pending_email attempts now e \<longleftrightarrow>
     e_sent_at e = None \<and> e_attempts e < attempts \<and> e_next_attempt_at e \<le> now"

definition due_emails :: "nat \<Rightarrow> int \<Rightarrow> instant \<Rightarrow> email list \<Rightarrow> email list" where
  "due_emails limit attempts now es = take limit (sort_key e_next_attempt_at (filter (pending_email attempts now) es))"

definition PendingEmails :: "nat \<Rightarrow> int \<Rightarrow> email list request" where
  "PendingEmails limit attempts =
     query (\<lambda>w. Inr (due_emails limit attempts (w_dbnow w) (d_outbox (w_db w)), w_db w))"

definition unsent :: "uuid \<Rightarrow> email \<Rightarrow> bool" where
  "unsent i e \<longleftrightarrow> e_id e = i \<and> e_sent_at e = None"

definition update_outbox :: "(email \<Rightarrow> bool) \<Rightarrow> (instant \<Rightarrow> email \<Rightarrow> email) \<Rightarrow> nat request" where
  "update_outbox p f =
     query (\<lambda>w. let es = d_outbox (w_db w) in
       Inr (length (filter p es), (w_db w)\<lparr>d_outbox := update_where p (f (w_dbnow w)) es\<rparr>))"

definition failed_set :: "string \<Rightarrow> int \<Rightarrow> instant \<Rightarrow> email \<Rightarrow> email" where
  "failed_set err retry_after now e =
     e\<lparr>e_attempts := e_attempts e + 1, e_last_error := err, e_next_attempt_at := now + retry_after\<rparr>"

text \<open>
  A text column takes valid UTF-8 without zero bytes; anything else is refused.  Only an error
  text can be something else: it may quote what a mail server, or the analyzer, answered.
\<close>

definition with_text :: "string \<Rightarrow> 'a request \<Rightarrow> 'a request" where
  "with_text v m = (if storable v then m else query (\<lambda>w. Inl ErrDriver))"

definition MarkEmailFailed :: "uuid \<Rightarrow> string \<Rightarrow> int \<Rightarrow> nat request" where
  "MarkEmailFailed i err retry_after = with_text err (update_outbox (unsent i) (failed_set err retry_after))"

definition sent_set :: "instant \<Rightarrow> email \<Rightarrow> email" where
  "sent_set now e = e\<lparr>e_sent_at := Some now, e_attempts := e_attempts e + 1, e_last_error := []\<rparr>"

definition MarkEmailSent :: "uuid \<Rightarrow> nat request" where
  "MarkEmailSent i = update_outbox (unsent i) sent_set"

definition CountExhaustedEmails :: "int \<Rightarrow> nat request" where
  "CountExhaustedEmails attempts =
     select (\<lambda>d. length (filter (\<lambda>e. e_sent_at e = None \<and> attempts \<le> e_attempts e) (d_outbox d)))"

section \<open>The relay\<close>

definition max_attempts :: int where "max_attempts = 32"
definition min_retry_delay :: int where "min_retry_delay = seconds 10"
definition max_retry_delay :: int where "max_retry_delay = hours 1"
definition email_batch :: nat where "email_batch = 100"

text \<open>The doubling loop of \<open>retryDelay\<close>; its counter runs up to the number of failures.\<close>

function delay_loop :: "int \<Rightarrow> int \<Rightarrow> int \<Rightarrow> int" where
  "delay_loop i failed d =
     (if i < failed \<and> d < max_retry_delay then delay_loop (i + 1) failed (d * 2) else d)"
  by pat_completeness auto
termination by (relation "measure (\<lambda>(i, failed, d). nat (failed - i))") auto

declare delay_loop.simps [simp del]

definition retryDelay :: "int \<Rightarrow> int" where
  "retryDelay failed = min (delay_loop 0 failed min_retry_delay) max_retry_delay"

definition message_of :: "email \<Rightarrow> mail_message" where
  "message_of e = \<lparr>mm_to = e_to e, mm_subject = e_subject e, mm_body = e_body e,
     mm_ics = (case e_ics e of None \<Rightarrow> [] | Some v \<Rightarrow> v)\<rparr>"

text \<open>
  The loop of \<open>Drain\<close>: a failed send is recorded and the loop goes on, a database error
  ends it.  The answer is how many were sent and that error.  The error text of a failed send
  that the column does not take is such a database error.
\<close>

fun drain_each :: "mailer \<Rightarrow> nat \<Rightarrow> email list \<Rightarrow> (nat \<times> go_error option) request" where
  "drain_each mx sent [] = ret (sent, None)"
| "drain_each mx sent (row # rows) =
     attempt (Send mx (message_of row))
       (\<lambda>err. attempt (MarkEmailFailed (e_id row) err (retryDelay (e_attempts row)))
          (\<lambda>e. ret (sent, Some e))
          (\<lambda>_. drain_each mx sent rows))
       (\<lambda>_. attempt (MarkEmailSent (e_id row))
          (\<lambda>e. ret (sent, Some e))
          (\<lambda>_. drain_each mx (Suc sent) rows))"

definition DrainEmails :: "mailer \<Rightarrow> (nat \<times> go_error option) request" where
  "DrainEmails mx =
     attempt (PendingEmails email_batch max_attempts) (\<lambda>e. ret (0, Some e)) (drain_each mx 0)"

section \<open>Lemmas\<close>

lemma delay_loop_power:
  assumes "0 < d"
  shows "min (delay_loop i (i + int n) d) max_retry_delay = min (d * 2 ^ n) max_retry_delay"
  using assms
proof (induction n arbitrary: i d)
  case 0
  then show ?case by (subst delay_loop.simps) simp
next
  case (Suc n)
  show ?case
  proof (cases "d < max_retry_delay")
    case True
    from Suc.IH [of "d * 2" "i + 1"] Suc.prems True show ?thesis
      by (subst delay_loop.simps) (simp add: algebra_simps)
  next
    case False
    have "d * 1 \<le> d * 2 ^ Suc n" by (rule mult_left_mono) (use Suc.prems one_le_power [of "2 :: int" "Suc n"] in simp_all)
    with False show ?thesis by (subst delay_loop.simps) simp
  qed
qed

lemma retryDelay_power: "retryDelay (int n) = min (min_retry_delay * 2 ^ n) max_retry_delay"
  using delay_loop_power [of min_retry_delay 0 n] by (simp add: retryDelay_def min_retry_delay_def seconds_def)

lemma send_frame:
  "Send mx m w = (r, w') \<Longrightarrow> w_db w' = w_db w \<and> w_sched w' = w_sched w \<and> w_dbnow w' = w_dbnow w \<and> w_now w' = w_now w \<and>
     (w_signals w' = w_signals w \<or> w_signals w' = w_signals w @ [Mailed m])"
  by (auto simp: Send_def Let_def split: if_splits option.splits prod.splits)

lemma update_outbox_calm:
  "w_sched w = [] \<Longrightarrow> update_outbox p f w =
     (Inr (length (filter p (d_outbox (w_db w)))),
      w\<lparr>w_db := (w_db w)\<lparr>d_outbox := update_where p (f (w_dbnow w)) (d_outbox (w_db w))\<rparr>\<rparr>)"
  by (simp add: update_outbox_def query_calm Let_def)

lemma sent_set_guards: "unsent i e \<Longrightarrow> \<not> unsent i (sent_set now e)"
  by (simp add: unsent_def sent_set_def)

interpretation mark_sent: guarded_update "unsent i" "sent_set now" for i now
  by unfold_locales (rule sent_set_guards)

end
