(* ===== verification/Redis_Store.thy ===== *)
theory Redis_Store
  imports Emails
begin

text \<open>
  Redis as the backend uses it: the verification codes (internal/auth/verifycache.go), the
  denylist (internal/auth/revocation.go), the rate limiter (internal/auth/ratelimit.go) and
  the presence sets (internal/chat/hub.go).  Each command runs atomically and may fail;
  other processes' commands come in between commands, also within a pipeline.  Redis reads
  the clock of the request.  Durations are whole microseconds.
\<close>

section \<open>Commands\<close>

definition redis_do :: "(instant \<Rightarrow> redis \<Rightarrow> 'a \<times> redis) \<Rightarrow> 'a request" where
  "redis_do f w =
     (case next_entry w of
        (True, w') \<Rightarrow> (Inl ErrRedis, w')
      | (False, w') \<Rightarrow> (case f (w_now w') (w_redis w') of (x, r) \<Rightarrow> (Inr x, w'\<lparr>w_redis := r\<rparr>)))"

text \<open>A command that Redis itself may refuse.\<close>

definition redis_try :: "(instant \<Rightarrow> redis \<Rightarrow> ('a \<times> redis) option) \<Rightarrow> 'a request" where
  "redis_try f =
     bindE (redis_do (\<lambda>now r. case f now r of None \<Rightarrow> (None, r) | Some (x, r') \<Rightarrow> (Some x, r')))
       (\<lambda>a. case a of None \<Rightarrow> throw ErrRedis | Some x \<Rightarrow> ret x)"

definition fresh :: "instant \<Rightarrow> ('a \<times> instant option) option \<Rightarrow> ('a \<times> instant option) option" where
  "fresh now e =
     (case e of None \<Rightarrow> None
      | Some (v, None) \<Rightarrow> Some (v, None)
      | Some (v, Some t) \<Rightarrow> if now < t then Some (v, Some t) else None)"

definition put :: "string \<Rightarrow> (string \<times> instant option) option \<Rightarrow> redis \<Rightarrow> redis" where
  "put key e r = r\<lparr>v_strings := (v_strings r)(key := e)\<rparr>"

definition SET :: "string \<Rightarrow> string \<Rightarrow> int \<Rightarrow> unit request" where
  "SET key v ttl = redis_do (\<lambda>now r. ((), put key (Some (v, Some (now + ttl))) r))"

text \<open>The empty string stands for a missing key, as \<open>Result\<close> with its error ignored gives it.\<close>

definition GET :: "string \<Rightarrow> string request" where
  "GET key = redis_do (\<lambda>now r. (case fresh now (v_strings r key) of None \<Rightarrow> [] | Some (v, _) \<Rightarrow> v, r))"

definition EXISTS :: "string \<Rightarrow> bool request" where
  "EXISTS key = redis_do (\<lambda>now r. (fresh now (v_strings r key) \<noteq> None, r))"

definition DEL :: "string list \<Rightarrow> unit request" where
  "DEL keys = redis_do (\<lambda>now r. ((), fold (\<lambda>k. put k None) keys r))"

text \<open>\<open>INCR\<close> counts in decimal text, from zero for a missing key, and keeps the expiry.\<close>

definition incr :: "string \<Rightarrow> instant \<Rightarrow> redis \<Rightarrow> (int \<times> redis) option" where
  "incr key now r =
     (case fresh now (v_strings r key) of
        None \<Rightarrow> Some (1, put key (Some (decimal 1, None)) r)
      | Some (v, t) \<Rightarrow>
          (case atoi v of None \<Rightarrow> None
           | Some n \<Rightarrow> if n = 2 ^ 63 - 1 then None else Some (n + 1, put key (Some (decimal (n + 1), t)) r)))"

definition INCR :: "string \<Rightarrow> int request" where
  "INCR key = redis_try (incr key)"

definition expire_at :: "string \<Rightarrow> instant \<Rightarrow> instant \<Rightarrow> redis \<Rightarrow> redis" where
  "expire_at key t now r =
     (case fresh now (v_strings r key) of None \<Rightarrow> put key None r | Some (v, _) \<Rightarrow> put key (Some (v, Some t)) r)"

definition EXPIRE :: "string \<Rightarrow> int \<Rightarrow> unit request" where
  "EXPIRE key ttl = redis_do (\<lambda>now r. ((), expire_at key (now + ttl) now r))"

text \<open>\<open>PUBLISH\<close>: whoever is subscribed gets the message; nothing is kept.\<close>

definition PUBLISH :: "string \<Rightarrow> string \<Rightarrow> unit request" where
  "PUBLISH channel payload w =
     (case next_entry w of
        (True, w') \<Rightarrow> (Inl ErrRedis, w')
      | (False, w') \<Rightarrow> (Inr (), w'\<lparr>w_signals := w_signals w' @ [Announced channel payload]\<rparr>))"

section \<open>Verification codes\<close>

definition verification_code_ttl :: int where "verification_code_ttl = minutes 3"
definition max_verification_attempts :: int where "max_verification_attempts = 3"

definition codeKey :: "string \<Rightarrow> string" where "codeKey user_id = ''verify:code:'' @ user_id"
definition attemptsKey :: "string \<Rightarrow> string" where "attemptsKey user_id = ''verify:attempts:'' @ user_id"

definition StoreCode :: "string \<Rightarrow> string \<Rightarrow> unit request" where
  "StoreCode user_id code =
     bindE (SET (codeKey user_id) code verification_code_ttl) (\<lambda>_.
     SET (attemptsKey user_id) ''0'' verification_code_ttl)"

definition GetCode :: "string \<Rightarrow> (string \<times> int) request" where
  "GetCode user_id =
     bindE (GET (codeKey user_id)) (\<lambda>code.
     bindE (GET (attemptsKey user_id)) (\<lambda>tries.
     ret (code, if tries = [] then 0 else (case atoi tries of None \<Rightarrow> 0 | Some n \<Rightarrow> n))))"

text \<open>
  The script: the counter lives as long as the code, to the millisecond, and goes with it.
\<close>

definition increment_script :: "string \<Rightarrow> string \<Rightarrow> instant \<Rightarrow> redis \<Rightarrow> (int \<times> redis) option" where
  "increment_script code_key attempts_key now r =
     (let ttl = (case fresh now (v_strings r code_key) of
                   Some (_, Some t) \<Rightarrow> (t - now) div 1000 | Some (_, None) \<Rightarrow> -1 | None \<Rightarrow> -2)
      in if ttl \<le> 0 then Some (0, put attempts_key None r)
         else case incr attempts_key now r of None \<Rightarrow> None
              | Some (n, r') \<Rightarrow> Some (n, expire_at attempts_key (now + ttl * 1000) now r'))"

definition IncrementAttempts :: "string \<Rightarrow> int request" where
  "IncrementAttempts user_id = redis_try (increment_script (codeKey user_id) (attemptsKey user_id))"

definition InvalidateCode :: "string \<Rightarrow> unit request" where
  "InvalidateCode user_id = DEL [codeKey user_id, attemptsKey user_id]"

section \<open>The denylist\<close>

definition revocation_grace :: int where "revocation_grace = minutes 5"

definition revokedKey :: "string \<Rightarrow> string" where "revokedKey user_id = ''auth:revoked:'' @ user_id"

text \<open>The key is what revokes; a failed announcement is only logged.\<close>

definition Revoke :: "'a env_scheme \<Rightarrow> int \<Rightarrow> uuid \<Rightarrow> unit request" where
  "Revoke env ttl i =
     bindE (SET (revokedKey (x_uuid_text env i)) ''1'' (ttl + revocation_grace)) (\<lambda>_.
     attempt (PUBLISH ''auth:revoked'' (x_uuid_text env i)) (\<lambda>_. ret ()) ret)"

definition Revoked :: "'a env_scheme \<Rightarrow> uuid \<Rightarrow> bool request" where
  "Revoked env i = EXISTS (revokedKey (x_uuid_text env i))"

section \<open>The rate limiter\<close>

record limiter =
  l_limit :: int
  l_window :: int

definition limit_key :: "limiter \<Rightarrow> string \<Rightarrow> instant \<Rightarrow> string" where
  "limit_key l key now = ''ratelimit:auth:'' @ key @ '':'' @ decimal (now div l_window l)"

definition Allow :: "limiter \<Rightarrow> string \<Rightarrow> bool request" where
  "Allow l key =
     bindE (asks w_now) (\<lambda>now.
     bindE (INCR (limit_key l key now)) (\<lambda>count.
     bindE (if count = 1 then EXPIRE (limit_key l key now) (l_window l) else ret ()) (\<lambda>_.
     ret (count \<le> l_limit l))))"

text \<open>
  \<open>ClientIP\<close> on a request's headers and peer address; \<open>net.SplitHostPort\<close> is a parameter.
\<close>

definition ClientIP :: "(string \<Rightarrow> string option) \<Rightarrow> (string \<Rightarrow> string) \<Rightarrow> string \<Rightarrow> string" where
  "ClientIP split_host_port header peer =
     (if header ''X-Forwarded-For'' \<noteq> []
      then trim_space (takeWhile (\<lambda>c. c \<noteq> CHR '','') (header ''X-Forwarded-For''))
      else if header ''X-Real-IP'' \<noteq> [] then trim_space (header ''X-Real-IP'')
      else case split_host_port peer of None \<Rightarrow> peer | Some host \<Rightarrow> host)"

section \<open>Presence\<close>

definition presence_ttl :: int where "presence_ttl = seconds 45"

definition presenceKey :: "env \<Rightarrow> uuid \<Rightarrow> string" where
  "presenceKey env i = ''presence:user:'' @ x_uuid_text env i"

text \<open>\<open>SADD\<close> and \<open>EXPIRE\<close> in one MULTI transaction.\<close>

definition MarkOnline :: "env \<Rightarrow> uuid \<Rightarrow> uuid \<Rightarrow> unit request" where
  "MarkOnline env i conn =
     redis_do (\<lambda>now r. ((), r\<lparr>v_sets := (v_sets r)(presenceKey env i :=
       Some (case fresh now (v_sets r (presenceKey env i)) of
               None \<Rightarrow> ([x_uuid_text env conn], Some (now + presence_ttl))
             | Some (ms, _) \<Rightarrow> (List.insert (x_uuid_text env conn) ms, Some (now + presence_ttl))))\<rparr>))"

definition MarkOffline :: "env \<Rightarrow> uuid \<Rightarrow> uuid \<Rightarrow> unit request" where
  "MarkOffline env i conn =
     redis_do (\<lambda>now r. ((), r\<lparr>v_sets := (v_sets r)(presenceKey env i :=
       (case fresh now (v_sets r (presenceKey env i)) of
          None \<Rightarrow> None
        | Some (ms, t) \<Rightarrow> (case removeAll (x_uuid_text env conn) ms of [] \<Rightarrow> None | ms' \<Rightarrow> Some (ms', t))))\<rparr>))"

definition IsOnline :: "env \<Rightarrow> uuid \<Rightarrow> bool request" where
  "IsOnline env i = redis_do (\<lambda>now r. (fresh now (v_sets r (presenceKey env i)) \<noteq> None, r))"

section \<open>Lemmas\<close>

lemma redis_do_calm: "w_sched w = [] \<Longrightarrow>
  redis_do f w = (case f (w_now w) (w_redis w) of (x, r) \<Rightarrow> (Inr x, w\<lparr>w_redis := r\<rparr>))"
  by (simp add: redis_do_def)

lemma redis_try_calm: "w_sched w = [] \<Longrightarrow>
  redis_try f w = (case f (w_now w) (w_redis w) of None \<Rightarrow> (Inl ErrRedis, w) | Some (x, r) \<Rightarrow> (Inr x, w\<lparr>w_redis := r\<rparr>))"
  by (auto simp: redis_try_def redis_do_calm bindE_def throw_def ret_def split: option.splits prod.splits)

text \<open>A key that has been put is read back until it expires.\<close>

lemma put_simps [simp]:
  "v_strings (put k e r) k' = (if k' = k then e else v_strings r k')" "v_sets (put k e r) = v_sets r"
  by (simp_all add: put_def)

lemma fresh_simps [simp]:
  "fresh now None = None" "fresh now (Some (v, None)) = Some (v, None)"
  "fresh now (Some (v, Some t)) = (if now < t then Some (v, Some t) else None)"
  by (simp_all add: fresh_def)

end
