(* ===== verification/Broker.thy ===== *)
theory Broker
  imports Store
begin

text \<open>
  Publishing to RabbitMQ (the \<open>Queue.publish\<close> and \<open>JobPublisher\<close> of internal/account/queue.go
  and internal/analysis/queue.go).  The AMQP client is outside the repository; what the code
  relies on is that a confirmed publish is on the queue, which holds as long as the queue that
  was declared still exists.  Here the calls of one caller are a sequence; theory Publisher has
  concurrent callers on the shared connection.  A publish that fails may be on the
  queue as well: its confirmation can be lost.
\<close>

text \<open>A publish with its confirmation, on a live channel.\<close>

definition queue_publish :: "string \<Rightarrow> job \<Rightarrow> unit request" where
  "queue_publish queue j w =
     (let sent = (\<lambda>w'. w'\<lparr>w_signals := w_signals w' @ [Queued queue j]\<rparr>)
      in case w_sched w of
           Unconfirmed # _ \<Rightarrow> (Inl ErrBroker, sent (snd (next_entry w)))
         | _ \<Rightarrow> (case next_entry w of (True, w') \<Rightarrow> (Inl ErrBroker, w') | (False, w') \<Rightarrow> (Inr (), sent w')))"

text \<open>\<open>acquire\<close> hands out the live connection or dials a new one.\<close>

definition acquire :: "unit request" where
  "acquire w = (case next_entry w of (True, w') \<Rightarrow> (Inl ErrBroker, w') | (False, w') \<Rightarrow> (Inr (), w'))"

text \<open>
  \<open>JobPublisher.Publish\<close>: a failed publish is tried once more on a fresh connection.  A
  caller whose context is done does not get the second try; to the caller that is the same
  as a redial that fails.
\<close>

definition Publish :: "string \<Rightarrow> job \<Rightarrow> unit request" where
  "Publish queue j =
     bindE acquire (\<lambda>_.
     attempt (queue_publish queue j)
       (\<lambda>e. attempt acquire (\<lambda>_. throw e) (\<lambda>_. queue_publish queue j))
       ret)"

text \<open>
  What becomes of a delivery: it is acknowledged, put back on its queue, or rejected for good.
  A rejected delivery is gone, unless its queue has a dead-letter queue.
\<close>

datatype disposition = Acked | Requeued | Rejected

lemma queue_publish_entry:
  "queue_publish q j w = (r, w') \<Longrightarrow>
   \<exists>b w1. next_entry w = (b, w1) \<and> (w' = w1 \<or> w' = w1\<lparr>w_signals := w_signals w1 @ [Queued q j]\<rparr>)"
  by (cases "next_entry w") (auto simp: queue_publish_def Let_def split: list.splits sched.splits bool.splits)

text \<open>What \<open>Publish\<close> promises: success means that the job is on the queue.\<close>

lemma queue_publish_confirmed: "queue_publish q j w = (Inr u, w') \<Longrightarrow> Queued q j \<in> set (w_signals w')"
  by (auto simp: queue_publish_def Let_def split: list.splits sched.splits prod.splits bool.splits)

lemma Publish_confirmed: "Publish q j w = (Inr u, w') \<Longrightarrow> Queued q j \<in> set (w_signals w')"
  unfolding Publish_def bindE_Inr attempt_result by (auto simp: ret_Inr dest: queue_publish_confirmed)

lemma Publish_calm: "w_sched w = [] \<Longrightarrow> Publish q j w = (Inr (), w\<lparr>w_signals := w_signals w @ [Queued q j]\<rparr>)"
  by (simp add: Publish_def acquire_def queue_publish_def bindE_def attempt_def ret_def Let_def)

end
