(* ===== verification/Auth.thy ===== *)
theory Auth
  imports Accounts Outbox Redis_Store Broker
begin

text \<open>
  Accounts and sessions (internal/auth/service.go, refresh.go, jwt.go, google.go): sign-up,
  sign-in, email verification, refresh-token rotation, the dating profile and the request to
  delete an account.

  Outside the repository, and so parameters: bcrypt, \<open>mail.ParseAddress\<close>, the Unicode tables
  behind \<open>strings.ToLower\<close>, signing and parsing of JWTs, and Google's key set (see
  Google_Keys).  Randomness
  is a supply of tokens and of codes.  Logging is left out.
\<close>

section \<open>Configuration\<close>

text \<open>Claims carry whole seconds, as \<open>jwt.NewNumericDate\<close> keeps them.\<close>

record claims =
  cl_subject :: string
  cl_issuer :: string
  cl_issued_at :: int
  cl_expires_at :: "int option"
  cl_role :: string
  cl_email :: string
  cl_scope :: string

record google_claims =
  gc_issuer :: string
  gc_subject :: string
  gc_email :: string
  gc_email_verified :: bool
  gc_name :: string

text \<open>
  \<open>a_google\<close> is absent without a client id; otherwise it parses and checks a token's
  signature, audience and expiry, or says that the keys are out of reach.
\<close>

record auth_env = env +
  a_mailer :: mailer
  a_hash :: "string \<Rightarrow> string \<Rightarrow> string option"
  a_matches :: "string \<Rightarrow> string \<Rightarrow> bool"
  a_valid_address :: "string \<Rightarrow> bool"
  a_lower :: "string \<Rightarrow> string"
  a_sign :: "claims \<Rightarrow> string option"
  a_parse_jwt :: "instant \<Rightarrow> string \<Rightarrow> claims option"
  a_google :: "(string \<Rightarrow> go_error + google_claims) option"
  a_session_ttl :: int
  a_verify_ttl :: int
  a_refresh_ttl :: int
  a_denylist_ttl :: "int option"
  a_deletion_queue :: string

section \<open>Tokens\<close>

definition role_user :: string where "role_user = ''user''"
definition role_coach :: string where "role_coach = ''coach''"
definition role_admin :: string where "role_admin = ''admin''"
definition scope_verify :: string where "scope_verify = ''verify''"
definition scope_session :: string where "scope_session = ''session''"

text \<open>\<open>UserID\<close> parses the subject.\<close>

definition claims_user :: "auth_env \<Rightarrow> claims \<Rightarrow> uuid option" where
  "claims_user env c = x_parse_uuid env (cl_subject c)"

definition Issue :: "auth_env \<Rightarrow> uuid \<Rightarrow> string \<Rightarrow> string \<Rightarrow> string \<Rightarrow> int \<Rightarrow> (string \<times> instant) request" where
  "Issue env user_id email role scope ttl =
     bindE (asks w_now) (\<lambda>now.
     let expires = now + ttl;
         c = \<lparr>cl_subject = x_uuid_text env user_id, cl_issuer = ''dating-coach-api'', cl_issued_at = unix now,
              cl_expires_at = Some (unix expires), cl_role = role, cl_email = email, cl_scope = scope\<rparr>
     in case a_sign env c of None \<Rightarrow> throw ErrSign | Some raw \<Rightarrow> ret (raw, expires))"

definition Parse :: "auth_env \<Rightarrow> instant \<Rightarrow> string \<Rightarrow> claims option" where
  "Parse env now raw = a_parse_jwt env now raw"

section \<open>The API view of an account\<close>

record profile =
  pf_id :: string
  pf_email :: string
  pf_display_name :: string
  pf_role :: string
  pf_email_verified :: bool
  pf_dating_styles :: "string list"
  pf_phases_strong :: "string list"
  pf_phases_working_on :: "string list"
  pf_dating_preferences :: string

definition profileOf :: "auth_env \<Rightarrow> user \<Rightarrow> profile" where
  "profileOf env u =
     \<lparr>pf_id = x_uuid_text env (u_id u), pf_email = u_email u, pf_display_name = u_display_name u, pf_role = u_role u,
      pf_email_verified = u_email_verified u, pf_dating_styles = u_dating_styles u,
      pf_phases_strong = u_phases_strong u, pf_phases_working_on = u_phases_working_on u,
      pf_dating_preferences = u_dating_preferences u\<rparr>"

record auth_session =
  as_token :: string
  as_refresh_token :: string
  as_expires_at :: string
  as_user :: profile

section \<open>Opening a session\<close>

text \<open>No family stands for \<open>uuid.Nil\<close>: the token starts one of its own.\<close>

definition issueRefreshToken :: "auth_env \<Rightarrow> user \<Rightarrow> uuid option \<Rightarrow> string request" where
  "issueRefreshToken env user family =
     bindE random_token (\<lambda>token.
     bindE (case family of None \<Rightarrow> fresh_id | Some f \<Rightarrow> ret f) (\<lambda>f.
     bindE (asks w_now) (\<lambda>now.
     bindE (CreateRefreshToken (u_id user) (x_sha256_hex env token) (now + a_refresh_ttl env) f) (\<lambda>_.
     ret token))))"

definition openSession :: "auth_env \<Rightarrow> user \<Rightarrow> uuid option \<Rightarrow> auth_session request" where
  "openSession env user family =
     bindE (Issue env (u_id user) (u_email user) (u_role user) scope_session (a_session_ttl env)) (\<lambda>(token, expires).
     bindE (issueRefreshToken env user family) (\<lambda>refresh.
     ret \<lparr>as_token = token, as_refresh_token = refresh, as_expires_at = format_rfc3339 expires,
          as_user = profileOf env user\<rparr>))"

text \<open>
  \<open>Refresh\<close>: a spent token ends every session of its account; the statement that spends a
  token and the one that stores its replacement share a transaction.
\<close>

definition refresh_tx :: "auth_env \<Rightarrow> refresh_token \<Rightarrow> (bool \<times> auth_session) request" where
  "refresh_tx env row =
     bindE (UseRefreshToken (t_id row)) (\<lambda>rows.
     bindE (failIf (rows = 0) ErrInvalidRefreshToken) (\<lambda>_.
     attempt (GetUserByID (t_user_id row))
       (\<lambda>e. throw (if e = ErrNoRows then ErrInvalidRefreshToken else e))
       (\<lambda>user. bindE (openSession env user (Some (t_family_id row))) commit)))"

definition Refresh :: "auth_env \<Rightarrow> string \<Rightarrow> auth_session request" where
  "Refresh env raw =
     bindE (failIf (raw = []) ErrInvalidRefreshToken) (\<lambda>_.
     attempt (GetRefreshToken (x_sha256_hex env raw))
       (\<lambda>e. throw (if e = ErrNoRows then ErrInvalidRefreshToken else e))
       (\<lambda>row. if t_used_at row \<noteq> None
          then bindE (RevokeUserRefreshTokens (t_user_id row)) (\<lambda>_. throw ErrInvalidRefreshToken)
          else transaction (refresh_tx env row)))"

section \<open>Sign-up and sign-in\<close>

definition no_password_hash :: string where "no_password_hash = []"

text \<open>\<open>validatePassword\<close>, which no code but its test calls.\<close>

definition min_password_len :: nat where "min_password_len = 8"
definition max_password_len :: nat where "max_password_len = 72"

definition validatePassword :: "string \<Rightarrow> bool" where
  "validatePassword password \<longleftrightarrow>
     min_password_len \<le> rune_count password \<and> length password \<le> max_password_len \<and> trim_space password \<noteq> []"

definition code_space :: int where "code_space = 1000000"

definition randomCode :: "string request" where
  "randomCode w =
     (case w_codes w of [] \<Rightarrow> (Inl ErrRand, w) | n # ns \<Rightarrow> (Inr (pad 6 (n mod code_space)), w\<lparr>w_codes := ns\<rparr>))"

definition hash_password :: "auth_env \<Rightarrow> string \<Rightarrow> string request" where
  "hash_password env password =
     bindE random_token (\<lambda>salt. case a_hash env salt password of None \<Rightarrow> throw ErrHash | Some h \<Rightarrow> ret h)"

text \<open>A delivery failure is logged, not returned.\<close>

definition sendVerificationEmail :: "auth_env \<Rightarrow> string \<Rightarrow> string \<Rightarrow> unit request" where
  "sendVerificationEmail env email code =
     attempt (Email (a_mailer env) email ''Verify your Dating Coach email''
         (''Welcome to Dating Coach!'' @ lf @ lf @ ''Your verification code is: '' @ code @ lf @ lf @
          ''This code expires in '' @ decimal (verification_code_ttl div minutes 1) @
          '' minutes and is discarded after '' @ decimal max_verification_attempts @ '' wrong attempts.''))
       (\<lambda>_. ret ()) ret"

record signup_input =
  si_email :: string
  si_password :: string
  si_display_name :: string
  si_role :: string

definition SignUp :: "auth_env \<Rightarrow> signup_input \<Rightarrow> auth_session request" where
  "SignUp env b =
     (let email = a_lower env (trim_space (si_email b));
          display_name = trim_space (si_display_name b);
          role = (if si_role b = [] then role_user else si_role b)
      in bindE (failIf (\<not> a_valid_address env email) ErrInvalidInput) (\<lambda>_.
         bindE (failIf (length (si_password b) < 8) ErrInvalidInput) (\<lambda>_.
         bindE (failIf (display_name = []) ErrInvalidInput) (\<lambda>_.
         bindE (failIf (role \<noteq> role_user \<and> role \<noteq> role_coach) ErrInvalidInput) (\<lambda>_.
         bindE (hash_password env (si_password b)) (\<lambda>hash.
         bindE randomCode (\<lambda>code.
         attempt (CreateUser email hash display_name role)
           (\<lambda>e. throw (if e = ErrSql UniqueViolation then ErrEmailTaken else e))
           (\<lambda>user.
         attempt (StoreCode (x_uuid_text env (u_id user)) code)
           (\<lambda>e. attempt (DeleteUser (u_id user)) (\<lambda>_. throw e) (\<lambda>_. throw e))
           (\<lambda>_.
         bindE (sendVerificationEmail env (u_email user) code) (\<lambda>_.
         bindE (Issue env (u_id user) (u_email user) (u_role user) scope_verify (a_verify_ttl env)) (\<lambda>(token, expires).
         ret \<lparr>as_token = token, as_refresh_token = [], as_expires_at = format_rfc3339 expires,
              as_user = profileOf env user\<rparr>)))))))))))"

definition SignIn :: "auth_env \<Rightarrow> string \<Rightarrow> string \<Rightarrow> auth_session request" where
  "SignIn env email password =
     attempt (GetUserByEmail (a_lower env (trim_space email)))
       (\<lambda>e. throw (if e = ErrNoRows then ErrInvalidCredentials else e))
       (\<lambda>user.
          bindE (failIf (u_password_hash user = no_password_hash) ErrInvalidCredentials) (\<lambda>_.
          bindE (failIf (\<not> a_matches env (u_password_hash user) password) ErrInvalidCredentials) (\<lambda>_.
          bindE (failIf (\<not> u_email_verified user) ErrEmailNotVerified) (\<lambda>_.
          openSession env user None))))"

section \<open>Google\<close>

record google_identity =
  gi_subject :: string
  gi_email :: string
  gi_name :: string

definition issuedByGoogle :: "string \<Rightarrow> bool" where
  "issuedByGoogle iss \<longleftrightarrow> iss = ''https://accounts.google.com'' \<or> iss = ''accounts.google.com''"

definition VerifyGoogle :: "auth_env \<Rightarrow> (string \<Rightarrow> go_error + google_claims) \<Rightarrow> string \<Rightarrow> google_identity request" where
  "VerifyGoogle env parse raw =
     (case parse raw of Inl e \<Rightarrow> throw (if e = ErrGoogleKeysUnavailable then e else ErrInvalidGoogleToken)
      | Inr c \<Rightarrow>
          (let email = a_lower env (trim_space (gc_email c))
           in if \<not> issuedByGoogle (gc_issuer c) then throw ErrInvalidGoogleToken
              else if email = [] \<or> \<not> gc_email_verified c then throw ErrInvalidGoogleToken
              else ret \<lparr>gi_subject = gc_subject c, gi_email = email, gi_name = trim_space (gc_name c)\<rparr>))"

definition verified_account :: "user \<Rightarrow> user request" where
  "verified_account user = (if u_email_verified user then ret user else VerifyUserEmail (u_id user))"

definition createGoogleUser :: "google_identity \<Rightarrow> string \<Rightarrow> user request" where
  "createGoogleUser g role =
     (let trimmed = trim_space (gi_name g);
          name = (if trimmed = [] then takeWhile (\<lambda>c. c \<noteq> CHR ''@'') (gi_email g) else trimmed)
      in attempt (CreateVerifiedUser (gi_email g) no_password_hash name role)
           (\<lambda>e. if e \<noteq> ErrSql UniqueViolation then throw e
                else attempt (GetUserByEmail (gi_email g))
                       (\<lambda>e. throw (if e = ErrNoRows then ErrInvalidCredentials else e))
                       verified_account)
           ret)"

definition SignInWithGoogle :: "auth_env \<Rightarrow> string \<Rightarrow> string \<Rightarrow> auth_session request" where
  "SignInWithGoogle env id_token role_in =
     (case a_google env of None \<Rightarrow> throw ErrGoogleAuthDisabled
      | Some parse \<Rightarrow>
          let role = (if role_in = [] then role_user else role_in) in
          bindE (failIf (role \<noteq> role_user \<and> role \<noteq> role_coach) ErrInvalidInput) (\<lambda>_.
          bindE (VerifyGoogle env parse id_token) (\<lambda>g.
          bindE (attempt (GetUserByEmail (gi_email g))
                   (\<lambda>e. if e = ErrNoRows then createGoogleUser g role else throw e)
                   verified_account) (\<lambda>user.
          openSession env user None))))"

section \<open>Email verification\<close>

definition recordFailedAttempt :: "string \<Rightarrow> unit request" where
  "recordFailedAttempt user_id =
     bindE (IncrementAttempts user_id) (\<lambda>count.
     if max_verification_attempts \<le> count then InvalidateCode user_id else ret ())"

definition ownsBearer :: "auth_env \<Rightarrow> instant \<Rightarrow> uuid \<Rightarrow> string \<Rightarrow> bool" where
  "ownsBearer env now user_id bearer \<longleftrightarrow>
     bearer \<noteq> [] \<and>
     (case Parse env now bearer of None \<Rightarrow> False | Some c \<Rightarrow> claims_user env c = Some user_id)"

definition check_code :: "auth_env \<Rightarrow> user \<Rightarrow> string \<Rightarrow> user request" where
  "check_code env user code =
     (let user_id = x_uuid_text env (u_id user)
      in bindE (GetCode user_id) (\<lambda>(stored, _).
         if stored = [] \<or> stored \<noteq> trim_space code
         then bindE (recordFailedAttempt user_id) (\<lambda>_. throw ErrInvalidCode)
         else bindE (VerifyUserEmail (u_id user)) (\<lambda>user.
              attempt (InvalidateCode user_id) (\<lambda>_. ret user) (\<lambda>_. ret user))))"

definition VerifyEmail :: "auth_env \<Rightarrow> string \<Rightarrow> string \<Rightarrow> string \<Rightarrow> auth_session request" where
  "VerifyEmail env email code bearer =
     attempt (GetUserByEmail (a_lower env (trim_space email)))
       (\<lambda>e. throw (if e = ErrNoRows then ErrInvalidCode else e))
       (\<lambda>user.
          bindE (if u_email_verified user then ret user else check_code env user code) (\<lambda>user.
          bindE (asks w_now) (\<lambda>now.
          if \<not> ownsBearer env now (u_id user) bearer
          then ret \<lparr>as_token = [], as_refresh_token = [], as_expires_at = [], as_user = profileOf env user\<rparr>
          else openSession env user None)))"

definition ResendVerification :: "auth_env \<Rightarrow> string \<Rightarrow> unit request" where
  "ResendVerification env email =
     attempt (GetUserByEmail (a_lower env (trim_space email)))
       (\<lambda>e. if e = ErrNoRows then ret () else throw e)
       (\<lambda>user. if u_email_verified user then ret ()
          else bindE randomCode (\<lambda>code.
               bindE (StoreCode (x_uuid_text env (u_id user)) code) (\<lambda>_.
               sendVerificationEmail env (u_email user) code)))"

section \<open>The account's own pages\<close>

definition Profile :: "auth_env \<Rightarrow> uuid \<Rightarrow> profile request" where
  "Profile env i = bindE (GetUserByID i) (\<lambda>user. ret (profileOf env user))"

definition dating_styles :: "string list" where
  "dating_styles = [''in_person'', ''tinder'', ''hinge'', ''bumble'', ''coffee_meets_bagel'',
     ''match'', ''okcupid'', ''feeld'', ''speed_dating'', ''friends_intro'']"

definition dating_phases :: "string list" where
  "dating_phases = [''opening'', ''first_messages'', ''building_rapport'', ''flirting'',
     ''asking_out'', ''first_date'', ''follow_up'', ''defining_relationship'']"

definition max_dating_preferences_len :: nat where "max_dating_preferences_len = 2000"

text \<open>The loop of \<open>normaliseChoices\<close>: the chosen values, or none when one is unknown.\<close>

fun chosen :: "(string \<Rightarrow> string) \<Rightarrow> string list \<Rightarrow> string list \<Rightarrow> string list option" where
  "chosen lower vocabulary [] = Some []"
| "chosen lower vocabulary (v # vs) =
     (let v' = lower (trim_space v)
      in if v' = [] then chosen lower vocabulary vs
         else if v' \<notin> set vocabulary then None
         else map_option ((#) v') (chosen lower vocabulary vs))"

definition normaliseChoices :: "auth_env \<Rightarrow> string list \<Rightarrow> string list \<Rightarrow> string list option" where
  "normaliseChoices env vs vocabulary =
     map_option (\<lambda>cs. filter (\<lambda>v. v \<in> set cs) vocabulary) (chosen (a_lower env) vocabulary vs)"

record dating_input =
  di_styles :: "string list"
  di_strong :: "string list"
  di_working_on :: "string list"
  di_preferences :: string

definition UpdateDatingProfile :: "auth_env \<Rightarrow> uuid \<Rightarrow> dating_input \<Rightarrow> profile request" where
  "UpdateDatingProfile env i b =
     (case normaliseChoices env (di_styles b) dating_styles of None \<Rightarrow> throw ErrInvalidInput
      | Some styles \<Rightarrow>
     (case normaliseChoices env (di_strong b) dating_phases of None \<Rightarrow> throw ErrInvalidInput
      | Some strong \<Rightarrow>
     (case normaliseChoices env (di_working_on b) dating_phases of None \<Rightarrow> throw ErrInvalidInput
      | Some working \<Rightarrow>
          bindE (failIf (list_ex (\<lambda>p. p \<in> set working) strong) ErrInvalidInput) (\<lambda>_.
          let preferences = trim_space (di_preferences b) in
          bindE (failIf (max_dating_preferences_len < rune_count preferences) ErrInvalidInput) (\<lambda>_.
          bindE (UpdateUserDatingProfile i styles strong working preferences) (\<lambda>user.
          ret (profileOf env user)))))))"

text \<open>
  \<open>DeleteAccount\<close>: recording the deletion is the only step whose failure is reported; the
  others only hasten what the worker does anyway.
\<close>

definition ignore_error :: "'a request \<Rightarrow> unit request" where
  "ignore_error m = attempt m (\<lambda>_. ret ()) (\<lambda>_. ret ())"

definition DeleteAccount :: "auth_env \<Rightarrow> uuid \<Rightarrow> unit request" where
  "DeleteAccount env i =
     bindE (RequestUserDeletion i) (\<lambda>rows.
     if rows = 0 then ret ()
     else bindE (ignore_error (RevokeUserRefreshTokens i)) (\<lambda>_.
          bindE (case a_denylist_ttl env of None \<Rightarrow> ret ()
                 | Some ttl \<Rightarrow> ignore_error (Revoke env ttl i)) (\<lambda>_.
          attempt (Publish (a_deletion_queue env) (DeletionJob (x_uuid_text env i) 0))
            (\<lambda>_. ret ())
            (\<lambda>_. ignore_error (MarkDeletionPublished i)))))"

end
