(* ===== verification/Gateway.thy ===== *)
theory Gateway
  imports Handlers Auth
begin

text \<open>
  The way into the API: the authentication middleware (internal/auth/middleware.go), the rate
  limiter's middleware (internal/auth/ratelimit.go), the auth handlers
  (internal/auth/handler.go) and the routing tree (\<open>newRouter\<close> in cmd/api/main.go).  A
  request comes with the route it matched; theory Routes has the table of endpoints.
\<close>

section \<open>Callers\<close>

record raw_request =
  rq_header :: "string \<Rightarrow> string"
  rq_query :: "string \<Rightarrow> string"
  rq_peer :: string

record principal =
  pr_user_id :: uuid
  pr_email :: string
  pr_role :: string
  pr_scope :: string
  pr_expires_at :: "int option"

definition IsCoach :: "principal \<Rightarrow> bool" where
  "IsCoach p \<longleftrightarrow> pr_role p = role_coach \<or> pr_role p = role_admin"

definition IsAdmin :: "principal \<Rightarrow> bool" where
  "IsAdmin p \<longleftrightarrow> pr_role p = role_admin"

definition bearerToken :: "raw_request \<Rightarrow> string" where
  "bearerToken r =
     (let raw = trim_space (trim_prefix (rq_header r ''Authorization'') ''Bearer'')
      in if raw = [] then rq_query r ''token'' else raw)"

definition principal_of :: "claims \<Rightarrow> uuid \<Rightarrow> principal" where
  "principal_of c i =
     \<lparr>pr_user_id = i, pr_email = cl_email c, pr_role = cl_role c, pr_scope = cl_scope c, pr_expires_at = cl_expires_at c\<rparr>"

section \<open>Middleware\<close>

definition Authenticate :: "auth_env \<Rightarrow> raw_request \<Rightarrow> (principal \<Rightarrow> 'a answer) \<Rightarrow> 'a answer" where
  "Authenticate env r f =
     (let raw = bearerToken r in
      if raw = [] then throw 401
      else bindE (asks w_now) (\<lambda>now.
        case Parse env now raw of None \<Rightarrow> throw 401
        | Some c \<Rightarrow>
            (case claims_user env c of None \<Rightarrow> throw 401
             | Some i \<Rightarrow> f (principal_of c i))))"

definition RequireScope :: "string \<Rightarrow> (principal \<Rightarrow> 'a answer) \<Rightarrow> principal \<Rightarrow> 'a answer" where
  "RequireScope scope f p =
     (if pr_scope p = [] then throw 401 else if pr_scope p \<noteq> scope then throw 403 else f p)"

definition RequireCoach :: "(principal \<Rightarrow> 'a answer) \<Rightarrow> principal \<Rightarrow> 'a answer" where
  "RequireCoach f p = (if \<not> IsCoach p then throw 403 else f p)"

definition RequireAdmin :: "(principal \<Rightarrow> 'a answer) \<Rightarrow> principal \<Rightarrow> 'a answer" where
  "RequireAdmin f p = (if \<not> IsAdmin p then throw 403 else f p)"

text \<open>A limiter that cannot reach Redis lets the request through.\<close>

definition Limited :: "limiter \<Rightarrow> (string \<Rightarrow> string option) \<Rightarrow> raw_request \<Rightarrow> 'a answer \<Rightarrow> 'a answer" where
  "Limited l split_host_port r next =
     attempt (Allow l (ClientIP split_host_port (rq_header r) (rq_peer r)))
       (\<lambda>_. next)
       (\<lambda>allowed. if \<not> allowed then throw 429 else next)"

section \<open>The auth handlers\<close>

definition answer_with :: "(go_error \<Rightarrow> nat) \<Rightarrow> nat \<Rightarrow> 'a request \<Rightarrow> 'a answer" where
  "answer_with status_of status m = attempt m (\<lambda>e. throw (status_of e)) (\<lambda>x. ret (status, x))"

definition signUp_handler :: "auth_env \<Rightarrow> signup_input option \<Rightarrow> auth_session answer" where
  "signUp_handler env body =
     with_body body (\<lambda>b. answer_with
       (\<lambda>e. if e = ErrInvalidInput then 400 else if e = ErrEmailTaken then 409 else 500) 201 (SignUp env b))"

definition signIn_handler :: "auth_env \<Rightarrow> (string \<times> string) option \<Rightarrow> auth_session answer" where
  "signIn_handler env body =
     with_body body (\<lambda>(email, password). answer_with
       (\<lambda>e. if e = ErrInvalidCredentials then 401 else if e = ErrEmailNotVerified then 403 else 500)
       200 (SignIn env email password))"

definition signInWithGoogle_handler :: "auth_env \<Rightarrow> (string \<times> string) option \<Rightarrow> auth_session answer" where
  "signInWithGoogle_handler env body =
     with_body body (\<lambda>(id_token, role).
       if id_token = [] then throw 400
       else answer_with
         (\<lambda>e. if e = ErrGoogleAuthDisabled then 501
              else if e = ErrInvalidInput then 400
              else if e = ErrInvalidGoogleToken \<or> e = ErrInvalidCredentials then 401
              else if e = ErrGoogleKeysUnavailable then 503
              else 500)
         200 (SignInWithGoogle env id_token role))"

definition refresh_handler :: "auth_env \<Rightarrow> string option \<Rightarrow> auth_session answer" where
  "refresh_handler env body =
     with_body body (\<lambda>token. answer_with (\<lambda>e. if e = ErrInvalidRefreshToken then 401 else 500) 200 (Refresh env token))"

definition verify_handler :: "auth_env \<Rightarrow> raw_request \<Rightarrow> (string \<times> string) option \<Rightarrow> auth_session answer" where
  "verify_handler env r body =
     with_body body (\<lambda>(email, code). answer_with (\<lambda>e. if e = ErrInvalidCode then 400 else 500)
       200 (VerifyEmail env email code (bearerToken r)))"

definition resendVerification_handler :: "auth_env \<Rightarrow> string option \<Rightarrow> unit answer" where
  "resendVerification_handler env body =
     with_body body (\<lambda>email. answer_with (\<lambda>_. 500) 202 (ResendVerification env email))"

definition me_handler :: "auth_env \<Rightarrow> principal option \<Rightarrow> profile answer" where
  "me_handler env p =
     (case p of None \<Rightarrow> throw 401 | Some p \<Rightarrow> answer_with (\<lambda>_. 500) 200 (Profile env (pr_user_id p)))"

definition updateMe_handler :: "auth_env \<Rightarrow> principal option \<Rightarrow> dating_input option \<Rightarrow> profile answer" where
  "updateMe_handler env p body =
     (case p of None \<Rightarrow> throw 401
      | Some p \<Rightarrow> with_body body (\<lambda>b. answer_with (\<lambda>e. if e = ErrInvalidInput then 400 else 500)
          200 (UpdateDatingProfile env (pr_user_id p) b)))"

definition deleteMe_handler :: "auth_env \<Rightarrow> principal option \<Rightarrow> unit answer" where
  "deleteMe_handler env p =
     (case p of None \<Rightarrow> throw 401 | Some p \<Rightarrow> answer_with (\<lambda>_. 500) 202 (DeleteAccount env (pr_user_id p)))"

section \<open>The routing tree\<close>

text \<open>
  The groups of routes that \<open>newRouter\<close> and the \<open>Routes\<close> of the auth handler mount, and the
  chain of middleware in front of each.  The handler \<open>f\<close> finds the principal on the context,
  if the chain put one there.
\<close>

datatype route =
    Healthz
  | AuthPublic
  | AuthPrivate
  | BookingPublic
  | CoachingRoutes
  | ChatRoutes
  | AnalysisRoutes
  | CoachRoutes
  | AdminRoutes

definition private_group :: "auth_env \<Rightarrow> raw_request \<Rightarrow> (principal \<Rightarrow> 'a answer) \<Rightarrow> 'a answer" where
  "private_group env r f = Authenticate env r (RequireScope scope_session f)"

fun newRouter :: "auth_env \<Rightarrow> limiter \<Rightarrow> (string \<Rightarrow> string option) \<Rightarrow> route \<Rightarrow> raw_request \<Rightarrow>
    (principal option \<Rightarrow> 'a answer) \<Rightarrow> 'a answer" where
  "newRouter env l split Healthz r f = f None"
| "newRouter env l split AuthPublic r f = Limited l split r (f None)"
| "newRouter env l split AuthPrivate r f = Authenticate env r (\<lambda>p. f (Some p))"
| "newRouter env l split BookingPublic r f = f None"
| "newRouter env l split CoachingRoutes r f = private_group env r (\<lambda>p. f (Some p))"
| "newRouter env l split ChatRoutes r f = private_group env r (\<lambda>p. f (Some p))"
| "newRouter env l split AnalysisRoutes r f = private_group env r (\<lambda>p. f (Some p))"
| "newRouter env l split CoachRoutes r f = private_group env r (RequireCoach (\<lambda>p. f (Some p)))"
| "newRouter env l split AdminRoutes r f = private_group env r (RequireAdmin (\<lambda>p. f (Some p)))"

end
