(* ===== verification/Outbox_Properties.thy ===== *)
theory Outbox_Properties
  imports Outbox Scenario
begin

text \<open>
  What a pass of the mail relay does, how long a mail is retried, and what a display name can
  do to the headers of a mail.
\<close>

definition relay_interval :: int where "relay_interval = seconds 5"

text \<open>
  The backoff doubles from ten seconds up to an hour.  The 31 waits between the 32 attempts
  come to 23 hours and 25 minutes, and with a relay tick of at most five seconds added to
  each they still stay below a day, although the comment on \<open>MaxAttempts\<close> says that the
  attempts span more than one.
\<close>

theorem retry_schedule:
  "(\<forall>n. retryDelay (int n) = min (seconds 10 * 2 ^ n) (hours 1)) \<and>
   sum_list (map (\<lambda>n. retryDelay (int n)) [0..<nat max_attempts - 1]) = seconds 84310 \<and>
   seconds 84310 + 31 * relay_interval < hours 24"
proof (intro conjI allI)
  show closed: "retryDelay (int n) = min (seconds 10 * 2 ^ n) (hours 1)" for n
    by (simp add: retryDelay_power min_retry_delay_def max_retry_delay_def)
  have "[0..<nat max_attempts - 1] = [0,1,2,3,4,5,6,7,8,9,10,11,12,13,14,15,16,17,18,19,20,21,22,23,24,25,26,27,28,29,30]"
    by (simp add: max_attempts_def upt_rec)
  then show "sum_list (map (\<lambda>n. retryDelay (int n)) [0..<nat max_attempts - 1]) = seconds 84310"
    by (simp only: closed list.map sum_list.Cons sum_list.Nil) (simp add: seconds_def hours_def)
  show "seconds 84310 + 31 * relay_interval < hours 24"
    by (simp add: relay_interval_def seconds_def hours_def)
qed

section \<open>A pass of the relay\<close>

text \<open>
  One attempt, given what left the process before: whether the server takes the mail and the error
  it answers, the signal of a mail taken, and what becomes of the row.
\<close>

definition dispatch :: "mailer \<Rightarrow> signal list \<Rightarrow> email \<Rightarrow> bool \<times> string option" where
  "dispatch mx ss e = n_deliver mx ss (e_to e) (encode (n_boundary mx ss) (n_mail_from mx) (message_of e))"

definition mailed_by :: "mailer \<Rightarrow> signal list \<Rightarrow> email \<Rightarrow> signal list" where
  "mailed_by mx ss e = (if fst (dispatch mx ss e) then [Mailed (message_of e)] else [])"

definition attempted :: "mailer \<Rightarrow> instant \<Rightarrow> signal list \<Rightarrow> email \<Rightarrow> email" where
  "attempted mx now ss e = (case snd (dispatch mx ss e) of
     None \<Rightarrow> sent_set now e
   | Some err \<Rightarrow> failed_set (''send mail: '' @ err) (retryDelay (e_attempts e)) now e)"

text \<open>An error text the database does not take.\<close>

definition unreadable :: "mailer \<Rightarrow> signal list \<Rightarrow> email \<Rightarrow> bool" where
  "unreadable mx ss e = (case snd (dispatch mx ss e) of None \<Rightarrow> False | Some err \<Rightarrow> \<not> storable (''send mail: '' @ err))"

text \<open>The mails of a pass, each with what left the process before its turn.\<close>

fun turns :: "mailer \<Rightarrow> signal list \<Rightarrow> email list \<Rightarrow> (email \<times> signal list) list" where
  "turns mx ss [] = []"
| "turns mx ss (e # es) = (e, ss) # turns mx (ss @ mailed_by mx ss e) es"

definition recorded_turns :: "mailer \<Rightarrow> signal list \<Rightarrow> email list \<Rightarrow> (email \<times> signal list) list" where
  "recorded_turns mx ss es = takeWhile (\<lambda>(e, ss). \<not> unreadable mx ss e) (turns mx ss es)"

definition sent_turns :: "mailer \<Rightarrow> (email \<times> signal list) list \<Rightarrow> nat" where
  "sent_turns mx ts = length (filter (\<lambda>(e, ss). snd (dispatch mx ss e) = None) ts)"

definition becomes_after :: "mailer \<Rightarrow> instant \<Rightarrow> (email \<times> signal list) list \<Rightarrow> email \<Rightarrow> email" where
  "becomes_after mx now ts e = (case map_of ts e of None \<Rightarrow> e | Some ss \<Rightarrow> attempted mx now ss e)"

lemma turns_mails [simp]: "map fst (turns mx ss es) = es" "length (turns mx ss es) = length es"
  by (induction es arbitrary: ss) auto

lemma recorded_turns_simps [simp]:
  "recorded_turns mx ss [] = []"
  "recorded_turns mx ss (e # es) = (if unreadable mx ss e then [] else (e, ss) # recorded_turns mx (ss @ mailed_by mx ss e) es)"
  by (simp_all add: recorded_turns_def)

lemma recorded_mem: "(e, ss') \<in> set (recorded_turns mx ss es) \<Longrightarrow> e \<in> set es"
  by (induction es arbitrary: ss) (auto split: if_splits)

lemma recorded_none: "e \<notin> set es \<Longrightarrow> map_of (recorded_turns mx ss es) e = None"
  by (metis map_of_SomeD not_None_eq recorded_mem)

lemma recorded_length: "length (recorded_turns mx ss es) \<le> length es"
  unfolding recorded_turns_def by (metis length_takeWhile_le turns_mails(2))

lemma attempted_id [simp]: "e_id (attempted mx now ss e) = e_id e"
  by (simp add: attempted_def sent_set_def failed_set_def split: option.splits)

lemma update_only_row:
  assumes "distinct (map e_id es)" "row \<in> set es" "e_sent_at row = None"
  shows "update_where (unsent (e_id row)) f es = map (\<lambda>e. if e = row then f row else e) es"
  unfolding update_where_def
  by (rule map_cong [OF refl]) (use assms in \<open>auto simp: unsent_def dest: distinct_keys_eq\<close>)

lemma Send_delivery:
  assumes "n_smtp_host mx \<noteq> []"
  shows "Send mx (message_of e) w =
    (case snd (dispatch mx (w_signals w) e) of None \<Rightarrow> Inr () | Some err \<Rightarrow> Inl (''send mail: '' @ err),
     w\<lparr>w_signals := w_signals w @ mailed_by mx (w_signals w) e\<rparr>)"
proof -
  have "mm_to (message_of e) = e_to e" by (simp add: message_of_def)
  then show ?thesis
    using assms by (auto simp: Send_def dispatch_def mailed_by_def Let_def split: prod.splits option.splits)
qed

text \<open>One attempt on the first row, then the rest.\<close>

definition row_becomes :: "email \<Rightarrow> email \<Rightarrow> world \<Rightarrow> world" where
  "row_becomes row x w = w\<lparr>w_db := (w_db w)\<lparr>d_outbox := map (\<lambda>e. if e = row then x else e) (d_outbox (w_db w))\<rparr>\<rparr>"

lemma drain_step:
  assumes calm: "w_sched w = []" and ids: "distinct (map e_id (d_outbox (w_db w)))"
    and row: "row \<in> set (d_outbox (w_db w))" "e_sent_at row = None" and smtp: "n_smtp_host mx \<noteq> []"
  defines "ss \<equiv> w_signals w"
  defines "w1 \<equiv> w\<lparr>w_signals := ss @ mailed_by mx ss row\<rparr>"
  shows "drain_each mx k (row # rows) w =
    (if unreadable mx ss row then (Inr (k, Some ErrDriver), w1)
     else drain_each mx (if snd (dispatch mx ss row) = None then Suc k else k) rows
            (row_becomes row (attempted mx (w_dbnow w) ss row) w1))"
proof -
  have calm1: "w_sched w1 = []" and same: "w_db w1 = w_db w" "w_dbnow w1 = w_dbnow w"
    using calm by (simp_all add: w1_def)
  have send: "Send mx (message_of row) w =
      (case snd (dispatch mx ss row) of None \<Rightarrow> Inr () | Some err \<Rightarrow> Inl (''send mail: '' @ err), w1)"
    using Send_delivery [OF smtp, of row w] by (simp add: ss_def w1_def)
  note one = update_outbox_calm [OF calm1] update_only_row [OF ids row] row_becomes_def attempt_def same
  show ?thesis
  proof (cases "snd (dispatch mx ss row)")
    case None
    then show ?thesis by (simp add: one send MarkEmailSent_def unreadable_def attempted_def)
  next
    case (Some err)
    then show ?thesis
      by (simp add: one send MarkEmailFailed_def with_text_def unreadable_def attempted_def query_calm [OF calm1] ret_def
          del: storable.simps)
  qed
qed

lemma becomes_after_first:
  assumes "distinct (map e_id (row # rows))" and "e_id x = e_id row"
  shows "map (becomes_after mx now (recorded_turns mx ss' rows)) (map (\<lambda>e. if e = row then x else e) es) =
    map (\<lambda>e. if e = row then x else becomes_after mx now (recorded_turns mx ss' rows) e) es"
proof -
  have "x \<notin> set rows" using assms by (auto simp: image_iff)
  then have "becomes_after mx now (recorded_turns mx ss' rows) x = x" by (simp add: becomes_after_def recorded_none)
  then show ?thesis by simp
qed

lemma drain_each_calm:
  assumes "w_sched w = []" and "distinct (map e_id (d_outbox (w_db w)))" and "distinct (map e_id rows)"
    and "set rows \<subseteq> set (d_outbox (w_db w))" and "\<forall>r \<in> set rows. e_sent_at r = None" and smtp: "n_smtp_host mx \<noteq> []"
  shows "\<exists>w'. drain_each mx k rows w =
      (Inr (k + sent_turns mx (recorded_turns mx (w_signals w) rows),
            if length (recorded_turns mx (w_signals w) rows) = length rows then None else Some ErrDriver), w') \<and>
    w_db w' = (w_db w)\<lparr>d_outbox := map (becomes_after mx (w_dbnow w) (recorded_turns mx (w_signals w) rows)) (d_outbox (w_db w))\<rparr> \<and>
    set (w_signals w) \<subseteq> set (w_signals w') \<and>
    (\<forall>(e, ss) \<in> set (recorded_turns mx (w_signals w) rows). set (mailed_by mx ss e) \<subseteq> set (w_signals w'))"
  using assms(1-5)
proof (induction rows arbitrary: w k)
  case Nil
  have "becomes_after mx now [] = (\<lambda>e. e)" for now by (rule ext) (simp add: becomes_after_def)
  then show ?case by (simp add: ret_def sent_turns_def)
next
  case (Cons row rows)
  let ?ss = "w_signals w" and ?now = "w_dbnow w"
  let ?x = "attempted mx ?now ?ss row" and ?w1 = "w\<lparr>w_signals := ?ss @ mailed_by mx ?ss row\<rparr>"
  have row: "row \<in> set (d_outbox (w_db w))" "e_sent_at row = None" and notin: "row \<notin> set rows" using Cons.prems by auto
  note step = drain_step [OF Cons.prems(1,2) row smtp, of k rows]
  show ?case
  proof (cases "unreadable mx ?ss row")
    case True
    have "becomes_after mx now [] = (\<lambda>e. e)" for now by (rule ext) (simp add: becomes_after_def)
    with step True show ?thesis by (simp add: sent_turns_def)
  next
    case False
    let ?w2 = "row_becomes row ?x ?w1" and ?k = "if snd (dispatch mx ?ss row) = None then Suc k else k"
    let ?ts = "recorded_turns mx (?ss @ mailed_by mx ?ss row) rows"
    have w2: "w_sched ?w2 = []" "w_signals ?w2 = ?ss @ mailed_by mx ?ss row" "w_dbnow ?w2 = ?now"
      "d_outbox (w_db ?w2) = map (\<lambda>e. if e = row then ?x else e) (d_outbox (w_db w))"
      using Cons.prems(1) by (simp_all add: row_becomes_def)
    have "distinct (map e_id (d_outbox (w_db ?w2)))"
    proof -
      have "e_id (if e = row then ?x else e) = e_id e" for e by simp
      then show ?thesis using Cons.prems(2) w2(4) by (simp add: comp_def)
    qed
    moreover have "distinct (map e_id rows)" "\<forall>r \<in> set rows. e_sent_at r = None"
      "set rows \<subseteq> set (d_outbox (w_db ?w2))"
      using Cons.prems(3-5) notin w2(4) by (auto simp: image_iff)
    ultimately obtain w' where run: "drain_each mx ?k rows ?w2 =
        (Inr (?k + sent_turns mx ?ts, if length ?ts = length rows then None else Some ErrDriver), w')"
      and db: "w_db w' = (w_db ?w2)\<lparr>d_outbox := map (becomes_after mx ?now ?ts) (d_outbox (w_db ?w2))\<rparr>"
      and sig: "set (w_signals ?w2) \<subseteq> set (w_signals w')"
        "\<forall>(e, ss) \<in> set ?ts. set (mailed_by mx ss e) \<subseteq> set (w_signals w')"
      using Cons.IH [of ?w2 ?k] w2 by auto
    have all: "recorded_turns mx ?ss (row # rows) = (row, ?ss) # ?ts" using False by simp
    have "becomes_after mx ?now ((row, ?ss) # ?ts) = (\<lambda>e. if e = row then ?x else becomes_after mx ?now ?ts e)"
      by (rule ext) (simp add: becomes_after_def)
    then have rows: "w_db w' = (w_db w)\<lparr>d_outbox := map (becomes_after mx ?now ((row, ?ss) # ?ts)) (d_outbox (w_db w))\<rparr>"
      using db becomes_after_first [OF Cons.prems(3), of ?x mx ?now] w2(4) by (simp add: row_becomes_def)
    have count: "?k + sent_turns mx ?ts = k + sent_turns mx ((row, ?ss) # ?ts)"
      by (simp add: sent_turns_def)
    show ?thesis
      using step False run rows count sig w2(2) unfolding all by (intro exI [of _ w']) auto
  qed
qed

text \<open>
  One pass of the relay without database faults, over any notifier: the mails it takes, and what
  becomes of each.  Theory Smtp states it for the notifier the program has.
\<close>

lemma drain_attempts_each_due_mail:
  assumes calm: "w_sched w = []" and ids: "distinct (map e_id (d_outbox (w_db w)))" and smtp: "n_smtp_host mx \<noteq> []"
  defines "batch \<equiv> due_emails email_batch max_attempts (w_dbnow w) (d_outbox (w_db w))"
  defines "tried \<equiv> recorded_turns mx (w_signals w) batch"
  shows "\<exists>w'. DrainEmails mx w =
      (Inr (sent_turns mx tried, if length tried = length batch then None else Some ErrDriver), w') \<and>
    w_db w' = (w_db w)\<lparr>d_outbox := map (becomes_after mx (w_dbnow w) tried) (d_outbox (w_db w))\<rparr> \<and>
    (\<forall>(e, ss) \<in> set tried. set (mailed_by mx ss e) \<subseteq> set (w_signals w'))"
proof -
  let ?es = "d_outbox (w_db w)" and ?p = "pending_email max_attempts (w_dbnow w)"
  have sub: "set batch \<subseteq> {e \<in> set ?es. ?p e}" by (auto simp: batch_def due_emails_def dest!: in_set_takeD)
  have "distinct (map e_id (sort_key e_next_attempt_at (filter ?p ?es)))"
    using ids by (auto simp: distinct_map intro: inj_on_subset)
  then have dist: "distinct (map e_id batch)" by (simp add: batch_def due_emails_def take_map [symmetric])
  have "set batch \<subseteq> set ?es" "\<forall>r \<in> set batch. e_sent_at r = None" using sub by (auto simp: pending_email_def)
  from drain_each_calm [OF calm ids dist this smtp, of 0] have run: "\<exists>w'. drain_each mx 0 batch w =
      (Inr (sent_turns mx tried, if length tried = length batch then None else Some ErrDriver), w') \<and>
    w_db w' = (w_db w)\<lparr>d_outbox := map (becomes_after mx (w_dbnow w) tried) (d_outbox (w_db w))\<rparr> \<and>
    (\<forall>(e, ss) \<in> set tried. set (mailed_by mx ss e) \<subseteq> set (w_signals w'))"
    unfolding tried_def add_0 by blast
  have "DrainEmails mx w = drain_each mx 0 batch w"
    using calm by (simp add: DrainEmails_def PendingEmails_def query_calm attempt_def batch_def)
  with run show ?thesis by simp
qed

text \<open>The batch: the mails that are due, the longest waiting first, at most a hundred.\<close>

lemma due_emails_batch:
  fixes es :: "email list" and now :: instant
  defines "p \<equiv> pending_email max_attempts now" and "batch \<equiv> due_emails email_batch max_attempts now es"
  shows "set batch \<subseteq> {e \<in> set es. p e}" "sorted (map e_next_attempt_at batch)"
    "length batch = min email_batch (length (filter p es))"
    "e \<in> set es - set batch \<Longrightarrow> p e \<Longrightarrow> b \<in> set batch \<Longrightarrow> e_next_attempt_at b \<le> e_next_attempt_at e"
proof -
  let ?sorted = "sort_key e_next_attempt_at (filter p es)"
  have batch: "batch = take email_batch ?sorted" by (simp add: batch_def p_def due_emails_def)
  show "set batch \<subseteq> {e \<in> set es. p e}" by (auto simp: batch dest!: in_set_takeD)
  have sorted: "sorted (map e_next_attempt_at ?sorted)" by simp
  then show "sorted (map e_next_attempt_at batch)" unfolding batch take_map [symmetric] by (rule sorted_wrt_take)
  show "length batch = min email_batch (length (filter p es))" by (simp add: batch min.commute)
  show "e_next_attempt_at b \<le> e_next_attempt_at e" if "e \<in> set es - set batch" "p e" "b \<in> set batch"
  proof -
    have "e \<in> set ?sorted" using that by simp
    then have "e \<in> set (drop email_batch ?sorted)" using that append_take_drop_id [of email_batch ?sorted]
      by (metis DiffD2 UnE batch set_append)
    moreover have "sorted_wrt (\<lambda>a b. e_next_attempt_at a \<le> e_next_attempt_at b) (batch @ drop email_batch ?sorted)"
      using sorted by (simp add: sorted_map batch)
    ultimately show ?thesis using that(3) unfolding sorted_wrt_append by blast
  qed
qed

section \<open>A reply that blocks the queue\<close>

text \<open>The mail that has waited longest is first at every later pass too.\<close>

lemma sort_key_first:
  assumes "sort_key k xs = x # ys"
  shows "x \<in> set xs" "\<And>y. y \<in> set xs \<Longrightarrow> k x \<le> k y" "\<exists>zs. filter (\<lambda>y. k y = k x) xs = x # zs"
proof -
  have set: "set xs = set (x # ys)" using assms by (metis set_sort)
  then show "x \<in> set xs" by simp
  have "sorted (map k (x # ys))" using sorted_sort_key [of k xs] assms by simp
  then show "k x \<le> k y" if "y \<in> set xs" for y using that set by auto
  have "filter (\<lambda>y. k y = k x) (sort_key k xs) = filter (\<lambda>y. k y = k x) xs" by (rule sort_key_stable)
  then show "\<exists>zs. filter (\<lambda>y. k y = k x) xs = x # zs" using assms by (metis (mono_tags) filter.simps(2))
qed

lemma sort_key_firstI:
  assumes "filter (\<lambda>y. k y = k x) xs = x # zs" and "\<And>y. y \<in> set xs \<Longrightarrow> k x \<le> k y"
  shows "\<exists>ys. sort_key k xs = x # ys"
proof -
  have "x \<in> set (filter (\<lambda>y. k y = k x) xs)" using assms(1) by simp
  then have "x \<in> set xs" by simp
  then obtain z ys where z: "sort_key k xs = z # ys" by (cases "sort_key k xs") (auto dest: arg_cong [of _ _ set])
  note first = sort_key_first [OF z]
  have same: "k z = k x" using first(1) first(2) [OF \<open>x \<in> set xs\<close>] assms(2) [of z] by simp
  from first(3) obtain zs' where "filter (\<lambda>y. k y = k z) xs = z # zs'" by blast
  then have "z # zs' = x # zs" unfolding same assms(1) by simp
  with z show ?thesis by simp
qed

lemma first_due_stays:
  assumes "due_emails (Suc n) attempts now es = e # rest" and "now \<le> later"
  shows "\<exists>rest'. due_emails (Suc n) attempts later es = e # rest'"
proof -
  let ?k = e_next_attempt_at
  have "take (Suc n) (sort_key ?k (filter (pending_email attempts now) es)) = e # rest"
    using assms(1) by (simp only: due_emails_def)
  then obtain ys where ys: "sort_key ?k (filter (pending_email attempts now) es) = e # ys"
    by (cases "sort_key ?k (filter (pending_email attempts now) es)") simp_all
  note first = sort_key_first [OF ys]
  have e: "pending_email attempts now e" using first(1) by simp
  have "filter (\<lambda>y. ?k y = ?k e) (filter (pending_email attempts later) es) =
      filter (\<lambda>y. ?k y = ?k e) (filter (pending_email attempts now) es)"
    unfolding filter_filter by (rule filter_cong [OF refl]) (use e assms(2) in \<open>auto simp: pending_email_def\<close>)
  with first(3) obtain zs where zs: "filter (\<lambda>y. ?k y = ?k e) (filter (pending_email attempts later) es) = e # zs" by auto
  have "?k e \<le> ?k y" if "y \<in> set (filter (pending_email attempts later) es)" for y
  proof (cases "pending_email attempts now y")
    case True
    then show ?thesis using first(2) [of y] that by simp
  next
    case False
    then show ?thesis using that e by (auto simp: pending_email_def)
  qed
  with sort_key_firstI [OF zs] show ?thesis by (auto simp: due_emails_def)
qed

text \<open>
  A mail server whose refusal is not valid UTF-8 blocks the outbox: the error cannot be recorded,
  so the pass ends with nothing changed, neither the mail's attempts nor its next attempt, and
  at every later pass the same mail is first again and no other mail is tried.
\<close>

theorem unreadable_reply_blocks:
  assumes calm: "w_sched w = []" and ids: "distinct (map e_id (d_outbox (w_db w)))" and smtp: "n_smtp_host mx \<noteq> []"
    and first: "due_emails email_batch max_attempts (w_dbnow w) (d_outbox (w_db w)) = e # rest"
    and reply: "unreadable mx (w_signals w) e" "\<not> fst (dispatch mx (w_signals w) e)" and later: "w_dbnow w \<le> later"
  shows "DrainEmails mx (w\<lparr>w_dbnow := later\<rparr>) = (Inr (0, Some ErrDriver), w\<lparr>w_dbnow := later\<rparr>)"
proof -
  let ?w = "w\<lparr>w_dbnow := later\<rparr>"
  have batch: "email_batch = Suc 99" by (simp add: email_batch_def)
  obtain rest' where due: "due_emails email_batch max_attempts later (d_outbox (w_db w)) = e # rest'"
    using first_due_stays [OF first [unfolded batch] later] batch by auto
  then have "e \<in> set (due_emails email_batch max_attempts later (d_outbox (w_db w)))" by simp
  then have e: "e \<in> set (d_outbox (w_db ?w))" "e_sent_at e = None"
    by (auto simp: due_emails_def pending_email_def dest!: in_set_takeD)
  have "drain_each mx 0 (e # rest') ?w = (Inr (0, Some ErrDriver), ?w)"
    using drain_step [of ?w e mx 0 rest'] calm ids e smtp reply by (simp add: mailed_by_def)
  then show ?thesis using calm due by (simp add: DrainEmails_def PendingEmails_def query_calm attempt_def)
qed

section \<open>A mailer and mails to try it on\<close>

definition outgoing :: mailer where
  "outgoing = \<lparr>n_smtp_host = ''smtp'', n_mail_from = ''no-reply@app'', n_boundary = (\<lambda>_. ''b1''),
     n_deliver = (\<lambda>_ to _. if to = ''bad'' then (False, Some ''550 no such user'') else (True, None))\<rparr>"

definition queued_mail :: "uuid \<Rightarrow> string \<Rightarrow> int \<Rightarrow> instant \<Rightarrow> email" where
  "queued_mail i to tried next =
     \<lparr>e_id = i, e_to = to, e_subject = ''Hi'', e_body = ''text'', e_ics = None, e_attempts = tried,
      e_last_error = [], e_next_attempt_at = next, e_created_at = 0, e_sent_at = None\<rparr>"

definition mail_world :: world where
  "mail_world = world_at (start_db\<lparr>d_outbox := [queued_mail 22 ''bad'' 2 5, queued_mail 23 ''eve'' 32 5]\<rparr>) [] monday_8 100"

section \<open>Header lines\<close>

definition bob_parties :: "string \<Rightarrow> parties" where
  "bob_parties name =
     \<lparr>pt_session = new_session 12 11 monday_10 45 [] Pending 7 0, pt_user_email = ''bob@mail'', pt_user_name = name,
      pt_coach_email = ''ann@mail'', pt_coach_name = ''Ann'', pt_coach_timezone = ''UTC''\<rparr>"

text \<open>
  A display name goes into the subject as it is, and \<open>encode\<close> writes the subject as it is:
  a name with a line break in it adds header lines of its owner's choice to the mails about
  the bookings of that account.
\<close>

theorem display_name_injects_header:
  "\<exists>body. encode ''b1'' ''no-reply@app''
       (message_of (email_of (coach_request free_env monday_8 (bob_parties (''Bob'' @ crlf @ ''Bcc: eve@evil'')) ''tok'' False) 21 0)) =
     ''From: no-reply@app'' @ crlf @ ''To: ann@mail'' @ crlf @ ''Subject: Session request from Bob'' @ crlf @
     ''Bcc: eve@evil'' @ crlf @ ''MIME-Version: 1.0'' @ crlf @ body"
  by (simp add: encode_def message_of_def email_of_def coach_request_def Let_def bob_parties_def)

end
