(* ===== verification/Auth_Scenario.thy ===== *)
theory Auth_Scenario
  imports Auth Outbox_Properties
begin

text \<open>
  An auth service for the witnesses: a bcrypt that refuses more than 72 bytes, JWTs that carry
  scope, subject and expiry in the clear, and ASCII lower case.
\<close>

definition jwt_of :: "claims \<Rightarrow> string" where
  "jwt_of c = cl_scope c @ '':'' @ cl_subject c @ '':'' @ pad 12 (case cl_expires_at c of None \<Rightarrow> 0 | Some t \<Rightarrow> t)"

definition read_jwt :: "instant \<Rightarrow> string \<Rightarrow> claims option" where
  "read_jwt now raw =
     (case split_on (CHR '':'') raw of
        [scope, subject, expiry] \<Rightarrow>
          (case atoi expiry of None \<Rightarrow> None
           | Some t \<Rightarrow> if t \<le> unix now then None
               else Some \<lparr>cl_subject = subject, cl_issuer = ''dating-coach-api'', cl_issued_at = 0, cl_expires_at = Some t,
                          cl_role = ''user'', cl_email = [], cl_scope = scope\<rparr>)
      | _ \<Rightarrow> None)"

definition acct_env :: auth_env where
  "acct_env =
     \<lparr>x_provider = disabled, x_hold_ttl = minutes 30, x_app_url = ''https://app'', x_mail_from = ''no-reply@app'',
      x_load_location = (\<lambda>n. if n = ''UTC'' then Some utc else None),
      x_sha256_hex = (\<lambda>t. ''h'' @ t), x_uuid_text = (\<lambda>i. decimal (int i)),
      x_parse_uuid = (\<lambda>t. map_option nat (atoi t)), x_parse_rfc3339 = (\<lambda>_. None), x_parse_url = (\<lambda>_. None),
      a_mailer = outgoing, a_hash = (\<lambda>salt pw. if 72 < length pw then None else Some (''b'' @ pw)),
      a_matches = (\<lambda>h pw. h = ''b'' @ pw), a_valid_address = (\<lambda>a. CHR ''@'' \<in> set a), a_lower = to_lower,
      a_sign = (\<lambda>c. Some (jwt_of c)), a_parse_jwt = read_jwt, a_google = None,
      a_session_ttl = minutes 15, a_verify_ttl = minutes 30, a_refresh_ttl = hours 720,
      a_denylist_ttl = Some (minutes 15), a_deletion_queue = ''account.deletion''\<rparr>"

definition spent_token :: refresh_token where
  "spent_token = \<lparr>t_id = 31, t_user_id = 12, t_token_hash = ''hold'', t_issued_at = 0, t_expires_at = monday_14,
     t_used_at = Some 5, t_family_id = 30\<rparr>"

definition live_token :: refresh_token where
  "live_token = \<lparr>t_id = 32, t_user_id = 12, t_token_hash = ''hnow'', t_issued_at = 5, t_expires_at = monday_14,
     t_used_at = None, t_family_id = 30\<rparr>"

definition token_world :: world where
  "token_world = world_at (start_db\<lparr>d_tokens := [spent_token, live_token]\<rparr>) [] monday_8 100"

end
