(* ===== verification/Token_Properties.thy ===== *)
theory Token_Properties
  imports Auth_Scenario
begin

text \<open>
  Properties of the refresh tokens: what their exchange does, that each is exchanged at most
  once, and what a token of the account is worth when there are none.
\<close>

section \<open>Refresh tokens\<close>

text \<open>Without faults, what issuing a token and opening a session come to.\<close>

definition new_token :: "auth_env \<Rightarrow> world \<Rightarrow> user \<Rightarrow> string \<Rightarrow> uuid \<Rightarrow> uuid \<Rightarrow> refresh_token" where
  "new_token env w user token i family =
     \<lparr>t_id = i, t_user_id = u_id user, t_token_hash = x_sha256_hex env token, t_issued_at = w_dbnow w,
      t_expires_at = w_now w + a_refresh_ttl env, t_used_at = None, t_family_id = family\<rparr>"

lemma CreateRefreshToken_calm:
  "w_sched w = [] \<Longrightarrow> CreateRefreshToken u h e f w =
     (let t = \<lparr>t_id = w_next_id w, t_user_id = u, t_token_hash = h, t_issued_at = w_dbnow w,
               t_expires_at = e, t_used_at = None, t_family_id = f\<rparr>;
          w1 = w\<lparr>w_next_id := Suc (w_next_id w)\<rparr>
      in case tokens_violation (w_db w) (d_tokens (w_db w) @ [t]) of Some v \<Rightarrow> (Inl (ErrSql v), w1)
         | None \<Rightarrow> (Inr t, w1\<lparr>w_db := (w_db w)\<lparr>d_tokens := d_tokens (w_db w) @ [t]\<rparr>\<rparr>))"
  by (simp add: CreateRefreshToken_def fresh_id_def bindE_def query_calm Let_def split: option.splits)

text \<open>The first link of a new family takes an id of its own.\<close>

definition session_claims :: "auth_env \<Rightarrow> world \<Rightarrow> user \<Rightarrow> claims" where
  "session_claims env w user =
     \<lparr>cl_subject = x_uuid_text env (u_id user), cl_issuer = ''dating-coach-api'', cl_issued_at = unix (w_now w),
      cl_expires_at = Some (unix (w_now w + a_session_ttl env)), cl_role = u_role user, cl_email = u_email user,
      cl_scope = scope_session\<rparr>"

lemma openSession_calm:
  assumes calm: "w_sched w = []" and run: "openSession env user family w = (res, w')"
  shows "w_sched w' = [] \<and> w_now w' = w_now w \<and> w_dbnow w' = w_dbnow w \<and> w_in_tx w' = w_in_tx w \<and>
    w_redis w' = w_redis w \<and> w_signals w' = w_signals w \<and>
    (case res of Inl e \<Rightarrow> w_db w' = w_db w \<and> (e = ErrSign \<or> e = ErrRand \<or> (\<exists>v. e = ErrSql v))
     | Inr s \<Rightarrow> (\<exists>ts. w_random w = as_refresh_token s # ts) \<and> a_sign env (session_claims env w user) = Some (as_token s) \<and>
         as_user s = profileOf env user \<and>
         w_db w' = (w_db w)\<lparr>d_tokens := d_tokens (w_db w) @ [new_token env w user (as_refresh_token s)
           (case family of None \<Rightarrow> Suc (w_next_id w) | Some f \<Rightarrow> w_next_id w)
           (case family of None \<Rightarrow> w_next_id w | Some f \<Rightarrow> f)]\<rparr> \<and>
         tokens_violation (w_db w) (d_tokens (w_db w')) = None)"
proof (cases "a_sign env (session_claims env w user)")
  case None
  with run calm show ?thesis
    by (auto simp: openSession_def Issue_def bindE_def asks_def Let_def session_claims_def throw_def)
next
  case sign: (Some raw)
  show ?thesis
  proof (cases "w_random w")
    case Nil
    with run calm sign show ?thesis
      by (auto simp: openSession_def Issue_def bindE_def asks_def Let_def session_claims_def ret_def
          issueRefreshToken_def random_token_def)
  next
    case (Cons tok toks)
    with run calm sign show ?thesis
      by (auto simp: openSession_def Issue_def bindE_def asks_def Let_def session_claims_def ret_def fresh_id_def
          issueRefreshToken_def random_token_def CreateRefreshToken_calm new_token_def split: option.splits if_splits)
  qed
qed


lemma filter_one: "distinct xs \<Longrightarrow> x \<in> set xs \<Longrightarrow> filter (\<lambda>r. r = x) xs = [x]"
  by (induction xs) (auto simp: filter_empty_conv)

text \<open>The session a caller gets when nothing stands in the way.\<close>

definition session_with :: "auth_env \<Rightarrow> world \<Rightarrow> user \<Rightarrow> string \<Rightarrow> string \<Rightarrow> auth_session" where
  "session_with env w user raw refresh =
     \<lparr>as_token = raw, as_refresh_token = refresh, as_expires_at = format_rfc3339 (w_now w + a_session_ttl env),
      as_user = profileOf env user\<rparr>"

lemma session_with_simps [simp]:
  "as_refresh_token (session_with env w user raw refresh) = refresh" "as_token (session_with env w user raw refresh) = raw"
  "as_user (session_with env w user raw refresh) = profileOf env user"
  by (simp_all add: session_with_def)

lemma openSession_succeeds:
  assumes "w_sched w = []" "a_sign env (session_claims env w user) = Some raw" "w_random w = tok # ts"
    and "tokens_violation (w_db w) (d_tokens (w_db w) @ [new_token env w user tok
      (case family of None \<Rightarrow> Suc (w_next_id w) | Some f \<Rightarrow> w_next_id w)
      (case family of None \<Rightarrow> w_next_id w | Some f \<Rightarrow> f)]) = None"
  shows "\<exists>w'. openSession env user family w = (Inr (session_with env w user raw tok), w')"
  using assms
  by (auto simp: openSession_def Issue_def bindE_def asks_def Let_def session_claims_def ret_def fresh_id_def session_with_def
      issueRefreshToken_def random_token_def CreateRefreshToken_calm new_token_def split: option.splits)

text \<open>Spending a token that is still unspent, in a table with unique ids.\<close>

lemma UseRefreshToken_calm:
  assumes calm: "w_sched w = []" and ids: "distinct (map t_id (d_tokens (w_db w)))" and t: "t \<in> set (d_tokens (w_db w))"
  shows "UseRefreshToken (t_id t) w =
    (if t_used_at t = None \<and> w_dbnow w < t_expires_at t
     then (Inr 1, w\<lparr>w_db := (w_db w)\<lparr>d_tokens := update_where (\<lambda>r. r = t) (spent_set (w_dbnow w)) (d_tokens (w_db w))\<rparr>\<rparr>)
     else (Inr 0, w))"
proof -
  let ?ts = "d_tokens (w_db w)"
  have only: "usable (t_id t) (w_dbnow w) r \<longleftrightarrow> r = t \<and> t_used_at t = None \<and> w_dbnow w < t_expires_at t"
    if "r \<in> set ?ts" for r
    using distinct_keys_eq [OF ids that t] by (auto simp: usable_def)
  have "distinct ?ts" using ids by (simp add: distinct_map)
  then have one: "filter (\<lambda>r. r = t) ?ts = [t]" using t by (rule filter_one)
  show ?thesis
  proof (cases "t_used_at t = None \<and> w_dbnow w < t_expires_at t")
    case True
    have "filter (usable (t_id t) (w_dbnow w)) ?ts = filter (\<lambda>r. r = t) ?ts"
      by (rule filter_cong) (use only True in auto)
    moreover have "update_where (usable (t_id t) (w_dbnow w)) f ?ts = update_where (\<lambda>r. r = t) f ?ts" for f
      unfolding update_where_def by (rule map_cong) (use only True in auto)
    ultimately show ?thesis using calm True one by (simp add: UseRefreshToken_def query_calm Let_def)
  next
    case False
    have "filter (usable (t_id t) (w_dbnow w)) ?ts = []" using only False by (auto simp: filter_empty_conv)
    moreover have "update_where (usable (t_id t) (w_dbnow w)) f ?ts = ?ts" for f
      by (rule update_where_none) (use only False in auto)
    ultimately show ?thesis using calm False by (auto simp: UseRefreshToken_def query_calm Let_def)
  qed
qed

lemma tokens_ids: "tokens_violation d ts = None \<Longrightarrow> distinct (map t_id ts) \<and> distinct (map t_token_hash ts)"
  by (auto simp: tokens_violation_def split: if_splits)

text \<open>The transaction that exchanges a usable token.\<close>

lemma refresh_run:
  assumes calm: "w_sched w = []" and ok: "tokens_violation (w_db w) (d_tokens (w_db w)) = None" and raw: "raw \<noteq> []"
    and t: "find (\<lambda>t. t_token_hash t = x_sha256_hex env raw) (d_tokens (w_db w)) = Some t"
    and unused: "t_used_at t = None" and time: "w_dbnow w < t_expires_at t"
    and user: "find (\<lambda>u. u_id u = t_user_id t \<and> live u) (d_users (w_db w)) = Some user"
    and o: "openSession env user (Some (t_family_id t)) (w\<lparr>w_in_tx := True,
        w_db := (w_db w)\<lparr>d_tokens := update_where (\<lambda>r. r = t) (spent_set (w_dbnow w)) (d_tokens (w_db w))\<rparr>\<rparr>) = (r, w2)"
  shows "Refresh env raw w = (case r of Inl e \<Rightarrow> (Inl e, w2\<lparr>w_db := w_db w, w_in_tx := w_in_tx w\<rparr>)
    | Inr s \<Rightarrow> (Inr s, w2\<lparr>w_in_tx := w_in_tx w\<rparr>))"
proof -
  from t have mem: "t \<in> set (d_tokens (w_db w))" by (blast dest: find_Some_mem)
  let ?v = "w\<lparr>w_in_tx := True\<rparr>"
  note use = UseRefreshToken_calm [of ?v t, simplified, OF calm conjunct1 [OF tokens_ids [OF ok]] mem]
  have "w_sched w2 = []" using openSession_calm [OF _ o] calm by simp
  with t calm raw unused user time use o show ?thesis
    by (auto simp: Refresh_def bindE_def failIf_def attempt_def GetRefreshToken_def select_one_calm
        transaction_def refresh_tx_def commit_def ret_def GetUserByID_def split: sum.splits)
qed

text \<open>A token that is not spent: it is expired, its account is gone, or the exchange takes place.\<close>

lemma refresh_unspent:
  assumes calm: "w_sched w = []" and ok: "tokens_violation (w_db w) (d_tokens (w_db w)) = None"
    and run: "Refresh env raw w = (res, w')" and raw: "raw \<noteq> []"
    and t: "find (\<lambda>t. t_token_hash t = x_sha256_hex env raw) (d_tokens (w_db w)) = Some t" and unused: "t_used_at t = None"
  shows "case res of
      Inl e \<Rightarrow> w_db w' = w_db w \<and> (e = ErrInvalidRefreshToken \<longleftrightarrow> t_expires_at t \<le> w_dbnow w \<or>
              find (\<lambda>u. u_id u = t_user_id t \<and> live u) (d_users (w_db w)) = None)
          | Inr s \<Rightarrow> w_dbnow w < t_expires_at t \<and>
              (\<exists>user i. find (\<lambda>u. u_id u = t_user_id t \<and> live u) (d_users (w_db w)) = Some user \<and> as_user s = profileOf env user \<and>
                w_db w' = (w_db w)\<lparr>d_tokens := update_where (\<lambda>r. r = t) (spent_set (w_dbnow w)) (d_tokens (w_db w)) @
                  [new_token env w user (as_refresh_token s) i (t_family_id t)]\<rparr>)"
proof (cases "w_dbnow w < t_expires_at t \<and> find (\<lambda>u. u_id u = t_user_id t \<and> live u) (d_users (w_db w)) \<noteq> None")
  case False
  have mem: "t \<in> set (d_tokens (w_db w))" using t by (blast dest: find_Some_mem)
  note use = UseRefreshToken_calm [of "w\<lparr>w_in_tx := True\<rparr>" t, simplified, OF calm conjunct1 [OF tokens_ids [OF ok]] mem]
  have "transaction (refresh_tx env t) w = (res, w')"
    using t run calm raw unused
    by (auto simp: Refresh_def bindE_def failIf_def attempt_def GetRefreshToken_def select_one_calm)
  note tx = this
  show ?thesis
  proof (cases "w_dbnow w < t_expires_at t")
    case True
    with False have "find (\<lambda>u. u_id u = t_user_id t \<and> live u) (d_users (w_db w)) = None" by simp
    with True tx use unused calm show ?thesis
      by (auto simp: transaction_def refresh_tx_def bindE_def failIf_def attempt_def throw_def GetUserByID_def select_one_calm)
  qed (use tx use unused calm in \<open>auto simp: transaction_def refresh_tx_def bindE_def failIf_def\<close>)
next
  case True
  then obtain user where live: "w_dbnow w < t_expires_at t"
    "find (\<lambda>u. u_id u = t_user_id t \<and> live u) (d_users (w_db w)) = Some user" by blast
  let ?v = "w\<lparr>w_in_tx := True,
    w_db := (w_db w)\<lparr>d_tokens := update_where (\<lambda>r. r = t) (spent_set (w_dbnow w)) (d_tokens (w_db w))\<rparr>\<rparr>"
  obtain r w2 where o: "openSession env user (Some (t_family_id t)) ?v = (r, w2)" by fastforce
  have "w_sched ?v = []" using calm by simp
  note eff = openSession_calm [OF this o]
  from refresh_run [OF calm ok raw t unused live o] run eff live show ?thesis
    by (cases r) (auto simp: new_token_def)
qed

text \<open>
  C36: What the exchange of a refresh token does.  Without faults: a token that is unknown or
  expired, or whose account is gone, is refused and nothing changes.  A token that was spent
  before is refused and every refresh token of its account is deleted.  Otherwise the token
  is spent and exactly one token is added, for the same account and in the same family,
  unspent, of which only the hash is stored.
\<close>

theorem refresh_rotates:
  assumes calm: "w_sched w = []" and ok: "tokens_violation (w_db w) (d_tokens (w_db w)) = None"
    and run: "Refresh env raw w = (res, w')" and raw: "raw \<noteq> []"
  shows "case find (\<lambda>t. t_token_hash t = x_sha256_hex env raw) (d_tokens (w_db w)) of
      None \<Rightarrow> res = Inl ErrInvalidRefreshToken \<and> w_db w' = w_db w
    | Some t \<Rightarrow>
        if t_used_at t \<noteq> None
        then res = Inl ErrInvalidRefreshToken \<and>
          w_db w' = (w_db w)\<lparr>d_tokens := filter (\<lambda>r. t_user_id r \<noteq> t_user_id t) (d_tokens (w_db w))\<rparr>
        else (case res of
            Inl e \<Rightarrow> w_db w' = w_db w \<and> (e = ErrInvalidRefreshToken \<longleftrightarrow> t_expires_at t \<le> w_dbnow w \<or>
              find (\<lambda>u. u_id u = t_user_id t \<and> live u) (d_users (w_db w)) = None)
          | Inr s \<Rightarrow> w_dbnow w < t_expires_at t \<and>
              (\<exists>user i. find (\<lambda>u. u_id u = t_user_id t \<and> live u) (d_users (w_db w)) = Some user \<and> as_user s = profileOf env user \<and>
                w_db w' = (w_db w)\<lparr>d_tokens := update_where (\<lambda>r. r = t) (spent_set (w_dbnow w)) (d_tokens (w_db w)) @
                  [new_token env w user (as_refresh_token s) i (t_family_id t)]\<rparr>))"
proof (cases "find (\<lambda>t. t_token_hash t = x_sha256_hex env raw) (d_tokens (w_db w))")
  case None
  with run calm raw show ?thesis
    by (auto simp: Refresh_def bindE_def failIf_def attempt_def GetRefreshToken_def select_one_calm throw_def)
next
  case t: (Some t)
  show ?thesis
  proof (cases "t_used_at t")
    case (Some at)
    with t run calm raw show ?thesis
      by (auto simp: Refresh_def bindE_def failIf_def attempt_def GetRefreshToken_def select_one_calm throw_def
          RevokeUserRefreshTokens_def delete_tokens_def query_calm Let_def)
  next
    case None
    with refresh_unspent [OF calm ok run raw t None] t show ?thesis by simp
  qed
qed

lemma token_world_facts:
  "w_sched token_world = []" "tokens_violation (w_db token_world) (d_tokens (w_db token_world)) = None"
  "d_tokens (w_db token_world) = [spent_token, live_token]" "w_dbnow token_world = monday_8" "w_now token_world = monday_8"
  "w_random token_world = [''tok1'', ''tok2'']" "w_next_id token_world = 100" "d_users (w_db token_world) = d_users start_db"
  by (simp_all add: token_world_def world_at_def start_db_def tokens_violation_def spent_token_def live_token_def account_row_def)

lemma token_world_refresh:
  "\<exists>s w'. Refresh acct_env ''now'' token_world = (Inr s, w') \<and> w_sched w' = []"
proof -
  let ?w = token_world
  have f: "find (\<lambda>t. t_token_hash t = x_sha256_hex acct_env ''now'') (d_tokens (w_db ?w)) = Some live_token"
    by (simp add: token_world_facts spent_token_def live_token_def acct_env_def)
  have lt: "t_used_at live_token = None" "w_dbnow ?w < t_expires_at live_token"
    by (simp_all add: live_token_def token_world_facts monday_8_def monday_14_def seconds_def)
  have usr: "find (\<lambda>u. u_id u = t_user_id live_token \<and> live u) (d_users (w_db ?w)) = Some (account_row 12 ''Bob'' ''client'')"
    by (simp add: token_world_facts start_db_def live_token_def account_row_def live_def)
  let ?v1 = "?w\<lparr>w_in_tx := True, w_db := (w_db ?w)\<lparr>d_tokens := update_where (\<lambda>r. r = live_token)
      (spent_set (w_dbnow ?w)) (d_tokens (w_db ?w))\<rparr>\<rparr>"
  let ?bob = "account_row 12 ''Bob'' ''client''"
  have "\<exists>w2. openSession acct_env ?bob (Some (t_family_id live_token)) ?v1 =
      (Inr (session_with acct_env ?v1 ?bob (jwt_of (session_claims acct_env ?v1 ?bob)) ''tok1''), w2)"
    by (rule openSession_succeeds)
      (simp_all add: token_world_facts acct_env_def tokens_violation_def new_token_def spent_token_def live_token_def
        spent_set_def start_db_def account_row_def)
  then obtain w2 where o: "openSession acct_env ?bob (Some (t_family_id live_token)) ?v1 =
      (Inr (session_with acct_env ?v1 ?bob (jwt_of (session_claims acct_env ?v1 ?bob)) ''tok1''), w2)" ..
  have "w_sched w2 = []" using openSession_calm [OF _ o] token_world_facts(1) by simp
  then show ?thesis
    using refresh_run [OF token_world_facts(1,2) _ f lt usr o] by simp
qed

lemma refresh_rotates_witness:
  "\<exists>s w' t. Refresh acct_env ''now'' token_world = (Inr s, w') \<and>
     d_tokens (w_db w') = [spent_token, spent_set monday_8 live_token, t] \<and> t_family_id t = 30 \<and> t_used_at t = None"
proof -
  obtain s w' where run: "Refresh acct_env ''now'' token_world = (Inr s, w')" using token_world_refresh by blast
  have f: "find (\<lambda>t. t_token_hash t = x_sha256_hex acct_env ''now'') (d_tokens (w_db token_world)) = Some live_token"
    by (simp add: token_world_facts spent_token_def live_token_def acct_env_def)
  have "spent_token \<noteq> live_token" by (simp add: spent_token_def live_token_def)
  with refresh_rotates [OF token_world_facts(1,2) run] f run show ?thesis
    by (auto simp: token_world_facts new_token_def live_token_def)
qed

text \<open>
  What other requests may do to the tokens while one is running: the table stays within its
  constraints, a row keeps the hash it was made with, and a token that was spent is not
  usable again.
\<close>

definition token_table :: "db \<Rightarrow> bool" where
  "token_table d \<longleftrightarrow> tokens_violation d (d_tokens d) = None"

definition hash_of :: "uuid \<Rightarrow> string \<Rightarrow> db \<Rightarrow> bool" where
  "hash_of i h d \<longleftrightarrow> (\<forall>t \<in> set (d_tokens d). t_id t = i \<longrightarrow> t_token_hash t = h)"

definition spent :: "string \<Rightarrow> db \<Rightarrow> bool" where
  "spent h d \<longleftrightarrow> (\<forall>t \<in> set (d_tokens d). t_token_hash t = h \<longrightarrow> t_used_at t \<noteq> None)"

definition tokens_rely :: "string \<Rightarrow> world \<Rightarrow> bool" where
  "tokens_rely h w \<longleftrightarrow> rely token_table (w_sched w) \<and> rely (spent h) (w_sched w) \<and> (\<forall>i. rely (hash_of i h) (w_sched w))"

lemma tokens_rely_entry: "next_entry w = (b, w') \<Longrightarrow> tokens_rely h w \<Longrightarrow> tokens_rely h w'"
  by (auto simp: tokens_rely_def dest: next_entry_sched)

lemma entry_keeps: "next_entry w = (b, w') \<Longrightarrow> rely I (w_sched w) \<Longrightarrow> I (w_db w) \<Longrightarrow> I (w_db w')"
  using next_entry_inv [of I w b w'] by (simp add: db_inv_def)

lemma spent_set_simps [simp]:
  "t_used_at (spent_set now t) = Some now" "t_token_hash (spent_set now t) = t_token_hash t" "t_id (spent_set now t) = t_id t"
  by (simp_all add: spent_set_def)

text \<open>A statement: its entry of the schedule, then its effect.\<close>

text \<open>A presented token that every row shows as spent opens no session.\<close>

lemma spent_refused:
  assumes s: "spent (x_sha256_hex env raw) (w_db w)" and r: "tokens_rely (x_sha256_hex env raw) w"
  shows "Refresh env raw w \<noteq> (Inr ss, w')"
proof
  assume run: "Refresh env raw w = (Inr ss, w')"
  let ?h = "x_sha256_hex env raw"
  from run obtain row w1 where get: "GetRefreshToken ?h w = (Inr row, w1)"
    and rest: "(if t_used_at row \<noteq> None then bindE (RevokeUserRefreshTokens (t_user_id row)) (\<lambda>_. throw ErrInvalidRefreshToken)
        else transaction (refresh_tx env row)) w1 = (Inr ss, w')"
    unfolding Refresh_def bindE_Inr attempt_result by (auto simp: failIf_Inr throw_def)
  from get have n: "next_entry w = (False, w1)" and row: "find (\<lambda>t. t_token_hash t = ?h) (d_tokens (w_db w1)) = Some row"
    by (auto simp: GetRefreshToken_def select_one_Inr)
  have "spent ?h (w_db w1)" using entry_keeps [where I = "spent ?h", OF n _ s] r by (simp add: tokens_rely_def)
  with row have "t_used_at row \<noteq> None" by (auto simp: spent_def dest: find_Some_mem)
  with rest show False by (auto simp: bindE_Inr)
qed

text \<open>Storing a new token beside a spent one does not bring its hash back.\<close>

lemma openSession_tokens:
  assumes "openSession env user family w = (Inr s, w')" and "w_in_tx w" and "spent h (w_db w)" and "h \<in> t_token_hash ` set (d_tokens (w_db w))"
  shows "spent h (w_db w') \<and> w_in_tx w'"
proof -
  from assms(1) obtain tok f w1 w2 where c: "CreateRefreshToken (u_id user) (x_sha256_hex env tok) (w_now w + a_refresh_ttl env) f w1 = (Inr w2, w')"
    and w1: "w_db w1 = w_db w" "w_in_tx w1 = w_in_tx w"
    unfolding openSession_def Issue_def issueRefreshToken_def
    by (auto simp: bindE_Inr asks_Inr ret_Inr Let_def random_token_def fresh_id_def throw_def split: option.splits list.splits)
  from c obtain w3 d where n: "next_entry (w1\<lparr>w_next_id := Suc (w_next_id w1)\<rparr>) = (False, w3)" and w': "w' = w3\<lparr>w_db := d\<rparr>"
    and d: "d_tokens d = d_tokens (w_db w3) @ [w2]" "tokens_violation (w_db w3) (d_tokens d) = None" "t_used_at w2 = None \<longrightarrow> t_token_hash w2 = x_sha256_hex env tok"
    by (auto simp: CreateRefreshToken_def bindE_Inr fresh_id_def query_Inr Let_def split: option.splits)
  have db: "w_db w3 = w_db w" "w_in_tx w3" using next_entry_frame [OF n] w1 assms(2) by auto
  have "t_token_hash w2 \<notin> t_token_hash ` set (d_tokens (w_db w))" using tokens_ids [OF d(2)] d(1) db by auto
  with assms(3,4) d(1) db w' show ?thesis by (auto simp: spent_def)
qed

lemma refresh_spends:
  assumes run: "Refresh env raw w = (Inr s, w')" and r: "tokens_rely (x_sha256_hex env raw) w" and ok: "token_table (w_db w)"
    and out: "\<not> w_in_tx w"
  shows "spent (x_sha256_hex env raw) (w_db w')"
proof -
  let ?h = "x_sha256_hex env raw"
  from run obtain row w1 where get: "GetRefreshToken ?h w = (Inr row, w1)"
    and rest: "(if t_used_at row \<noteq> None then bindE (RevokeUserRefreshTokens (t_user_id row)) (\<lambda>_. throw ErrInvalidRefreshToken)
        else transaction (refresh_tx env row)) w1 = (Inr s, w')"
    unfolding Refresh_def bindE_Inr attempt_result by (auto simp: failIf_Inr throw_def)
  from get have n: "next_entry w = (False, w1)" and row: "find (\<lambda>t. t_token_hash t = ?h) (d_tokens (w_db w1)) = Some row"
    by (auto simp: GetRefreshToken_def select_one_Inr)
  have ok1: "token_table (w_db w1)" and r1: "tokens_rely ?h w1"
    using entry_keeps [where I = token_table, OF n _ ok] tokens_rely_entry [OF n r] r by (auto simp: tokens_rely_def)
  have hash1: "hash_of (t_id row) ?h (w_db w1)"
    using row find_Some_mem [OF row] tokens_ids ok1 by (auto simp: hash_of_def token_table_def dest: distinct_keys_eq [of t_id])
  from rest have "transaction (refresh_tx env row) w1 = (Inr s, w')"
    by (auto simp: bindE_Inr split: if_splits)
  then obtain w2 w3 where m: "next_entry w1 = (False, w2)" and body: "refresh_tx env row (w2\<lparr>w_in_tx := True\<rparr>) = (Inr (True, s), w3)"
    and fin: "\<exists>w4. next_entry w3 = (False, w4) \<and> w_db w' = w_db w4"
    unfolding transaction_Inr refresh_tx_def by (auto simp: bindE_Inr attempt_result commit_def ret_Inr throw_def)
  have ok2: "token_table (w_db w2)" and hash2: "hash_of (t_id row) ?h (w_db w2)"
    using entry_keeps [where I = token_table, OF m _ ok1]
      entry_keeps [where I = "hash_of (t_id row) ?h", OF m _ hash1] r1 by (auto simp: tokens_rely_def)
  from body obtain k w5 user w6 where use: "UseRefreshToken (t_id row) (w2\<lparr>w_in_tx := True\<rparr>) = (Inr k, w5)" and k: "k \<noteq> 0"
    and usr: "GetUserByID (t_user_id row) w5 = (Inr user, w6)" and o: "openSession env user (Some (t_family_id row)) w6 = (Inr s, w3)"
    unfolding refresh_tx_def by (auto simp: bindE_Inr attempt_result commit_def ret_Inr failIf_Inr throw_def)
  from use obtain w7 where w7: "next_entry (w2\<lparr>w_in_tx := True\<rparr>) = (False, w7)"
    and k': "k = length (filter (usable (t_id row) (w_dbnow w7)) (d_tokens (w_db w7)))"
    and w5: "w5 = w7\<lparr>w_db := (w_db w7)\<lparr>d_tokens := update_where (usable (t_id row) (w_dbnow w7)) (spent_set (w_dbnow w7)) (d_tokens (w_db w7))\<rparr>\<rparr>"
    by (auto simp: UseRefreshToken_def query_Inr Let_def)
  have w7db: "w_db w7 = w_db w2" "w_in_tx w7" using next_entry_frame [OF w7] by auto
  from k k' obtain t where t: "t \<in> set (d_tokens (w_db w2))" "usable (t_id row) (w_dbnow w7) t"
    using w7db by (auto simp: filter_empty_conv)
  with hash2 have th: "t_token_hash t = ?h" by (auto simp: hash_of_def usable_def)
  have only: "t' = t" if "t' \<in> set (d_tokens (w_db w2))" "t_token_hash t' = ?h" for t'
    using distinct_keys_eq [OF conjunct2 [OF tokens_ids [OF ok2 [unfolded token_table_def]]] that(1) t(1)] that(2) th by simp
  have "spent ?h (w_db w5)"
    unfolding spent_def
  proof (intro ballI impI)
    fix r assume "r \<in> set (d_tokens (w_db w5))" and h: "t_token_hash r = ?h"
    then obtain r0 where r0: "r0 \<in> set (d_tokens (w_db w2))"
      and r: "r = (if usable (t_id row) (w_dbnow w7) r0 then spent_set (w_dbnow w7) r0 else r0)"
      by (auto simp: w5 w7db update_where_def)
    then have "t_token_hash r0 = ?h" using h by (auto split: if_splits)
    with only [OF r0] r t(2) show "t_used_at r \<noteq> None" by simp
  qed
  moreover have "?h \<in> t_token_hash ` set (d_tokens (w_db w5))"
  proof -
    have "spent_set (w_dbnow w7) t \<in> set (d_tokens (w_db w5))" using t w5 w7db by (auto simp: set_update_where)
    moreover have "t_token_hash (spent_set (w_dbnow w7) t) = ?h" using th by simp
    ultimately show ?thesis by (metis image_eqI)
  qed
  moreover have "w_db w6 = w_db w5" "w_in_tx w6"
    using usr w5 w7db by (auto simp: GetUserByID_def select_one_Inr dest: next_entry_frame)
  ultimately have "spent ?h (w_db w3)" "w_in_tx w3" using openSession_tokens [OF o] by auto
  with fin show ?thesis by (auto dest: next_entry_frame)
qed

text \<open>
  C35: A refresh token is exchanged at most once.  After a request that got a session for it, and
  whatever other requests do that do not make spent tokens usable again, no request gets
  another one for the same token, under any schedule of faults and interference.
\<close>

theorem refresh_wins_once:
  assumes run: "Refresh env raw w = (Inr s, w1)" and out: "\<not> w_in_tx w" and ok: "token_table (w_db w)"
    and before: "tokens_rely (x_sha256_hex env raw) w"
    and between: "spent (x_sha256_hex env raw) (w_db w1) \<Longrightarrow> spent (x_sha256_hex env raw) (w_db w2)"
    and during: "tokens_rely (x_sha256_hex env raw) w2"
  shows "Refresh env raw w2 \<noteq> (Inr s', w3)"
  by (rule spent_refused [OF between [OF refresh_spends [OF run before ok out]] during])

lemma refresh_wins_once_witness:
  "\<exists>s w1. Refresh acct_env ''now'' token_world = (Inr s, w1) \<and> (\<forall>s' w3. Refresh acct_env ''now'' w1 \<noteq> (Inr s', w3))"
proof -
  obtain s w1 where run: "Refresh acct_env ''now'' token_world = (Inr s, w1)" and calm: "w_sched w1 = []"
    using token_world_refresh by blast
  have r: "tokens_rely h w" if "w_sched w = []" for h w using that by (simp add: tokens_rely_def)
  have t: "token_table (w_db token_world)" "\<not> w_in_tx token_world"
    using token_world_facts(2) by (simp_all add: token_table_def token_world_def world_at_def)
  have "Refresh acct_env ''now'' w1 \<noteq> (Inr s', w3)" for s' w3
    using refresh_wins_once [OF run t(2,1) r _ r] token_world_facts(1) calm by blast
  with run show ?thesis by blast
qed

section \<open>Verification and what it is worth\<close>

text \<open>
  An account that is verified already needs no code: any token of the account that is still
  valid, whatever its scope and whatever the code, opens a session with a refresh token of
  its own, also when every refresh token of the account has just been deleted.
\<close>

theorem bearer_reopens_session:
  assumes calm: "w_sched w = []"
    and user: "find (\<lambda>u. u_email u = a_lower env (trim_space email) \<and> live u) (d_users (w_db w)) = Some user"
    and verified: "u_email_verified user"
    and bearer: "bearer \<noteq> []" "Parse env (w_now w) bearer = Some c" "claims_user env c = Some (u_id user)"
    and sign: "a_sign env (session_claims env w user) = Some raw" and random: "w_random w = tok # ts"
    and ok: "tokens_violation (w_db w) (d_tokens (w_db w)) = None"
    and ids: "Suc (w_next_id w) \<notin> t_id ` set (d_tokens (w_db w))"
    and hash: "x_sha256_hex env tok \<notin> t_token_hash ` set (d_tokens (w_db w))"
    and revoked: "\<forall>t \<in> set (d_tokens (w_db w)). t_user_id t \<noteq> u_id user"
  shows "\<exists>w'. VerifyEmail env email code bearer w = (Inr (session_with env w user raw tok), w') \<and>
    filter (\<lambda>t. t_user_id t = u_id user) (d_tokens (w_db w')) =
      [new_token env w user tok (Suc (w_next_id w)) (w_next_id w)]"
proof -
  have mem: "user \<in> set (d_users (w_db w))" using find_Some_mem [OF user] by simp
  then have "tokens_violation (w_db w) (d_tokens (w_db w) @ [new_token env w user tok (Suc (w_next_id w)) (w_next_id w)]) = None"
    using ok ids hash by (auto simp: tokens_violation_def new_token_def split: if_splits)
  then obtain w' where o: "openSession env user None w = (Inr (session_with env w user raw tok), w')"
    using openSession_succeeds [OF calm sign random, where family = None] by auto
  have "VerifyEmail env email code bearer w = openSession env user None w"
    using calm user verified bearer
    by (simp add: VerifyEmail_def GetUserByEmail_def select_one_calm attempt_def bindE_def ret_def asks_def ownsBearer_def)
  moreover have "filter (\<lambda>t. t_user_id t = u_id user) (d_tokens (w_db w')) =
      [new_token env w user tok (Suc (w_next_id w)) (w_next_id w)]"
    using openSession_calm [OF calm o] revoked by (auto simp: filter_empty_conv new_token_def)
  ultimately show ?thesis using o by simp
qed

definition bob_row :: "bool \<Rightarrow> user" where
  "bob_row verified = (account_row 12 ''Bob'' ''user'')\<lparr>u_email := ''bob@mail'', u_email_verified := verified\<rparr>"

definition bob_world :: "bool \<Rightarrow> world" where
  "bob_world verified = world_at (start_db\<lparr>d_users := [bob_row verified]\<rparr>) [] monday_8 100"

lemma bob_world_simps [simp]:
  "w_sched (bob_world v) = []" "w_now (bob_world v) = monday_8" "w_random (bob_world v) = [''tok1'', ''tok2'']"
  "d_tokens (w_db (bob_world v)) = []" "d_users (w_db (bob_world v)) = [bob_row v]"
  "u_email_verified (bob_row v) \<longleftrightarrow> v" "u_id (bob_row v) = 12" "u_email (bob_row v) = ''bob@mail''" "live (bob_row v)"
  by (simp_all add: bob_world_def world_at_def start_db_def bob_row_def account_row_def live_def)

definition bob_bearer :: string where "bob_bearer = ''session:12:001767603600''"

definition bob_claims :: claims where
  "bob_claims = \<lparr>cl_subject = ''12'', cl_issuer = ''dating-coach-api'', cl_issued_at = 0, cl_expires_at = Some 1767603600,
     cl_role = ''user'', cl_email = [], cl_scope = ''session''\<rparr>"

lemma bob_parses: "Parse acct_env monday_8 bob_bearer = Some bob_claims" "claims_user acct_env bob_claims = Some 12"
  "a_lower acct_env (trim_space ''bob@mail'') = ''bob@mail''"
proof -
  have "Parse acct_env monday_8 bob_bearer = read_jwt monday_8 bob_bearer" by (simp add: Parse_def acct_env_def)
  also have "\<dots> = Some bob_claims" by code_simp
  finally show "Parse acct_env monday_8 bob_bearer = Some bob_claims" .
  show "claims_user acct_env bob_claims = Some 12" by code_simp
  have "a_lower acct_env (trim_space ''bob@mail'') = to_lower (trim_space ''bob@mail'')" by (simp add: acct_env_def)
  also have "\<dots> = ''bob@mail''" by code_simp
  finally show "a_lower acct_env (trim_space ''bob@mail'') = ''bob@mail''" .
qed

lemma bearer_reopens_session_witness:
  "\<exists>s w' t. VerifyEmail acct_env ''bob@mail'' ''no code'' bob_bearer (bob_world True) = (Inr s, w') \<and>
     d_tokens (w_db (bob_world True)) = [] \<and> as_refresh_token s = ''tok1'' \<and> filter (\<lambda>t. t_user_id t = 12) (d_tokens (w_db w')) = [t] \<and> t_used_at t = None"
proof -
  let ?w = "bob_world True" and ?u = "bob_row True"
  have u: "find (\<lambda>u. u_email u = a_lower acct_env (trim_space ''bob@mail'') \<and> live u) (d_users (w_db ?w)) = Some ?u"
    by (simp add: bob_parses)
  have b: "bob_bearer \<noteq> []" by (simp add: bob_bearer_def)
  have p: "Parse acct_env (w_now ?w) bob_bearer = Some bob_claims" "claims_user acct_env bob_claims = Some (u_id ?u)"
    by (simp_all only: bob_world_simps bob_parses)
  have s: "a_sign acct_env (session_claims acct_env ?w ?u) = Some (jwt_of (session_claims acct_env ?w ?u))"
    by (simp add: acct_env_def)
  have "\<exists>w'. VerifyEmail acct_env ''bob@mail'' ''no code'' bob_bearer ?w =
      (Inr (session_with acct_env ?w ?u (jwt_of (session_claims acct_env ?w ?u)) ''tok1''), w') \<and>
      filter (\<lambda>t. t_user_id t = u_id ?u) (d_tokens (w_db w')) =
        [new_token acct_env ?w ?u ''tok1'' (Suc (w_next_id ?w)) (w_next_id ?w)]"
    by (rule bearer_reopens_session [OF _ u _ b p s]) (simp_all add: tokens_violation_def)
  then obtain w' where run: "VerifyEmail acct_env ''bob@mail'' ''no code'' bob_bearer ?w =
      (Inr (session_with acct_env ?w ?u (jwt_of (session_claims acct_env ?w ?u)) ''tok1''), w')"
    and t: "filter (\<lambda>t. t_user_id t = u_id ?u) (d_tokens (w_db w')) =
        [new_token acct_env ?w ?u ''tok1'' (Suc (w_next_id ?w)) (w_next_id ?w)]" by (elim exE conjE)
  show ?thesis
    by (intro exI conjI, rule run, simp, simp, rule t [unfolded bob_world_simps], simp add: new_token_def)
qed

end
