(* ===== verification/Code_Properties.thy ===== *)
theory Code_Properties
  imports Token_Properties
begin

text \<open>
  Properties of the emailed codes, and the lemmas on decimal text and on trimming they need.
\<close>

section \<open>Numbers and their text\<close>

definition is_digit :: "char \<Rightarrow> bool" where
  "is_digit c \<longleftrightarrow> digit_value c \<noteq> None"

lemma of_char_digit: "(of_char (digit n) :: nat) = 48 + nat (n mod 10)"
proof -
  have "nat (n mod 10) < 10" by simp
  then show ?thesis by (simp add: digit_def)
qed

lemma digit_value_digit: "digit_value (digit n) = Some (n mod 10)"
proof -
  have "nat (n mod 10) < 10" by simp
  then show ?thesis unfolding digit_value_def of_char_digit Let_def by simp
qed

lemma digits_value_snoc:
  "digits_value acc (cs @ [c]) =
     (case digits_value acc cs of None \<Rightarrow> None | Some m \<Rightarrow> map_option (\<lambda>k. m * 10 + k) (digit_value c))"
  by (induction acc cs rule: digits_value.induct) (auto split: option.splits)

lemma digits_value_decimal: "digits_value 0 (decimal_nat n) = Some (int n)"
proof (induction n rule: decimal_nat.induct)
  case (1 n)
  show ?case
  proof (cases "n < 10")
    case True
    then show ?thesis by (subst decimal_nat.simps) (simp add: digit_value_digit)
  next
    case False
    with 1 have "digits_value 0 (decimal_nat (n div 10)) = Some (int (n div 10))" by simp
    with False show ?thesis
      by (subst decimal_nat.simps) (simp add: digits_value_snoc digit_value_digit zdiv_int zmod_int)
  qed
qed

lemma decimal_nat_hd: "\<exists>c cs. decimal_nat n = c # cs \<and> is_digit c"
proof (induction n rule: decimal_nat.induct)
  case (1 n)
  show ?case
  proof (cases "n < 10")
    case True
    then show ?thesis by (subst decimal_nat.simps) (simp add: digit_value_digit is_digit_def)
  next
    case False
    with 1 obtain c cs where "decimal_nat (n div 10) = c # cs" "is_digit c" by auto
    with False show ?thesis by (subst decimal_nat.simps) simp
  qed
qed

lemma atoi_decimal: "0 \<le> n \<Longrightarrow> n < 2 ^ 63 \<Longrightarrow> atoi (decimal n) = Some n"
proof -
  assume n: "0 \<le> n" "n < 2 ^ 63"
  obtain c cs where c: "decimal_nat (nat n) = c # cs" "is_digit c" using decimal_nat_hd by blast
  have "c \<noteq> CHR ''-''" "c \<noteq> CHR ''+''" using c(2) by (auto simp: is_digit_def digit_value_def)
  with c n digits_value_decimal [of "nat n"] show ?thesis
    by (simp add: atoi_def decimal_def in_int64_def)
qed

lemma decimal_large: "2 ^ 63 \<le> n \<Longrightarrow> atoi (decimal n) = None"
proof -
  assume n: "2 ^ 63 \<le> n"
  obtain c cs where c: "decimal_nat (nat n) = c # cs" "is_digit c" using decimal_nat_hd by blast
  have "c \<noteq> CHR ''-''" "c \<noteq> CHR ''+''" using c(2) by (auto simp: is_digit_def digit_value_def)
  with c n digits_value_decimal [of "nat n"] show ?thesis
    by (simp add: atoi_def decimal_def in_int64_def)
qed

lemma pad_digits: "list_all is_digit (pad k n)"
  by (induction k arbitrary: n) (auto simp: is_digit_def digit_value_digit)

lemma white_space_edges: "list_all (\<lambda>p. p \<noteq> [] \<and> \<not> is_digit (hd p) \<and> \<not> is_digit (last p)) white_space"
  by code_simp

lemma strip_one_None: "(\<And>p r. p \<in> set ps \<Longrightarrow> v \<noteq> p @ r) \<Longrightarrow> strip_one ps v = None"
proof (induction ps)
  case (Cons p ps)
  have "strip_prefix p v = None"
    using Cons.prems [of p] by (cases "strip_prefix p v") (auto simp: strip_prefix_Some)
  with Cons show ?case by simp
qed simp

lemma strip_all_None: "strip_one ps v = None \<Longrightarrow> strip_all n ps v = v"
  by (cases n) simp_all

lemma trim_digits:
  assumes "list_all is_digit v"
  shows "trim_space v = v"
proof -
  have "strip_one white_space v = None"
  proof (rule strip_one_None, rule notI)
    fix p r assume "p \<in> set white_space" "v = p @ r"
    with white_space_edges assms show False by (cases p) (auto simp: list_all_iff)
  qed
  moreover have "strip_one (map rev white_space) (rev v) = None"
  proof (rule strip_one_None, rule notI)
    fix p r assume "p \<in> set (map rev white_space)" "rev v = p @ r"
    then obtain q where q: "q \<in> set white_space" "rev v = rev q @ r" by auto
    then have "v = rev r @ q" by (metis rev_append rev_rev_ident)
    moreover have "q \<noteq> []" "\<not> is_digit (last q)" using q(1) white_space_edges by (auto simp: list_all_iff)
    ultimately show False using assms by (auto simp: list_all_iff dest: last_in_set)
  qed
  ultimately show ?thesis by (simp add: trim_space_def trim_left_def strip_all_None)
qed

section \<open>Codes\<close>

lemma code_keys [simp]: "codeKey u \<noteq> attemptsKey v" "attemptsKey v \<noteq> codeKey u"
  by (simp_all add: codeKey_def attemptsKey_def)

text \<open>A code that has seen \<open>k\<close> wrong guesses, and one that no guess can match.\<close>

definition code_live :: "string \<Rightarrow> string \<Rightarrow> int \<Rightarrow> instant \<Rightarrow> redis \<Rightarrow> bool" where
  "code_live i c k t r \<longleftrightarrow>
     v_strings r (codeKey i) = Some (c, Some t) \<and> v_strings r (attemptsKey i) = Some (decimal k, Some t)"

definition code_gone :: "string \<Rightarrow> instant \<Rightarrow> redis \<Rightarrow> bool" where
  "code_gone i now r \<longleftrightarrow> fresh now (v_strings r (codeKey i)) = None"

lemma code_gone_later: "code_gone i n r \<Longrightarrow> n \<le> m \<Longrightarrow> code_gone i m r"
  by (auto simp: code_gone_def fresh_def split: option.splits if_splits)

lemma StoreCode_calm:
  "w_sched w = [] \<Longrightarrow> StoreCode i c w = (Inr (), w\<lparr>w_redis :=
     put (attemptsKey i) (Some (''0'', Some (w_now w + verification_code_ttl)))
       (put (codeKey i) (Some (c, Some (w_now w + verification_code_ttl))) (w_redis w))\<rparr>)"
  by (simp add: StoreCode_def SET_def redis_do_calm bindE_def)

lemma StoreCode_live: "w_sched w = [] \<Longrightarrow> StoreCode i c w = (Inr u, w') \<Longrightarrow>
  code_live i c 0 (w_now w + verification_code_ttl) (w_redis w')"
proof -
  have "decimal 0 = ''0''" by code_simp
  then show "w_sched w = [] \<Longrightarrow> StoreCode i c w = (Inr u, w') \<Longrightarrow>
    code_live i c 0 (w_now w + verification_code_ttl) (w_redis w')"
    by (auto simp: StoreCode_calm code_live_def)
qed

lemma GetCode_calm:
  "w_sched w = [] \<Longrightarrow> GetCode i w = (Inr (case fresh (w_now w) (v_strings (w_redis w) (codeKey i)) of None \<Rightarrow> [] | Some (v, _) \<Rightarrow> v,
     case fresh (w_now w) (v_strings (w_redis w) (attemptsKey i)) of None \<Rightarrow> 0
     | Some (v, _) \<Rightarrow> if v = [] then 0 else (case atoi v of None \<Rightarrow> 0 | Some n \<Rightarrow> n)), w)"
  by (auto simp: GetCode_def GET_def redis_do_calm bindE_def ret_def split: option.splits)

lemma InvalidateCode_calm:
  "w_sched w = [] \<Longrightarrow> InvalidateCode i w = (Inr (), w\<lparr>w_redis := put (attemptsKey i) None (put (codeKey i) None (w_redis w))\<rparr>)"
  by (simp add: InvalidateCode_def DEL_def redis_do_calm)

section \<open>Guesses\<close>

text \<open>
  What others may do to the two keys while guesses are made: they may count guesses of their own
  and they may discard the code, but they neither store another one nor reset the counter.
\<close>

definition weakens :: "string \<Rightarrow> string \<Rightarrow> instant \<Rightarrow> (redis \<Rightarrow> redis) \<Rightarrow> bool" where
  "weakens i c t g \<longleftrightarrow>
     (\<forall>r. v_strings (g r) (codeKey i) \<in> {v_strings r (codeKey i), None} \<and>
          (\<forall>k. 0 \<le> k \<longrightarrow> code_live i c k t r \<longrightarrow>
             v_strings (g r) (codeKey i) = None \<or> (\<exists>n. k \<le> n \<and> code_live i c n t (g r))))"

lemma increment_live:
  assumes "code_live i c k t r" "now < t" "1000 dvd t - now" "0 \<le> k"
  shows "case increment_script (codeKey i) (attemptsKey i) now r of None \<Rightarrow> True
    | Some (n, r') \<Rightarrow> n = k + 1 \<and> code_live i c (k + 1) t r'"
proof -
  have "\<not> (t - now) div 1000 \<le> 0" "(t - now) div 1000 * 1000 = t - now" using assms(2,3) by auto
  moreover have "atoi (decimal k) = None \<or> atoi (decimal k) = Some k"
    using assms(4) decimal_large [of k] atoi_decimal [of k] by (cases "k < 2 ^ 63") auto
  ultimately show ?thesis
    using assms by (auto simp: increment_script_def incr_def expire_at_def code_live_def Let_def)
qed

lemma increment_code: "increment_script (codeKey i) (attemptsKey i) now r = Some (n, r') \<Longrightarrow>
  v_strings r' (codeKey i) = v_strings r (codeKey i)"
  by (auto simp: increment_script_def incr_def expire_at_def Let_def split: if_splits option.splits)

lemma increment_gone: "code_gone i now r \<Longrightarrow>
  increment_script (codeKey i) (attemptsKey i) now r = Some (0, put (attemptsKey i) None r)"
  by (simp add: increment_script_def code_gone_def)

text \<open>The statements of other guesses, and whatever leaves both keys alone, are among them.\<close>

lemma weakens_increment:
  assumes "now < t" "1000 dvd t - now"
  shows "weakens i c t (\<lambda>r. case increment_script (codeKey i) (attemptsKey i) now r of None \<Rightarrow> r | Some (_, r') \<Rightarrow> r')"
  unfolding weakens_def
proof (intro allI conjI impI)
  fix r
  show "v_strings (case increment_script (codeKey i) (attemptsKey i) now r of None \<Rightarrow> r | Some (_, r') \<Rightarrow> r') (codeKey i)
    \<in> {v_strings r (codeKey i), None}"
    by (auto split: option.splits dest: increment_code)
next
  fix r k assume k: "0 \<le> k" and l: "code_live i c k t r"
  have "\<exists>n\<ge>k. code_live i c n t (case increment_script (codeKey i) (attemptsKey i) now r of None \<Rightarrow> r | Some (_, r') \<Rightarrow> r')"
    using increment_live [OF l assms k] l by (auto split: option.splits intro: exI [of _ "k + 1"])
  then show "v_strings (case increment_script (codeKey i) (attemptsKey i) now r of None \<Rightarrow> r | Some (_, r') \<Rightarrow> r') (codeKey i) = None \<or>
    (\<exists>n\<ge>k. code_live i c n t (case increment_script (codeKey i) (attemptsKey i) now r of None \<Rightarrow> r | Some (_, r') \<Rightarrow> r'))" ..
qed

lemma weakens_discard: "weakens i c t (\<lambda>r. fold (\<lambda>k. put k None) [codeKey i, attemptsKey i] r)"
  by (simp add: weakens_def)

lemma weakens_elsewhere:
  assumes "\<And>r. v_strings (g r) (codeKey i) = v_strings r (codeKey i)" "\<And>r. v_strings (g r) (attemptsKey i) = v_strings r (attemptsKey i)"
  shows "weakens i c t g"
  unfolding weakens_def by (auto simp: assms code_live_def)

text \<open>
  A code that \<open>k\<close> guesses were refused for, and the request between two statements of a guess:
  the account still waits to be verified, and others keep it so.  \<open>calm\<close> says that no failure
  is to come.
\<close>

definition tried :: "string \<Rightarrow> string \<Rightarrow> instant \<Rightarrow> int \<Rightarrow> instant \<Rightarrow> redis \<Rightarrow> bool" where
  "tried i c t k now r \<longleftrightarrow> code_gone i now r \<or> k < 3 \<and> (\<exists>n. k \<le> n \<and> code_live i c n t r)"

definition awaiting :: "string \<Rightarrow> uuid \<Rightarrow> db \<Rightarrow> bool" where
  "awaiting email i d \<longleftrightarrow> (\<exists>u. find (\<lambda>u. u_email u = email \<and> live u) (d_users d) = Some u \<and> u_id u = i \<and> \<not> u_email_verified u)"

definition faultless :: "sched list \<Rightarrow> bool" where
  "faultless sch \<longleftrightarrow> Fault \<notin> set sch \<and> Unconfirmed \<notin> set sch"

definition others_guess :: "string \<Rightarrow> uuid \<Rightarrow> string \<Rightarrow> string \<Rightarrow> instant \<Rightarrow> sched list \<Rightarrow> bool" where
  "others_guess email u i c t sch \<longleftrightarrow> rely (awaiting email u) sch \<and> (\<forall>g. OthersRedis g \<in> set sch \<longrightarrow> weakens i c t g)"

definition guessing :: "string \<Rightarrow> uuid \<Rightarrow> string \<Rightarrow> string \<Rightarrow> instant \<Rightarrow> bool \<Rightarrow> int \<Rightarrow> world \<Rightarrow> bool" where
  "guessing email u i c t calm k w \<longleftrightarrow>
     awaiting email u (w_db w) \<and> others_guess email u i c t (w_sched w) \<and> (calm \<longrightarrow> faultless (w_sched w)) \<and>
     0 \<le> k \<and> tried i c t k (w_now w) (w_redis w)"

lemma tried_weakens: "weakens i c t g \<Longrightarrow> 0 \<le> k \<Longrightarrow> tried i c t k now r \<Longrightarrow> tried i c t k now (g r)"
proof -
  assume g: "weakens i c t g" and k: "0 \<le> k" and r: "tried i c t k now r"
  have codes: "v_strings (g r) (codeKey i) = v_strings r (codeKey i) \<or> v_strings (g r) (codeKey i) = None"
    using g by (simp add: weakens_def)
  show ?thesis
  proof (cases "code_gone i now r")
    case True
    with codes show ?thesis by (auto simp: tried_def code_gone_def)
  next
    case False
    with r obtain n where n: "k < 3" "k \<le> n" "code_live i c n t r" by (auto simp: tried_def)
    with g k have "v_strings (g r) (codeKey i) = None \<or> (\<exists>m. n \<le> m \<and> code_live i c m t (g r))"
      unfolding weakens_def by (metis order_trans)
    with n show ?thesis by (auto simp: tried_def code_gone_def intro: order_trans)
  qed
qed

lemma guessing_entry:
  assumes "next_entry w = (b, w')" and "guessing email u i c t calm k w"
  shows "guessing email u i c t calm k w'" "w_now w' = w_now w" "b \<Longrightarrow> \<not> calm"
  using assms
  by (auto simp: guessing_def next_entry_def others_guess_def rely_Cons faultless_def tried_weakens split: list.splits sched.splits if_splits)

text \<open>A command that keeps the count.\<close>

lemma redis_do_guessing:
  assumes run: "redis_do f w = (r, w')" and w: "guessing email u i c t calm k w"
  obtains "r = Inl ErrRedis" "\<not> calm" "guessing email u i c t calm k w'" "w_now w' = w_now w"
  | x v w1 where "r = Inr x" "f (w_now w) (w_redis w1) = (x, v)" "w' = w1\<lparr>w_redis := v\<rparr>" "guessing email u i c t calm k w1"
    "w_now w1 = w_now w"
proof -
  obtain b w1 where n: "next_entry w = (b, w1)" by (cases "next_entry w")
  note g = guessing_entry [OF n w]
  show thesis
  proof (cases b)
    case True
    with run n g that(1) show thesis by (simp add: redis_do_def)
  next
    case False
    obtain x v where f: "f (w_now w) (w_redis w1) = (x, v)" by fastforce
    with False run n g have "r = Inr x" "w' = w1\<lparr>w_redis := v\<rparr>" by (auto simp: redis_do_def)
    with f g that(2) show thesis by blast
  qed
qed

lemma GetCode_guessing:
  assumes run: "GetCode i w = (r, w')" and w: "guessing email u i c t calm k w"
  shows "guessing email u i c t calm k w' \<and> w_now w' = w_now w \<and>
    (case r of Inl e \<Rightarrow> e = ErrRedis \<and> \<not> calm
     | Inr (v, n) \<Rightarrow> v = [] \<or> v = c \<and> k < 3)"
proof -
  obtain r1 w1 where one: "GET (codeKey i) w = (r1, w1)" by fastforce
  show ?thesis
  proof (cases rule: redis_do_guessing [OF one [unfolded GET_def] w])
    case 1
    with one run show ?thesis by (auto simp: GetCode_def bindE_def)
  next
    case (2 code v w0)
    then have "w1 = w0" and code: "code = [] \<or> code = c \<and> k < 3"
      by (auto simp: guessing_def tried_def code_gone_def code_live_def split: option.splits if_splits)
    with 2 have g: "guessing email u i c t calm k w1" "w_now w1 = w_now w" by simp_all
    obtain r2 w2 where two: "GET (attemptsKey i) w1 = (r2, w2)" by fastforce
    show ?thesis
    proof (cases rule: redis_do_guessing [OF two [unfolded GET_def] g(1)])
      case 1
      with one two run 2 g show ?thesis by (auto simp: GetCode_def bindE_def)
    next
      case (2 tries v' w3)
      then have "w2 = w3" by (auto split: option.splits)
      with one two run \<open>r1 = Inr code\<close> 2 g code show ?thesis by (auto simp: GetCode_def bindE_def ret_def)
    qed
  qed
qed

lemma InvalidateCode_guessing:
  assumes run: "InvalidateCode i w = (r, w')" and w: "guessing email u i c t calm k w" and j: "0 \<le> j"
  shows "w_now w' = w_now w \<and>
    (case r of Inl e \<Rightarrow> e = ErrRedis \<and> \<not> calm \<and> guessing email u i c t calm k w' | Inr _ \<Rightarrow> guessing email u i c t calm j w')"
  using redis_do_guessing [OF run [unfolded InvalidateCode_def DEL_def] w]
  by cases (use j in \<open>auto simp: guessing_def tried_def code_gone_def\<close>)

text \<open>A count of three or more leaves the code in place until it is discarded.\<close>

lemma IncrementAttempts_guessing:
  assumes run: "IncrementAttempts i w = (r, w')" and w: "guessing email u i c t calm k w" and ms: "1000 dvd t - w_now w"
  shows "w_now w' = w_now w \<and>
    (case r of Inl e \<Rightarrow> e = ErrRedis \<and> (\<not> calm \<or> k < 3) \<and> guessing email u i c t calm k w'
     | Inr n \<Rightarrow> guessing email u i c t calm (if 3 \<le> n then k else k + 1) w')"
proof -
  let ?f = "increment_script (codeKey i) (attemptsKey i)"
  let ?g = "\<lambda>now r. case ?f now r of None \<Rightarrow> (None, r) | Some (x, r') \<Rightarrow> (Some x, r')"
  obtain r1 w1 where one: "redis_do ?g w = (r1, w1)" by fastforce
  have r: "(r, w') = (case r1 of Inl e \<Rightarrow> (Inl e, w1) | Inr None \<Rightarrow> (Inl ErrRedis, w1) | Inr (Some n) \<Rightarrow> (Inr n, w1))"
    using run one by (auto simp: IncrementAttempts_def redis_try_def bindE_def throw_def ret_def split: sum.splits option.splits)
  show ?thesis
  proof (cases rule: redis_do_guessing [OF one w])
    case 1
    with r show ?thesis by simp
  next
    case (2 x v w0)
    show ?thesis
    proof (cases "code_gone i (w_now w) (w_redis w0)")
      case True
      then have "code_gone i (w_now w) (put (attemptsKey i) None (w_redis w0))" by (simp add: code_gone_def)
      with 2 r increment_gone [OF True] show ?thesis by (auto simp: guessing_def tried_def)
    next
      case False
      with 2 obtain n where n: "k < 3" "0 \<le> k" "k \<le> n" "code_live i c n t (w_redis w0)"
        by (auto simp: guessing_def tried_def)
      with False have now: "w_now w < t" by (auto simp: code_gone_def code_live_def split: if_splits)
      show ?thesis
      proof (cases "?f (w_now w) (w_redis w0)")
        case None
        with 2 r n show ?thesis by (auto simp: guessing_def)
      next
        case (Some p)
        moreover obtain m v' where "p = (m, v')" by fastforce
        ultimately have "m = n + 1" "code_live i c (n + 1) t v'" "r = Inr m" "w' = w0\<lparr>w_redis := v'\<rparr>"
          using increment_live [OF n(4) now ms] n 2 r by auto
        with 2 n show ?thesis by (auto simp: guessing_def tried_def intro: exI [of _ "n + 1"])
      qed
    qed
  qed
qed

lemma recordFailedAttempt_guessing:
  assumes run: "recordFailedAttempt i w = (r, w')" and w: "guessing email u i c t calm k w" and ms: "1000 dvd t - w_now w"
  shows "w_now w' = w_now w \<and>
    (case r of Inl e \<Rightarrow> e = ErrRedis \<and> (\<not> calm \<or> k < 3) \<and> guessing email u i c t calm k w'
     | Inr _ \<Rightarrow> guessing email u i c t calm (k + 1) w')"
proof -
  obtain r1 w1 where one: "IncrementAttempts i w = (r1, w1)" by fastforce
  note inc = IncrementAttempts_guessing [OF one w ms]
  show ?thesis
  proof (cases r1)
    case (Inl e)
    with run one inc show ?thesis by (auto simp: recordFailedAttempt_def bindE_def)
  next
    case (Inr n)
    show ?thesis
    proof (cases "3 \<le> n")
      case True
      with run one Inr have del: "InvalidateCode i w1 = (r, w')"
        by (simp add: recordFailedAttempt_def bindE_def max_verification_attempts_def)
      have "guessing email u i c t calm k w1" "0 \<le> k + 1" using inc Inr True by (auto simp: guessing_def)
      from InvalidateCode_guessing [OF del this] inc show ?thesis by (auto split: sum.splits)
    next
      case False
      with run one Inr inc show ?thesis by (auto simp: recordFailedAttempt_def bindE_def ret_def max_verification_attempts_def)
    qed
  qed
qed

text \<open>A guess that is wrong, or that finds the code discarded.\<close>

lemma check_code_guessing:
  assumes run: "check_code env user guess w = (r, w')" and w: "guessing email u (x_uuid_text env (u_id user)) c t calm k w"
    and ms: "1000 dvd t - w_now w" and wrong: "trim_space guess \<noteq> c \<or> 3 \<le> k"
  obtains "r = Inl ErrInvalidCode" "guessing email u (x_uuid_text env (u_id user)) c t calm (k + 1) w'" "w_now w' = w_now w"
  | "r = Inl ErrRedis" "\<not> calm \<or> k < 3" "guessing email u (x_uuid_text env (u_id user)) c t calm k w'" "w_now w' = w_now w"
proof -
  let ?i = "x_uuid_text env (u_id user)"
  obtain r1 w1 where one: "GetCode ?i w = (r1, w1)" by fastforce
  note get = GetCode_guessing [OF one w]
  show thesis
  proof (cases r1)
    case (Inl e)
    with run one get that(2) show thesis by (auto simp: check_code_def Let_def bindE_def)
  next
    case (Inr p)
    obtain v n where p: "p = (v, n)" by fastforce
    obtain r2 w2 where two: "recordFailedAttempt ?i w1 = (r2, w2)" by fastforce
    have "v = [] \<or> v \<noteq> trim_space guess" using get Inr p wrong by auto
    with run one two Inr p have r: "(r, w') = (case r2 of Inl e \<Rightarrow> (Inl e, w2) | Inr _ \<Rightarrow> (Inl ErrInvalidCode, w2))"
      by (auto simp: check_code_def Let_def bindE_def throw_def split: sum.splits)
    have g1: "guessing email u ?i c t calm k w1" "1000 dvd t - w_now w1" using get ms by simp_all
    from recordFailedAttempt_guessing [OF two g1] r get that show thesis by (auto split: sum.splits)
  qed
qed

lemma VerifyEmail_guessing:
  assumes run: "VerifyEmail env email guess bearer w = (r, w')"
    and w: "guessing (a_lower env (trim_space email)) u (x_uuid_text env u) c t calm k w"
    and ms: "1000 dvd t - w_now w" and wrong: "trim_space guess \<noteq> c \<or> 3 \<le> k"
  obtains "r = Inl ErrInvalidCode" "guessing (a_lower env (trim_space email)) u (x_uuid_text env u) c t calm (k + 1) w'" "w_now w' = w_now w"
  | e where "r = Inl e" "e = ErrRedis \<or> e = ErrDriver" "\<not> calm \<or> k < 3"
      "guessing (a_lower env (trim_space email)) u (x_uuid_text env u) c t calm k w'" "w_now w' = w_now w"
proof -
  let ?email = "a_lower env (trim_space email)"
  obtain b w1 where n: "next_entry w = (b, w1)" by (cases "next_entry w")
  note g = guessing_entry [OF n w]
  show thesis
  proof (cases b)
    case True
    with n run g that(2) [of ErrDriver] show thesis
      by (simp add: VerifyEmail_def GetUserByEmail_def select_one_def query_def attempt_def throw_def)
  next
    case False
    obtain user where user: "find (\<lambda>u. u_email u = ?email \<and> live u) (d_users (w_db w1)) = Some user" "u_id user = u"
        "\<not> u_email_verified user" using g(1) unfolding guessing_def awaiting_def by blast
    obtain r2 w2 where two: "check_code env user guess w1 = (r2, w2)" by fastforce
    have "VerifyEmail env email guess bearer w = (case r2 of Inl e \<Rightarrow> (Inl e, w2) | Inr user \<Rightarrow>
        (bindE (asks w_now) (\<lambda>now.
          if \<not> ownsBearer env now (u_id user) bearer
          then ret \<lparr>as_token = [], as_refresh_token = [], as_expires_at = [], as_user = profileOf env user\<rparr>
          else openSession env user None)) w2)"
      using n False user two
      by (simp add: VerifyEmail_def GetUserByEmail_def select_one_def query_def attempt_def bindE_def [of "check_code env user guess"] split: sum.splits)
    note v = this
    have "guessing ?email u (x_uuid_text env (u_id user)) c t calm k w1" "1000 dvd t - w_now w1" using g ms user by simp_all
    from check_code_guessing [OF two this wrong] show thesis
      by cases (use v run g user that in \<open>auto\<close>)
  qed
qed

text \<open>Guesses, each with its time and its bearer, and what they are answered.\<close>

fun guess_all :: "auth_env \<Rightarrow> string \<Rightarrow> (instant \<times> string \<times> string) list \<Rightarrow> world \<Rightarrow> (go_error + auth_session) list \<times> world" where
  "guess_all env email [] w = ([], w)"
| "guess_all env email ((now, guess, bearer) # gs) w =
     (let (r, w1) = VerifyEmail env email guess bearer (w\<lparr>w_now := now\<rparr>); (rs, w2) = guess_all env email gs w1 in (r # rs, w2))"

lemma guessing_later: "guessing email u i c t calm k w \<Longrightarrow> w_now w \<le> now \<Longrightarrow> guessing email u i c t calm k (w\<lparr>w_now := now\<rparr>)"
  by (auto simp: guessing_def tried_def intro: code_gone_later)

lemma guess_all_guessing:
  assumes "guess_all env email gs w = (rs, w')" "guessing (a_lower env (trim_space email)) u (x_uuid_text env u) c t calm k w"
    and "sorted (w_now w # map fst gs)" "\<forall>(n, g, b) \<in> set gs. 1000 dvd t - n \<and> (trim_space g \<noteq> c \<or> 3 \<le> k)"
  shows "guessing (a_lower env (trim_space email)) u (x_uuid_text env u) c t calm (k + count_list rs (Inl ErrInvalidCode)) w' \<and>
    w_now w' = last (w_now w # map fst gs) \<and> set rs \<subseteq> {Inl ErrInvalidCode, Inl ErrRedis, Inl ErrDriver} \<and>
    (calm \<longrightarrow> 3 \<le> k \<longrightarrow> set rs \<subseteq> {Inl ErrInvalidCode})"
  using assms
proof (induction gs arbitrary: w w' k rs)
  case (Cons x gs)
  let ?email = "a_lower env (trim_space email)"
  obtain n g b where x: "x = (n, g, b)" by (metis prod.exhaust)
  obtain r w1 where one: "VerifyEmail env email g b (w\<lparr>w_now := n\<rparr>) = (r, w1)" by fastforce
  obtain rs1 w2 where rest: "guess_all env email gs w1 = (rs1, w2)" by fastforce
  have rs: "rs = r # rs1" "w' = w2" using Cons.prems(1) x one rest by simp_all
  have now: "guessing ?email u (x_uuid_text env u) c t calm k (w\<lparr>w_now := n\<rparr>)"
    using guessing_later [OF Cons.prems(2)] Cons.prems(3) x by simp
  have ms: "1000 dvd t - w_now (w\<lparr>w_now := n\<rparr>)" "trim_space g \<noteq> c \<or> 3 \<le> k" using Cons.prems(4) x by auto
  from VerifyEmail_guessing [OF one now ms] show ?case
  proof cases
    case 1
    then have "guessing ?email u (x_uuid_text env u) c t calm (k + 1) w1" "sorted (w_now w1 # map fst gs)"
      "\<forall>(n, g, b) \<in> set gs. 1000 dvd t - n \<and> (trim_space g \<noteq> c \<or> 3 \<le> k + 1)"
      using Cons.prems(3,4) x by auto
    note ih = Cons.IH [OF rest this, folded rs(2)]
    have "k + 1 + int (count_list rs1 (Inl ErrInvalidCode)) = k + int (count_list rs (Inl ErrInvalidCode))"
      using 1 rs by simp
    with ih 1 rs x show ?thesis by auto
  next
    case (2 e)
    then have "sorted (w_now w1 # map fst gs)" "\<forall>(n, g, b) \<in> set gs. 1000 dvd t - n \<and> (trim_space g \<noteq> c \<or> 3 \<le> k)"
      using Cons.prems(3,4) x by auto
    note ih = Cons.IH [OF rest 2(4) this, folded rs(2)]
    with 2 rs x show ?thesis by auto
  qed
qed simp


lemma weakens_code: "weakens i c t g \<Longrightarrow> v_strings (g r) (codeKey i) \<in> {v_strings r (codeKey i), None}"
  unfolding weakens_def by blast

lemma others_entry:
  assumes "next_entry w = (b, w')" "awaiting email u (w_db w)" "others_guess email u i c t (w_sched w)"
  shows "awaiting email u (w_db w')" "others_guess email u i c t (w_sched w')"
    "v_strings (w_redis w') (codeKey i) \<in> {v_strings (w_redis w) (codeKey i), None}"
proof -
  show "awaiting email u (w_db w')" "others_guess email u i c t (w_sched w')"
    using assms by (auto simp: next_entry_def others_guess_def rely_Cons split: list.splits sched.splits if_splits)
  have "w_redis w' = w_redis w \<or> (\<exists>g. weakens i c t g \<and> w_redis w' = g (w_redis w))"
    using assms(1,3) by (auto simp: next_entry_def others_guess_def split: list.splits sched.splits if_splits)
  then show "v_strings (w_redis w') (codeKey i) \<in> {v_strings (w_redis w) (codeKey i), None}"
    using weakens_code by fastforce
qed

lemma StoreCode_guessing:
  assumes run: "StoreCode i c w = (Inr (), w')" and user: "awaiting email u (w_db w)"
    and others: "others_guess email u i c (w_now w + verification_code_ttl) (w_sched w)"
  shows "guessing email u i c (w_now w + verification_code_ttl) False 0 w' \<and> w_now w' = w_now w"
proof -
  let ?t = "w_now w + verification_code_ttl"
  from run obtain w1 where one: "SET (codeKey i) c verification_code_ttl w = (Inr (), w1)"
    and two: "SET (attemptsKey i) ''0'' verification_code_ttl w1 = (Inr (), w')"
    by (auto simp: StoreCode_def bindE_Inr)
  have zero: "decimal 0 = ''0''" by code_simp
  obtain b v where n: "next_entry w = (b, v)" by (cases "next_entry w")
  with one have w1: "w1 = v\<lparr>w_redis := put (codeKey i) (Some (c, Some ?t)) (w_redis v)\<rparr>"
    using next_entry_frame(2) [OF n] by (auto simp: SET_def redis_do_def split: bool.splits)
  note v = others_entry [OF n user others]
  obtain b' v' where m: "next_entry w1 = (b', v')" by (cases "next_entry w1")
  have "awaiting email u (w_db w1)" "others_guess email u i c ?t (w_sched w1)" using v w1 by simp_all
  note v' = others_entry [OF m this]
  have now: "w_now v' = w_now w" using next_entry_frame(2) [OF n] next_entry_frame(2) [OF m] w1 by simp
  have code: "v_strings (w_redis v') (codeKey i) \<in> {Some (c, Some ?t), None}" using v'(3) w1 by simp
  from m two have "w' = v'\<lparr>w_redis := put (attemptsKey i) (Some (''0'', Some ?t)) (w_redis v')\<rparr>"
    using now by (auto simp: SET_def redis_do_def split: bool.splits)
  moreover have "tried i c ?t 0 (w_now w) (put (attemptsKey i) (Some (''0'', Some ?t)) (w_redis v'))"
  proof (cases "v_strings (w_redis v') (codeKey i)")
    case None
    then show ?thesis by (simp add: tried_def code_gone_def)
  next
    case (Some e)
    with code zero have "code_live i c 0 ?t (put (attemptsKey i) (Some (''0'', Some ?t)) (w_redis v'))"
      by (simp add: code_live_def)
    then show ?thesis by (auto simp: tried_def)
  qed
  ultimately show ?thesis using v'(1,2) now by (simp add: guessing_def)
qed

lemma sorted_last: "sorted (xs @ ys) \<Longrightarrow> xs \<noteq> [] \<Longrightarrow> sorted (last xs # ys)"
  by (cases xs rule: rev_cases) (auto simp: sorted_append)

text \<open>
  C38: A code is good for at most three refused guesses.  From the moment it is stored, let wrong
  codes be guessed one after another, at whatever times on Redis's millisecond clock, with
  statements that fail and with others in between, who count wrong guesses of their own or
  discard the code, but neither store a new code nor verify the account.  Once three of the
  guesses have been answered that the code is invalid, every guess that starts afterwards is
  refused, with the right code too: it is answered the same, or that the database or Redis
  failed, and only the former when nothing fails any more.  (A guess that has read the code
  before that may still win, \<open>overlapping_guess_wins\<close>.)
\<close>

theorem three_wrong_codes:
  assumes store: "StoreCode (x_uuid_text env u) c w = (Inr (), w0)"
    and user: "awaiting (a_lower env (trim_space email)) u (w_db w)"
    and others: "others_guess (a_lower env (trim_space email)) u (x_uuid_text env u) c (w_now w + verification_code_ttl) (w_sched w)"
    and first: "guess_all env email gs w0 = (refused, w1)" and wrong: "\<forall>(n, g, b) \<in> set gs. trim_space g \<noteq> c"
    and three: "3 \<le> count_list refused (Inl ErrInvalidCode)"
    and later: "guess_all env email hs w1 = (answers, w2)"
    and clock: "sorted (w_now w # map fst gs @ map fst hs)" "\<forall>n \<in> set (w_now w # map fst gs @ map fst hs). 1000 dvd n"
  shows "set answers \<subseteq> {Inl ErrInvalidCode, Inl ErrRedis, Inl ErrDriver} \<and>
    (faultless (w_sched w1) \<longrightarrow> set answers \<subseteq> {Inl ErrInvalidCode})"
proof -
  let ?i = "x_uuid_text env u" and ?t = "w_now w + verification_code_ttl" and ?email = "a_lower env (trim_space email)"
  have ttl: "1000 dvd verification_code_ttl" by code_simp
  have w0: "guessing ?email u ?i c ?t False 0 w0" "w_now w0 = w_now w"
    using StoreCode_guessing [OF store user others] by simp_all
  have "1000 dvd ?t - n" if "(n, x) \<in> set (gs @ hs)" for n x
  proof -
    from that have "n \<in> set (map fst gs @ map fst hs)" by force
    then show ?thesis using clock(2) ttl by (auto intro: dvd_diff)
  qed
  note ms = this
  have guesses: "\<forall>(n, g, b) \<in> set gs. 1000 dvd ?t - n \<and> (trim_space g \<noteq> c \<or> 3 \<le> (0::int))"
    and afterwards: "\<forall>(n, g, b) \<in> set hs. 1000 dvd ?t - n \<and> (trim_space g \<noteq> c \<or> 3 \<le> int (count_list refused (Inl ErrInvalidCode)))"
    using wrong three ms by auto
  have "sorted (w_now w0 # map fst gs)" using clock(1) w0(2) by (simp add: sorted_append)
  note g = guess_all_guessing [OF first w0(1) this guesses]
  have later_on: "sorted (w_now w1 # map fst hs)" using g sorted_last [of "w_now w # map fst gs" "map fst hs"] clock(1) w0(2) by simp
  have "guessing ?email u ?i c ?t (faultless (w_sched w1)) (int (count_list refused (Inl ErrInvalidCode))) w1"
    using g by (auto simp: guessing_def)
  from guess_all_guessing [OF later this later_on afterwards] three show ?thesis by simp
qed


lemma one_digit: "trim_space ''1'' = ''1''" "trim_space ''2'' = ''2''" "trim_space ''3'' = ''3''"
  by (rule trim_digits, simp add: is_digit_def digit_value_def)+

lemma bob_id: "x_uuid_text acct_env 12 = ''12''"
  by code_simp

definition guesses_world :: "world" where
  "guesses_world = (bob_world False)\<lparr>w_sched := [Ok, Ok, Ok, Ok, Ok, OthersRedis (\<lambda>r. case increment_script (codeKey ''12'')
     (attemptsKey ''12'') monday_8 r of None \<Rightarrow> r | Some (_, r') \<Rightarrow> r'), Fault]\<rparr>"

definition wrong_guesses :: "(instant \<times> string \<times> string) list" where
  "wrong_guesses = [(monday_8 + 1000, ''1'', []), (monday_8 + 5000, ''2'', []), (monday_8 + 6000, ''2'', []), (monday_8 + 7000, ''3'', [])]"

lemma guess_numbers: "decimal 1 = ''1''" "decimal 2 = ''2''" "decimal 3 = ''3''" "atoi ''0'' = Some 0" "atoi ''1'' = Some 1" "atoi ''2'' = Some 2"
  by code_simp+

lemmas guess_defs = VerifyEmail_def check_code_def Let_def bindE_def attempt_def GetUserByEmail_def select_one_def query_def
  GetCode_def GET_def redis_do_def next_entry_def ret_def throw_def recordFailedAttempt_def IncrementAttempts_def redis_try_def
  increment_script_def incr_def expire_at_def InvalidateCode_def DEL_def max_verification_attempts_def

lemma guesses_run: "\<exists>w0 w1. StoreCode ''12'' ''123456'' guesses_world = (Inr (), w0) \<and>
  guess_all acct_env ''bob@mail'' wrong_guesses w0 =
    ([Inl ErrInvalidCode, Inl ErrDriver, Inl ErrInvalidCode, Inl ErrInvalidCode], w1) \<and> w_sched w1 = []"
  by (simp add: guesses_world_def wrong_guesses_def StoreCode_def SET_def guess_defs guess_numbers bob_parses bob_id one_digit
      verification_code_ttl_def minutes_def seconds_def)

lemma three_wrong_codes_witness:
  "\<exists>w0 w1 w2. StoreCode ''12'' ''123456'' guesses_world = (Inr (), w0) \<and>
     guess_all acct_env ''bob@mail'' wrong_guesses w0 =
       ([Inl ErrInvalidCode, Inl ErrDriver, Inl ErrInvalidCode, Inl ErrInvalidCode], w1) \<and>
     guess_all acct_env ''bob@mail'' [(monday_8 + 9000, ''123456'', [])] w1 = ([Inl ErrInvalidCode], w2)"
proof -
  let ?hs = "[(monday_8 + 9000, ''123456'', [])] :: (instant \<times> string \<times> string) list"
  obtain w0 w1 where s: "StoreCode ''12'' ''123456'' guesses_world = (Inr (), w0)"
    and g: "guess_all acct_env ''bob@mail'' wrong_guesses w0 = ([Inl ErrInvalidCode, Inl ErrDriver, Inl ErrInvalidCode, Inl ErrInvalidCode], w1)"
    and calm: "w_sched w1 = []" using guesses_run by blast
  obtain as w2 where h: "guess_all acct_env ''bob@mail'' ?hs w1 = (as, w2)" by fastforce
  have m: "(1000::int) dvd monday_8" by code_simp
  have now: "w_now guesses_world = monday_8" by (simp add: guesses_world_def bob_world_def world_at_def)
  have i: "a_lower acct_env (trim_space ''bob@mail'') = ''bob@mail''" using bob_parses by simp
  have await: "awaiting ''bob@mail'' 12 (w_db guesses_world)"
    by (auto simp: awaiting_def guesses_world_def)
  have "(1000::int) dvd monday_8 + verification_code_ttl - monday_8" by code_simp
  then have others: "others_guess ''bob@mail'' 12 ''12'' ''123456'' (monday_8 + verification_code_ttl) (w_sched guesses_world)"
    by (auto simp: others_guess_def guesses_world_def verification_code_ttl_def minutes_def seconds_def rely_Cons intro!: weakens_increment)
  have wrong: "\<forall>(n, g, b) \<in> set wrong_guesses. trim_space g \<noteq> ''123456''"
    unfolding wrong_guesses_def by (simp only: one_digit list.set ball_simps prod.case simp_thms) simp
  have "set as \<subseteq> {Inl ErrInvalidCode, Inl ErrRedis, Inl ErrDriver} \<and> (faultless (w_sched w1) \<longrightarrow> set as \<subseteq> {Inl ErrInvalidCode})"
    by (rule three_wrong_codes [where env = acct_env and u = 12 and w = guesses_world and email = "''bob@mail''", OF _ _ _ g _ _ h])
      (use s m await others wrong in \<open>simp_all add: bob_id i now\<close>, simp_all add: wrong_guesses_def m)
  moreover have "\<exists>r. as = [r]" using h by (auto simp: split: prod.splits)
  ultimately have "as = [Inl ErrInvalidCode]" using calm by (auto simp: faultless_def)
  with s g h show ?thesis by blast
qed

text \<open>
  The comparison and the count are separate commands, so the three holds for guesses that
  start after the third: a guess that has read the code before it is discarded still
  verifies the account, whatever others do to the two keys in between.
\<close>

lemma overlapping_guess_wins:
  assumes sched: "w_sched w = [Ok, Ok, OthersRedis g]"
    and user: "find (\<lambda>u. u_email u = a_lower env (trim_space email) \<and> live u) (d_users (w_db w)) = Some user" "\<not> u_email_verified user"
    and code: "code_live (x_uuid_text env (u_id user)) c k t (w_redis w)" "w_now w < t" "trim_space guess = c" "c \<noteq> []"
  shows "\<exists>s w'. VerifyEmail env email guess [] w = (Inr s, w') \<and>
    list_ex (\<lambda>v. u_id v = u_id user \<and> u_email_verified v) (d_users (w_db w'))"
proof -
  have mem: "user \<in> set (d_users (w_db w))" "live user" using find_Some_mem [OF user(1)] by auto
  let ?i = "x_uuid_text env (u_id user)" and ?p = "\<lambda>v. u_id v = u_id user \<and> live v"
  let ?w1 = "w\<lparr>w_sched := [Ok, OthersRedis g]\<rparr>" and ?w2 = "w\<lparr>w_sched := [], w_redis := g (w_redis w)\<rparr>"
  have "GetUserByEmail (a_lower env (trim_space email)) w = (Inr user, ?w1)"
    using sched user by (simp add: GetUserByEmail_def select_one_def query_def next_entry_def)
  moreover have "\<exists>n. GetCode ?i ?w1 = (Inr (c, n), ?w2)"
    using code by (auto simp: GetCode_def GET_def redis_do_def next_entry_def bindE_def code_live_def ret_def split: option.splits)
  moreover obtain v vs where v: "filter ?p (d_users (w_db w)) = v # vs" using mem by (cases "filter ?p (d_users (w_db w))") (auto simp: filter_empty_conv)
  moreover have "list_ex (\<lambda>v. u_id v = u_id user \<and> u_email_verified v)
      (update_where ?p (verified_set (w_dbnow w)) (d_users (w_db w)))"
    using mem by (auto simp: list_ex_iff update_where_def verified_set_def intro!: rev_bexI [of "verified_set (w_dbnow w) user"])
  ultimately show ?thesis
    using user(2) code
    by (auto simp: VerifyEmail_def attempt_def bindE_def check_code_def Let_def VerifyUserEmail_def update_user_def query_calm
        InvalidateCode_calm asks_def ownsBearer_def ret_def)
qed

end
