(* ===== verification/Gateway_Properties.thy ===== *)
theory Gateway_Properties
  imports Gateway Code_Properties
begin

text \<open>
  Properties of the way into the API: who reaches a private route, what the rate limiter
  lets through.
\<close>

section \<open>Who reaches a private route\<close>

definition private_route :: "route \<Rightarrow> bool" where
  "private_route g \<longleftrightarrow> g \<noteq> Healthz \<and> g \<noteq> AuthPublic \<and> g \<noteq> AuthPrivate \<and> g \<noteq> BookingPublic"

text \<open>
  What stands in front of the private routes.  A request there is answered with 401 or 403 and
  changes nothing unless its token parses, names a user and is session-scoped, and, on the
  coach and admin routes, carries the role; then the handler runs as that user.  A token
  handed out at sign-up is turned away.
\<close>

theorem private_routes_gated:
  assumes "private_route g"
  shows "(\<exists>c i. bearerToken r \<noteq> [] \<and> Parse env (w_now w) (bearerToken r) = Some c \<and> claims_user env c = Some i \<and>
        cl_scope c = scope_session \<and>
        (g = CoachRoutes \<longrightarrow> cl_role c = role_coach \<or> cl_role c = role_admin) \<and> (g = AdminRoutes \<longrightarrow> cl_role c = role_admin) \<and>
        newRouter env l split g r f w = f (Some (principal_of c i)) w)
    \<or> newRouter env l split g r f w \<in> {(Inl 401, w), (Inl 403, w)} \<and>
      (\<forall>c. bearerToken r \<noteq> [] \<longrightarrow> Parse env (w_now w) (bearerToken r) = Some c \<longrightarrow> claims_user env c \<noteq> None \<longrightarrow>
         cl_scope c = scope_verify \<longrightarrow> newRouter env l split g r f w = (Inl 403, w))"
proof (cases "Parse env (w_now w) (bearerToken r)")
  case None
  with assms show ?thesis
    by (cases g) (auto simp: private_route_def private_group_def Authenticate_def Let_def bindE_def asks_def throw_def)
next
  case c: (Some c)
  show ?thesis
  proof (cases "claims_user env c")
    case None
    with c assms show ?thesis
      by (cases g) (auto simp: private_route_def private_group_def Authenticate_def Let_def bindE_def asks_def throw_def)
  next
    case (Some i)
    have ne: "scope_verify \<noteq> scope_session" "scope_verify \<noteq> []" "scope_session \<noteq> []"
      by (simp_all add: scope_verify_def scope_session_def)
    with c Some assms show ?thesis
      by (cases g) (auto simp: private_route_def private_group_def Authenticate_def Let_def bindE_def asks_def throw_def
          RequireScope_def RequireCoach_def RequireAdmin_def IsCoach_def IsAdmin_def
          principal_of_def)
  qed
qed

definition any_limiter :: limiter where "any_limiter = \<lparr>l_limit = 2, l_window = minutes 1\<rparr>"

definition with_token :: "string \<Rightarrow> raw_request" where
  "with_token v = \<lparr>rq_header = (\<lambda>k. if k = ''Authorization'' then ''Bearer '' @ v else []), rq_query = (\<lambda>_. []), rq_peer = ''9.9.9.9:80''\<rparr>"

lemma bob_tokens:
  "bearerToken (with_token ''verify:12:001767603600'') = ''verify:12:001767603600''"
  "\<exists>c. Parse acct_env monday_8 ''verify:12:001767603600'' = Some c \<and> claims_user acct_env c = Some 12 \<and> cl_scope c = scope_verify"
proof -
  show "bearerToken (with_token ''verify:12:001767603600'') = ''verify:12:001767603600''" by code_simp
  let ?c = "bob_claims\<lparr>cl_scope := scope_verify\<rparr>"
  have "Parse acct_env monday_8 ''verify:12:001767603600'' = read_jwt monday_8 ''verify:12:001767603600''"
    by (simp add: Parse_def acct_env_def)
  also have "\<dots> = Some ?c" by code_simp
  finally have "Parse acct_env monday_8 ''verify:12:001767603600'' = Some ?c" .
  moreover have "claims_user acct_env ?c = Some 12" using bob_parses(2) by (simp add: claims_user_def)
  ultimately show "\<exists>c. Parse acct_env monday_8 ''verify:12:001767603600'' = Some c \<and> claims_user acct_env c = Some 12 \<and>
      cl_scope c = scope_verify" by (intro exI conjI) auto
qed

lemma private_routes_gated_witness:
  "newRouter acct_env any_limiter (\<lambda>_. None) CoachRoutes (with_token ''verify:12:001767603600'')
     (\<lambda>_. ret (200, ())) (bob_world True) = (Inl 403, bob_world True)"
proof -
  have p: "private_route CoachRoutes" by (simp add: private_route_def)
  obtain c where c: "Parse acct_env monday_8 ''verify:12:001767603600'' = Some c" "claims_user acct_env c = Some 12" "cl_scope c = scope_verify"
    using bob_tokens(2) by blast
  have ne: "scope_verify \<noteq> scope_session" by (simp add: scope_verify_def scope_session_def)
  show ?thesis
    using private_routes_gated [OF p, of "with_token ''verify:12:001767603600''" acct_env "bob_world True" any_limiter
        "\<lambda>_. None" "\<lambda>_. ret (200, ())"] c ne
    unfolding bob_tokens(1) bob_world_simps by auto
qed

section \<open>The rate limiter\<close>

text \<open>The answers to requests made one after the other, each at its time and under its key.\<close>

fun allow_all :: "limiter \<Rightarrow> (instant \<times> string) list \<Rightarrow> world \<Rightarrow> (go_error + bool) list" where
  "allow_all l [] w = []"
| "allow_all l ((now, key) # rs) w =
     (case Allow l key (w\<lparr>w_now := now\<rparr>) of (x, w') \<Rightarrow> x # allow_all l rs w')"

lemma Allow_first:
  assumes "w_sched w = []" "fresh (w_now w) (v_strings (w_redis w) (limit_key l key (w_now w))) = None"
  shows "Allow l key w = (Inr (1 \<le> l_limit l),
    w\<lparr>w_redis := put (limit_key l key (w_now w)) (Some (decimal 1, Some (w_now w + l_window l)))
      (put (limit_key l key (w_now w)) (Some (decimal 1, None)) (w_redis w))\<rparr>)"
  using assms
  by (simp add: Allow_def asks_def bindE_def INCR_def redis_try_calm incr_def EXPIRE_def redis_do_calm expire_at_def ret_def)

lemma Allow_next:
  assumes "w_sched w = []" "v_strings (w_redis w) (limit_key l key (w_now w)) = Some (decimal k, Some t)" "w_now w < t"
    and "1 \<le> k" "k < 2 ^ 63 - 1"
  shows "Allow l key w = (Inr (k + 1 \<le> l_limit l),
    w\<lparr>w_redis := put (limit_key l key (w_now w)) (Some (decimal (k + 1), Some t)) (w_redis w)\<rparr>)"
proof -
  have "atoi (decimal k) = Some k" using assms by (intro atoi_decimal) auto
  with assms show ?thesis
    by (simp add: Allow_def asks_def bindE_def INCR_def redis_try_calm incr_def ret_def)
qed

lemma allow_all_counts:
  assumes "w_sched w = []" "v_strings (w_redis w) (limit_key l key n0) = Some (decimal k, Some t)" "1 \<le> k"
    and "k + length ns < 2 ^ 63" "\<forall>n \<in> set ns. n div l_window l = n0 div l_window l \<and> n < t"
  shows "allow_all l (map (\<lambda>n. (n, key)) ns) w = map (\<lambda>j. Inr (k + int j < l_limit l)) [0..<length ns]"
  using assms
proof (induction ns arbitrary: w k)
  case Nil
  then show ?case by simp
next
  case (Cons n ns)
  let ?key = "limit_key l key n0"
  have key: "limit_key l key n = ?key" and n: "n < t" using Cons.prems(5) by (auto simp: limit_key_def)
  have a: "Allow l key (w\<lparr>w_now := n\<rparr>) = (Inr (k + 1 \<le> l_limit l), w\<lparr>w_now := n,
      w_redis := put ?key (Some (decimal (k + 1), Some t)) (w_redis w)\<rparr>)"
    using Allow_next [of "w\<lparr>w_now := n\<rparr>" l key k t] Cons.prems key n by simp
  have "allow_all l (map (\<lambda>n. (n, key)) ns) (w\<lparr>w_now := n, w_redis := put ?key (Some (decimal (k + 1), Some t)) (w_redis w)\<rparr>) =
      map (\<lambda>j. Inr (k + 1 + int j < l_limit l)) [0..<length ns]"
    by (rule Cons.IH) (use Cons.prems in auto)
  moreover have "map (\<lambda>j. Inr (k + int j < l_limit l)) [0..<Suc (length ns)] =
      (Inr (k < l_limit l) :: go_error + bool) # map (\<lambda>j. Inr (k + 1 + int j < l_limit l)) [0..<length ns]"
    by (simp add: upt_conv_Cons map_Suc_upt [symmetric] add.commute add.left_commute del: upt_Suc)
  moreover have "(k + 1 \<le> l_limit l) = (k < l_limit l)" by linarith
  ultimately show ?case using a by (simp add: add.commute del: upt_Suc)
qed

text \<open>
  What the limiter allows: of the requests under one key within one window, exactly the first
  \<open>l_limit\<close> ones, at whatever times of the window they come.
\<close>

theorem limiter_counts:
  assumes calm: "w_sched w = []" and window: "0 < l_window l" and clock: "sorted ns"
    and same: "\<forall>n \<in> set ns. n div l_window l = n0 div l_window l" and few: "length ns < 2 ^ 63"
    and new: "v_strings (w_redis w) (limit_key l key n0) = None"
  shows "allow_all l (map (\<lambda>n. (n, key)) ns) w = map (\<lambda>j. Inr (int j < l_limit l)) [0..<length ns]"
proof (cases ns)
  case (Cons n ms)
  let ?key = "limit_key l key n0"
  have key: "limit_key l key n = ?key" using same Cons by (simp add: limit_key_def)
  have "m < n + l_window l" if "m \<in> set ms" for m
  proof -
    have "m div l_window l = n div l_window l" using same that Cons by simp
    then have "m - m mod l_window l = n - n mod l_window l" by (metis minus_mod_eq_div_mult)
    moreover have "m mod l_window l < l_window l" "0 \<le> n mod l_window l" using window by simp_all
    ultimately show ?thesis by linarith
  qed
  with same Cons have ms: "\<forall>m \<in> set ms. m div l_window l = n0 div l_window l \<and> m < n + l_window l" by simp
  let ?r = "put ?key (Some (decimal 1, Some (n + l_window l))) (put ?key (Some (decimal 1, None)) (w_redis w))"
  have a: "Allow l key (w\<lparr>w_now := n\<rparr>) = (Inr (1 \<le> l_limit l), w\<lparr>w_now := n, w_redis := ?r\<rparr>)"
    using Allow_first [of "w\<lparr>w_now := n\<rparr>" l key] calm key new by simp
  have "allow_all l (map (\<lambda>n. (n, key)) ms) (w\<lparr>w_now := n, w_redis := ?r\<rparr>) =
      map (\<lambda>j. Inr (1 + int j < l_limit l)) [0..<length ms]"
    by (rule allow_all_counts [where t = "n + l_window l" and ?n0.0 = n0]) (use calm ms few Cons in auto)
  moreover have "map (\<lambda>j. Inr (int j < l_limit l)) [0..<Suc (length ms)] =
      (Inr (0 < l_limit l) :: go_error + bool) # map (\<lambda>j. Inr (1 + int j < l_limit l)) [0..<length ms]"
    by (simp add: upt_conv_Cons map_Suc_upt [symmetric] del: upt_Suc)
  ultimately show ?thesis using a Cons by (auto simp del: upt_Suc)
qed simp

lemma limiter_counts_witness:
  "allow_all any_limiter (map (\<lambda>n. (n, ''1.2.3.4'')) [monday_8, monday_8 + 1, monday_8 + 2]) (bob_world True) =
     [Inr True, Inr True, Inr False]"
proof -
  have r: "v_strings (w_redis (bob_world True)) = (\<lambda>_. None)" by (simp add: bob_world_def world_at_def)
  have "allow_all any_limiter (map (\<lambda>n. (n, ''1.2.3.4'')) [monday_8, monday_8 + 1, monday_8 + 2]) (bob_world True) =
      map (\<lambda>j. Inr (int j < l_limit any_limiter)) [0..<length [monday_8, monday_8 + 1, monday_8 + 2]]"
    by (rule limiter_counts [where ?n0.0 = monday_8])
      (simp_all add: r any_limiter_def monday_8_def minutes_def seconds_def)
  then show ?thesis by (simp add: any_limiter_def upt_rec)
qed

definition forged :: "string \<Rightarrow> string \<Rightarrow> raw_request" where
  "forged peer a = \<lparr>rq_header = (\<lambda>k. if k = ''X-Forwarded-For'' then a else []), rq_query = (\<lambda>_. []), rq_peer = peer\<rparr>"

text \<open>
  The limiter's key is what the caller puts in the X-Forwarded-For header.  A caller who sends
  a new address with every request is never limited, whatever address the requests come from.
\<close>

theorem forged_addresses_unlimited:
  assumes calm: "w_sched w = []" and limit: "1 \<le> l_limit l"
    and new: "\<forall>a \<in> set as. v_strings (w_redis w) (limit_key l a now) = None"
    and addresses: "distinct as" "\<forall>a \<in> set as. a \<noteq> [] \<and> CHR '','' \<notin> set a \<and> trim_space a = a"
  shows "allow_all l (map (\<lambda>a. (now, ClientIP split_host_port (rq_header (forged peer a)) (rq_peer (forged peer a)))) as) w =
    replicate (length as) (Inr True)"
  using calm new addresses
proof (induction as arbitrary: w)
  case (Cons a as)
  have "takeWhile (\<lambda>c. c \<noteq> CHR '','') a = a" using Cons.prems(4) by (auto simp: takeWhile_eq_all_conv)
  then have ip: "ClientIP split_host_port (rq_header (forged peer a)) (rq_peer (forged peer a)) = a"
    using Cons.prems(4) by (simp add: ClientIP_def forged_def del: takeWhile_eq_all_conv)
  let ?r = "put (limit_key l a now) (Some (decimal 1, Some (now + l_window l)))
      (put (limit_key l a now) (Some (decimal 1, None)) (w_redis w))"
  have first: "Allow l a (w\<lparr>w_now := now\<rparr>) = (Inr True, w\<lparr>w_now := now, w_redis := ?r\<rparr>)"
    using Allow_first [of "w\<lparr>w_now := now\<rparr>" l a] Cons.prems(1,2) limit by simp
  have "\<forall>b \<in> set as. limit_key l b now \<noteq> limit_key l a now"
    using Cons.prems(3) by (auto simp: limit_key_def)
  then have "allow_all l (map (\<lambda>a. (now, ClientIP split_host_port (rq_header (forged peer a)) (rq_peer (forged peer a)))) as)
      (w\<lparr>w_now := now, w_redis := ?r\<rparr>) = replicate (length as) (Inr True)"
    by (intro Cons.IH) (use Cons.prems in auto)
  with first ip show ?case by simp
qed simp

lemma forged_addresses_unlimited_witness:
  "allow_all any_limiter (map (\<lambda>a. (monday_8, ClientIP (\<lambda>_. None) (rq_header (forged ''9.9.9.9'' a)) (rq_peer (forged ''9.9.9.9'' a))))
     [''1'', ''2'', ''3'']) (bob_world True) = [Inr True, Inr True, Inr True]"
proof -
  have r: "v_strings (w_redis (bob_world True)) = (\<lambda>_. None)" by (simp add: bob_world_def world_at_def)
  have "allow_all any_limiter (map (\<lambda>a. (monday_8, ClientIP (\<lambda>_. None) (rq_header (forged ''9.9.9.9'' a)) (rq_peer (forged ''9.9.9.9'' a))))
      [''1'', ''2'', ''3'']) (bob_world True) = replicate (length [''1'', ''2'', ''3'']) (Inr True)"
    by (rule forged_addresses_unlimited) (simp_all add: r one_digit any_limiter_def)
  then show ?thesis by (simp add: numeral_3_eq_3)
qed

end
