(* ===== verification/Signup_Properties.thy ===== *)
theory Signup_Properties
  imports Gateway_Properties
begin

text \<open>
  Properties of sign-up: the round trip from sign-up to a verified account, and the passwords
  that cannot be hashed.
\<close>

section \<open>Sign-up\<close>

lemma Send_result: "Send mx m w = (r, w') \<Longrightarrow> \<exists>sg. w' = w\<lparr>w_signals := sg\<rparr>"
proof -
  assume "Send mx m w = (r, w')"
  then have "w' = w \<or> w' = w\<lparr>w_signals := w_signals w @ [Mailed m]\<rparr>"
    by (auto simp: Send_def Let_def split: prod.splits option.splits if_splits)
  moreover have "w = w\<lparr>w_signals := w_signals w\<rparr>" by simp
  ultimately show ?thesis by metis
qed

lemma sendVerificationEmail_result: "sendVerificationEmail env email code w = (r, w') \<Longrightarrow> \<exists>sg. w' = w\<lparr>w_signals := sg\<rparr>"
  unfolding sendVerificationEmail_def attempt_result Email_def ret_def by (auto dest: Send_result)

lemma Issue_Inr: "Issue env i email role scope ttl w = (Inr (raw, expires), w') \<longleftrightarrow>
  w' = w \<and> expires = w_now w + ttl \<and> a_sign env \<lparr>cl_subject = x_uuid_text env i, cl_issuer = ''dating-coach-api'',
    cl_issued_at = unix (w_now w), cl_expires_at = Some (unix expires), cl_role = role, cl_email = email, cl_scope = scope\<rparr> = Some raw"
  by (auto simp: Issue_def bindE_def asks_def Let_def throw_def ret_def split: option.splits)

lemma CreateUser_Inr:
  "w_sched w = [] \<Longrightarrow> CreateUser email hash name role w = (Inr u, w') \<longleftrightarrow>
     u = new_user email hash name role False (w_next_id w) (w_dbnow w) \<and> users_violation (d_users (w_db w) @ [u]) = None \<and>
     w' = w\<lparr>w_next_id := Suc (w_next_id w), w_db := (w_db w)\<lparr>d_users := d_users (w_db w) @ [u]\<rparr>\<rparr>"
  by (auto simp: CreateUser_def insert_user_def bindE_def fresh_id_def query_calm Let_def split: option.splits)

text \<open>What a successful sign-up leaves behind.\<close>

lemma sign_up_state:
  assumes calm: "w_sched w = []" and run: "SignUp env b w = (Inr s, w1)"
  shows "\<exists>n ns u. w_codes w = n # ns \<and> u_id u = w_next_id w \<and> u_email u = a_lower env (trim_space (si_email b)) \<and>
    \<not> u_email_verified u \<and> live u \<and> users_violation (d_users (w_db w) @ [u]) = None \<and>
    d_users (w_db w1) = d_users (w_db w) @ [u] \<and> d_tokens (w_db w1) = d_tokens (w_db w) \<and> w_sched w1 = [] \<and>
    code_live (x_uuid_text env (u_id u)) (pad 6 (n mod code_space)) 0 (w_now w + verification_code_ttl) (w_redis w1) \<and>
    as_refresh_token s = [] \<and> as_user s = profileOf env u \<and> w_next_id w1 = Suc (w_next_id w) \<and>
    (\<exists>salt. w_random w = salt # w_random w1) \<and>
    a_sign env \<lparr>cl_subject = x_uuid_text env (u_id u), cl_issuer = ''dating-coach-api'', cl_issued_at = unix (w_now w),
      cl_expires_at = Some (unix (w_now w + a_verify_ttl env)), cl_role = u_role u, cl_email = u_email u,
      cl_scope = scope_verify\<rparr> = Some (as_token s)"
proof -
  from run obtain h w2 code w3 user w4 w5 w6 where
    hash: "hash_password env (si_password b) w = (Inr h, w2)" and code: "randomCode w2 = (Inr code, w3)"
    and user: "CreateUser (a_lower env (trim_space (si_email b))) h (trim_space (si_display_name b))
        (if si_role b = [] then role_user else si_role b) w3 = (Inr user, w4)"
    and store: "StoreCode (x_uuid_text env (u_id user)) code w4 = (Inr (), w5)"
    and mail: "sendVerificationEmail env (u_email user) code w5 = (Inr (), w6)"
    and fin: "w1 = w6" "as_refresh_token s = []" "as_user s = profileOf env user"
    and sign: "a_sign env \<lparr>cl_subject = x_uuid_text env (u_id user), cl_issuer = ''dating-coach-api'', cl_issued_at = unix (w_now w6),
      cl_expires_at = Some (unix (w_now w6 + a_verify_ttl env)), cl_role = u_role user, cl_email = u_email user,
      cl_scope = scope_verify\<rparr> = Some (as_token s)"
    unfolding SignUp_def Let_def by (auto simp: bindE_Inr attempt_result failIf_Inr ret_Inr Issue_Inr)
  from hash obtain salt where salt: "w_random w = salt # w_random w2"
    by (auto simp: hash_password_def bindE_Inr random_token_def ret_Inr throw_def split: list.splits option.splits)
  from hash have w2: "w_sched w2 = []" "w_codes w2 = w_codes w" "w_next_id w2 = w_next_id w" "w_db w2 = w_db w" "w_now w2 = w_now w"
    using calm by (auto simp: hash_password_def bindE_Inr random_token_def ret_Inr throw_def split: list.splits option.splits)
  from code obtain n ns where n: "w_codes w = n # ns" and code': "code = pad 6 (n mod code_space)"
    and w3: "w_sched w3 = []" "w_next_id w3 = w_next_id w" "w_db w3 = w_db w" "w_now w3 = w_now w" "w_random w3 = w_random w2"
    using w2 by (auto simp: randomCode_def split: list.splits)
  note cu = user [unfolded CreateUser_Inr [OF w3(1)]]
  then have w4: "w_sched w4 = []" "w_now w4 = w_now w" "w_next_id w4 = Suc (w_next_id w)" "w_random w4 = w_random w2"
    using w3 by simp_all
  have "code_live (x_uuid_text env (u_id user)) code 0 (w_now w + verification_code_ttl) (w_redis w5)"
    using StoreCode_live [OF w4(1) store] w4(2) by simp
  moreover have "w_db w5 = w_db w4" "w_sched w5 = []" "w_next_id w5 = w_next_id w4" "w_random w5 = w_random w4" "w_now w5 = w_now w4"
    using store w4 by (auto simp: StoreCode_calm)
  moreover obtain sg where "w6 = w5\<lparr>w_signals := sg\<rparr>" using sendVerificationEmail_result [OF mail] by blast
  ultimately show ?thesis
    using n code' cu w3 w4 fin sign salt by (auto simp: new_user_def live_def)
qed

text \<open>Why a session may not open.\<close>

lemma openSession_error:
  assumes calm: "w_sched w = []" and run: "openSession env user None w = (Inl e, w')"
  shows "e = ErrSign \<and> a_sign env (session_claims env w user) = None \<or> e = ErrRand \<and> w_random w = [] \<or>
    (\<exists>tok toks v. w_random w = tok # toks \<and> e = ErrSql v \<and>
       tokens_violation (w_db w) (d_tokens (w_db w) @ [new_token env w user tok (Suc (w_next_id w)) (w_next_id w)]) = Some v)"
proof (cases "a_sign env (session_claims env w user)")
  case None
  with run show ?thesis by (auto simp: openSession_def Issue_def bindE_def asks_def Let_def session_claims_def throw_def)
next
  case sign: (Some raw)
  show ?thesis
  proof (cases "w_random w")
    case Nil
    with run sign show ?thesis
      by (auto simp: openSession_def Issue_def bindE_def asks_def Let_def session_claims_def ret_def
          issueRefreshToken_def random_token_def)
  next
    case (Cons tok toks)
    with run calm sign show ?thesis
      by (auto simp: openSession_def Issue_def bindE_def asks_def Let_def session_claims_def ret_def fresh_id_def
          issueRefreshToken_def random_token_def CreateRefreshToken_calm new_token_def split: option.splits)
  qed
qed

lemma token_collision:
  assumes "tokens_violation d ts = None" and "\<forall>t \<in> set ts. t_id t < t_id new"
    and "u_id ` set (d_users d) \<subseteq> u_id ` set (d_users d')" "t_user_id new \<in> u_id ` set (d_users d')"
    and "tokens_violation d' (ts @ [new]) = Some v"
  shows "v = UniqueViolation \<and> t_token_hash new \<in> t_token_hash ` set ts"
proof -
  have old: "distinct (map t_id ts)" "distinct (map t_token_hash ts)" "\<forall>t \<in> set ts. t_user_id t \<in> u_id ` set (d_users d)"
    using assms(1) by (auto simp: tokens_violation_def list_all_iff split: if_splits)
  then have "list_all (\<lambda>t. t_user_id t \<in> u_id ` set (d_users d')) (ts @ [new])"
    using assms(3,4) by (auto simp: list_all_iff)
  moreover have "distinct (map t_id (ts @ [new]))" using old(1) assms(2) by auto
  ultimately show ?thesis using assms(5) old(2) by (auto simp: tokens_violation_def split: if_splits)
qed

lemma VerifyUserEmail_calm:
  assumes "w_sched w = []" "distinct (map u_id (d_users (w_db w)))" "user \<in> set (d_users (w_db w))" "live user"
  shows "VerifyUserEmail (u_id user) w = (Inr (verified_set (w_dbnow w) user),
    w\<lparr>w_db := (w_db w)\<lparr>d_users := update_where (\<lambda>u. u = user) (verified_set (w_dbnow w)) (d_users (w_db w))\<rparr>\<rparr>)"
proof -
  let ?us = "d_users (w_db w)" and ?p = "\<lambda>u. u_id u = u_id user \<and> live u"
  have only: "?p u \<longleftrightarrow> u = user" if "u \<in> set ?us" for u
    using distinct_keys_eq [OF assms(2) that assms(3)] assms(4) by auto
  have "filter ?p ?us = filter (\<lambda>u. u = user) ?us" by (rule filter_cong) (use only in auto)
  also have "\<dots> = [user]" using assms(2,3) by (intro filter_one) (simp_all add: distinct_map)
  finally have "filter ?p ?us = [user]" .
  moreover have "update_where ?p f ?us = update_where (\<lambda>u. u = user) f ?us" for f
    unfolding update_where_def by (rule map_cong) (use only in auto)
  ultimately show ?thesis using assms(1)
    by (simp add: VerifyUserEmail_def update_user_def query_calm Let_def)
qed

lemma check_code_right:
  assumes calm: "w_sched w = []" and live: "code_live (x_uuid_text env (u_id user)) c k t (w_redis w)" "w_now w < t"
    and c: "c \<noteq> []" "trim_space guess = c"
    and user: "distinct (map u_id (d_users (w_db w)))" "user \<in> set (d_users (w_db w))" "live user"
  shows "\<exists>r. check_code env user guess w = (Inr (verified_set (w_dbnow w) user), w\<lparr>w_redis := r,
      w_db := (w_db w)\<lparr>d_users := update_where (\<lambda>u. u = user) (verified_set (w_dbnow w)) (d_users (w_db w))\<rparr>\<rparr>) \<and>
    code_gone (x_uuid_text env (u_id user)) (w_now w) r"
proof -
  let ?i = "x_uuid_text env (u_id user)"
  have code: "fresh (w_now w) (v_strings (w_redis w) (codeKey ?i)) = Some (c, Some t)"
    using live by (simp add: code_live_def)
  show ?thesis
    using calm c
    by (intro exI [of _ "put (attemptsKey ?i) None (put (codeKey ?i) None (w_redis w))"])
      (simp add: check_code_def GetCode_calm code bindE_def VerifyUserEmail_calm [OF calm user] attempt_def
        InvalidateCode_calm ret_def Let_def code_gone_def)
qed

lemma find_key_and: "distinct (map k rows) \<Longrightarrow> r \<in> set rows \<Longrightarrow> P r \<Longrightarrow> find (\<lambda>x. k x = k r \<and> P x) rows = Some r"
  by (induction rows) (auto simp: image_iff)

text \<open>
  C37: Signing up and then presenting the mailed code.  Without faults and within the three
  minutes the code lives, the account that sign-up created unverified becomes verified and
  the code is used up.  Whoever has only the code gets the profile and no token.  Whoever also
  holds a token of the account gets a session: an access token for the verified account, and a
  refresh token of which only the hash is stored, in one more row.  That fails only if the token
  cannot be signed, the random source is exhausted, or the refresh token drawn is one that is
  stored already.
\<close>

theorem sign_up_then_verify:
  assumes calm: "w_sched w = []" and up: "SignUp env b w = (Inr s, w1)" and time: "now < w_now w + verification_code_ttl"
    and tokens: "tokens_violation (w_db w) (d_tokens (w_db w)) = None" "\<forall>t \<in> set (d_tokens (w_db w)). t_id t < w_next_id w"
    and run: "VerifyEmail env (si_email b) (pad 6 (hd (w_codes w) mod code_space)) bearer (w1\<lparr>w_now := now\<rparr>) = (r, w2)"
  shows "\<exists>u v. u_email u = a_lower env (trim_space (si_email b)) \<and> \<not> u_email_verified u \<and>
    v = verified_set (w_dbnow w1) u \<and>
    d_users (w_db w1) = d_users (w_db w) @ [u] \<and> d_users (w_db w2) = d_users (w_db w) @ [v] \<and>
    code_gone (x_uuid_text env (u_id u)) now (w_redis w2) \<and>
    (if ownsBearer env now (u_id u) bearer
     then (case r of
         Inl e \<Rightarrow> d_tokens (w_db w2) = d_tokens (w_db w) \<and>
           (e = ErrSign \<and> a_sign env (session_claims env (w1\<lparr>w_now := now\<rparr>) v) = None \<or>
            e = ErrRand \<and> w_random w1 = [] \<or>
            e = ErrSql UniqueViolation \<and> w_random w1 \<noteq> [] \<and>
              x_sha256_hex env (hd (w_random w1)) \<in> t_token_hash ` set (d_tokens (w_db w)))
       | Inr s2 \<Rightarrow> as_user s2 = profileOf env v \<and>
          a_sign env (session_claims env (w1\<lparr>w_now := now\<rparr>) v) = Some (as_token s2) \<and>
          as_refresh_token s2 = hd (w_random w1) \<and>
          (\<exists>t. d_tokens (w_db w2) = d_tokens (w_db w) @ [t] \<and> t_user_id t = u_id u \<and> t_used_at t = None \<and>
            t_token_hash t = x_sha256_hex env (as_refresh_token s2)))
     else (\<exists>s2. r = Inr s2 \<and> as_token s2 = [] \<and> as_refresh_token s2 = [] \<and> as_user s2 = profileOf env v) \<and>
       d_tokens (w_db w2) = d_tokens (w_db w))"
proof -
  obtain n ns u where n: "w_codes w = n # ns" and u: "u_id u = w_next_id w" "u_email u = a_lower env (trim_space (si_email b))"
      "\<not> u_email_verified u" "live u" "users_violation (d_users (w_db w) @ [u]) = None"
    and w1: "d_users (w_db w1) = d_users (w_db w) @ [u]" "d_tokens (w_db w1) = d_tokens (w_db w)" "w_sched w1 = []"
    and code: "code_live (x_uuid_text env (u_id u)) (pad 6 (n mod code_space)) 0 (w_now w + verification_code_ttl) (w_redis w1)"
    and next1: "w_next_id w1 = Suc (w_next_id w)"
    using sign_up_state [OF calm up] by blast
  let ?w = "w1\<lparr>w_now := now\<rparr>" and ?c = "pad 6 (n mod code_space)" and ?v = "verified_set (w_dbnow w1) u"
  have keys: "distinct (map u_id (d_users (w_db w1)))" "distinct (map u_email (d_users (w_db w1)))" "u \<in> set (d_users (w_db w1))"
    using u(5) w1(1) by (auto simp: users_violation_def split: if_splits)
  have f: "find (\<lambda>x. u_email x = a_lower env (trim_space (si_email b)) \<and> live x) (d_users (w_db ?w)) = Some u"
    using find_key_and [where k = u_email and P = live, OF keys(2,3) u(4)] u(2) by simp
  have trim: "trim_space ?c = ?c" and ne: "?c \<noteq> []"
    by (rule trim_digits [OF pad_digits]) (simp add: numeral_eq_Suc)
  obtain q where q: "check_code env u ?c ?w = (Inr ?v, ?w\<lparr>w_redis := q,
      w_db := (w_db w1)\<lparr>d_users := update_where (\<lambda>x. x = u) (verified_set (w_dbnow w1)) (d_users (w_db w1))\<rparr>\<rparr>)"
    and gone: "code_gone (x_uuid_text env (u_id u)) now q"
    using check_code_right [of ?w env u ?c 0 "w_now w + verification_code_ttl" ?c] w1(3) code time ne trim keys u(4) by auto
  let ?w2 = "?w\<lparr>w_redis := q,
      w_db := (w_db w1)\<lparr>d_users := update_where (\<lambda>x. x = u) (verified_set (w_dbnow w1)) (d_users (w_db w1))\<rparr>\<rparr>"
  have "u \<notin> set (d_users (w_db w))" using keys(1) w1(1) by auto
  then have us: "update_where (\<lambda>x. x = u) (verified_set (w_dbnow w1)) (d_users (w_db w1)) = d_users (w_db w) @ [?v]"
    unfolding w1(1) update_where_def by (auto intro: map_idI)
  have id: "u_id ?v = u_id u" by (simp add: verified_set_def)
  have v: "(r, w2) = (if \<not> ownsBearer env now (u_id u) bearer
      then (Inr \<lparr>as_token = [], as_refresh_token = [], as_expires_at = [], as_user = profileOf env ?v\<rparr>, ?w2)
      else openSession env ?v None ?w2)"
    using run [unfolded VerifyEmail_def] f u(3) q w1(3) n id
    by (auto simp: GetUserByEmail_def select_one_calm attempt_def bindE_def asks_def ret_def split: if_splits)
  have same: "d_tokens (w_db ?w2) = d_tokens (w_db w)" "d_users (w_db ?w2) = d_users (w_db w) @ [?v]"
    "w_random ?w2 = w_random w1" "w_next_id ?w2 = Suc (w_next_id w)" "session_claims env ?w2 = session_claims env ?w"
    using w1 us next1 by (simp_all add: session_claims_def fun_eq_iff)
  show ?thesis
  proof (cases "ownsBearer env now (u_id u) bearer")
    case False
    with v gone u w1 us show ?thesis by (intro exI [of _ u] exI [of _ ?v]) auto
  next
    case True
    have c2: "w_sched ?w2 = []" using w1(3) by simp
    have o: "openSession env ?v None ?w2 = (r, w2)" using v True by simp
    note opened = openSession_calm [OF c2 o]
    have basics: "d_users (w_db w2) = d_users (w_db w) @ [?v]" "code_gone (x_uuid_text env (u_id u)) now (w_redis w2)"
      using opened gone same(2) by (auto split: sum.splits)
    have "case r of
         Inl e \<Rightarrow> d_tokens (w_db w2) = d_tokens (w_db w) \<and>
           (e = ErrSign \<and> a_sign env (session_claims env ?w ?v) = None \<or> e = ErrRand \<and> w_random w1 = [] \<or>
            e = ErrSql UniqueViolation \<and> w_random w1 \<noteq> [] \<and>
              x_sha256_hex env (hd (w_random w1)) \<in> t_token_hash ` set (d_tokens (w_db w)))
       | Inr s2 \<Rightarrow> as_user s2 = profileOf env ?v \<and> a_sign env (session_claims env ?w ?v) = Some (as_token s2) \<and>
          as_refresh_token s2 = hd (w_random w1) \<and>
          (\<exists>t. d_tokens (w_db w2) = d_tokens (w_db w) @ [t] \<and> t_user_id t = u_id u \<and> t_used_at t = None \<and>
            t_token_hash t = x_sha256_hex env (as_refresh_token s2))"
    proof (cases r)
      case (Inl e)
      have "x_sha256_hex env tok \<in> t_token_hash ` set (d_tokens (w_db w)) \<and> x = UniqueViolation"
        if "tokens_violation (w_db ?w2) (d_tokens (w_db ?w2) @ [new_token env ?w2 ?v tok (Suc (w_next_id ?w2)) (w_next_id ?w2)]) = Some x"
        for tok x
      proof -
        let ?new = "new_token env ?w2 ?v tok (Suc (w_next_id ?w2)) (w_next_id ?w2)"
        have new: "t_id ?new = Suc (Suc (w_next_id w))" "t_user_id ?new = u_id ?v" "t_token_hash ?new = x_sha256_hex env tok"
          using next1 by (simp_all add: new_token_def)
        have "u_id ` set (d_users (w_db w)) \<subseteq> u_id ` set (d_users (w_db ?w2))" "u_id ?v \<in> u_id ` set (d_users (w_db ?w2))"
          unfolding same(2) by auto
        moreover have "\<forall>t \<in> set (d_tokens (w_db w)). t_id t < t_id ?new" using tokens(2) unfolding new(1) by auto
        ultimately show ?thesis
          using token_collision [OF tokens(1), of ?new "w_db ?w2" x] that unfolding same(1) new(2,3) by blast
      qed
      with openSession_error [OF c2 o [unfolded Inl]] opened Inl same show ?thesis by fastforce
    next
      case (Inr s2)
      with opened same id show ?thesis by (auto simp: new_token_def)
    qed
    with True u(2,3) w1(1) basics show ?thesis by (intro exI [of _ u] exI [of _ ?v]) simp
  qed
qed

lemma sendVerificationEmail_returns: "\<exists>sg. sendVerificationEmail env email code w = (Inr (), w\<lparr>w_signals := sg\<rparr>)"
proof -
  obtain r w' where run: "sendVerificationEmail env email code w = (r, w')" by fastforce
  then have "r = Inr ()" by (auto simp: sendVerificationEmail_def attempt_def ret_def split: prod.splits sum.splits)
  with run show ?thesis using sendVerificationEmail_result [OF run] by auto
qed

lemma sign_up_succeeds:
  assumes calm: "w_sched w = []" and email: "email = a_lower env (trim_space (si_email b))" and role: "si_role b = role_user"
    and input: "a_valid_address env email" "8 \<le> length (si_password b)" "trim_space (si_display_name b) \<noteq> []"
    and drawn: "w_random w = salt # ts" "a_hash env salt (si_password b) = Some h" "w_codes w = n # ns"
    and fresh: "users_violation (d_users (w_db w) @ [new_user email h (trim_space (si_display_name b)) role_user False (w_next_id w) (w_dbnow w)]) = None"
    and sign: "\<forall>c. a_sign env c \<noteq> None"
  shows "\<exists>s w1. SignUp env b w = (Inr s, w1)"
proof -
  let ?w3 = "w\<lparr>w_random := ts, w_codes := ns\<rparr>"
  let ?u = "new_user email h (trim_space (si_display_name b)) role_user False (w_next_id w) (w_dbnow w)"
  let ?w4 = "?w3\<lparr>w_next_id := Suc (w_next_id w), w_db := (w_db w)\<lparr>d_users := d_users (w_db w) @ [?u]\<rparr>\<rparr>"
  let ?code = "pad 6 (n mod code_space)"
  have "hash_password env (si_password b) w = (Inr h, w\<lparr>w_random := ts\<rparr>)"
    using drawn by (simp add: hash_password_def bindE_def random_token_def ret_def)
  moreover have "randomCode (w\<lparr>w_random := ts\<rparr>) = (Inr ?code, ?w3)" using drawn by (simp add: randomCode_def)
  moreover have "CreateUser email h (trim_space (si_display_name b)) role_user ?w3 = (Inr ?u, ?w4)"
    using calm fresh by (subst CreateUser_Inr) auto
  moreover obtain w5 where "StoreCode (x_uuid_text env (u_id ?u)) ?code ?w4 = (Inr (), w5)" using calm by (simp add: StoreCode_calm)
  moreover obtain sg where "sendVerificationEmail env (u_email ?u) ?code w5 = (Inr (), w5\<lparr>w_signals := sg\<rparr>)"
    using sendVerificationEmail_returns by blast
  moreover have "\<exists>x. Issue env (u_id ?u) (u_email ?u) (u_role ?u) scope_verify (a_verify_ttl env) w5' = (Inr x, w5')" for w5'
    using sign by (auto simp: Issue_def bindE_def asks_def ret_def Let_def split: option.splits)
  then obtain x where "Issue env (u_id ?u) (u_email ?u) (u_role ?u) scope_verify (a_verify_ttl env) (w5\<lparr>w_signals := sg\<rparr>) =
      (Inr x, w5\<lparr>w_signals := sg\<rparr>)" by blast
  moreover have "role_user \<noteq> []" by (simp add: role_user_def)
  ultimately show ?thesis
    using input role unfolding email
    by (cases x) (auto simp: SignUp_def Let_def bindE_def attempt_def failIf_def ret_def)
qed

definition dee :: signup_input where
  "dee = \<lparr>si_email = ''dee@mail'', si_password = ''password'', si_display_name = ''dee'', si_role = role_user\<rparr>"

lemma dee_text: "to_lower (trim_space ''dee@mail'') = ''dee@mail''" "trim_space ''dee'' = ''dee''"
    "a_lower acct_env (trim_space ''dee@mail'') = ''dee@mail''"
proof -
  show low: "to_lower (trim_space ''dee@mail'') = ''dee@mail''" by code_simp
  show "trim_space ''dee'' = ''dee''" by code_simp
  show "a_lower acct_env (trim_space ''dee@mail'') = ''dee@mail''" using low by (simp add: acct_env_def)
qed

text \<open>The token sign-up answers with, and that it is one of the new account's.\<close>

lemma dee_bearer: "ownsBearer acct_env (monday_8 + 1) 100 ''verify:100:001767601800''"
proof -
  let ?c = "bob_claims\<lparr>cl_subject := ''100'', cl_expires_at := Some 1767601800, cl_scope := scope_verify\<rparr>"
  have "Parse acct_env (monday_8 + 1) ''verify:100:001767601800'' = read_jwt (monday_8 + 1) ''verify:100:001767601800''"
    by (simp add: Parse_def acct_env_def)
  also have "\<dots> = Some ?c" by code_simp
  finally have "Parse acct_env (monday_8 + 1) ''verify:100:001767601800'' = Some ?c" .
  moreover have "map_option nat (atoi ''100'') = Some 100" by code_simp
  then have "claims_user acct_env ?c = Some 100" by (simp add: claims_user_def acct_env_def)
  ultimately show ?thesis by (simp add: ownsBearer_def)
qed

lemma sign_up_then_verify_witness:
  "\<exists>s w1 s2 w2 u. SignUp acct_env dee (bob_world True) = (Inr s, w1) \<and> as_refresh_token s = [] \<and>
     VerifyEmail acct_env ''dee@mail'' (pad 6 42) (as_token s) (w1\<lparr>w_now := monday_8 + 1\<rparr>) = (Inr s2, w2) \<and>
     d_users (w_db w1) = [bob_row True, u] \<and> \<not> u_email_verified u \<and> d_users (w_db w2) = [bob_row True, verified_set (w_dbnow w1) u] \<and>
     as_refresh_token s2 = ''tok2'' \<and> map t_token_hash (d_tokens (w_db w2)) = [''htok2'']"
proof -
  let ?w = "bob_world True"
  have codes: "w_codes ?w = [42, 123456, 7]" "w_next_id ?w = 100" by (simp_all add: bob_world_def world_at_def)
  have "\<exists>s w1. SignUp acct_env dee ?w = (Inr s, w1)"
    by (rule sign_up_succeeds [where email = "''dee@mail''" and salt = "''tok1''" and n = 42])
      (simp_all add: dee_def dee_text codes acct_env_def [abs_def] users_violation_def new_user_def bob_row_def account_row_def
        role_user_def bob_world_def world_at_def start_db_def)
  then obtain s w1 where up: "SignUp acct_env dee ?w = (Inr s, w1)" by (elim exE)
  from sign_up_state [OF bob_world_simps(1) up] obtain salt u0 where
    u0: "u_id u0 = 100" "d_users (w_db w1) = d_users (w_db ?w) @ [u0]" and drawn: "w_random ?w = salt # w_random w1"
    and refresh: "as_refresh_token s = []"
    and sign: "a_sign acct_env \<lparr>cl_subject = x_uuid_text acct_env (u_id u0), cl_issuer = ''dating-coach-api'', cl_issued_at = unix (w_now ?w),
      cl_expires_at = Some (unix (w_now ?w + a_verify_ttl acct_env)), cl_role = u_role u0, cl_email = u_email u0,
      cl_scope = scope_verify\<rparr> = Some (as_token s)" unfolding codes(2) by blast
  have rest: "w_random w1 = [''tok2'']" using drawn by simp
  have "scope_verify @ '':'' @ decimal (int 100) @ '':'' @ pad 12 (unix (monday_8 + minutes 30)) = ''verify:100:001767601800''"
    by code_simp
  then have token: "as_token s = ''verify:100:001767601800''"
    using sign u0(1) by (simp add: acct_env_def jwt_of_def)
  obtain r w2 where run: "VerifyEmail acct_env (si_email dee) (pad 6 (hd (w_codes ?w) mod code_space)) (as_token s)
      (w1\<lparr>w_now := monday_8 + 1\<rparr>) = (r, w2)" by fastforce
  have "hd (w_codes ?w) mod code_space = 42" by (simp add: codes code_space_def)
  then have run': "VerifyEmail acct_env ''dee@mail'' (pad 6 42) (as_token s) (w1\<lparr>w_now := monday_8 + 1\<rparr>) = (r, w2)"
    using run by (simp add: dee_def)
  have t: "monday_8 + 1 < w_now ?w + verification_code_ttl"
    by (simp add: verification_code_ttl_def minutes_def seconds_def)
  have tokens: "tokens_violation (w_db ?w) (d_tokens (w_db ?w)) = None" "\<forall>t \<in> set (d_tokens (w_db ?w)). t_id t < w_next_id ?w"
    by (simp_all add: tokens_violation_def)
  from sign_up_then_verify [OF bob_world_simps(1) up t tokens run]
  obtain u where u: "\<not> u_email_verified u" "d_users (w_db w1) = d_users (w_db ?w) @ [u]"
      "d_users (w_db w2) = d_users (w_db ?w) @ [verified_set (w_dbnow w1) u]"
    and out: "if ownsBearer acct_env (monday_8 + 1) (u_id u) (as_token s)
     then (case r of
         Inl e \<Rightarrow> d_tokens (w_db w2) = d_tokens (w_db ?w) \<and>
           (e = ErrSign \<and> a_sign acct_env (session_claims acct_env (w1\<lparr>w_now := monday_8 + 1\<rparr>) (verified_set (w_dbnow w1) u)) = None \<or>
            e = ErrRand \<and> w_random w1 = [] \<or>
            e = ErrSql UniqueViolation \<and> w_random w1 \<noteq> [] \<and>
              x_sha256_hex acct_env (hd (w_random w1)) \<in> t_token_hash ` set (d_tokens (w_db ?w)))
       | Inr s2 \<Rightarrow> as_user s2 = profileOf acct_env (verified_set (w_dbnow w1) u) \<and>
          a_sign acct_env (session_claims acct_env (w1\<lparr>w_now := monday_8 + 1\<rparr>) (verified_set (w_dbnow w1) u)) = Some (as_token s2) \<and>
          as_refresh_token s2 = hd (w_random w1) \<and>
          (\<exists>t. d_tokens (w_db w2) = d_tokens (w_db ?w) @ [t] \<and> t_user_id t = u_id u \<and> t_used_at t = None \<and>
            t_token_hash t = x_sha256_hex acct_env (as_refresh_token s2)))
     else (\<exists>s2. r = Inr s2 \<and> as_token s2 = [] \<and> as_refresh_token s2 = [] \<and>
        as_user s2 = profileOf acct_env (verified_set (w_dbnow w1) u)) \<and> d_tokens (w_db w2) = d_tokens (w_db ?w)" by blast
  have "u = u0" using u(2) u0(2) by simp
  then have owns: "ownsBearer acct_env (monday_8 + 1) (u_id u) (as_token s)" unfolding token using dee_bearer u0(1) by simp
  have sha: "a_sign acct_env c \<noteq> None" "x_sha256_hex acct_env v = ''h'' @ v" for c v by (simp_all add: acct_env_def)
  from out owns obtain s2 where "r = Inr s2" "as_refresh_token s2 = ''tok2''" "map t_token_hash (d_tokens (w_db w2)) = [''htok2'']"
    by (cases r) (auto simp: rest sha)
  with up run' u refresh show ?thesis
    by (intro exI [of _ s] exI [of _ w1] exI [of _ s2] exI [of _ w2] exI [of _ u]) simp
qed

text \<open>
  A password that bcrypt cannot hash.  Every password of more than 72 bytes that passes the
  checks is answered with 500 and creates nothing, although \<open>validatePassword\<close>, which refuses
  it as invalid input, is there; and eight blanks, which it refuses too, are accepted.
\<close>

theorem long_password_is_server_error:
  assumes bcrypt: "\<forall>salt pw. 72 < length pw \<longrightarrow> a_hash env salt pw = None"
    and long: "72 < length (si_password b)" and valid: "a_valid_address env (a_lower env (trim_space (si_email b)))"
      "trim_space (si_display_name b) \<noteq> []" "si_role b = role_user \<or> si_role b = role_coach"
  shows "fst (signUp_handler env (Some b) w) = Inl 500 \<and> w_db (snd (signUp_handler env (Some b) w)) = w_db w \<and>
    \<not> validatePassword (si_password b)"
proof -
  have r: "role_user \<noteq> []" "role_coach \<noteq> []" by (simp_all add: role_user_def role_coach_def)
  have "\<exists>w' e. hash_password env (si_password b) w = (Inl e, w') \<and> (e = ErrRand \<or> e = ErrHash) \<and> w_db w' = w_db w"
    using bcrypt long by (auto simp: hash_password_def random_token_def bindE_def throw_def split: list.splits option.splits)
  then obtain w' e where h: "hash_password env (si_password b) w = (Inl e, w')" "e = ErrRand \<or> e = ErrHash" "w_db w' = w_db w"
    by blast
  then have "SignUp env b w = (Inl e, w')"
    using valid long r by (auto simp: SignUp_def Let_def bindE_def failIf_def)
  with h show ?thesis
    using long by (auto simp: signUp_handler_def with_body_def answer_with_def attempt_def throw_def validatePassword_def
        max_password_len_def)
qed

lemma long_password_is_server_error_witness:
  "fst (signUp_handler acct_env (Some (dee\<lparr>si_password := replicate 73 (CHR ''x'')\<rparr>)) (bob_world True)) = Inl 500"
proof -
  let ?b = "dee\<lparr>si_password := replicate 73 (CHR ''x'')\<rparr>"
  have "fst (signUp_handler acct_env (Some ?b) (bob_world True)) = Inl 500 \<and>
      w_db (snd (signUp_handler acct_env (Some ?b) (bob_world True))) = w_db (bob_world True) \<and> \<not> validatePassword (si_password ?b)"
    by (rule long_password_is_server_error) (simp_all add: dee_def dee_text, simp_all add: acct_env_def)
  then show ?thesis by (elim conjE)
qed

end
