(* ===== verification/Google_Keys.thy ===== *)
theory Google_Keys
  imports Token_Properties
begin

text \<open>
  Google's signing keys (internal/auth/google.go): fetching and decoding the key set, the cache
  in front of it, and the check of an ID token with a key from that cache.

  The HTTP client, the JSON decoder and the JWT library are outside the repository: a request for
  the key set has an answer (an error, or a status with the decoded document if it decodes), and
  reading a token splits into finding the key id in its header (an error for a token that does
  not parse or is not RS256) and checking it with a key.  Base64 and big integers are the standard
  library's, and are modelled.
\<close>

section \<open>Base64\<close>

text \<open>The URL alphabet.\<close>

definition base64_digit :: "char \<Rightarrow> nat option" where
  "base64_digit c =
     (let n = of_char c :: nat
      in if 65 \<le> n \<and> n \<le> 90 then Some (n - 65)
         else if 97 \<le> n \<and> n \<le> 122 then Some (n - 71)
         else if 48 \<le> n \<and> n \<le> 57 then Some (n + 4)
         else if n = 45 then Some 62 else if n = 95 then Some 63 else None)"

text \<open>
  Groups of four digits are three bytes; the last group may be short by one digit or two, and
  what is left of its bits is dropped, as the decoder is not strict.
\<close>

fun base64_groups :: "nat list \<Rightarrow> nat list option" where
  "base64_groups [] = Some []"
| "base64_groups [a] = None"
| "base64_groups [a, b] = Some [a * 4 + b div 16]"
| "base64_groups [a, b, c] = Some [a * 4 + b div 16, (b mod 16) * 16 + c div 4]"
| "base64_groups (a # b # c # d # rest) =
     map_option (\<lambda>bs. (a * 4 + b div 16) # ((b mod 16) * 16 + c div 4) # ((c mod 4) * 64 + d) # bs) (base64_groups rest)"

text \<open>\<open>DecodeString\<close> of \<open>RawURLEncoding\<close>; line breaks are skipped.\<close>

definition base64_decode :: "string \<Rightarrow> nat list option" where
  "base64_decode s =
     (case those (map base64_digit (filter (\<lambda>c. c \<noteq> CHR 0x0A \<and> c \<noteq> CHR 0x0D) s)) of
        None \<Rightarrow> None | Some ds \<Rightarrow> base64_groups ds)"

text \<open>\<open>SetBytes\<close>, big endian; an exponent is cut to 64 bits by \<open>Int64\<close>.\<close>

definition set_bytes :: "nat list \<Rightarrow> nat" where
  "set_bytes bs = foldl (\<lambda>n b. n * 256 + b) 0 bs"

definition int64_of :: "nat \<Rightarrow> int" where
  "int64_of n = (let m = int n mod 2 ^ 64 in if m < 2 ^ 63 then m else m - 2 ^ 64)"

section \<open>The key set\<close>

record rsa_key =
  rk_modulus :: nat
  rk_exponent :: int

record jwk =
  jk_kid :: string
  jk_kty :: string
  jk_n :: string
  jk_e :: string

text \<open>What asking for the key set gives: no answer, or a status and the document if it decodes.\<close>

datatype jwks_answer = NoAnswer | JwksAnswer nat "jwk list option"

fun decode_keys :: "jwk list \<Rightarrow> (string \<Rightarrow> rsa_key option) \<Rightarrow> (string \<Rightarrow> rsa_key option) option" where
  "decode_keys [] keys = Some keys"
| "decode_keys (k # ks) keys =
     (if jk_kty k \<noteq> ''RSA'' \<or> jk_kid k = [] then decode_keys ks keys
      else case base64_decode (jk_n k) of None \<Rightarrow> None
        | Some n \<Rightarrow> (case base64_decode (jk_e k) of None \<Rightarrow> None
            | Some e \<Rightarrow> decode_keys ks (keys(jk_kid k \<mapsto> \<lparr>rk_modulus = set_bytes n, rk_exponent = int64_of (set_bytes e)\<rparr>))))"

fun google_fetch :: "jwks_answer \<Rightarrow> (string \<Rightarrow> rsa_key option) option" where
  "google_fetch NoAnswer = None"
| "google_fetch (JwksAnswer status doc) =
     (if status \<noteq> 200 then None
      else case doc of None \<Rightarrow> None
        | Some ks \<Rightarrow> (case decode_keys ks (\<lambda>_. None) of None \<Rightarrow> None
            | Some keys \<Rightarrow> if \<forall>k \<in> jk_kid ` set ks. keys k = None then None else Some keys))"

section \<open>The cache\<close>

record key_cache =
  kc_keys :: "string \<Rightarrow> rsa_key option"
  kc_fetched_at :: instant

definition NewGoogleVerifier :: key_cache where
  "NewGoogleVerifier = \<lparr>kc_keys = (\<lambda>_. None), kc_fetched_at = 0\<rparr>"

definition cache_ttl :: int where "cache_ttl = hours 1"

text \<open>\<open>key\<close> at an instant, with the answer it would get: an error or a key, and the cache.\<close>

definition google_key :: "instant \<Rightarrow> jwks_answer \<Rightarrow> string \<Rightarrow> key_cache \<Rightarrow> (go_error + rsa_key) \<times> key_cache" where
  "google_key now reply kid c =
     (if kc_keys c kid \<noteq> None \<and> now - kc_fetched_at c < cache_ttl then (Inr (the (kc_keys c kid)), c)
      else case google_fetch reply of None \<Rightarrow> (Inl ErrGoogleKeysUnavailable, c)
        | Some keys \<Rightarrow> (case keys kid of None \<Rightarrow> Inl ErrParse | Some k \<Rightarrow> Inr k, \<lparr>kc_keys = keys, kc_fetched_at = now\<rparr>))"

text \<open>
  \<open>ParseWithClaims\<close> with the key function of \<open>Verify\<close>: \<open>kid_of\<close> reads the header of a token,
  \<open>check\<close> its signature, audience and expiry with a key.  The errors are told apart no further
  than \<open>Verify\<close> does.
\<close>

definition google_parse ::
  "(string \<Rightarrow> string option) \<Rightarrow> (instant \<Rightarrow> rsa_key \<Rightarrow> string \<Rightarrow> google_claims option) \<Rightarrow>
   instant \<Rightarrow> jwks_answer \<Rightarrow> string \<Rightarrow> key_cache \<Rightarrow> (go_error + google_claims) \<times> key_cache" where
  "google_parse kid_of check now reply raw c =
     (case kid_of raw of None \<Rightarrow> (Inl ErrInvalidGoogleToken, c)
      | Some kid \<Rightarrow>
          if kid = [] then (Inl ErrInvalidGoogleToken, c)
          else (case google_key now reply kid c of
                  (Inl e, c') \<Rightarrow> (Inl e, c')
                | (Inr k, c') \<Rightarrow> (case check now k raw of None \<Rightarrow> Inl ErrInvalidGoogleToken | Some claims \<Rightarrow> Inr claims, c')))"

text \<open>The cache after a series of tokens, each with its time and the answer a fetch would get.\<close>

fun google_calls ::
  "(string \<Rightarrow> string option) \<Rightarrow> (instant \<Rightarrow> rsa_key \<Rightarrow> string \<Rightarrow> google_claims option) \<Rightarrow>
   (instant \<times> jwks_answer \<times> string) list \<Rightarrow> key_cache \<Rightarrow> key_cache" where
  "google_calls kid_of check [] c = c"
| "google_calls kid_of check ((now, reply, raw) # rest) c =
     google_calls kid_of check rest (snd (google_parse kid_of check now reply raw c))"

text \<open>What Authentication takes as given, with this cache in it.\<close>

definition google_verifier ::
  "auth_env \<Rightarrow> (string \<Rightarrow> string option) \<Rightarrow> (instant \<Rightarrow> rsa_key \<Rightarrow> string \<Rightarrow> google_claims option) \<Rightarrow>
   instant \<Rightarrow> jwks_answer \<Rightarrow> key_cache \<Rightarrow> auth_env" where
  "google_verifier env kid_of check now reply c =
     env\<lparr>a_google := Some (\<lambda>raw. fst (google_parse kid_of check now reply raw c))\<rparr>"

section \<open>Base64 is read as it is written\<close>

text \<open>The encoding of RFC 4648 without padding, as a reference.\<close>

definition base64_alphabet :: string where
  "base64_alphabet = ''ABCDEFGHIJKLMNOPQRSTUVWXYZabcdefghijklmnopqrstuvwxyz0123456789-_''"

definition base64_char :: "nat \<Rightarrow> char" where
  "base64_char n = base64_alphabet ! n"

fun base64_digits :: "nat list \<Rightarrow> nat list" where
  "base64_digits [] = []"
| "base64_digits [x] = [x div 4, (x mod 4) * 16]"
| "base64_digits [x, y] = [x div 4, (x mod 4) * 16 + y div 16, (y mod 16) * 4]"
| "base64_digits (x # y # z # rest) =
     x div 4 # ((x mod 4) * 16 + y div 16) # ((y mod 16) * 4 + z div 64) # z mod 64 # base64_digits rest"

lemma base64_alphabet_digits: "map base64_digit base64_alphabet = map Some [0..<64]"
  by (simp add: base64_alphabet_def base64_digit_def upt_rec)

lemma base64_alphabet_plain: "list_all (\<lambda>c. c \<noteq> CHR 0x0A \<and> c \<noteq> CHR 0x0D) base64_alphabet"
  by (simp add: base64_alphabet_def)

lemma base64_char_digit:
  assumes "n < 64"
  shows "base64_digit (base64_char n) = Some n" "base64_char n \<noteq> CHR 0x0A" "base64_char n \<noteq> CHR 0x0D"
proof -
  have n: "n < length base64_alphabet" using assms by (simp add: base64_alphabet_def)
  then have "map base64_digit base64_alphabet ! n = base64_digit (base64_char n)" by (simp add: base64_char_def)
  with assms show "base64_digit (base64_char n) = Some n" by (simp add: base64_alphabet_digits)
  from n base64_alphabet_plain show "base64_char n \<noteq> CHR 0x0A" "base64_char n \<noteq> CHR 0x0D"
    by (auto simp: base64_char_def list_all_length)
qed

lemma base64_digits_range: "list_all (\<lambda>b. b < 256) bs \<Longrightarrow> list_all (\<lambda>d. d < 64) (base64_digits bs)"
  by (induction bs rule: base64_digits.induct) auto

lemma those_map_Some: "list_all (\<lambda>x. f (g x) = Some x) xs \<Longrightarrow> those (map f (map g xs)) = Some xs"
  by (induction xs) auto

lemma base64_groups_digits: "list_all (\<lambda>b. b < 256) bs \<Longrightarrow> base64_groups (base64_digits bs) = Some bs"
  by (induction bs rule: base64_digits.induct) auto

text \<open>
  The decoder reads back whatever bytes the RFC's encoding writes.
\<close>

lemma base64_reads_back:
  assumes "list_all (\<lambda>b. b < 256) bs"
  shows "base64_decode (map base64_char (base64_digits bs)) = Some bs"
proof -
  let ?ds = "base64_digits bs"
  note ok = base64_digits_range [OF assms]
  then have "filter (\<lambda>c. c \<noteq> CHR 0x0A \<and> c \<noteq> CHR 0x0D) (map base64_char ?ds) = map base64_char ?ds"
    using ok base64_char_digit(2,3) by (intro filter_True) (auto simp: list_all_iff)
  moreover have "those (map base64_digit (map base64_char ?ds)) = Some ?ds"
    using ok base64_char_digit(1) by (intro those_map_Some) (auto simp: list_all_iff)
  ultimately show ?thesis using base64_groups_digits [OF assms] by (simp add: base64_decode_def del: map_map)
qed

section \<open>Keys in use are keys that Google lists\<close>

text \<open>An answer lists a key under an id: one of its RSA entries with that id decodes to it.\<close>

definition lists_key :: "jwks_answer \<Rightarrow> string \<Rightarrow> rsa_key \<Rightarrow> bool" where
  "lists_key a kid k \<longleftrightarrow> (\<exists>ks j n e. a = JwksAnswer 200 (Some ks) \<and> j \<in> set ks \<and> jk_kid j = kid \<and> jk_kty j = ''RSA'' \<and>
     base64_decode (jk_n j) = Some n \<and> base64_decode (jk_e j) = Some e \<and>
     k = \<lparr>rk_modulus = set_bytes n, rk_exponent = int64_of (set_bytes e)\<rparr>)"

lemma lists_key_later: "lists_key (JwksAnswer 200 (Some ks)) kid k \<Longrightarrow> lists_key (JwksAnswer 200 (Some (j # ks))) kid k"
  by (auto simp: lists_key_def)

lemma decode_keys_listed:
  assumes "decode_keys ks keys = Some keys'" and "keys' kid = Some k"
  shows "keys kid = Some k \<or> lists_key (JwksAnswer 200 (Some ks)) kid k"
  using assms
proof (induction ks keys rule: decode_keys.induct)
  case (2 j ks keys)
  show ?case
  proof (cases "jk_kty j \<noteq> ''RSA'' \<or> jk_kid j = []")
    case True
    with 2(1) [OF True] 2(3,4) show ?thesis by (auto intro: lists_key_later)
  next
    case False
    with 2(3) obtain n e where ne: "base64_decode (jk_n j) = Some n" "base64_decode (jk_e j) = Some e" by (auto split: option.splits)
    let ?k = "\<lparr>rk_modulus = set_bytes n, rk_exponent = int64_of (set_bytes e)\<rparr>"
    have "decode_keys ks (keys(jk_kid j \<mapsto> ?k)) = Some keys'" using 2(3) False ne by simp
    from 2(2) [OF False ne this 2(4)] show ?thesis
    proof
      assume "(keys(jk_kid j \<mapsto> ?k)) kid = Some k"
      with False ne show ?thesis by (auto simp: lists_key_def split: if_splits)
    qed (simp add: lists_key_later)
  qed
qed simp

lemma fetch_listed: "google_fetch a = Some keys \<Longrightarrow> keys kid = Some k \<Longrightarrow> lists_key a kid k"
  by (cases a) (auto split: if_splits option.splits dest: decode_keys_listed)

text \<open>The cache holds what one of the answers listed, at the time it was asked for.\<close>

definition cache_from :: "(instant \<times> jwks_answer \<times> string) set \<Rightarrow> key_cache \<Rightarrow> bool" where
  "cache_from calls c \<longleftrightarrow> (\<forall>kid k. kc_keys c kid = Some k \<longrightarrow> (\<exists>a raw. (kc_fetched_at c, a, raw) \<in> calls \<and> lists_key a kid k))"

lemma cache_from_mono: "cache_from calls c \<Longrightarrow> calls \<subseteq> calls' \<Longrightarrow> cache_from calls' c"
  unfolding cache_from_def by blast

lemma google_key_cases:
  assumes "google_key now a kid c = (r, c')"
  obtains (kept) "c' = c" "\<And>k. r = Inr k \<Longrightarrow> kc_keys c kid = Some k \<and> now - kc_fetched_at c < cache_ttl"
    | (fetched) keys where "google_fetch a = Some keys" "c' = \<lparr>kc_keys = keys, kc_fetched_at = now\<rparr>"
        "\<And>k. r = Inr k \<Longrightarrow> keys kid = Some k"
  using assms unfolding google_key_def by (auto split: if_splits option.splits)

lemma google_key_from:
  assumes run: "google_key now a kid c = (r, c')" and c: "cache_from calls c"
  shows "cache_from (insert (now, a, raw) calls) c'"
    and "r = Inr k \<Longrightarrow> \<exists>t b raw'. (t, b, raw') \<in> insert (now, a, raw) calls \<and> lists_key b kid k \<and> now - t < cache_ttl"
proof -
  have "cache_from (insert (now, a, raw) calls) c' \<and>
    (r = Inr k \<longrightarrow> (\<exists>t b raw'. (t, b, raw') \<in> insert (now, a, raw) calls \<and> lists_key b kid k \<and> now - t < cache_ttl))"
    using run
  proof (cases rule: google_key_cases)
    case kept
    have "cache_from (insert (now, a, raw) calls) c'" unfolding kept(1) by (rule cache_from_mono [OF c]) blast
    moreover have "\<exists>b raw'. (kc_fetched_at c, b, raw') \<in> calls \<and> lists_key b kid k" if "r = Inr k"
      using kept(2) [OF that] c by (simp add: cache_from_def)
    ultimately show ?thesis using kept(2) by blast
  next
    case (fetched keys)
    have "now - now < cache_ttl" by (simp add: cache_ttl_def hours_def)
    moreover have "lists_key a kid k" if "r = Inr k" by (rule fetch_listed [OF fetched(1) fetched(3) [OF that]])
    moreover have "cache_from (insert (now, a, raw) calls) c'"
      using fetch_listed [OF fetched(1)] by (auto simp: fetched(2) cache_from_def)
    ultimately show ?thesis by blast
  qed
  then show "cache_from (insert (now, a, raw) calls) c'"
    "r = Inr k \<Longrightarrow> \<exists>t b raw'. (t, b, raw') \<in> insert (now, a, raw) calls \<and> lists_key b kid k \<and> now - t < cache_ttl" by blast+
qed

lemma google_parse_cache:
  "snd (google_parse kid_of check now a raw c) = c \<or>
   (\<exists>kid r. google_key now a kid c = (r, snd (google_parse kid_of check now a raw c)))"
  by (auto simp: google_parse_def split: option.splits prod.splits sum.splits)

lemma google_parse_from:
  assumes "cache_from calls c"
  shows "cache_from (insert (now, a, raw) calls) (snd (google_parse kid_of check now a raw c))"
  using google_parse_cache [of kid_of check now a raw c]
proof (elim disjE exE)
  fix kid r
  assume "google_key now a kid c = (r, snd (google_parse kid_of check now a raw c))"
  from google_key_from(1) [OF this assms] show ?thesis .
qed (auto intro: cache_from_mono [OF assms])

lemma google_calls_from: "cache_from calls c \<Longrightarrow> cache_from (set cs \<union> calls) (google_calls kid_of check cs c)"
proof (induction kid_of check cs c arbitrary: calls rule: google_calls.induct)
  case (2 kid_of check now a raw rest c)
  from 2(1) [OF google_parse_from [OF 2(2)]] show ?case by simp
qed simp

lemma google_keys_listed:
  assumes "fst (google_parse kid_of check now reply raw (google_calls kid_of check calls NewGoogleVerifier)) = Inr claims"
  shows "\<exists>kid k t a raw'. kid_of raw = Some kid \<and> kid \<noteq> [] \<and> check now k raw = Some claims \<and>
    (t, a, raw') \<in> insert (now, reply, raw) (set calls) \<and> lists_key a kid k \<and> now - t < cache_ttl"
proof -
  let ?c = "google_calls kid_of check calls NewGoogleVerifier"
  have c: "cache_from (set calls) ?c"
    using google_calls_from [of "{}" NewGoogleVerifier calls] by (simp add: cache_from_def NewGoogleVerifier_def)
  obtain kid k c' where k: "kid_of raw = Some kid" "kid \<noteq> []" "google_key now reply kid ?c = (Inr k, c')" "check now k raw = Some claims"
    using assms by (auto simp: google_parse_def split: option.splits if_splits prod.splits sum.splits)
  obtain t a raw' where "(t, a, raw') \<in> insert (now, reply, raw) (set calls)" "lists_key a kid k" "now - t < cache_ttl"
    using google_key_from(2) [OF k(3) c refl, of raw] by blast
  with k(1,2,4) show ?thesis by (intro exI conjI)
qed

lemma google_sign_in_claims:
  assumes "SignInWithGoogle env raw role w = (Inr v, w')"
  obtains parse claims where "a_google env = Some parse" "parse raw = Inr claims" "issuedByGoogle (gc_issuer claims)" "gc_email_verified claims"
proof -
  obtain parse g w1 where p: "a_google env = Some parse" and v: "VerifyGoogle env parse raw w = (Inr g, w1)"
    using assms by (auto simp: SignInWithGoogle_def Let_def bindE_Inr failIf_Inr throw_def split: option.splits)
  from v obtain claims where "parse raw = Inr claims" "issuedByGoogle (gc_issuer claims)" "gc_email_verified claims"
    by (auto simp: VerifyGoogle_def Let_def throw_def split: sum.splits if_splits)
  with p that show ?thesis by blast
qed

text \<open>
  C39: nobody signs in with Google but under a key of Google's.  After any series of tokens and
  answers to the fetches they set off, a sign-in that succeeds was with a token that the check
  accepts under a key which Google listed, under the id the token names, less than an hour
  before; and the token is issued by Google for an address it has verified.
\<close>

theorem google_sign_in_vouched:
  assumes "SignInWithGoogle (google_verifier env kid_of check (w_now w) reply (google_calls kid_of check calls NewGoogleVerifier)) raw role w = (Inr v, w')"
  shows "\<exists>kid k claims t a raw'. kid_of raw = Some kid \<and> kid \<noteq> [] \<and> check (w_now w) k raw = Some claims \<and>
    (t, a, raw') \<in> insert (w_now w, reply, raw) (set calls) \<and> lists_key a kid k \<and> w_now w - t < hours 1 \<and>
    issuedByGoogle (gc_issuer claims) \<and> gc_email_verified claims"
proof -
  from assms obtain claims where
    "fst (google_parse kid_of check (w_now w) reply raw (google_calls kid_of check calls NewGoogleVerifier)) = Inr claims"
    "issuedByGoogle (gc_issuer claims)" "gc_email_verified claims"
    by (rule google_sign_in_claims) (auto simp: google_verifier_def)
  with google_keys_listed [OF this(1)] show ?thesis by (simp add: cache_ttl_def) blast
qed

section \<open>Witnesses\<close>

lemma base64_reads_back_witness: "base64_decode ''AQAB'' = Some [1, 0, 1]"
proof -
  have "map base64_char (base64_digits [1, 0, 1]) = ''AQAB''" by (simp add: base64_char_def base64_alphabet_def)
  with base64_reads_back [of "[1, 0, 1]"] show ?thesis by simp
qed

definition google_bob :: google_claims where
  "google_bob = \<lparr>gc_issuer = ''accounts.google.com'', gc_subject = ''1'', gc_email = '' Bob@mail'', gc_email_verified = True, gc_name = ''Bob''\<rparr>"

definition listing :: jwks_answer where
  "listing = JwksAnswer 200 (Some [\<lparr>jk_kid = ''k1'', jk_kty = ''RSA'', jk_n = ''AQAB'', jk_e = ''AQAB''\<rparr>])"

definition google_world :: world where
  "google_world = world_at (start_db\<lparr>d_users := [account_row 12 ''bob'' ''client'']\<rparr>) [] monday_8 100"

definition check_bob :: "instant \<Rightarrow> rsa_key \<Rightarrow> string \<Rightarrow> google_claims option" where
  "check_bob now k raw = (if rk_modulus k = 65537 then Some google_bob else None)"

lemma google_sign_in_vouched_witness:
  "\<exists>v w'. SignInWithGoogle (google_verifier acct_env (\<lambda>_. Some ''k1'') check_bob monday_8 NoAnswer
       (google_calls (\<lambda>_. Some ''k1'') check_bob [(monday_8 - minutes 30, listing, ''t'')] NewGoogleVerifier)) ''t'' [] google_world = (Inr v, w') \<and>
     (\<exists>k. lists_key listing ''k1'' k \<and> check_bob monday_8 k ''t'' \<noteq> None)"
proof -
  let ?k = "\<lparr>rk_modulus = 65537, rk_exponent = 65537\<rparr>"
  let ?c = "google_calls (\<lambda>_. Some ''k1'') check_bob [(monday_8 - minutes 30, listing, ''t'')] NewGoogleVerifier"
  let ?g = "google_verifier acct_env (\<lambda>_. Some ''k1'') check_bob monday_8 NoAnswer ?c"
  let ?env = "acct_env\<lparr>a_google := Some (\<lambda>raw. Inr google_bob)\<rparr>"
  let ?bob = "account_row 12 ''bob'' ''client''"
  have fetch: "google_fetch listing = Some [''k1'' \<mapsto> ?k]"
    by (simp add: listing_def base64_reads_back_witness set_bytes_def int64_of_def Let_def)
  then have c: "?c = \<lparr>kc_keys = [''k1'' \<mapsto> ?k], kc_fetched_at = monday_8 - minutes 30\<rparr>"
    by (simp add: google_parse_def google_key_def NewGoogleVerifier_def check_bob_def)
  have env: "?g = ?env"
    unfolding c by (simp add: google_verifier_def google_parse_def google_key_def check_bob_def cache_ttl_def hours_def minutes_def seconds_def)
  have bob: "to_lower (trim_space '' Bob@mail'') = ''bob@mail''" by code_simp
  have w: "w_sched google_world = []" "w_random google_world = [''tok1'', ''tok2'']" "d_users (w_db google_world) = [?bob]"
    "d_tokens (w_db google_world) = []" by (simp_all add: google_world_def world_at_def start_db_def)
  have "\<exists>w'. openSession ?env ?bob None google_world =
      (Inr (session_with ?env google_world ?bob (jwt_of (session_claims ?env google_world ?bob)) ''tok1''), w')"
    by (rule openSession_succeeds) (simp_all add: w acct_env_def tokens_violation_def new_token_def account_row_def)
  moreover have "GetUserByEmail ''bob@mail'' google_world = (Inr ?bob, google_world)"
    by (simp add: GetUserByEmail_def select_one_calm w account_row_def live_def)
  moreover have "VerifyGoogle ?env (\<lambda>raw. Inr google_bob) ''t'' = ret \<lparr>gi_subject = ''1'', gi_email = ''bob@mail'', gi_name = trim_space ''Bob''\<rparr>"
    by (simp add: VerifyGoogle_def google_bob_def issuedByGoogle_def acct_env_def bob Let_def)
  ultimately have "\<exists>v w'. SignInWithGoogle ?env ''t'' [] google_world = (Inr v, w')"
    by (auto simp: SignInWithGoogle_def Let_def failIf_def bindE_def attempt_def ret_def verified_account_def account_row_def)
  then obtain v w' where run: "SignInWithGoogle ?g ''t'' [] google_world = (Inr v, w')" unfolding env by blast
  have now: "w_now google_world = monday_8" by (simp add: google_world_def world_at_def)
  have none: "\<not> lists_key NoAnswer kid k" for kid k by (simp add: lists_key_def)
  have "\<exists>k. lists_key listing ''k1'' k \<and> check_bob monday_8 k ''t'' \<noteq> None"
    using google_sign_in_vouched [OF run [folded now]] unfolding now by (auto simp: none)
  with run show ?thesis by blast
qed

end
