(* ===== verification/Deletion.thy ===== *)
theory Deletion
  imports Auth
begin

text \<open>
  The second half of deleting an account: the worker that revokes and removes
  (internal/account/worker.go), the relay that publishes the recorded deletions no request
  managed to queue (internal/account/relay.go), what the consumer does with a delivery
  (internal/account/queue.go), and the backoff before a consumer is restarted
  (cmd/worker/main.go).  The first half is \<open>DeleteAccount\<close> in theory Auth.  Logging is left out.
\<close>

section \<open>The worker\<close>

text \<open>Whether the row is gone; no when that cannot be told.\<close>

definition deleted :: "uuid \<Rightarrow> bool request" where
  "deleted i = attempt (UserRowExists i) (\<lambda>_. ret False) (\<lambda>exists. ret (\<not> exists))"

definition Handle_deletion :: "'a env_scheme \<Rightarrow> int \<Rightarrow> string \<Rightarrow> unit request" where
  "Handle_deletion env ttl user_id =
     (case x_parse_uuid env user_id of None \<Rightarrow> throw ErrParse
      | Some i \<Rightarrow>
          attempt (Revoke env ttl i)
            (\<lambda>e. bindE (deleted i) (\<lambda>gone. if gone then FinishUserDeletion i else throw e))
            (\<lambda>_. bindE (DeleteUser i) (\<lambda>_. FinishUserDeletion i)))"

text \<open>One pass of \<open>PurgeExpiredRefreshTokens\<close>.\<close>

definition purge_pass :: "unit request" where
  "purge_pass = ignore_error DeleteExpiredRefreshTokens"

section \<open>The relay\<close>

definition relay_batch :: nat where "relay_batch = 100"

text \<open>The loop of \<open>Drain\<close>: how many were published, and the error that ended it.\<close>

fun queue_each :: "'a env_scheme \<Rightarrow> string \<Rightarrow> nat \<Rightarrow> uuid list \<Rightarrow> (nat \<times> go_error option) request" where
  "queue_each env queue n [] = ret (n, None)"
| "queue_each env queue n (i # rest) =
     attempt (Publish queue (DeletionJob (x_uuid_text env i) 0)) (\<lambda>e. ret (n, Some e)) (\<lambda>_.
     attempt (MarkDeletionPublished i) (\<lambda>e. ret (n, Some e)) (\<lambda>_.
     queue_each env queue (Suc n) rest))"

definition DrainDeletions :: "'a env_scheme \<Rightarrow> string \<Rightarrow> (nat \<times> go_error option) request" where
  "DrainDeletions env queue =
     attempt (PendingDeletions relay_batch) (\<lambda>e. ret (0, Some e)) (queue_each env queue 0)"

section \<open>The consumer\<close>

definition max_deletion_attempts :: int where "max_deletion_attempts = 20"
definition retry_delay :: int where "retry_delay = seconds 30"

definition DeadLetterQueue :: "string \<Rightarrow> string" where "DeadLetterQueue name = name @ ''.dlq''"
definition RetryQueue :: "string \<Rightarrow> string" where "RetryQueue name = name @ ''.retry''"

text \<open>What a broker or a client may make of a header field.\<close>

datatype amqp_value = Int64Field int | Int32Field int | Int16Field int | IntField int | OtherField

fun attemptsOf :: "amqp_value option \<Rightarrow> int" where
  "attemptsOf (Some (Int64Field v)) = v"
| "attemptsOf (Some (Int32Field v)) = v"
| "attemptsOf (Some (Int16Field v)) = v"
| "attemptsOf (Some (IntField v)) = v"
| "attemptsOf (Some OtherField) = 0"
| "attemptsOf None = 0"

text \<open>
  \<open>Consume\<close> on one delivery: its attempts header and its decoded body.  A failure is published
  again with its count, onto the queue that waits; if that is not confirmed the delivery goes
  back as it is.
\<close>

definition consume_deletion ::
  "'a env_scheme \<Rightarrow> int \<Rightarrow> string \<Rightarrow> amqp_value option \<Rightarrow> string option \<Rightarrow> disposition request" where
  "consume_deletion env ttl queue header body =
     (case body of None \<Rightarrow> ret Rejected
      | Some user_id \<Rightarrow>
          let attempts = attemptsOf header + 1; last_attempt = (max_deletion_attempts \<le> attempts) in
          attempt (Handle_deletion env ttl user_id)
            (\<lambda>_. if last_attempt then ret Rejected
                 else attempt (queue_publish (RetryQueue queue) (DeletionJob user_id attempts))
                        (\<lambda>_. ret Requeued) (\<lambda>_. ret Acked))
            (\<lambda>_. ret Acked))"

section \<open>Restarting a consumer\<close>

definition min_backoff :: int where "min_backoff = seconds 1"
definition max_backoff :: int where "max_backoff = seconds 30"

definition next_backoff :: "int \<Rightarrow> int" where
  "next_backoff b = (if b < max_backoff then min (b * 2) max_backoff else b)"

end
