(* ===== verification/Deletion_Pipeline.thy ===== *)
theory Deletion_Pipeline
  imports Deletion
begin

text \<open>
  The life of a deletion across processes: the request that records it, the relay, the worker
  and the broker's queues, as a transition system.  A step runs one of them to its end, with
  any faults: a process that dies leaves the statements it had run, which is a run whose
  remaining statements fail and whose acknowledgement is lost.  Requests that have nothing to
  do with deletions may run in between, also between the statements of a step.
\<close>

section \<open>States\<close>

definition user_ids :: "db \<Rightarrow> uuid set" where
  "user_ids d = u_id ` set (d_users d)"

definition marked_ids :: "db \<Rightarrow> uuid set" where
  "marked_ids d = u_id ` {u \<in> set (d_users d). \<not> live u}"

definition recorded :: "db \<Rightarrow> uuid set" where
  "recorded d = ad_user_id ` set (d_deletions d)"

text \<open>
  The database, the messages on the work queue (delivered or not), on the retry queue and on
  the dead-letter queue, the accounts that were ever marked deleted, by whatever step, and the
  accounts whose owners called \<open>DeleteAccount\<close>, in the order of the calls.
\<close>

record pipeline =
  pl_db :: db
  pl_work :: "job list"
  pl_retry :: "job list"
  pl_dead :: "job list"
  pl_asked :: "uuid set"
  pl_called :: "uuid list"

definition jobs :: "pipeline \<Rightarrow> job set" where
  "jobs p = set (pl_work p) \<union> set (pl_retry p) \<union> set (pl_dead p)"

definition job_users :: "auth_env \<Rightarrow> job set \<Rightarrow> uuid set" where
  "job_users env js = {i. \<exists>k. DeletionJob (x_uuid_text env i) k \<in> js}"

fun queued_on :: "string \<Rightarrow> signal list \<Rightarrow> job list" where
  "queued_on q [] = []"
| "queued_on q (Queued q' j # ss) = (if q' = q then j # queued_on q ss else queued_on q ss)"
| "queued_on q (Mailed m # ss) = queued_on q ss"
| "queued_on q (Pushed a b c # ss) = queued_on q ss"
| "queued_on q (Announced a b # ss) = queued_on q ss"

section \<open>Steps\<close>

text \<open>
  What requests that have nothing to do with deletions do to the database: they neither mark
  nor remove accounts, leave the recorded deletions alone, and draw new ids.
\<close>

definition quiet :: "uuid set \<Rightarrow> db \<Rightarrow> db \<Rightarrow> bool" where
  "quiet A d d' \<longleftrightarrow> d_deletions d' = d_deletions d \<and> marked_ids d' = marked_ids d \<and>
     user_ids d \<subseteq> user_ids d' \<and> user_ids d' \<inter> A \<subseteq> user_ids d"

definition quiet_rely :: "uuid set \<Rightarrow> sched list \<Rightarrow> bool" where
  "quiet_rely A sch \<longleftrightarrow> (\<forall>f. Others f \<in> set sch \<longrightarrow> (\<forall>d. quiet A d (f d)))"

definition runs :: "pipeline \<Rightarrow> world \<Rightarrow> bool" where
  "runs p w \<longleftrightarrow> w_db w = pl_db p \<and> \<not> w_in_tx w \<and> w_signals w = [] \<and> quiet_rely (pl_asked p) (w_sched w)"

text \<open>The state after a run that ended in \<open>w'\<close>, the messages it published added.\<close>

definition after :: "auth_env \<Rightarrow> pipeline \<Rightarrow> world \<Rightarrow> pipeline" where
  "after env p w' =
     p\<lparr>pl_db := w_db w', pl_work := pl_work p @ queued_on (a_deletion_queue env) (w_signals w'),
       pl_retry := pl_retry p @ queued_on (RetryQueue (a_deletion_queue env)) (w_signals w'),
       pl_asked := pl_asked p \<union> marked_ids (w_db w')\<rparr>"

text \<open>
  What the broker does with the delivered message \<open>j\<close>, the others on the work queue being
  \<open>rest\<close>.  If the worker's answer is lost it is delivered again.
\<close>

definition settle :: "bool \<Rightarrow> disposition \<Rightarrow> job \<Rightarrow> job list \<Rightarrow> pipeline \<Rightarrow> pipeline" where
  "settle lost disp j rest p =
     (if lost \<or> disp = Requeued then p\<lparr>pl_work := j # rest\<rparr>
      else if disp = Rejected then p\<lparr>pl_work := rest, pl_dead := pl_dead p @ [j]\<rparr>
      else p\<lparr>pl_work := rest\<rparr>)"

inductive lifecycle :: "auth_env \<Rightarrow> int \<Rightarrow> pipeline \<Rightarrow> pipeline \<Rightarrow> bool" for env ttl where
  ask: "\<lbrakk>runs p w; DeleteAccount env i w = (r, w')\<rbrakk> \<Longrightarrow>
     lifecycle env ttl p (after env (p\<lparr>pl_called := pl_called p @ [i]\<rparr>) w')"
| relay: "\<lbrakk>runs p w; DrainDeletions env (a_deletion_queue env) w = (r, w')\<rbrakk> \<Longrightarrow> lifecycle env ttl p (after env p w')"
| deliver: "\<lbrakk>runs p w; pl_work p = xs @ DeletionJob text k # ys;
     consume_deletion env ttl (a_deletion_queue env) (Some (Int64Field k)) (Some text) w = (Inr disp, w')\<rbrakk> \<Longrightarrow>
     lifecycle env ttl p (after env (settle lost disp (DeletionJob text k) (xs @ ys) p) w')"
| expire: "pl_retry p = xs @ j # ys \<Longrightarrow>
     lifecycle env ttl p (p\<lparr>pl_retry := xs @ ys, pl_work := pl_work p @ [j]\<rparr>)"
| elsewhere: "quiet (pl_asked p) (pl_db p) d' \<Longrightarrow> lifecycle env ttl p (p\<lparr>pl_db := d'\<rparr>)"

inductive_cases lifecycle_elim: "lifecycle env ttl p p'"

section \<open>The invariant\<close>

text \<open>
  The recorded deletion of \<open>i\<close> has been published only if its job is in \<open>K\<close>.
\<close>

definition covered :: "uuid set \<Rightarrow> uuid \<Rightarrow> db \<Rightarrow> bool" where
  "covered K i d \<longleftrightarrow> (\<exists>a \<in> set (d_deletions d). ad_user_id a = i \<and> (ad_published_at a = None \<or> i \<in> K))"

definition job_ok :: "auth_env \<Rightarrow> uuid set \<Rightarrow> job \<Rightarrow> bool" where
  "job_ok env A j \<longleftrightarrow> (\<exists>i k. i \<in> A \<and> 0 \<le> k \<and> k < max_deletion_attempts \<and> j = DeletionJob (x_uuid_text env i) k)"

definition pipeline_inv :: "auth_env \<Rightarrow> pipeline \<Rightarrow> bool" where
  "pipeline_inv env p \<longleftrightarrow>
     marked_ids (pl_db p) \<subseteq> pl_asked p \<and> pl_asked p \<inter> user_ids (pl_db p) \<subseteq> marked_ids (pl_db p) \<and>
     recorded (pl_db p) \<subseteq> pl_asked p \<and>
     (\<forall>i \<in> marked_ids (pl_db p). covered (job_users env (jobs p)) i (pl_db p)) \<and>
     (\<forall>j \<in> jobs p. job_ok env (pl_asked p) j)"

text \<open>
  The same for the database in the middle of a run: \<open>sc_new\<close> has been marked by this run,
  \<open>sc_ids\<close> were the accounts at its start, of which it may remove \<open>sc_drop\<close>, and \<open>sc_gone\<close>
  are gone.
\<close>

record scope =
  sc_asked :: "uuid set"
  sc_new :: "uuid set"
  sc_jobs :: "uuid set"
  sc_ids :: "uuid set"
  sc_drop :: "uuid set"
  sc_gone :: "uuid set"

definition pipe_db :: "scope \<Rightarrow> uuid set \<Rightarrow> db \<Rightarrow> bool" where
  "pipe_db s K d \<longleftrightarrow>
     marked_ids d \<subseteq> sc_asked s \<union> sc_new s \<and> (sc_asked s \<union> sc_new s) \<inter> user_ids d \<subseteq> marked_ids d \<and>
     recorded d \<subseteq> sc_asked s \<union> sc_new s \<and> sc_new s \<subseteq> marked_ids d \<and> (\<forall>i \<in> marked_ids d. covered K i d) \<and>
     sc_ids s - sc_drop s \<subseteq> user_ids d \<and> user_ids d \<inter> sc_asked s \<subseteq> sc_ids s \<and>
     sc_gone s \<inter> user_ids d = {} \<and> sc_gone s \<subseteq> sc_asked s"

definition sent :: "auth_env \<Rightarrow> signal list \<Rightarrow> uuid set" where
  "sent env ss = {i. \<exists>q k. q \<in> {a_deletion_queue env, RetryQueue (a_deletion_queue env)} \<and>
     Queued q (DeletionJob (x_uuid_text env i) k) \<in> set ss}"

definition sound_signals :: "auth_env \<Rightarrow> uuid set \<Rightarrow> signal list \<Rightarrow> bool" where
  "sound_signals env A ss \<longleftrightarrow> (\<forall>q j. Queued q j \<in> set ss \<longrightarrow> job_ok env A j)"

definition in_run :: "auth_env \<Rightarrow> scope \<Rightarrow> world \<Rightarrow> bool" where
  "in_run env s w \<longleftrightarrow> pipe_db s (sc_jobs s \<union> sent env (w_signals w)) (w_db w) \<and> \<not> w_in_tx w \<and>
     quiet_rely (sc_asked s) (w_sched w) \<and> sound_signals env (sc_asked s \<union> sc_new s) (w_signals w)"

section \<open>Runs keep it\<close>

lemma covered_mono: "covered K i d \<Longrightarrow> K \<subseteq> K' \<Longrightarrow> covered K' i d"
  by (auto simp: covered_def)

lemma pipe_db_mono: "pipe_db s K d \<Longrightarrow> K \<subseteq> K' \<Longrightarrow> pipe_db s K' d"
  by (auto simp: pipe_db_def intro: covered_mono)

lemma sent_mono: "set ss \<subseteq> set ss' \<Longrightarrow> sent env ss \<subseteq> sent env ss'"
  by (auto simp: sent_def)

lemma quiet_pipe_db:
  assumes "quiet (sc_asked s) d d'" and "pipe_db s K d"
  shows "pipe_db s K d'"
proof -
  have q: "d_deletions d' = d_deletions d" "marked_ids d' = marked_ids d" "user_ids d \<subseteq> user_ids d'"
    "user_ids d' \<inter> sc_asked s \<subseteq> user_ids d"
    using assms(1) by (simp_all add: quiet_def)
  have "covered K i d' \<longleftrightarrow> covered K i d" "recorded d' = recorded d" for i
    by (simp_all add: covered_def recorded_def q(1))
  then show ?thesis using assms(2) q(2-4) by (auto simp: pipe_db_def)
qed

lemma in_run_entry:
  assumes "in_run env s w" and "next_entry w = (b, w')"
  shows "in_run env s w'"
proof (cases "w_sched w")
  case (Cons e r)
  have "pipe_db s K (f d)" if "e = Others f" "pipe_db s K d" for f K d
    using assms(1) Cons that by (auto simp: in_run_def quiet_rely_def intro: quiet_pipe_db [of s d])
  with assms Cons show ?thesis by (cases e) (auto simp: next_entry_def in_run_def quiet_rely_def)
qed (use assms in \<open>simp add: next_entry_def\<close>)

lemma in_run_keeps:
  assumes "in_run env s w" and "w_db w' = w_db w" "w_sched w' = w_sched w" "w_in_tx w' = w_in_tx w" "w_signals w' = w_signals w"
  shows "in_run env s w'"
  using assms by (simp add: in_run_def)

lemma hoareI:
  assumes "\<And>w x w'. P w \<Longrightarrow> m w = (Inr x, w') \<Longrightarrow> Q x w'" and "\<And>w e w'. P w \<Longrightarrow> m w = (Inl e, w') \<Longrightarrow> E e w'"
  shows "hoare P m Q E"
  unfolding hoare_def
proof (intro allI impI)
  fix w assume "P w"
  with assms show "case m w of (Inr x, w') \<Rightarrow> Q x w' | (Inl e, w') \<Rightarrow> E e w'"
    by (cases "m w"; cases "fst (m w)") auto
qed

lemma query_in_run:
  assumes "\<And>w x d. in_run env s w \<Longrightarrow> f w = Inr (x, d) \<Longrightarrow> Q x (w\<lparr>w_db := d\<rparr>)"
  shows "hoare (in_run env s) (query f) Q (\<lambda>_. in_run env s)"
proof (rule hoareI)
  fix w x w' assume inv: "in_run env s w" and run: "query f w = (Inr x, w')"
  obtain b w1 where n: "next_entry w = (b, w1)" by (cases "next_entry w")
  from run n obtain d where "f w1 = Inr (x, d)" "w' = w1\<lparr>w_db := d\<rparr>"
    by (auto simp: query_def split: bool.splits sum.splits)
  with assms in_run_entry [OF inv n] show "Q x w'" by simp
next
  fix w e w' assume inv: "in_run env s w" and run: "query f w = (Inl e, w')"
  obtain b w1 where n: "next_entry w = (b, w1)" by (cases "next_entry w")
  with run have "w' = w1" by (auto simp: query_def split: bool.splits sum.splits)
  with in_run_entry [OF inv n] show "in_run env s w'" by simp
qed

lemma keeps_query_in_run:
  assumes "\<And>w x d K. pipe_db s K (w_db w) \<Longrightarrow> f w = Inr (x, d) \<Longrightarrow> pipe_db s K d"
  shows "keeps (in_run env s) (query f)"
  unfolding keeps_hoare by (rule query_in_run) (use assms in \<open>auto simp: in_run_def\<close>)

lemma pipe_db_same:
  "d_users d' = d_users d \<Longrightarrow> d_deletions d' = d_deletions d \<Longrightarrow> pipe_db s K d \<Longrightarrow> pipe_db s K d'"
  by (simp add: pipe_db_def marked_ids_def user_ids_def recorded_def covered_def)

lemma keeps_select_in_run [keeps_intros]: "keeps (in_run env s) (select g)" "keeps (in_run env s) (select_one h)"
  unfolding select_def select_one_def by (rule keeps_query_in_run; auto split: option.splits)+

lemma keeps_tokens_in_run [keeps_intros]: "keeps (in_run env s) (RevokeUserRefreshTokens i)"
  unfolding RevokeUserRefreshTokens_def delete_tokens_def
  by (rule keeps_query_in_run) (auto simp: Let_def intro: pipe_db_same)

lemma keeps_redis_in_run [keeps_intros]: "keeps (in_run env s) (redis_do f)"
proof (rule keepsI)
  fix w assume "in_run env s w"
  moreover obtain b w1 where n: "next_entry w = (b, w1)" by (cases "next_entry w")
  ultimately have "in_run env s w1" by (rule in_run_entry)
  with n show "in_run env s (snd (redis_do f w))"
    by (auto simp: redis_do_def split: bool.splits prod.splits intro: in_run_keeps)
qed

lemma signal_in_run:
  assumes "in_run env s w" and "\<And>q j. x = Queued q j \<Longrightarrow> job_ok env (sc_asked s \<union> sc_new s) j"
  shows "in_run env s (w\<lparr>w_signals := w_signals w @ [x]\<rparr>)"
proof -
  have "sent env (w_signals w) \<subseteq> sent env (w_signals w @ [x])" by (rule sent_mono) auto
  then have "pipe_db s (sc_jobs s \<union> sent env (w_signals w @ [x])) (w_db w)"
    using assms(1) by (auto simp: in_run_def intro: pipe_db_mono)
  with assms show ?thesis by (auto simp: in_run_def sound_signals_def)
qed

lemma keeps_announce_in_run [keeps_intros]: "keeps (in_run env s) (PUBLISH channel payload)"
proof (rule keepsI)
  fix w assume "in_run env s w"
  moreover obtain b w1 where n: "next_entry w = (b, w1)" by (cases "next_entry w")
  ultimately have "in_run env s w1" by (rule in_run_entry)
  with n show "in_run env s (snd (PUBLISH channel payload w))"
    by (auto simp: PUBLISH_def split: bool.splits intro: signal_in_run)
qed

lemma keeps_acquire_in_run [keeps_intros]: "keeps (in_run env s) acquire"
  by (rule keepsI) (auto simp: acquire_def split: prod.splits bool.splits dest: in_run_entry)

lemma keeps_queue_publish_in_run:
  assumes "job_ok env (sc_asked s \<union> sc_new s) j"
  shows "keeps (in_run env s) (queue_publish q j)"
proof (rule keepsI)
  fix w assume inv: "in_run env s w"
  obtain r w' where run: "queue_publish q j w = (r, w')" by (cases "queue_publish q j w")
  obtain b w1 where n: "next_entry w = (b, w1)"
    and w': "w' = w1 \<or> w' = w1\<lparr>w_signals := w_signals w1 @ [Queued q j]\<rparr>"
    using queue_publish_entry [OF run] by blast
  have "in_run env s w1" by (rule in_run_entry [OF inv n])
  with w' assms run show "in_run env s (snd (queue_publish q j w))" by (auto intro: signal_in_run)
qed

lemma keeps_Publish_in_run:
  assumes "job_ok env (sc_asked s \<union> sc_new s) j"
  shows "keeps (in_run env s) (Publish q j)"
  unfolding Publish_def by (intro keeps_intros keeps_queue_publish_in_run [OF assms])

text \<open>A confirmed publish is among the messages sent.\<close>

definition sent_run :: "auth_env \<Rightarrow> scope \<Rightarrow> uuid \<Rightarrow> world \<Rightarrow> bool" where
  "sent_run env s i w \<longleftrightarrow> in_run env s w \<and> i \<in> sc_jobs s \<union> sent env (w_signals w)"

lemma new_job_ok: "i \<in> A \<Longrightarrow> job_ok env A (DeletionJob (x_uuid_text env i) 0)"
  unfolding job_ok_def max_deletion_attempts_def by (intro exI conjI) (auto simp: )

lemma Publish_in_run:
  assumes "i \<in> sc_asked s \<union> sc_new s"
  shows "hoare (in_run env s) (Publish (a_deletion_queue env) (DeletionJob (x_uuid_text env i) 0)) (\<lambda>_. sent_run env s i) (\<lambda>_. in_run env s)"
proof (rule hoareI)
  note keep = keepsD [OF keeps_Publish_in_run [OF new_job_ok [OF assms]]]
  fix w u w' assume inv: "in_run env s w" and run: "Publish (a_deletion_queue env) (DeletionJob (x_uuid_text env i) 0) w = (Inr u, w')"
  from Publish_confirmed [OF run] have "i \<in> sent env (w_signals w')" by (auto simp: sent_def)
  with keep [OF inv run] show "sent_run env s i w'" by (simp add: sent_run_def)
next
  note keep = keepsD [OF keeps_Publish_in_run [OF new_job_ok [OF assms]]]
  fix w e w' assume inv: "in_run env s w" and run: "Publish (a_deletion_queue env) (DeletionJob (x_uuid_text env i) 0) w = (Inl e, w')"
  from keep [OF inv run] show "in_run env s w'" .
qed

end
