(* ===== verification/Deletion_Runs.thy ===== *)
theory Deletion_Runs
  imports Deletion_Pipeline
begin

text \<open>
  Each operation of the deletion pipeline keeps the invariant of a run (\<open>in_run\<close>), whatever
  statement fails and whatever unrelated requests do in between.
\<close>

section \<open>The statements that change accounts or recorded deletions\<close>

lemma marked_sub: "marked_ids d \<subseteq> user_ids d"
  by (auto simp: marked_ids_def user_ids_def)

lemma deleted_mark_simps [simp]: "u_id (deleted_mark now u) = u_id u" "\<not> live (deleted_mark now u)"
  by (auto simp: deleted_mark_def live_def split: option.splits)

lemma keys_update_where:
  assumes "\<And>r. k (f r) = k r"
  shows "k ` set (update_where p f rows) = k ` set rows"
proof -
  have "map k (update_where p f rows) = map k rows" by (rule map_update_where) (rule assms)
  then show ?thesis by (metis list.set_map)
qed

lemma bex_update_where:
  "(\<exists>x \<in> set (update_where p f rows). P x) \<longleftrightarrow> (\<exists>r \<in> set rows. P (if p r then f r else r))"
  by (auto simp: update_where_def)

lemma covered_records:
  "covered K j (d\<lparr>d_users := us, d_deletions := update_where p f ds\<rparr>) \<longleftrightarrow>
     (\<exists>a \<in> set ds. ad_user_id (if p a then f a else a) = j \<and> (ad_published_at (if p a then f a else a) = None \<or> j \<in> K))"
  by (simp add: covered_def bex_update_where)

lemma job_ok_mono: "job_ok env A j \<Longrightarrow> A \<subseteq> B \<Longrightarrow> job_ok env B j"
  unfolding job_ok_def by blast

lemma request_sets:
  assumes "list_ex (\<lambda>u. u_id u = i) (d_users d)"
    and "d' = d\<lparr>d_users := update_where (\<lambda>u. u_id u = i) (deleted_mark now) (d_users d), d_deletions := record_deletion i now (d_deletions d)\<rparr>"
  shows "user_ids d' = user_ids d" "marked_ids d' = insert i (marked_ids d)" "recorded d' = insert i (recorded d)"
    "covered K i d'" "j \<noteq> i \<Longrightarrow> covered K j d \<Longrightarrow> covered K j d'"
proof -
  show "user_ids d' = user_ids d" by (simp add: assms(2) user_ids_def keys_update_where)
  show "marked_ids d' = insert i (marked_ids d)"
  proof (intro set_eqI iffI)
    fix j assume "j \<in> marked_ids d'"
    then show "j \<in> insert i (marked_ids d)"
      by (auto simp: assms(2) marked_ids_def set_update_where split: if_splits)
  next
    fix j assume j: "j \<in> insert i (marked_ids d)"
    have "\<exists>u \<in> set (d_users d). u_id u = j \<and> (j = i \<or> \<not> live u)"
      using j assms(1) by (auto simp: marked_ids_def list_ex_iff)
    then obtain u where "u \<in> set (d_users d)" "u_id u = j" "j = i \<or> \<not> live u" by blast
    then show "j \<in> marked_ids d'"
      unfolding marked_ids_def assms(2)
      by (intro image_eqI [of _ _ "if u_id u = i then deleted_mark now u else u"]) (auto simp: set_update_where)
  qed
  show "recorded d' = insert i (recorded d)"
    by (auto simp: assms(2) recorded_def record_deletion_def list_ex_iff keys_update_where)
  show "covered K i d'"
    unfolding covered_def assms(2) record_deletion_def
    by (auto simp: bex_update_where list_ex_iff)
  show "covered K j d \<Longrightarrow> covered K j d'" if "j \<noteq> i"
    using that unfolding covered_def assms(2) record_deletion_def
    by (auto simp: bex_update_where)
qed

lemma RequestUserDeletion_run:
  assumes "sc_new s = {}" and "sc_gone s = {}"
  shows "hoare (in_run env s) (RequestUserDeletion i)
    (\<lambda>rows w. if rows = 0 then in_run env s w else in_run env (s\<lparr>sc_new := {i}\<rparr>) w) (\<lambda>_. in_run env s)"
  unfolding RequestUserDeletion_def
proof (rule query_in_run)
  fix w :: world and x :: nat and d
  assume inv: "in_run env s w"
    and run: "(let d = w_db w; now = w_dbnow w in
       if list_ex (\<lambda>u. u_id u = i) (d_users d)
       then Inr (1, d\<lparr>d_users := update_where (\<lambda>u. u_id u = i) (deleted_mark now) (d_users d),
                      d_deletions := record_deletion i now (d_deletions d)\<rparr>)
       else Inr (0, d)) = Inr (x, d)"
  show "if x = 0 then in_run env s (w\<lparr>w_db := d\<rparr>) else in_run env (s\<lparr>sc_new := {i}\<rparr>) (w\<lparr>w_db := d\<rparr>)"
  proof (cases "list_ex (\<lambda>u. u_id u = i) (d_users (w_db w))")
    case True
    from run True have x: "x = 1" and d: "d = (w_db w)\<lparr>d_users := update_where (\<lambda>u. u_id u = i) (deleted_mark (w_dbnow w)) (d_users (w_db w)),
        d_deletions := record_deletion i (w_dbnow w) (d_deletions (w_db w))\<rparr>" by (auto simp: Let_def)
    note sets = request_sets [OF True d]
    have i: "i \<in> user_ids (w_db w)" using True by (auto simp: list_ex_iff user_ids_def)
    have "pipe_db (s\<lparr>sc_new := {i}\<rparr>) K d" if "pipe_db s K (w_db w)" for K
    proof -
      have "covered K j d" if "j \<in> insert i (marked_ids (w_db w))" for j
        using that sets(4) sets(5) [of j K] \<open>pipe_db s K (w_db w)\<close> by (cases "j = i") (auto simp: pipe_db_def)
      with that assms i show ?thesis by (auto simp: pipe_db_def sets(1-3))
    qed
    with inv x show ?thesis using assms
      by (auto simp: in_run_def sound_signals_def intro: job_ok_mono [OF _ subset_insertI])
  qed (use inv run in \<open>auto simp: Let_def intro: in_run_keeps\<close>)
qed

lemma MarkDeletionPublished_run: "leads (sent_run env s i) (in_run env s) (MarkDeletionPublished i)"
proof (rule leadsI)
  fix w assume pre: "sent_run env s i w"
  obtain b w1 where n: "next_entry w = (b, w1)" by (cases "next_entry w")
  have inv: "in_run env s w1" using pre n by (auto simp: sent_run_def intro: in_run_entry)
  have sig: "w_signals w1 = w_signals w"
    using n by (auto simp: next_entry_def split: list.splits sched.splits if_splits)
  let ?d = "(w_db w1)\<lparr>d_deletions := update_where (unpublished i) (\<lambda>a. a\<lparr>ad_published_at := Some (w_dbnow w1)\<rparr>) (d_deletions (w_db w1))\<rparr>"
  have sets: "user_ids ?d = user_ids (w_db w1)" "marked_ids ?d = marked_ids (w_db w1)" "recorded ?d = recorded (w_db w1)"
    by (simp_all add: user_ids_def marked_ids_def recorded_def keys_update_where)
  have cov: "covered K j ?d" if "covered K j (w_db w1)" "i \<in> K" for K j
    using that unfolding covered_def by (auto simp: bex_update_where unpublished_def)
  have i: "i \<in> sc_jobs s \<union> sent env (w_signals w1)" using pre sig by (simp add: sent_run_def)
  have "in_run env s (w1\<lparr>w_db := ?d\<rparr>)"
    using inv cov [OF _ i] by (auto simp: in_run_def pipe_db_def sets)
  with inv n show "in_run env s (snd (MarkDeletionPublished i w))"
    by (auto simp: MarkDeletionPublished_def query_def Let_def split: bool.splits)
qed

section \<open>The request\<close>

lemma keeps_Revoke_run [keeps_intros]: "keeps (in_run env s) (Revoke env' ttl i)"
  unfolding Revoke_def SET_def by (intro keeps_intros)

lemma keeps_ignore [keeps_intros]: "keeps I m \<Longrightarrow> keeps I (ignore_error m)"
  unfolding ignore_error_def by (intro keeps_intros)

lemma publish_then_mark:
  assumes "i \<in> sc_asked s \<union> sc_new s" and "\<And>e. leads (in_run env s) Q (h e)" and "leads (in_run env s) Q m"
    and "leads (in_run env s) Q m'"
  shows "leads (in_run env s) Q
    (attempt (Publish (a_deletion_queue env) (DeletionJob (x_uuid_text env i) 0)) h
      (\<lambda>_. attempt (MarkDeletionPublished i) (\<lambda>_. m) (\<lambda>_. m')))"
  by (rule leads_attempt_hoare [OF Publish_in_run [OF assms(1)] assms(2)])
    (rule leads_attempt [OF MarkDeletionPublished_run]; fact)

lemma DeleteAccount_run:
  assumes "sc_new s = {}" and "sc_gone s = {}"
  shows "leads (in_run env s) (\<lambda>w. in_run env s w \<or> in_run env (s\<lparr>sc_new := {i}\<rparr>) w) (DeleteAccount env i)"
proof -
  let ?s = "s\<lparr>sc_new := {i}\<rparr>" and ?Q = "\<lambda>w. in_run env s w \<or> in_run env (s\<lparr>sc_new := {i}\<rparr>) w"
  have tail: "leads (in_run env ?s) ?Q
      (bindE (ignore_error (RevokeUserRefreshTokens i)) (\<lambda>_.
          bindE (case a_denylist_ttl env of None \<Rightarrow> ret ()
                 | Some ttl \<Rightarrow> ignore_error (Revoke env ttl i)) (\<lambda>_.
          attempt (Publish (a_deletion_queue env) (DeletionJob (x_uuid_text env i) 0))
            (\<lambda>_. ret ())
            (\<lambda>_. ignore_error (MarkDeletionPublished i)))))" (is "leads _ _ ?m")
  proof -
    have "keeps (in_run env ?s) ?m"
      unfolding ignore_error_def [of "MarkDeletionPublished i"]
      by (rule keeps_bindE [OF keeps_ignore [OF keeps_tokens_in_run]], rule keeps_bindE, intro keeps_intros)
        (unfold leads_keeps [symmetric], rule publish_then_mark; simp add: leads_keeps keeps_ret)
    then show ?thesis by (simp add: keeps_def leads_def)
  qed
  show ?thesis
    unfolding DeleteAccount_def hoare_def
  proof (rule leadsI)
    fix w assume inv: "in_run env s w"
    let ?m = "\<lambda>rows. if rows = 0 then ret ()
     else bindE (ignore_error (RevokeUserRefreshTokens i)) (\<lambda>_.
          bindE (case a_denylist_ttl env of None \<Rightarrow> ret ()
                 | Some ttl \<Rightarrow> ignore_error (Revoke env ttl i)) (\<lambda>_.
          attempt (Publish (a_deletion_queue env) (DeletionJob (x_uuid_text env i) 0))
            (\<lambda>_. ret ())
            (\<lambda>_. ignore_error (MarkDeletionPublished i))))"
    obtain r w1 where run: "RequestUserDeletion i w = (r, w1)" by (cases "RequestUserDeletion i w")
    have post: "case r of Inr rows \<Rightarrow> if rows = 0 then in_run env s w1 else in_run env ?s w1 | Inl e \<Rightarrow> in_run env s w1"
      using RequestUserDeletion_run [OF assms, of env i] inv run by (auto simp: hoare_def split: sum.splits)
    show "?Q (snd (bindE (RequestUserDeletion i) ?m w))"
    proof (cases r)
      case (Inr rows)
      show ?thesis
      proof (cases "rows = 0")
        case False
        with post Inr have "in_run env ?s w1" by simp
        with tail have "?Q (snd (?m rows w1))" using False by (simp add: leads_def)
        with run Inr show ?thesis by (simp add: bindE_def)
      qed (use post run Inr in \<open>simp add: bindE_def ret_def\<close>)
    qed (use post run in \<open>simp add: bindE_def\<close>)
  qed
qed

section \<open>The relay\<close>

lemma queue_each_run: "set js \<subseteq> sc_asked s \<Longrightarrow> keeps (in_run env s) (queue_each env (a_deletion_queue env) n js)"
proof (induction js arbitrary: n)
  case (Cons i js)
  show ?case
    unfolding queue_each.simps leads_keeps [symmetric]
  proof (rule leads_attempt_hoare [OF Publish_in_run])
    show "i \<in> sc_asked s \<union> sc_new s" using Cons.prems by simp
    show "leads (in_run env s) (in_run env s) (ret (n, Some e))" for e by (simp add: leads_keeps keeps_ret)
    show "leads (sent_run env s i) (in_run env s)
        (attempt (MarkDeletionPublished i) (\<lambda>e. ret (n, Some e)) (\<lambda>_. queue_each env (a_deletion_queue env) (Suc n) js))"
      by (rule leads_attempt [OF MarkDeletionPublished_run]) (use Cons in \<open>simp_all add: leads_keeps keeps_ret\<close>)
  qed
qed (simp add: keeps_ret)

lemma PendingDeletions_run:
  assumes "sc_new s = {}"
  shows "hoare (in_run env s) (PendingDeletions n) (\<lambda>is w. in_run env s w \<and> set is \<subseteq> sc_asked s) (\<lambda>_. in_run env s)"
  unfolding PendingDeletions_def select_def
proof (rule query_in_run)
  fix w x d
  assume inv: "in_run env s w" and run: "Inr (map ad_user_id (take n (sort_key ad_requested_at
       (filter (\<lambda>a. ad_published_at a = None) (d_deletions (w_db w))))), w_db w) = Inr (x, d)"
  then have "set x \<subseteq> recorded (w_db w)"
    using set_take_subset [of n "sort_key ad_requested_at (filter (\<lambda>a. ad_published_at a = None) (d_deletions (w_db w)))"]
    by (fastforce simp: recorded_def)
  moreover have "recorded (w_db w) \<subseteq> sc_asked s" using inv assms by (auto simp: in_run_def pipe_db_def)
  ultimately show "in_run env s (w\<lparr>w_db := d\<rparr>) \<and> set x \<subseteq> sc_asked s" using inv run by auto
qed

lemma DrainDeletions_run:
  assumes "sc_new s = {}"
  shows "keeps (in_run env s) (DrainDeletions env (a_deletion_queue env))"
  unfolding DrainDeletions_def leads_keeps [symmetric]
proof (rule leads_attempt_hoare [OF PendingDeletions_run [OF assms]])
  show "leads (\<lambda>w. in_run env s w \<and> set js \<subseteq> sc_asked s) (in_run env s) (queue_each env (a_deletion_queue env) 0 js)" for js
    using queue_each_run [of js s env 0] by (auto simp: keeps_def leads_def)
qed (simp add: leads_keeps keeps_ret)

section \<open>The worker\<close>

lemma keeps_deleted_run:
  assumes "i \<in> sc_asked s" and "sc_gone s = {}"
  shows "hoare (in_run env s) (deleted i) (\<lambda>gone w. in_run env s w \<and> (gone \<longrightarrow> in_run env (s\<lparr>sc_gone := {i}\<rparr>) w)) (\<lambda>_. in_run env s)"
proof -
  have exists: "hoare (in_run env s) (UserRowExists i) (\<lambda>b w. in_run env s w \<and> (\<not> b \<longrightarrow> in_run env (s\<lparr>sc_gone := {i}\<rparr>) w)) (\<lambda>_. in_run env s)"
    unfolding UserRowExists_def select_def
    by (rule query_in_run) (use assms in \<open>auto simp: in_run_def pipe_db_def user_ids_def list_ex_iff\<close>)
  show ?thesis
    using exists unfolding deleted_def hoare_def attempt_def ret_def
    by (fastforce split: prod.splits sum.splits)
qed

lemma DeleteUser_run:
  assumes "i \<in> sc_asked s" "i \<in> sc_drop s" "sc_gone s = {}" "sc_new s = {}"
  shows "hoare (in_run env s) (DeleteUser i) (\<lambda>_. in_run env (s\<lparr>sc_gone := {i}\<rparr>)) (\<lambda>_. in_run env s)"
  unfolding DeleteUser_def
proof (rule query_in_run)
  fix w x d
  assume inv: "in_run env s w" and run: "Inr (length (filter (\<lambda>u. u_id u = i) (d_users (w_db w))),
       if list_ex (\<lambda>u. u_id u = i) (d_users (w_db w)) then cascade_user i (w_db w) else w_db w) = Inr (x, d)"
  have sets: "user_ids d = user_ids (w_db w) - {i}" "marked_ids d = marked_ids (w_db w) - {i}"
    "d_deletions d = d_deletions (w_db w)"
    using run by (auto simp: user_ids_def marked_ids_def cascade_user_def Let_def list_ex_iff split: if_splits)
  have more: "recorded d = recorded (w_db w)" "covered K j d \<longleftrightarrow> covered K j (w_db w)" for K j
    by (simp_all add: recorded_def covered_def sets(3))
  have "pipe_db (s\<lparr>sc_gone := {i}\<rparr>) K d" if "pipe_db s K (w_db w)" for K
    using that assms by (auto simp: pipe_db_def sets(1,2) more)
  with inv show "in_run env (s\<lparr>sc_gone := {i}\<rparr>) (w\<lparr>w_db := d\<rparr>)" by (auto simp: in_run_def)
qed

lemma FinishUserDeletion_run:
  assumes "i \<in> sc_gone s"
  shows "keeps (in_run env s) (FinishUserDeletion i)"
  unfolding FinishUserDeletion_def
proof (rule keeps_query_in_run)
  fix w :: world and x d K
  assume inv: "pipe_db s K (w_db w)" and run: "Inr ((), (w_db w)\<lparr>d_deletions := filter (\<lambda>a. ad_user_id a \<noteq> i) (d_deletions (w_db w))\<rparr>) = Inr (x, d)"
  from run have d: "d = (w_db w)\<lparr>d_deletions := filter (\<lambda>a. ad_user_id a \<noteq> i) (d_deletions (w_db w))\<rparr>" by simp
  have sets: "user_ids d = user_ids (w_db w)" "marked_ids d = marked_ids (w_db w)" "recorded d \<subseteq> recorded (w_db w)"
    by (auto simp: d user_ids_def marked_ids_def recorded_def)
  have cov: "covered K j d" if "j \<noteq> i" "covered K j (w_db w)" for j using that by (auto simp: d covered_def)
  have "i \<notin> marked_ids (w_db w)" using inv assms marked_sub [of "w_db w"] by (auto simp: pipe_db_def)
  then have "\<forall>j \<in> marked_ids d. covered K j d" using inv cov sets(2) by (metis pipe_db_def)
  with inv sets show "pipe_db s K d" unfolding pipe_db_def by blast
qed

lemma gone_run: "in_run env (s\<lparr>sc_gone := {i}\<rparr>) w \<Longrightarrow> sc_gone s = {} \<Longrightarrow> in_run env s w"
  by (simp add: in_run_def pipe_db_def)

lemma Handle_deletion_run:
  assumes "i \<in> sc_asked s" "i \<in> sc_drop s" "sc_gone s = {}" "sc_new s = {}" "x_parse_uuid env text = Some i"
  shows "hoare (in_run env s) (Handle_deletion env ttl text) (\<lambda>_. in_run env (s\<lparr>sc_gone := {i}\<rparr>)) (\<lambda>_. in_run env s)"
proof (rule hoareI)
  let ?g = "s\<lparr>sc_gone := {i}\<rparr>"
  note gone = gone_run [OF _ assms(3), of env i]
  have finish: "in_run env ?g w'" if "FinishUserDeletion i w = (r, w')" "in_run env ?g w" for r w w'
    using keepsD [OF FinishUserDeletion_run that(2,1)] by simp
  note revoke = keepsD [OF keeps_Revoke_run]
  note del = DeleteUser_run [OF assms(1-4), unfolded hoare_def, rule_format]
  note exists = keeps_deleted_run [OF assms(1,3), unfolded hoare_def, rule_format]
  fix w u w' assume inv: "in_run env s w" and run: "Handle_deletion env ttl text w = (Inr u, w')"
  from run assms(5) consider
      e w1 w2 where "Revoke env ttl i w = (Inl e, w1)" "deleted i w1 = (Inr True, w2)" "FinishUserDeletion i w2 = (Inr u, w')"
    | x w1 n w2 where "Revoke env ttl i w = (Inr x, w1)" "DeleteUser i w1 = (Inr n, w2)" "FinishUserDeletion i w2 = (Inr u, w')"
    by (auto simp: Handle_deletion_def go_results split: if_splits)
  then show "in_run env ?g w'"
  proof cases
    case 1
    have "in_run env s w1" by (rule revoke [OF inv 1(1)])
    from exists [OF this] 1(2) have "in_run env ?g w2" by simp
    with 1(3) show ?thesis by (rule finish)
  next
    case 2
    have "in_run env s w1" by (rule revoke [OF inv 2(1)])
    from del [OF this] 2(2) have "in_run env ?g w2" by simp
    with 2(3) show ?thesis by (rule finish)
  qed
next
  let ?g = "s\<lparr>sc_gone := {i}\<rparr>"
  note gone = gone_run [OF _ assms(3), of env i]
  have finish: "in_run env ?g w'" if "FinishUserDeletion i w = (r, w')" "in_run env ?g w" for r w w'
    using keepsD [OF FinishUserDeletion_run that(2,1)] by simp
  note revoke = keepsD [OF keeps_Revoke_run]
  note del = DeleteUser_run [OF assms(1-4), unfolded hoare_def, rule_format]
  note exists = keeps_deleted_run [OF assms(1,3), unfolded hoare_def, rule_format]
  fix w e' w' assume inv: "in_run env s w" and run: "Handle_deletion env ttl text w = (Inl e', w')"
  from run assms(5) consider
      e w1 where "Revoke env ttl i w = (Inl e, w1)" "deleted i w1 = (Inr False, w')"
    | e w1 where "Revoke env ttl i w = (Inl e, w1)" "deleted i w1 = (Inl e', w')"
    | e w1 w2 where "Revoke env ttl i w = (Inl e, w1)" "deleted i w1 = (Inr True, w2)" "FinishUserDeletion i w2 = (Inl e', w')"
    | x w1 where "Revoke env ttl i w = (Inr x, w1)" "DeleteUser i w1 = (Inl e', w')"
    | x w1 n w2 where "Revoke env ttl i w = (Inr x, w1)" "DeleteUser i w1 = (Inr n, w2)" "FinishUserDeletion i w2 = (Inl e', w')"
    by (auto simp: Handle_deletion_def go_results split: if_splits)
  then show "in_run env s w'"
  proof cases
    case 1
    have "in_run env s w1" by (rule revoke [OF inv 1(1)])
    from exists [OF this] 1(2) show ?thesis by simp
  next
    case 2
    have "in_run env s w1" by (rule revoke [OF inv 2(1)])
    from exists [OF this] 2(2) show ?thesis by simp
  next
    case 3
    have "in_run env s w1" by (rule revoke [OF inv 3(1)])
    from exists [OF this] 3(2) have "in_run env ?g w2" by simp
    with 3(3) have "in_run env ?g w'" by (rule finish)
    then show ?thesis by (rule gone)
  next
    case 4
    have "in_run env s w1" by (rule revoke [OF inv 4(1)])
    from del [OF this] 4(2) show ?thesis by simp
  next
    case 5
    have "in_run env s w1" by (rule revoke [OF inv 5(1)])
    from del [OF this] 5(2) have "in_run env ?g w2" by simp
    with 5(3) have "in_run env ?g w'" by (rule finish)
    then show ?thesis by (rule gone)
  qed
qed

end
