(* ===== verification/Deletion_System.thy ===== *)
theory Deletion_System
  imports Deletion_Runs
begin

text \<open>
  The deletion pipeline as a whole: every step keeps the invariant, and is a sequence of steps
  of the contract with the owner of an account.
\<close>

section \<open>A delivery\<close>

definition uuid_round_trip :: "auth_env \<Rightarrow> bool" where
  "uuid_round_trip env \<longleftrightarrow> (\<forall>i. x_parse_uuid env (x_uuid_text env i) = Some i)"

lemma consume_deletion_run:
  assumes env: "uuid_round_trip env" and scope: "i \<in> sc_asked s" "i \<in> sc_drop s" "sc_gone s = {}" "sc_new s = {}"
    and count: "0 \<le> k" "k < max_deletion_attempts" and inv: "in_run env s w"
    and run: "consume_deletion env ttl (a_deletion_queue env) (Some (Int64Field k)) (Some (x_uuid_text env i)) w = (Inr disp, w')"
  shows "in_run env s w' \<and> (disp = Acked \<longrightarrow> in_run env (s\<lparr>sc_gone := {i}\<rparr>) w' \<or> i \<in> sent env (w_signals w'))"
proof -
  let ?text = "x_uuid_text env i" and ?last = "max_deletion_attempts \<le> k + 1"
  let ?j = "DeletionJob ?text (k + 1)"
  have parse: "x_parse_uuid env ?text = Some i" using env by (simp add: uuid_round_trip_def)
  note handle = Handle_deletion_run [OF scope parse, of ttl, unfolded hoare_def, rule_format, OF inv]
  from run consider
      (ok) u where "Handle_deletion env ttl ?text w = (Inr u, w')" "disp = Acked"
    | (dead) e where "Handle_deletion env ttl ?text w = (Inl e, w')" "disp = Rejected"
    | (again) e w1 r where "Handle_deletion env ttl ?text w = (Inl e, w1)" "\<not> ?last"
        "queue_publish (RetryQueue (a_deletion_queue env)) ?j w1 = (r, w')" "disp = Acked \<longrightarrow> (\<exists>u. r = Inr u)"
    by (auto simp: consume_deletion_def Let_def go_results split: if_splits)
  then show ?thesis
  proof cases
    case ok
    with handle have "in_run env (s\<lparr>sc_gone := {i}\<rparr>) w'" by simp
    then show ?thesis using gone_run [OF _ scope(3)] by blast
  next
    case dead
    with handle show ?thesis by simp
  next
    case again
    with handle have w1: "in_run env s w1" by simp
    have "job_ok env (sc_asked s \<union> sc_new s) ?j" unfolding job_ok_def using scope(1) count again(2) by auto
    from keepsD [OF keeps_queue_publish_in_run [OF this] w1 again(3)] have "in_run env s w'" .
    moreover have "i \<in> sent env (w_signals w')" if "r = Inr u" for u
      using queue_publish_confirmed again(3) that by (fastforce simp: sent_def)
    ultimately show ?thesis using again(4) by blast
  qed
qed

section \<open>From runs to steps\<close>

definition scope_of :: "auth_env \<Rightarrow> pipeline \<Rightarrow> uuid set \<Rightarrow> scope" where
  "scope_of env p X =
     \<lparr>sc_asked = pl_asked p, sc_new = {}, sc_jobs = job_users env (jobs p), sc_ids = user_ids (pl_db p), sc_drop = X, sc_gone = {}\<rparr>"

lemma scope_of_simps [simp]:
  "sc_asked (scope_of env p X) = pl_asked p" "sc_new (scope_of env p X) = {}" "sc_gone (scope_of env p X) = {}"
  "sc_jobs (scope_of env p X) = job_users env (jobs p)" "sc_ids (scope_of env p X) = user_ids (pl_db p)"
  "sc_drop (scope_of env p X) = X"
  by (simp_all add: scope_of_def)

lemma in_run_start: "runs p w \<Longrightarrow> pipeline_inv env p \<Longrightarrow> in_run env (scope_of env p X) w"
  by (auto simp: runs_def pipeline_inv_def in_run_def pipe_db_def sound_signals_def sent_def)

lemma set_queued_on: "set (queued_on q ss) = {j. Queued q j \<in> set ss}"
  by (induction q ss rule: queued_on.induct) auto

lemma after_simps [simp]:
  "pl_db (after env p w) = w_db w" "pl_asked (after env p w) = pl_asked p \<union> marked_ids (w_db w)"
  "pl_called (after env p w) = pl_called p"
  by (simp_all add: after_def)

lemma jobs_after:
  "jobs (after env p w) = jobs p \<union> {j. \<exists>q. q \<in> {a_deletion_queue env, RetryQueue (a_deletion_queue env)} \<and> Queued q j \<in> set (w_signals w)}"
  by (auto simp: jobs_def after_def set_queued_on)

lemma job_users_mono: "js \<subseteq> js' \<Longrightarrow> job_users env js \<subseteq> job_users env js'"
  by (auto simp: job_users_def)

lemma inv_after:
  assumes run: "in_run env s w" and asked: "sc_asked s = pl_asked p" and ok: "\<forall>j \<in> jobs p. job_ok env (pl_asked p) j"
    and known: "sc_jobs s \<subseteq> job_users env (jobs (after env p w)) \<union> sc_gone s"
  shows "pipeline_inv env (after env p w)" "pl_asked (after env p w) = sc_asked s \<union> sc_new s"
    "sc_ids s - sc_drop s \<subseteq> user_ids (w_db w)" "user_ids (w_db w) \<inter> sc_asked s \<subseteq> sc_ids s" "sc_new s \<subseteq> user_ids (w_db w)"
proof -
  let ?K = "sc_jobs s \<union> sent env (w_signals w)"
  have db: "pipe_db s ?K (w_db w)" and sound: "sound_signals env (sc_asked s \<union> sc_new s) (w_signals w)"
    using run by (simp_all add: in_run_def)
  show 1: "pl_asked (after env p w) = sc_asked s \<union> sc_new s" using db asked by (auto simp: pipe_db_def)
  show "sc_ids s - sc_drop s \<subseteq> user_ids (w_db w)" "user_ids (w_db w) \<inter> sc_asked s \<subseteq> sc_ids s" "sc_new s \<subseteq> user_ids (w_db w)"
    using db marked_sub [of "w_db w"] by (auto simp: pipe_db_def)
  have "sent env (w_signals w) \<subseteq> job_users env (jobs (after env p w))"
    by (auto simp: sent_def job_users_def jobs_after)
  with known have "?K \<subseteq> job_users env (jobs (after env p w)) \<union> sc_gone s" by blast
  moreover have "i \<notin> sc_gone s" if "i \<in> marked_ids (w_db w)" for i
    using that db marked_sub [of "w_db w"] by (auto simp: pipe_db_def)
  ultimately have "covered (job_users env (jobs (after env p w))) i (w_db w)" if "i \<in> marked_ids (w_db w)" for i
    using that db by (fastforce simp: pipe_db_def covered_def)
  moreover have "job_ok env (sc_asked s \<union> sc_new s) j" if "j \<in> jobs (after env p w)" for j
    using that ok asked sound by (auto simp: jobs_after sound_signals_def intro: job_ok_mono)
  ultimately show "pipeline_inv env (after env p w)"
    using db unfolding pipeline_inv_def 1 by (auto simp: pipe_db_def)
qed

section \<open>What the owner of an account is promised\<close>

text \<open>
  The contract: accounts are opened under new ids; the owner of an account calls for its
  deletion, which is then asked for or, when the call does not get through, is not; and only
  an account that was asked for is erased.  \<open>co_calls\<close> are the callers, in order.
\<close>

record contract =
  co_accounts :: "uuid set"
  co_calls :: "uuid list"
  co_asked :: "uuid set"

inductive contract_step :: "contract \<Rightarrow> contract \<Rightarrow> bool" where
  open_account: "\<lbrakk>i \<notin> co_accounts c; i \<notin> co_asked c\<rbrakk> \<Longrightarrow> contract_step c (c\<lparr>co_accounts := insert i (co_accounts c)\<rparr>)"
| call_failed: "contract_step c (c\<lparr>co_calls := co_calls c @ [i]\<rparr>)"
| ask_deletion: "i \<in> co_accounts c \<Longrightarrow>
     contract_step c (c\<lparr>co_calls := co_calls c @ [i], co_asked := insert i (co_asked c)\<rparr>)"
| erase: "\<lbrakk>i \<in> co_accounts c; i \<in> co_asked c\<rbrakk> \<Longrightarrow> contract_step c (c\<lparr>co_accounts := co_accounts c - {i}\<rparr>)"

definition contract_of :: "pipeline \<Rightarrow> contract" where
  "contract_of p = \<lparr>co_accounts = user_ids (pl_db p), co_calls = pl_called p, co_asked = pl_asked p\<rparr>"

lemma contract_opens:
  assumes "finite N" and "N \<inter> co_accounts c = {}" "N \<inter> co_asked c = {}"
  shows "contract_step\<^sup>*\<^sup>* c (c\<lparr>co_accounts := co_accounts c \<union> N\<rparr>)"
  using assms
proof (induction N)
  case (insert i N)
  then have "contract_step\<^sup>*\<^sup>* c (c\<lparr>co_accounts := co_accounts c \<union> N\<rparr>)" by simp
  moreover have "contract_step (c\<lparr>co_accounts := co_accounts c \<union> N\<rparr>) (c\<lparr>co_accounts := co_accounts c \<union> insert i N\<rparr>)"
    using contract_step.open_account [of i "c\<lparr>co_accounts := co_accounts c \<union> N\<rparr>"] insert by simp
  ultimately show ?case by (rule rtranclp.rtrancl_into_rtrancl)
qed simp

lemma contract_erases:
  assumes "finite E" and "E \<subseteq> co_accounts c" "E \<subseteq> co_asked c"
  shows "contract_step\<^sup>*\<^sup>* c (c\<lparr>co_accounts := co_accounts c - E\<rparr>)"
  using assms
proof (induction E)
  case (insert i E)
  then have "contract_step\<^sup>*\<^sup>* c (c\<lparr>co_accounts := co_accounts c - E\<rparr>)" by simp
  moreover have "contract_step (c\<lparr>co_accounts := co_accounts c - E\<rparr>) (c\<lparr>co_accounts := (co_accounts c - E) - {i}\<rparr>)"
    using contract_step.erase [of i "c\<lparr>co_accounts := co_accounts c - E\<rparr>"] insert by simp
  moreover have "(co_accounts c - E) - {i} = co_accounts c - insert i E" by blast
  ultimately show ?case by (metis rtranclp.rtrancl_into_rtrancl)
qed simp

text \<open>A run in which nobody calls, and one in which only \<open>i\<close> does.\<close>

lemma contract_run:
  assumes "finite I" "finite J" and "J \<inter> A \<subseteq> I" "I - J \<subseteq> A"
  shows "contract_step\<^sup>*\<^sup>* \<lparr>co_accounts = I, co_calls = cs, co_asked = A\<rparr> \<lparr>co_accounts = J, co_calls = cs, co_asked = A\<rparr>"
proof -
  let ?c = "\<lparr>co_accounts = I, co_calls = cs, co_asked = A\<rparr>" and ?d = "\<lparr>co_accounts = I \<union> (J - I), co_calls = cs, co_asked = A\<rparr>"
  have "finite (J - I)" "(J - I) \<inter> I = {}" "(J - I) \<inter> A = {}" using assms(2,3) by auto
  then have "contract_step\<^sup>*\<^sup>* ?c ?d" using contract_opens [of "J - I" ?c] by simp
  moreover have "finite (I - J)" "I - J \<subseteq> I \<union> (J - I)" using assms(1) by auto
  then have "contract_step\<^sup>*\<^sup>* ?d (?d\<lparr>co_accounts := (I \<union> (J - I)) - (I - J)\<rparr>)"
    using contract_erases [of "I - J" ?d] assms(4) by simp
  moreover have "(I \<union> (J - I)) - (I - J) = J" by blast
  ultimately show ?thesis by (auto intro: rtranclp_trans)
qed

lemma contract_call:
  assumes "finite I" "finite J" and "J \<inter> A \<subseteq> I" "I - J \<subseteq> A" and B: "B = {} \<or> B = {i} \<and> i \<in> J"
  shows "contract_step\<^sup>*\<^sup>* \<lparr>co_accounts = I, co_calls = cs, co_asked = A\<rparr> \<lparr>co_accounts = J, co_calls = cs @ [i], co_asked = A \<union> B\<rparr>"
proof -
  let ?d = "\<lparr>co_accounts = J, co_calls = cs, co_asked = A\<rparr>"
  have "contract_step ?d \<lparr>co_accounts = J, co_calls = cs @ [i], co_asked = A \<union> B\<rparr>"
    using B contract_step.call_failed [of ?d i] contract_step.ask_deletion [of i ?d] by auto
  with contract_run [OF assms(1-4), of cs] show ?thesis by (rule rtranclp.rtrancl_into_rtrancl)
qed

lemma finite_user_ids [simp]: "finite (user_ids d)"
  by (simp add: user_ids_def)

section \<open>Every step keeps the invariant and the contract\<close>

lemma after_step:
  assumes run: "in_run env s w" and ok: "\<forall>j \<in> jobs p'. job_ok env (pl_asked p) j" and p': "pl_asked p' = pl_asked p"
    and s: "sc_asked s = pl_asked p" "sc_ids s = user_ids (pl_db p)" "sc_drop s \<subseteq> pl_asked p"
    and known: "sc_jobs s \<subseteq> job_users env (jobs (after env p' w)) \<union> sc_gone s"
    and calls: "pl_called p' = pl_called p \<and> sc_new s = {} \<or> pl_called p' = pl_called p @ [i] \<and> sc_new s \<subseteq> {i}"
  shows "pipeline_inv env (after env p' w) \<and> contract_step\<^sup>*\<^sup>* (contract_of p) (contract_of (after env p' w))"
proof -
  note facts = inv_after [OF run, of p', unfolded s p', OF refl ok known [unfolded s]]
  let ?I = "user_ids (pl_db p)" and ?J = "user_ids (w_db w)"
  have sets: "finite ?I" "finite ?J" "?J \<inter> pl_asked p \<subseteq> ?I" "?I - ?J \<subseteq> pl_asked p" using facts(3,4) s(3) by auto
  from calls have "contract_step\<^sup>*\<^sup>* (contract_of p) (contract_of (after env p' w))"
  proof
    assume "pl_called p' = pl_called p \<and> sc_new s = {}"
    then show ?thesis unfolding contract_of_def facts(2) after_simps(1,3) using contract_run [OF sets] by simp
  next
    assume c: "pl_called p' = pl_called p @ [i] \<and> sc_new s \<subseteq> {i}"
    then have "sc_new s = {} \<or> sc_new s = {i} \<and> i \<in> ?J" using facts(5) by blast
    from contract_call [OF sets this] c show ?thesis unfolding contract_of_def facts(2) after_simps(1,3) by simp
  qed
  with facts(1) show ?thesis by blast
qed

lemma settle_jobs:
  assumes "pl_work p = xs @ j # ys"
  shows "jobs (settle lost disp j (xs @ ys) p) \<subseteq> jobs p" "jobs p \<subseteq> insert j (jobs (settle lost disp j (xs @ ys) p))"
    "disp \<noteq> Acked \<or> lost \<Longrightarrow> j \<in> jobs (settle lost disp j (xs @ ys) p)"
    "pl_asked (settle lost disp j (xs @ ys) p) = pl_asked p" "pl_called (settle lost disp j (xs @ ys) p) = pl_called p"
  using assms by (cases disp; auto simp: settle_def jobs_def)+

lemma job_users_insert: "job_users env (insert (DeletionJob (x_uuid_text env i) k) js) \<subseteq> insert i (job_users env js)"
  if "uuid_round_trip env"
proof -
  have "i' = i" if "x_uuid_text env i' = x_uuid_text env i" for i'
    using that \<open>uuid_round_trip env\<close> unfolding uuid_round_trip_def by (metis option.inject)
  then show ?thesis by (auto simp: job_users_def)
qed

lemma lifecycle_step:
  assumes env: "uuid_round_trip env" and inv: "pipeline_inv env p" and step: "lifecycle env ttl p p'"
  shows "pipeline_inv env p' \<and> contract_step\<^sup>*\<^sup>* (contract_of p) (contract_of p')"
  using step
proof (cases rule: lifecycle.cases)
  case (ask w i r w')
  let ?s = "scope_of env p {}"
  have ok: "\<forall>j \<in> jobs p. job_ok env (pl_asked p) j" using inv by (simp add: pipeline_inv_def)
  have run: "in_run env ?s w' \<or> in_run env (?s\<lparr>sc_new := {i}\<rparr>) w'"
    using leadsD [OF DeleteAccount_run in_run_start [OF ask(2) inv] ask(3)] by simp
  let ?p = "p\<lparr>pl_called := pl_called p @ [i]\<rparr>"
  have jobs: "jobs ?p = jobs p" by (simp add: jobs_def)
  have known: "job_users env (jobs p) \<subseteq> job_users env (jobs (after env ?p w'))"
    by (rule job_users_mono) (auto simp: jobs_after jobs)
  from run show ?thesis
  proof
    assume "in_run env ?s w'"
    then show ?thesis unfolding ask(1) by (rule after_step [where i = i]) (use known ok jobs in simp_all)
  next
    assume "in_run env (?s\<lparr>sc_new := {i}\<rparr>) w'"
    then show ?thesis unfolding ask(1) by (rule after_step [where i = i]) (use known ok jobs in simp_all)
  qed
next
  case (relay w r w')
  let ?s = "scope_of env p {}"
  have ok: "\<forall>j \<in> jobs p. job_ok env (pl_asked p) j" using inv by (simp add: pipeline_inv_def)
  have run: "in_run env ?s w'"
    using keepsD [OF DrainDeletions_run in_run_start [OF relay(2) inv] relay(3)] by simp
  have known: "job_users env (jobs p) \<subseteq> job_users env (jobs (after env p w'))"
    by (rule job_users_mono) (auto simp: jobs_after)
  from run show ?thesis unfolding relay(1) by (rule after_step [OF _ ok refl]) (use known in auto)
next
  case (deliver w xs v k ys disp w' lost)
  have all_ok: "\<forall>j \<in> jobs p. job_ok env (pl_asked p) j" using inv by (simp add: pipeline_inv_def)
  moreover have "DeletionJob v k \<in> jobs p" using deliver(3) by (simp add: jobs_def)
  ultimately obtain i where i: "i \<in> pl_asked p" "0 \<le> k" "k < max_deletion_attempts" "v = x_uuid_text env i"
    by (auto simp: job_ok_def)
  let ?s = "scope_of env p {i}" and ?p = "settle lost disp (DeletionJob v k) (xs @ ys) p"
  note settled = settle_jobs [OF deliver(3)]
  have "in_run env ?s w' \<and> (disp = Acked \<longrightarrow> in_run env (?s\<lparr>sc_gone := {i}\<rparr>) w' \<or> i \<in> sent env (w_signals w'))"
    by (rule consume_deletion_run [OF env _ _ _ _ i(2,3) in_run_start [OF deliver(2) inv] deliver(4) [unfolded i(4)]])
      (use i(1) in simp_all)
  then consider "in_run env (?s\<lparr>sc_gone := {i}\<rparr>) w'"
    | "in_run env ?s w'" "DeletionJob v k \<in> jobs ?p \<or> i \<in> sent env (w_signals w')"
    using settled(3) by blast
  then have "\<exists>s. in_run env s w' \<and> sc_asked s = pl_asked p \<and> sc_ids s = user_ids (pl_db p) \<and> sc_drop s \<subseteq> pl_asked p \<and>
      sc_jobs s \<subseteq> job_users env (jobs (after env ?p w')) \<union> sc_gone s \<and> sc_new s = {}"
  proof cases
    case 1
    have "job_users env (jobs p) \<subseteq> insert i (job_users env (jobs ?p))"
      using job_users_mono [OF settled(2)] job_users_insert [OF env, of i k] i(4) by blast
    also have "\<dots> \<subseteq> job_users env (jobs (after env ?p w')) \<union> {i}"
      using job_users_mono [of "jobs ?p" "jobs (after env ?p w')"] by (auto simp: jobs_after)
    finally show ?thesis using 1 i(1) by (intro exI [of _ "?s\<lparr>sc_gone := {i}\<rparr>"]) simp
  next
    case 2
    have "i \<in> job_users env (jobs (after env ?p w'))"
      using 2(2) i(4) by (auto simp: job_users_def jobs_after sent_def)
    moreover have "job_users env (jobs p) \<subseteq> insert i (job_users env (jobs ?p))"
      using job_users_mono [OF settled(2)] job_users_insert [OF env, of i k] i(4) by blast
    moreover have "job_users env (jobs ?p) \<subseteq> job_users env (jobs (after env ?p w'))"
      by (rule job_users_mono) (auto simp: jobs_after)
    ultimately show ?thesis using 2(1) i(1) by (intro exI [of _ ?s]) auto
  qed
  then obtain s where s: "in_run env s w'" "sc_asked s = pl_asked p" "sc_ids s = user_ids (pl_db p)" "sc_drop s \<subseteq> pl_asked p"
      "sc_jobs s \<subseteq> job_users env (jobs (after env ?p w')) \<union> sc_gone s" "sc_new s = {}" by blast
  have "\<forall>j \<in> jobs ?p. job_ok env (pl_asked p) j" using all_ok settled(1) by blast
  then show ?thesis unfolding deliver(1) by (rule after_step [OF s(1) _ settled(4) s(2-5)]) (simp add: settled(5) s(6))
next
  case (expire xs j ys)
  have "jobs p' = jobs p" using expire by (auto simp: jobs_def)
  then show ?thesis using inv expire(1) by (simp add: pipeline_inv_def contract_of_def)
next
  case (elsewhere d')
  have "contract_step\<^sup>*\<^sup>* \<lparr>co_accounts = user_ids (pl_db p), co_calls = pl_called p, co_asked = pl_asked p\<rparr>
      \<lparr>co_accounts = user_ids d', co_calls = pl_called p, co_asked = pl_asked p\<rparr>"
    by (rule contract_run) (use elsewhere(2) in \<open>auto simp: quiet_def\<close>)
  moreover have "covered K i d' \<longleftrightarrow> covered K i (pl_db p)" "recorded d' = recorded (pl_db p)" for K i
    using elsewhere(2) by (simp_all add: quiet_def covered_def recorded_def)
  moreover have "jobs p' = jobs p" using elsewhere(1) by (simp add: jobs_def)
  ultimately show ?thesis
    using inv elsewhere by (auto simp: pipeline_inv_def contract_of_def quiet_def)
qed

text \<open>A system in which nobody has asked for anything yet.\<close>

definition no_deletions :: "pipeline \<Rightarrow> bool" where
  "no_deletions p \<longleftrightarrow> jobs p = {} \<and> pl_asked p = {} \<and> recorded (pl_db p) = {} \<and> marked_ids (pl_db p) = {} \<and>
     pl_called p = []"

interpretation deletion: invariant_system no_deletions
  "\<lambda>p p'. uuid_round_trip env \<and> lifecycle env ttl p p'" "pipeline_inv env" for env ttl
proof unfold_locales
  show "no_deletions p \<Longrightarrow> pipeline_inv env p" for p by (simp add: no_deletions_def pipeline_inv_def)
  show "pipeline_inv env p \<Longrightarrow> uuid_round_trip env \<and> lifecycle env ttl p p' \<Longrightarrow> pipeline_inv env p'" for p p'
    using lifecycle_step by blast
qed

lemma lifecycle_steps:
  assumes env: "uuid_round_trip env" and steps: "(lifecycle env ttl)\<^sup>*\<^sup>* p p'" and inv: "pipeline_inv env p"
  shows "pipeline_inv env p' \<and> contract_step\<^sup>*\<^sup>* (contract_of p) (contract_of p')"
  using steps
proof (induction rule: rtranclp_induct)
  case (step q r)
  with lifecycle_step [OF env _ step(2)] show ?case by (meson rtranclp_trans)
qed (use inv in simp)

text \<open>An account that is gone was asked for, and whatever was asked for was called for by its owner.\<close>

lemma contract_keeps_unasked:
  assumes "contract_step\<^sup>*\<^sup>* c c'" and "i \<in> co_accounts c"
  shows "i \<in> co_accounts c' \<or> i \<in> co_asked c'"
  using assms by (induction rule: rtranclp_induct) (auto elim!: contract_step.cases)

lemma contract_asked_called:
  assumes "contract_step\<^sup>*\<^sup>* c c'" and "co_asked c \<subseteq> set (co_calls c)"
  shows "co_asked c' \<subseteq> set (co_calls c')"
  using assms by (induction rule: rtranclp_induct) (auto elim!: contract_step.cases)

end
