(* ===== verification/Deletion_Properties.thy ===== *)
theory Deletion_Properties
  imports Deletion_System Auth_Scenario
begin

text \<open>
  What the deletion pipeline guarantees across crashes, and what the worker does to the data of
  an account.
\<close>

lemma start_inv: "no_deletions p \<Longrightarrow> pipeline_inv env p"
  by (rule deletion.inv_init)

text \<open>
  C3: an accepted deletion is never lost.  In every state that the requests, the relay, the
  worker and the broker can reach, whatever fails or crashes in between, an account that is
  marked deleted and still there either has an unpublished record, which the relay picks up,
  or a job on the work, retry or dead-letter queue, with fewer than twenty attempts on it.
\<close>

theorem deletion_never_lost:
  assumes "uuid_round_trip env" and "no_deletions p0" and "(lifecycle env ttl)\<^sup>*\<^sup>* p0 p"
    and "u \<in> set (d_users (pl_db p))" and "\<not> live u"
  shows "(\<exists>a \<in> set (d_deletions (pl_db p)). ad_user_id a = u_id u \<and> ad_published_at a = None) \<or>
    (\<exists>k. 0 \<le> k \<and> k < max_deletion_attempts \<and> DeletionJob (x_uuid_text env (u_id u)) k \<in> jobs p)"
proof -
  have inv: "pipeline_inv env p" using lifecycle_steps [OF assms(1,3) start_inv [OF assms(2)]] by blast
  moreover have "u_id u \<in> marked_ids (pl_db p)" using assms(4,5) by (auto simp: marked_ids_def)
  ultimately have "covered (job_users env (jobs p)) (u_id u) (pl_db p)" by (simp add: pipeline_inv_def)
  then consider "\<exists>a \<in> set (d_deletions (pl_db p)). ad_user_id a = u_id u \<and> ad_published_at a = None"
    | k where "DeletionJob (x_uuid_text env (u_id u)) k \<in> jobs p"
    by (auto simp: covered_def job_users_def)
  then show ?thesis
  proof cases
    case 2
    with inv have "job_ok env (pl_asked p) (DeletionJob (x_uuid_text env (u_id u)) k)" by (simp add: pipeline_inv_def)
    with 2 show ?thesis by (auto simp: job_ok_def)
  qed blast
qed

text \<open>
  C5: the pipeline implements the contract with the owner of an account: accounts are opened
  under new ids, an account is marked by nothing but the call of its own owner, and only an
  account so marked is erased.  Every step of the system is a sequence of such steps, the calls
  being those of \<open>DeleteAccount\<close> in their order.  So an account is marked deleted, and
  an account that is gone is gone, only because its owner called for it.
\<close>

theorem deletion_refines:
  assumes "uuid_round_trip env" and "no_deletions p0" and "(lifecycle env ttl)\<^sup>*\<^sup>* p0 p"
  shows "contract_step\<^sup>*\<^sup>* (contract_of p0) (contract_of p) \<and> marked_ids (pl_db p) \<subseteq> set (pl_called p) \<and>
    (\<forall>i \<in> user_ids (pl_db p0). i \<notin> user_ids (pl_db p) \<longrightarrow> i \<in> pl_asked p \<and> i \<in> set (pl_called p))"
proof -
  have steps: "contract_step\<^sup>*\<^sup>* (contract_of p0) (contract_of p)" and inv: "pipeline_inv env p"
    using lifecycle_steps [OF assms(1,3) start_inv [OF assms(2)]] by blast+
  have "co_asked (contract_of p0) \<subseteq> set (co_calls (contract_of p0))"
    using assms(2) by (simp add: contract_of_def no_deletions_def)
  from contract_asked_called [OF steps this] have called: "pl_asked p \<subseteq> set (pl_called p)" by (simp add: contract_of_def)
  moreover from contract_keeps_unasked [OF steps]
  have "\<forall>i \<in> user_ids (pl_db p0). i \<notin> user_ids (pl_db p) \<longrightarrow> i \<in> pl_asked p"
    by (auto simp: contract_of_def)
  moreover have "marked_ids (pl_db p) \<subseteq> pl_asked p" using inv by (simp add: pipeline_inv_def)
  ultimately show ?thesis using steps by blast
qed

section \<open>What the worker removes\<close>

lemma references_facts:
  assumes "references_ok d"
  shows "c_user_id ` set (d_coaches d) \<subseteq> u_id ` set (d_users d)" "a_coach_id ` set (d_availability d) \<subseteq> c_user_id ` set (d_coaches d)"
    "s_user_id ` set (d_sessions d) \<subseteq> u_id ` set (d_users d)" "s_coach_id ` set (d_sessions d) \<subseteq> c_user_id ` set (d_coaches d)"
    "set (present pe_session_id (d_events d)) \<subseteq> s_id ` set (d_sessions d)"
    "r_coach_id ` set (d_reviews d) \<subseteq> c_user_id ` set (d_coaches d)" "r_user_id ` set (d_reviews d) \<subseteq> u_id ` set (d_users d)"
    "set (present r_session_id (d_reviews d)) \<subseteq> s_id ` set (d_sessions d)"
    "t_user_id ` set (d_tokens d) \<subseteq> u_id ` set (d_users d)"
    "ct_user_id ` set (d_threads d) \<subseteq> u_id ` set (d_users d)" "ct_coach_id ` set (d_threads d) \<subseteq> c_user_id ` set (d_coaches d)"
    "set (present ct_session_id (d_threads d)) \<subseteq> s_id ` set (d_sessions d)"
    "cm_thread_id ` set (d_chats d) \<subseteq> ct_id ` set (d_threads d)" "cm_sender_id ` set (d_chats d) \<subseteq> u_id ` set (d_users d)"
    "cn_user_id ` set (d_conversations d) \<subseteq> u_id ` set (d_users d)"
    "ms_conversation_id ` set (d_messages d) \<subseteq> cn_id ` set (d_conversations d)"
    "an_conversation_id ` set (d_analyses d) \<subseteq> cn_id ` set (d_conversations d)"
    "te_conversation_id ` set (d_examples d) \<subseteq> cn_id ` set (d_conversations d)"
    "nt_user_id ` set (d_notifications d) \<subseteq> u_id ` set (d_users d)"
  using assms by (simp_all add: references_ok_def Let_def)

lemma mentions_unknown:
  assumes "references_ok d" and "i \<notin> user_ids d"
  shows "\<not> mentions i d"
proof -
  note d = references_facts [OF assms(1)] and i = assms(2) [unfolded user_ids_def]
  note user = contra_subsetD [OF _ i]
  have coach: "i \<notin> c_user_id ` set (d_coaches d)" by (rule user [OF d(1)])
  note coached = contra_subsetD [OF _ coach]
  have session: "\<not> gone_session i s" if "s \<in> set (d_sessions d)" for s
    using that user [OF d(3)] coached [OF d(4)] by (auto simp: gone_session_def)
  have thread: "\<not> gone_thread i t" if "t \<in> set (d_threads d)" for t
    using that user [OF d(10)] coached [OF d(11)] by (auto simp: gone_thread_def)
  from session thread show ?thesis
    using i coach coached [OF d(2)] coached [OF d(6)] user [OF d(7)] user [OF d(9)] user [OF d(14)] user [OF d(15)] user [OF d(19)]
    unfolding mentions_def list_ex_iff by blast
qed

lemma cascade_references:
  assumes "references_ok d"
  shows "references_ok (cascade_user i d)"
proof -
  have users: "u_id ` set (d_users (cascade_user i d)) = u_id ` set (d_users d) - {i}"
    by (auto simp: cascade_user_def Let_def)
  have coaches: "c_user_id ` set (d_coaches (cascade_user i d)) = c_user_id ` set (d_coaches d) - {i}"
    by (auto simp: cascade_user_def Let_def)
  let ?lost = "s_id ` {s \<in> set (d_sessions d). gone_session i s}"
  have sessions: "s_id ` set (d_sessions d) - ?lost \<subseteq> s_id ` set (d_sessions (cascade_user i d))"
    by (auto simp: cascade_user_def Let_def)
  let ?cut = "ct_id ` {t \<in> set (d_threads d). gone_thread i t}"
  have threads: "ct_id ` set (d_threads d) - ?cut \<subseteq> ct_id ` set (d_threads (cascade_user i d))"
    by (force simp: cascade_user_def Let_def image_iff)
  let ?scrapped = "cn_id ` {c \<in> set (d_conversations d). cn_user_id c = i}"
  have conversations: "cn_id ` set (d_conversations d) - ?scrapped \<subseteq> cn_id ` set (d_conversations (cascade_user i d))"
    by (auto simp: cascade_user_def Let_def)
  note defs = cascade_user_def Let_def mem_present null_if_Some gone_session_def gone_thread_def
  note d = references_facts [OF assms]
  show ?thesis
    unfolding references_ok_def Let_def users coaches
  proof (intro conjI)
    show "set (present pe_session_id (d_events (cascade_user i d))) \<subseteq> s_id ` set (d_sessions (cascade_user i d))"
    proof (rule order_trans [OF _ sessions])
      show "set (present pe_session_id (d_events (cascade_user i d))) \<subseteq> s_id ` set (d_sessions d) - ?lost"
        using d(5) by (auto simp: cascade_user_def Let_def mem_present null_if_Some subset_iff)
    qed
    show "set (present r_session_id (d_reviews (cascade_user i d))) \<subseteq> s_id ` set (d_sessions (cascade_user i d))"
    proof (rule order_trans [OF _ sessions])
      show "set (present r_session_id (d_reviews (cascade_user i d))) \<subseteq> s_id ` set (d_sessions d) - ?lost"
        using d(8) by (auto simp: cascade_user_def Let_def mem_present null_if_Some subset_iff)
    qed
    show "set (present ct_session_id (d_threads (cascade_user i d))) \<subseteq> s_id ` set (d_sessions (cascade_user i d))"
    proof (rule order_trans [OF _ sessions])
      show "set (present ct_session_id (d_threads (cascade_user i d))) \<subseteq> s_id ` set (d_sessions d) - ?lost"
        using d(12) by (auto simp: cascade_user_def Let_def mem_present null_if_Some subset_iff)
    qed
    show "cm_thread_id ` set (d_chats (cascade_user i d)) \<subseteq> ct_id ` set (d_threads (cascade_user i d))"
      by (rule order_trans [OF _ threads]) (use d(13) in \<open>auto simp: cascade_user_def Let_def\<close>)
    show "ms_conversation_id ` set (d_messages (cascade_user i d)) \<subseteq> cn_id ` set (d_conversations (cascade_user i d))"
      by (rule order_trans [OF _ conversations]) (use d(16) in \<open>auto simp: cascade_user_def Let_def\<close>)
    show "an_conversation_id ` set (d_analyses (cascade_user i d)) \<subseteq> cn_id ` set (d_conversations (cascade_user i d))"
      by (rule order_trans [OF _ conversations]) (use d(17) in \<open>auto simp: cascade_user_def Let_def\<close>)
    show "te_conversation_id ` set (d_examples (cascade_user i d)) \<subseteq> cn_id ` set (d_conversations (cascade_user i d))"
      by (rule order_trans [OF _ conversations]) (use d(18) in \<open>auto simp: cascade_user_def Let_def\<close>)
  qed (use d in \<open>auto simp: cascade_user_def Let_def gone_session_def gone_thread_def\<close>)
qed

definition revocation_of :: "'a env_scheme \<Rightarrow> int \<Rightarrow> uuid \<Rightarrow> world \<Rightarrow> world" where
  "revocation_of env ttl i w =
     w\<lparr>w_redis := put (revokedKey (x_uuid_text env i)) (Some (''1'', Some (w_now w + (ttl + revocation_grace)))) (w_redis w),
       w_signals := w_signals w @ [Announced ''auth:revoked'' (x_uuid_text env i)]\<rparr>"

lemma Revoke_calm: "w_sched w = [] \<Longrightarrow> Revoke env ttl i w = (Inr (), revocation_of env ttl i w)"
  by (simp add: Revoke_def SET_def redis_do_calm PUBLISH_def bindE_def attempt_def ret_def revocation_of_def)

definition erased :: "uuid \<Rightarrow> db \<Rightarrow> db" where
  "erased i d =
     (let d' = (if i \<in> user_ids d then cascade_user i d else d)
      in d'\<lparr>d_deletions := filter (\<lambda>a. ad_user_id a \<noteq> i) (d_deletions d')\<rparr>)"

lemma Handle_deletion_calm:
  assumes "w_sched w = []" and "x_parse_uuid env v = Some i"
  shows "Handle_deletion env ttl v w = (Inr (), (revocation_of env ttl i w)\<lparr>w_db := erased i (w_db w)\<rparr>)"
proof -
  have "w_sched (revocation_of env ttl i w) = []" "w_db (revocation_of env ttl i w) = w_db w"
    using assms(1) by (simp_all add: revocation_of_def)
  moreover have "list_ex (\<lambda>u. u_id u = i) (d_users (w_db w)) \<longleftrightarrow> i \<in> user_ids (w_db w)"
    by (auto simp: list_ex_iff user_ids_def)
  ultimately show ?thesis using assms
    by (simp add: Handle_deletion_def Revoke_calm attempt_def bindE_def DeleteUser_def FinishUserDeletion_def query_calm erased_def Let_def)
qed

lemma erased_gone: "i \<notin> user_ids (erased i d)"
  by (auto simp: erased_def user_ids_def cascade_user_def Let_def)

text \<open>
  C6: a deletion job that nothing disturbs leaves nothing of the account: no row of any table
  mentions it, its record is cleared, no reference of the schema dangles, the other accounts
  are as they were, and its tokens are on the denylist.  Delivered again, the job changes the
  database no more.
\<close>

theorem delete_leaves_nothing:
  assumes "w_sched w = []" and "x_parse_uuid env v = Some i" and "references_ok (w_db w)"
  shows "\<exists>w'. Handle_deletion env ttl v w = (Inr (), w') \<and> \<not> mentions i (w_db w') \<and> i \<notin> recorded (w_db w') \<and>
    references_ok (w_db w') \<and> d_users (w_db w') = filter (\<lambda>u. u_id u \<noteq> i) (d_users (w_db w)) \<and>
    v_strings (w_redis w') (revokedKey (x_uuid_text env i)) = Some (''1'', Some (w_now w + (ttl + revocation_grace))) \<and>
    (\<exists>w''. Handle_deletion env ttl v w' = (Inr (), w'') \<and> w_db w'' = w_db w')"
proof -
  let ?w = "(revocation_of env ttl i w)\<lparr>w_db := erased i (w_db w)\<rparr>"
  have ok: "references_ok (erased i (w_db w))"
    using assms(3) cascade_references [OF assms(3), of i] by (auto simp: erased_def Let_def references_ok_def)
  have users: "d_users (erased i (w_db w)) = filter (\<lambda>u. u_id u \<noteq> i) (d_users (w_db w))"
  proof (cases "i \<in> user_ids (w_db w)")
    case False
    then have "\<forall>u \<in> set (d_users (w_db w)). u_id u \<noteq> i" by (auto simp: user_ids_def)
    with False show ?thesis by (simp add: erased_def Let_def filter_id_conv)
  qed (simp add: erased_def cascade_user_def Let_def)
  have again: "erased i (erased i (w_db w)) = erased i (w_db w)"
    using erased_gone [of i "w_db w"] by (simp add: erased_def [of i "erased i (w_db w)"]) (simp add: erased_def Let_def)
  have calm: "w_sched ?w = []" using assms(1) by (simp add: revocation_of_def)
  show ?thesis
  proof (rule exI [of _ ?w], intro conjI)
    show "Handle_deletion env ttl v w = (Inr (), ?w)" by (rule Handle_deletion_calm [OF assms(1,2)])
    show "\<not> mentions i (w_db ?w)" using mentions_unknown [OF ok erased_gone] by simp
    show "i \<notin> recorded (w_db ?w)" by (auto simp: erased_def recorded_def Let_def)
    show "references_ok (w_db ?w)" "d_users (w_db ?w) = filter (\<lambda>u. u_id u \<noteq> i) (d_users (w_db w))"
      using ok users by simp_all
    show "v_strings (w_redis ?w) (revokedKey (x_uuid_text env i)) = Some (''1'', Some (w_now w + (ttl + revocation_grace)))"
      by (simp add: revocation_of_def)
    show "\<exists>w''. Handle_deletion env ttl v ?w = (Inr (), w'') \<and> w_db w'' = w_db ?w"
      using Handle_deletion_calm [OF calm assms(2)] again by simp
  qed
qed

section \<open>Witnesses\<close>

text \<open>Ids in unary, so that they are read back whatever their size.\<close>

definition unary_env :: auth_env where
  "unary_env = acct_env\<lparr>x_uuid_text := (\<lambda>i. replicate i (CHR ''1'')), x_parse_uuid := (\<lambda>v. Some (length v))\<rparr>"

lemma unary_round_trip: "uuid_round_trip unary_env"
  by (simp add: uuid_round_trip_def unary_env_def)

definition quiet_start :: pipeline where
  "quiet_start = \<lparr>pl_db = start_db, pl_work = [], pl_retry = [], pl_dead = [], pl_asked = {}, pl_called = []\<rparr>"

text \<open>Bob asks for deletion, and everything but recording it fails.\<close>

definition outage :: world where
  "outage = world_at start_db [Ok, Fault, Fault, Fault] monday_8 100"

definition asked_start :: pipeline where
  "asked_start = after unary_env (quiet_start\<lparr>pl_called := [12]\<rparr>) (snd (DeleteAccount unary_env 12 outage))"

lemma no_deletions_start: "no_deletions quiet_start"
  by (auto simp: no_deletions_def quiet_start_def jobs_def recorded_def marked_ids_def start_db_def live_def account_row_def)

lemma asked_reachable: "(lifecycle unary_env 60)\<^sup>*\<^sup>* quiet_start asked_start"
proof -
  have "runs quiet_start outage" by (simp add: runs_def quiet_start_def outage_def world_at_def quiet_rely_def)
  then have "lifecycle unary_env 60 quiet_start asked_start"
    using lifecycle.ask [OF _ prod.collapse [symmetric], of quiet_start outage unary_env 60 12]
    by (simp add: asked_start_def quiet_start_def)
  then show ?thesis by (rule r_into_rtranclp)
qed

lemma asked_users:
  "d_users (pl_db asked_start) = [account_row 11 ''Ann'' ''coach'', deleted_mark monday_8 (account_row 12 ''Bob'' ''client''), account_row 13 ''Cy'' ''client'']"
  by (simp add: asked_start_def DeleteAccount_def RequestUserDeletion_def query_def next_entry_def outage_def world_at_def
      start_db_def account_row_def bindE_def attempt_def ignore_error_def RevokeUserRefreshTokens_def delete_tokens_def
      unary_env_def acct_env_def Revoke_def SET_def redis_do_def Publish_def acquire_def ret_def)

lemma deletion_never_lost_witness:
  "\<exists>u \<in> set (d_users (pl_db asked_start)). \<not> live u \<and> u_id u = 12 \<and>
     ((\<exists>a \<in> set (d_deletions (pl_db asked_start)). ad_user_id a = 12 \<and> ad_published_at a = None) \<or>
      (\<exists>k. 0 \<le> k \<and> k < max_deletion_attempts \<and> DeletionJob (x_uuid_text unary_env 12) k \<in> jobs asked_start))"
proof -
  let ?u = "deleted_mark monday_8 (account_row 12 ''Bob'' ''client'')"
  have u: "?u \<in> set (d_users (pl_db asked_start))" "\<not> live ?u" "u_id ?u = 12"
    by (simp_all add: asked_users account_row_def)
  show ?thesis
    using deletion_never_lost [OF unary_round_trip no_deletions_start asked_reachable u(1,2)] u by (intro bexI [OF _ u(1)]) simp
qed

lemma deletion_refines_witness:
  "contract_step\<^sup>*\<^sup>* (contract_of quiet_start) (contract_of asked_start) \<and> marked_ids (pl_db asked_start) = {12} \<and>
     pl_called asked_start = [12]"
proof -
  have calls: "pl_called asked_start = [12]" by (simp add: asked_start_def)
  have "12 \<in> marked_ids (pl_db asked_start)"
    unfolding marked_ids_def asked_users
    by (intro image_eqI [of _ _ "deleted_mark monday_8 (account_row 12 ''Bob'' ''client'')"]) (simp_all add: account_row_def)
  then show ?thesis
    using deletion_refines [OF unary_round_trip no_deletions_start asked_reachable] calls by auto
qed

lemma delete_leaves_nothing_witness:
  "\<exists>w'. Handle_deletion unary_env 60 (replicate 12 (CHR ''1'')) token_world = (Inr (), w') \<and>
     12 \<in> user_ids (w_db token_world) \<and> \<not> mentions 12 (w_db w') \<and> d_tokens (w_db token_world) \<noteq> []"
proof -
  have "x_parse_uuid unary_env (replicate 12 (CHR ''1'')) = Some 12" by (simp add: unary_env_def)
  moreover have "references_ok (w_db token_world)"
    by (simp add: references_ok_def token_world_def world_at_def start_db_def account_row_def coach_profile_def
        spent_token_def live_token_def present_def List.map_filter_def)
  moreover have "w_sched token_world = []" by (simp add: token_world_def world_at_def)
  ultimately obtain w' where "Handle_deletion unary_env 60 (replicate 12 (CHR ''1'')) token_world = (Inr (), w')" "\<not> mentions 12 (w_db w')"
    using delete_leaves_nothing [where w = token_world and env = unary_env and i = 12 and v = "replicate 12 (CHR ''1'')" and ttl = 60] by blast
  moreover have "12 \<in> user_ids (w_db token_world)" "d_tokens (w_db token_world) \<noteq> []"
    by (simp_all add: user_ids_def token_world_def world_at_def start_db_def account_row_def)
  ultimately show ?thesis by blast
qed

end
