(* ===== verification/Json.thy ===== *)
theory Json
  imports Go_Text
begin

text \<open>
  The JSON that \<open>encoding/json\<close> writes for the objects the backend announces: objects of
  strings, booleans and lists, on strings as UTF-8 bytes.  A field with \<open>omitempty\<close> is left
  out when it is empty or false.
\<close>

definition hex_digit :: "nat \<Rightarrow> char" where
  "hex_digit n = (if n < 10 then char_of (48 + n) else char_of (87 + n))"

text \<open>Control characters, quotes and the three HTML characters are escaped.\<close>

definition escape_byte :: "char \<Rightarrow> string" where
  "escape_byte c =
     (let n = of_char c :: nat in
      if c = CHR 0x22 then [CHR 0x5C, CHR 0x22]
      else if c = CHR 0x5C then [CHR 0x5C, CHR 0x5C]
      else if n = 8 then [CHR 0x5C, CHR ''b'']
      else if n = 12 then [CHR 0x5C, CHR ''f'']
      else if n = 10 then [CHR 0x5C, CHR ''n'']
      else if n = 13 then [CHR 0x5C, CHR ''r'']
      else if n = 9 then [CHR 0x5C, CHR ''t'']
      else if n < 32 \<or> c = CHR ''<'' \<or> c = CHR ''>'' \<or> c = CHR ''&''
        then CHR 0x5C # ''u00'' @ [hex_digit (n div 16), hex_digit (n mod 16)]
      else [c])"

text \<open>The line and paragraph separators U+2028 and U+2029 are escaped as well.\<close>

fun escape_json :: "string \<Rightarrow> string" where
  "escape_json [] = []"
| "escape_json (c # v) =
     (case strip_prefix [byte 0xE2, byte 0x80, byte 0xA8] (c # v) of
        Some _ \<Rightarrow> CHR 0x5C # ''u2028'' @ escape_json (drop 2 v)
      | None \<Rightarrow>
          (case strip_prefix [byte 0xE2, byte 0x80, byte 0xA9] (c # v) of
             Some _ \<Rightarrow> CHR 0x5C # ''u2029'' @ escape_json (drop 2 v)
           | None \<Rightarrow> escape_byte c @ escape_json v))"

definition json_string :: "string \<Rightarrow> string" where
  "json_string v = [CHR 0x22] @ escape_json v @ [CHR 0x22]"

fun commas :: "string list \<Rightarrow> string" where
  "commas [] = []"
| "commas [x] = x"
| "commas (x # xs) = x @ '','' @ commas xs"

definition json_object :: "(string \<times> string) list \<Rightarrow> string" where
  "json_object members = ''{'' @ commas (map (\<lambda>(k, v). json_string k @ '':'' @ v) members) @ ''}''"

definition json_list :: "string list \<Rightarrow> string" where
  "json_list vs = ''['' @ commas vs @ '']''"

definition omitempty :: "string \<Rightarrow> string \<Rightarrow> (string \<times> string) list" where
  "omitempty k v = (if v = [] then [] else [(k, json_string v)])"

end
