(* ===== verification/Chat.thy ===== *)
theory Chat
  imports Gateway Json
begin

text \<open>
  Chat between a client and a coach: the statements on \<open>chat_threads\<close> and \<open>chat_messages\<close>
  (internal/store/db/chat.sql.go), the service (internal/chat/service.go), the REST handlers
  and what an open socket does with a client event (internal/chat/handler.go), and what the
  hub publishes (internal/chat/hub.go).

  The names of the service's methods carry the prefix \<open>chat_\<close> where other services have
  methods of the same name.  Logging is left out.  The event loop of an open socket is in
  Chat_Socket.
\<close>

section \<open>The statements\<close>

definition is_active :: "chat_thread \<Rightarrow> bool" where
  "is_active t \<longleftrightarrow> ct_status t = ''active''"

definition active_pairs :: "chat_thread list \<Rightarrow> (uuid \<times> uuid) list" where
  "active_pairs ts = map (\<lambda>t. (ct_user_id t, ct_coach_id t)) (filter is_active ts)"

text \<open>The status check, the primary key and the partial index on active pairs, the references.\<close>

definition threads_violation :: "db \<Rightarrow> chat_thread list \<Rightarrow> sqlstate option" where
  "threads_violation d ts =
     (if \<not> list_all (\<lambda>t. ct_status t = ''active'' \<or> ct_status t = ''closed'') ts then Some CheckViolation
      else if \<not> (distinct (map ct_id ts) \<and> distinct (active_pairs ts)) then Some UniqueViolation
      else if \<not> list_all (\<lambda>t. ct_user_id t \<in> u_id ` set (d_users d) \<and> ct_coach_id t \<in> c_user_id ` set (d_coaches d) \<and>
                  (case ct_session_id t of None \<Rightarrow> True | Some i \<Rightarrow> i \<in> s_id ` set (d_sessions d))) ts
        then Some ForeignKeyViolation
      else None)"

definition newest_first :: "('r \<Rightarrow> instant) \<Rightarrow> 'r list \<Rightarrow> 'r list" where
  "newest_first k rows = sort_key (\<lambda>r. - k r) rows"

definition GetActiveThreadForPair :: "uuid \<Rightarrow> uuid \<Rightarrow> chat_thread request" where
  "GetActiveThreadForPair user_id coach_id =
     select_one (\<lambda>d. case newest_first ct_last_message_at
         (filter (\<lambda>t. ct_user_id t = user_id \<and> ct_coach_id t = coach_id \<and> is_active t) (d_threads d)) of
       [] \<Rightarrow> None | t # _ \<Rightarrow> Some t)"

definition GetChatThread :: "uuid \<Rightarrow> chat_thread request" where
  "GetChatThread i = select_one (\<lambda>d. find (\<lambda>t. ct_id t = i) (d_threads d))"

definition GetCoachApprovalStatus :: "uuid \<Rightarrow> string request" where
  "GetCoachApprovalStatus i = select_one (\<lambda>d. map_option c_approval_status (find (\<lambda>c. c_user_id c = i) (d_coaches d)))"

definition CreateChatThread :: "uuid \<Rightarrow> uuid \<Rightarrow> uuid option \<Rightarrow> chat_thread request" where
  "CreateChatThread user_id coach_id session_id =
     bindE fresh_id (\<lambda>i.
     query (\<lambda>w. let t = \<lparr>ct_id = i, ct_user_id = user_id, ct_coach_id = coach_id, ct_session_id = session_id,
                         ct_status = ''active'', ct_created_at = w_dbnow w, ct_last_message_at = w_dbnow w\<rparr>;
                    ts = d_threads (w_db w) @ [t]
                in case threads_violation (w_db w) ts of Some v \<Rightarrow> Inl (ErrSql v)
                   | None \<Rightarrow> Inr (t, (w_db w)\<lparr>d_threads := ts\<rparr>)))"

definition closed_set :: "chat_thread \<Rightarrow> chat_thread" where
  "closed_set t = t\<lparr>ct_status := ''closed''\<rparr>"

definition CloseChatThread :: "uuid \<Rightarrow> chat_thread request" where
  "CloseChatThread i =
     query (\<lambda>w. case filter (\<lambda>t. ct_id t = i) (d_threads (w_db w)) of [] \<Rightarrow> Inl ErrNoRows
       | t # _ \<Rightarrow> Inr (closed_set t, (w_db w)\<lparr>d_threads := update_where (\<lambda>t. ct_id t = i) closed_set (d_threads (w_db w))\<rparr>))"

definition TouchChatThread :: "uuid \<Rightarrow> unit request" where
  "TouchChatThread i =
     query (\<lambda>w. Inr ((), (w_db w)\<lparr>d_threads := update_where (\<lambda>t. ct_id t = i)
       (\<lambda>t. t\<lparr>ct_last_message_at := w_dbnow w\<rparr>) (d_threads (w_db w))\<rparr>))"

definition chats_violation :: "db \<Rightarrow> chat_message list \<Rightarrow> sqlstate option" where
  "chats_violation d ms =
     (if \<not> distinct (map cm_id ms) then Some UniqueViolation
      else if \<not> list_all (\<lambda>m. cm_thread_id m \<in> ct_id ` set (d_threads d) \<and> cm_sender_id m \<in> u_id ` set (d_users d)) ms
        then Some ForeignKeyViolation
      else None)"

definition CreateChatMessage :: "uuid \<Rightarrow> uuid \<Rightarrow> string \<Rightarrow> chat_message request" where
  "CreateChatMessage thread_id sender_id body =
     bindE fresh_id (\<lambda>i.
     query (\<lambda>w. let m = \<lparr>cm_id = i, cm_thread_id = thread_id, cm_sender_id = sender_id, cm_body = body, cm_created_at = w_dbnow w\<rparr>;
                    ms = d_chats (w_db w) @ [m]
                in case chats_violation (w_db w) ms of Some v \<Rightarrow> Inl (ErrSql v)
                   | None \<Rightarrow> Inr (m, (w_db w)\<lparr>d_chats := ms\<rparr>)))"

definition ListChatMessages :: "uuid \<Rightarrow> nat \<Rightarrow> nat \<Rightarrow> chat_message list request" where
  "ListChatMessages i limit offset =
     select (\<lambda>d. page limit offset (newest_first cm_created_at (filter (\<lambda>m. cm_thread_id m = i) (d_chats d))))"

text \<open>The lists join each thread with the name of the other side.\<close>

definition named_threads :: "(chat_thread \<Rightarrow> bool) \<Rightarrow> (chat_thread \<Rightarrow> uuid) \<Rightarrow> db \<Rightarrow> (chat_thread \<times> string) list" where
  "named_threads p other d =
     concat (map (\<lambda>t. map (\<lambda>u. (t, u_display_name u)) (filter (\<lambda>u. u_id u = other t) (d_users d)))
       (newest_first ct_last_message_at (filter p (d_threads d))))"

definition ListThreadsForUser :: "uuid \<Rightarrow> (chat_thread \<times> string) list request" where
  "ListThreadsForUser i = select (named_threads (\<lambda>t. ct_user_id t = i) ct_coach_id)"

definition ListThreadsForCoach :: "uuid \<Rightarrow> string option \<Rightarrow> (chat_thread \<times> string) list request" where
  "ListThreadsForCoach i status =
     select (named_threads (\<lambda>t. ct_coach_id t = i \<and> (status = None \<or> status = Some (ct_status t))) ct_user_id)"

section \<open>Events\<close>

record chat_view =
  cv_id :: string
  cv_thread_id :: string
  cv_sender_id :: string
  cv_body :: string
  cv_created_at :: string

record chat_event =
  ce_type :: string
  ce_thread_id :: string
  ce_message_id :: string
  ce_client_id :: string
  ce_sender_id :: string
  ce_body :: string
  ce_typing :: bool
  ce_online :: bool
  ce_messages :: "chat_view list"
  ce_created_at :: string

definition no_event :: chat_event where
  "no_event = \<lparr>ce_type = [], ce_thread_id = [], ce_message_id = [], ce_client_id = [], ce_sender_id = [], ce_body = [],
     ce_typing = False, ce_online = False, ce_messages = [], ce_created_at = []\<rparr>"

definition chat_view_json :: "chat_view \<Rightarrow> string" where
  "chat_view_json m =
     json_object [(''id'', json_string (cv_id m)), (''thread_id'', json_string (cv_thread_id m)),
       (''sender_id'', json_string (cv_sender_id m)), (''body'', json_string (cv_body m)),
       (''created_at'', json_string (cv_created_at m))]"

definition chat_event_json :: "chat_event \<Rightarrow> string" where
  "chat_event_json e =
     json_object ([(''type'', json_string (ce_type e))] @ omitempty ''thread_id'' (ce_thread_id e) @
       omitempty ''message_id'' (ce_message_id e) @ omitempty ''client_id'' (ce_client_id e) @
       omitempty ''sender_id'' (ce_sender_id e) @ omitempty ''body'' (ce_body e) @
       (if ce_typing e then [(''typing'', ''true'')] else []) @ (if ce_online e then [(''online'', ''true'')] else []) @
       (if ce_messages e = [] then [] else [(''messages'', json_list (map chat_view_json (ce_messages e)))]) @
       omitempty ''created_at'' (ce_created_at e))"

definition channelFor :: "'a env_scheme \<Rightarrow> uuid \<Rightarrow> string" where
  "channelFor env i = ''chat:thread:'' @ x_uuid_text env i"

definition chat_Publish :: "'a env_scheme \<Rightarrow> uuid \<Rightarrow> chat_event \<Rightarrow> unit request" where
  "chat_Publish env i e = PUBLISH (channelFor env i) (chat_event_json e)"

section \<open>The service\<close>

record thread_view =
  th_id :: string
  th_user_id :: string
  th_coach_id :: string
  th_session_id :: string
  th_counterpart_name :: string
  th_status :: string
  th_last_message_at :: string
  th_counterpart_online :: bool

definition threadOf :: "'a env_scheme \<Rightarrow> chat_thread \<Rightarrow> thread_view" where
  "threadOf env t =
     \<lparr>th_id = x_uuid_text env (ct_id t), th_user_id = x_uuid_text env (ct_user_id t), th_coach_id = x_uuid_text env (ct_coach_id t),
      th_session_id = (case ct_session_id t of None \<Rightarrow> [] | Some i \<Rightarrow> x_uuid_text env i), th_counterpart_name = [],
      th_status = ct_status t, th_last_message_at = format_rfc3339 (ct_last_message_at t), th_counterpart_online = False\<rparr>"

definition coach_approved :: string where "coach_approved = ''approved''"

definition StartThread :: "'a env_scheme \<Rightarrow> uuid \<Rightarrow> uuid \<Rightarrow> uuid option \<Rightarrow> thread_view request" where
  "StartThread env user_id coach_id session_id =
     attempt (GetActiveThreadForPair user_id coach_id)
       (\<lambda>e. if e \<noteq> ErrNoRows then throw e
          else attempt (attempt (GetCoachApprovalStatus coach_id)
                 (\<lambda>e. if e \<noteq> ErrNoRows then throw e else ret False)
                 (\<lambda>approval. ret (approval = coach_approved))) throw (\<lambda>approved.
               if \<not> approved then throw ErrNotFound
               else attempt (CreateChatThread user_id coach_id session_id)
                 (\<lambda>e. if e = ErrSql ForeignKeyViolation then throw ErrNotFound
                    else if e = ErrSql UniqueViolation
                    then bindE (GetActiveThreadForPair user_id coach_id) (\<lambda>winner. ret (threadOf env winner))
                    else throw e)
                 (\<lambda>created. ret (threadOf env created))))
       (\<lambda>existing. ret (threadOf env existing))"

definition online :: "env \<Rightarrow> uuid \<Rightarrow> bool request" where
  "online env i = attempt (IsOnline env i) (\<lambda>_. ret False) ret"

text \<open>The loops of the two lists: presence is asked thread by thread.\<close>

fun with_presence :: "env \<Rightarrow> (chat_thread \<Rightarrow> uuid) \<Rightarrow> (chat_thread \<times> string) list \<Rightarrow> thread_view list request" where
  "with_presence env other [] = ret []"
| "with_presence env other ((t, name) # rows) =
     bindE (online env (other t)) (\<lambda>on.
     bindE (with_presence env other rows) (\<lambda>views.
     ret ((threadOf env t)\<lparr>th_counterpart_name := name, th_counterpart_online := on\<rparr> # views)))"

definition chat_ListForUser :: "env \<Rightarrow> uuid \<Rightarrow> thread_view list request" where
  "chat_ListForUser env i = bindE (ListThreadsForUser i) (with_presence env ct_coach_id)"

definition chat_ListForCoach :: "env \<Rightarrow> uuid \<Rightarrow> string option \<Rightarrow> thread_view list request" where
  "chat_ListForCoach env i status = bindE (ListThreadsForCoach i status) (with_presence env ct_user_id)"

definition chat_Thread :: "uuid \<Rightarrow> uuid \<Rightarrow> chat_thread request" where
  "chat_Thread i actor =
     attempt (GetChatThread i) (\<lambda>e. throw (not_found e)) (\<lambda>t.
     if ct_user_id t \<noteq> actor \<and> ct_coach_id t \<noteq> actor then throw ErrForbidden else ret t)"

definition activeThread :: "uuid \<Rightarrow> uuid \<Rightarrow> chat_thread request" where
  "activeThread i actor =
     bindE (chat_Thread i actor) (\<lambda>t. if \<not> is_active t then throw ErrClosed else ret t)"

definition chat_view_of :: "'a env_scheme \<Rightarrow> chat_message \<Rightarrow> chat_view" where
  "chat_view_of env m =
     \<lparr>cv_id = x_uuid_text env (cm_id m), cv_thread_id = x_uuid_text env (cm_thread_id m),
      cv_sender_id = x_uuid_text env (cm_sender_id m), cv_body = cm_body m, cv_created_at = format_rfc3339 (cm_created_at m)\<rparr>"

definition History :: "'a env_scheme \<Rightarrow> uuid \<Rightarrow> uuid \<Rightarrow> nat \<Rightarrow> nat \<Rightarrow> chat_view list request" where
  "History env i actor limit offset =
     bindE (chat_Thread i actor) (\<lambda>_.
     bindE (ListChatMessages i limit offset) (\<lambda>rows. ret (map (chat_view_of env) rows)))"

definition max_message_length :: nat where "max_message_length = 4000"

definition echoEvent :: "chat_view \<Rightarrow> string \<Rightarrow> chat_event" where
  "echoEvent m client_id = no_event\<lparr>ce_type := ''message'', ce_thread_id := cv_thread_id m, ce_message_id := cv_id m,
     ce_client_id := client_id, ce_sender_id := cv_sender_id m, ce_body := cv_body m, ce_created_at := cv_created_at m\<rparr>"

text \<open>Once the message is stored, neither a failed touch nor a failed broadcast is reported.\<close>

definition chat_Send :: "'a env_scheme \<Rightarrow> uuid \<Rightarrow> uuid \<Rightarrow> string \<Rightarrow> string \<Rightarrow> chat_view request" where
  "chat_Send env i sender raw client_id =
     (let body = trim_space raw in
      bindE (failIf (body = []) ErrInvalidInput) (\<lambda>_.
      bindE (failIf (max_message_length < length body) ErrInvalidInput) (\<lambda>_.
      bindE (activeThread i sender) (\<lambda>_.
      bindE (CreateChatMessage i sender body) (\<lambda>row.
      bindE (ignore_error (TouchChatThread i)) (\<lambda>_.
      let m = chat_view_of env row in
      bindE (ignore_error (chat_Publish env i (echoEvent m client_id))) (\<lambda>_. ret m)))))))"

definition Typing :: "'a env_scheme \<Rightarrow> uuid \<Rightarrow> uuid \<Rightarrow> bool \<Rightarrow> unit request" where
  "Typing env i sender typing =
     bindE (activeThread i sender) (\<lambda>_.
     chat_Publish env i (no_event\<lparr>ce_type := ''typing'', ce_thread_id := x_uuid_text env i,
       ce_sender_id := x_uuid_text env sender, ce_typing := typing\<rparr>))"

definition chat_Close :: "'a env_scheme \<Rightarrow> uuid \<Rightarrow> uuid \<Rightarrow> thread_view request" where
  "chat_Close env i actor =
     bindE (chat_Thread i actor) (\<lambda>_. bindE (CloseChatThread i) (\<lambda>t. ret (threadOf env t)))"

section \<open>The handlers\<close>

definition chat_status :: "go_error \<Rightarrow> nat" where
  "chat_status e =
     (if e = ErrNotFound then 404 else if e = ErrForbidden then 403 else if e = ErrInvalidInput then 400
      else if e = ErrClosed then 409 else 500)"

text \<open>The coach's id and the session's id of the decoded body.\<close>

definition startThread_handler :: "env \<Rightarrow> http \<Rightarrow> (string \<times> string option) option \<Rightarrow> thread_view answer" where
  "startThread_handler env h body =
     as_principal h (\<lambda>u. with_body body (\<lambda>(coach_id, session_id).
     case x_parse_uuid env coach_id of None \<Rightarrow> throw 400
     | Some c \<Rightarrow>
         (case session_id of None \<Rightarrow> answer_with chat_status 201 (StartThread env u c None)
          | Some v \<Rightarrow>
              if v = [] then answer_with chat_status 201 (StartThread env u c None)
              else (case x_parse_uuid env v of None \<Rightarrow> throw 400
                    | Some i \<Rightarrow> answer_with chat_status 201 (StartThread env u c (Some i))))))"

definition listThreads_handler :: "env \<Rightarrow> http \<Rightarrow> thread_view list answer" where
  "listThreads_handler env h = as_principal h (\<lambda>u. answer_with chat_status 200 (chat_ListForUser env u))"

definition listCoachThreads_handler :: "env \<Rightarrow> http \<Rightarrow> thread_view list answer" where
  "listCoachThreads_handler env h =
     as_principal h (\<lambda>u. answer_with chat_status 200 (chat_ListForCoach env u (optionalQuery h ''status'')))"

definition history_handler :: "env \<Rightarrow> http \<Rightarrow> chat_view list answer" where
  "history_handler env h =
     as_principal h (\<lambda>u. pathUUID env h ''threadID'' (\<lambda>i.
     answer_with chat_status 200 (History env i u (nat (QueryInt (h_query h ''limit'') 50 200))
       (nat (QueryInt (h_query h ''offset'') 1 100000 - 1)))))"

definition postMessage_handler :: "env \<Rightarrow> http \<Rightarrow> string option \<Rightarrow> chat_view answer" where
  "postMessage_handler env h body =
     as_principal h (\<lambda>u. pathUUID env h ''threadID'' (\<lambda>i. with_body body (\<lambda>b.
     answer_with chat_status 201 (chat_Send env i u b []))))"

definition closeThread_handler :: "env \<Rightarrow> http \<Rightarrow> thread_view answer" where
  "closeThread_handler env h =
     as_principal h (\<lambda>u. pathUUID env h ''threadID'' (\<lambda>i. answer_with chat_status 200 (chat_Close env i u)))"

section \<open>An open socket\<close>

datatype socket_verdict = SocketActive | SocketRevoked | SocketExpired | SocketUnverifiable

text \<open>What is written to the socket: a frame, or the close frame with its code and reason.\<close>

datatype frame = Frame chat_event | CloseFrame nat string

definition sessionStatus :: "uuid \<Rightarrow> socket_verdict request" where
  "sessionStatus i =
     attempt (UserActive i) (\<lambda>_. ret SocketUnverifiable)
       (\<lambda>active. ret (if active then SocketActive else SocketRevoked))"

text \<open>1013 is StatusTryAgainLater, 1008 StatusPolicyViolation.\<close>

fun closeSocket :: "socket_verdict \<Rightarrow> frame list" where
  "closeSocket SocketActive = []"
| "closeSocket SocketRevoked = [CloseFrame 1008 ''session revoked'']"
| "closeSocket SocketExpired = [CloseFrame 1008 ''session expired'']"
| "closeSocket SocketUnverifiable = [CloseFrame 1013 ''could not verify session'']"

definition error_event :: "(go_error \<Rightarrow> string) \<Rightarrow> string \<Rightarrow> string \<Rightarrow> go_error \<Rightarrow> chat_event" where
  "error_event error_text thread_id client_id e =
     no_event\<lparr>ce_type := ''error'', ce_thread_id := thread_id, ce_client_id := client_id, ce_body := error_text e\<rparr>"

text \<open>
  \<open>handleIncoming\<close>: whether the socket stays open, and what is written to it.  The deadline
  is the token's, in whole seconds.
\<close>

definition handleIncoming :: "env \<Rightarrow> (go_error \<Rightarrow> string) \<Rightarrow> uuid \<Rightarrow> principal \<Rightarrow> uuid \<Rightarrow> chat_event \<Rightarrow> (bool \<times> frame list) request" where
  "handleIncoming env error_text i p conn e =
     bindE (asks w_now) (\<lambda>now.
     if (case pr_expires_at p of None \<Rightarrow> False | Some t \<Rightarrow> seconds t \<le> now) then ret (False, closeSocket SocketExpired)
     else bindE (sessionStatus (pr_user_id p)) (\<lambda>verdict.
          if verdict \<noteq> SocketActive then ret (False, closeSocket verdict)
          else if ce_type e = ''message''
          then attempt (chat_Send env i (pr_user_id p) (ce_body e) (ce_client_id e))
                 (\<lambda>err. ret (True, [Frame (error_event error_text (x_uuid_text env i) (ce_client_id e) err)]))
                 (\<lambda>_. ret (True, []))
          else if ce_type e = ''typing''
          then bindE (ignore_error (Typing env i (pr_user_id p) (ce_typing e))) (\<lambda>_. ret (True, []))
          else if ce_type e = ''presence''
          then bindE (ignore_error (MarkOnline env (pr_user_id p) conn)) (\<lambda>_. ret (True, []))
          else ret (True, [Frame (no_event\<lparr>ce_type := ''error'', ce_body := ''unknown event type''\<rparr>)])))"

text \<open>
  What \<open>websocket\<close> does when a client connects, up to its event loop: the participant check
  that answers with an error status, the presence mark, the history frame, the account check.
\<close>

definition history_on_join :: nat where "history_on_join = 50"

definition history_frame :: "env \<Rightarrow> uuid \<Rightarrow> uuid \<Rightarrow> frame list request" where
  "history_frame env i u =
     attempt (History env i u history_on_join 0) (\<lambda>_. ret [])
       (\<lambda>ms. ret [Frame (no_event\<lparr>ce_type := ''history'', ce_thread_id := x_uuid_text env i, ce_messages := ms\<rparr>)])"

definition join_thread :: "env \<Rightarrow> uuid \<Rightarrow> principal \<Rightarrow> uuid \<Rightarrow> (bool \<times> frame list) request" where
  "join_thread env i p conn =
     bindE (chat_Thread i (pr_user_id p)) (\<lambda>_.
     bindE (ignore_error (MarkOnline env (pr_user_id p) conn)) (\<lambda>_.
     bindE (history_frame env i (pr_user_id p)) (\<lambda>history.
     bindE (sessionStatus (pr_user_id p)) (\<lambda>verdict.
     ret (verdict = SocketActive, history @ closeSocket verdict)))))"

end
