(* ===== verification/Analysis.thy ===== *)
theory Analysis
  imports Chat Outbox
begin

text \<open>
  Conversation analysis: the statements of internal/store/db/analysis.sql.go, the service
  (internal/analysis/service.go), the worker (internal/analysis/worker.go), what the consumer
  does with a delivery (\<open>Consume\<close> in internal/analysis/queue.go) and the handlers
  (internal/analysis/handler.go).

  The ML analyzer is another program, reached over HTTP; its answer is kept as it is stored,
  its segments and its overall verdict already encoded again.  The texts of errors are a
  parameter.  Names carry the prefix \<open>analysis_\<close> where other services have methods of the same
  name.
\<close>

section \<open>The statements\<close>

definition CreateConversation :: "uuid \<Rightarrow> string \<Rightarrow> string \<Rightarrow> string \<Rightarrow> conversation request" where
  "CreateConversation user_id title platform match_name =
     bindE fresh_id (\<lambda>i.
     query (\<lambda>w. let d = w_db w;
                    c = \<lparr>cn_id = i, cn_user_id = user_id, cn_title = title, cn_platform = platform, cn_match_name = match_name,
                         cn_created_at = w_dbnow w\<rparr>
                in if i \<in> cn_id ` set (d_conversations d) then Inl (ErrSql UniqueViolation)
                   else if user_id \<notin> u_id ` set (d_users d) then Inl (ErrSql ForeignKeyViolation)
                   else Inr (c, d\<lparr>d_conversations := d_conversations d @ [c]\<rparr>)))"

definition messages_violation :: "db \<Rightarrow> message list \<Rightarrow> sqlstate option" where
  "messages_violation d ms =
     (if \<not> list_all (\<lambda>m. ms_sender m = ''self'' \<or> ms_sender m = ''match'') ms then Some CheckViolation
      else if \<not> (distinct (map ms_id ms) \<and> distinct (map (\<lambda>m. (ms_conversation_id m, ms_position m)) ms)) then Some UniqueViolation
      else if \<not> list_all (\<lambda>m. ms_conversation_id m \<in> cn_id ` set (d_conversations d)) ms then Some ForeignKeyViolation
      else None)"

definition CreateMessage :: "uuid \<Rightarrow> int \<Rightarrow> string \<Rightarrow> string \<Rightarrow> instant \<Rightarrow> message request" where
  "CreateMessage conversation_id position sender body sent_at =
     bindE fresh_id (\<lambda>i.
     query (\<lambda>w. let m = \<lparr>ms_id = i, ms_conversation_id = conversation_id, ms_position = position, ms_sender = sender,
                         ms_body = body, ms_sent_at = sent_at\<rparr>;
                    ms = d_messages (w_db w) @ [m]
                in case messages_violation (w_db w) ms of Some v \<Rightarrow> Inl (ErrSql v)
                   | None \<Rightarrow> Inr (m, (w_db w)\<lparr>d_messages := ms\<rparr>)))"

definition new_analysis :: "uuid \<Rightarrow> uuid \<Rightarrow> instant \<Rightarrow> analysis_result" where
  "new_analysis i conversation_id now =
     \<lparr>an_id = i, an_conversation_id = conversation_id, an_status = ''pending'', an_model_version = [], an_segments = ''[]'',
      an_overall = ''{}'', an_error = [], an_created_at = now, an_completed_at = None\<rparr>"

definition CreateAnalysisResult :: "uuid \<Rightarrow> analysis_result request" where
  "CreateAnalysisResult conversation_id =
     bindE fresh_id (\<lambda>i.
     query (\<lambda>w. let d = w_db w; a = new_analysis i conversation_id (w_dbnow w)
                in if i \<in> an_id ` set (d_analyses d) then Inl (ErrSql UniqueViolation)
                   else if conversation_id \<notin> cn_id ` set (d_conversations d) then Inl (ErrSql ForeignKeyViolation)
                   else Inr (a, d\<lparr>d_analyses := d_analyses d @ [a]\<rparr>)))"

text \<open>An \<open>UPDATE analysis_results ... RETURNING\<close> of one row.\<close>

definition update_analysis :: "(analysis_result \<Rightarrow> bool) \<Rightarrow> (instant \<Rightarrow> analysis_result \<Rightarrow> analysis_result) \<Rightarrow> analysis_result request" where
  "update_analysis p f =
     query (\<lambda>w. case filter p (d_analyses (w_db w)) of [] \<Rightarrow> Inl ErrNoRows
       | a # _ \<Rightarrow> Inr (f (w_dbnow w) a, (w_db w)\<lparr>d_analyses := update_where p (f (w_dbnow w)) (d_analyses (w_db w))\<rparr>))"

definition unfinished :: "analysis_result \<Rightarrow> bool" where
  "unfinished a \<longleftrightarrow> an_status a = ''pending'' \<or> an_status a = ''running''"

definition running_set :: "instant \<Rightarrow> analysis_result \<Rightarrow> analysis_result" where
  "running_set now a = a\<lparr>an_status := ''running''\<rparr>"

definition ClaimAnalysis :: "uuid \<Rightarrow> analysis_result request" where
  "ClaimAnalysis i = update_analysis (\<lambda>a. an_id a = i \<and> unfinished a) running_set"

definition succeeded_set :: "string \<Rightarrow> string \<Rightarrow> string \<Rightarrow> instant \<Rightarrow> analysis_result \<Rightarrow> analysis_result" where
  "succeeded_set segments overall version now a =
     a\<lparr>an_status := ''succeeded'', an_segments := segments, an_overall := overall, an_model_version := version,
       an_completed_at := Some now, an_error := []\<rparr>"

definition CompleteAnalysis :: "uuid \<Rightarrow> string \<Rightarrow> string \<Rightarrow> string \<Rightarrow> analysis_result request" where
  "CompleteAnalysis i segments overall version =
     update_analysis (\<lambda>a. an_id a = i) (succeeded_set segments overall version)"

definition analysis_failed_set :: "string \<Rightarrow> instant \<Rightarrow> analysis_result \<Rightarrow> analysis_result" where
  "analysis_failed_set err now a = a\<lparr>an_status := ''failed'', an_error := err, an_completed_at := Some now\<rparr>"

definition FailAnalysis :: "uuid \<Rightarrow> string \<Rightarrow> analysis_result request" where
  "FailAnalysis i err = with_text err (update_analysis (\<lambda>a. an_id a = i) (analysis_failed_set err))"

definition FailPendingAnalysis :: "uuid \<Rightarrow> string \<Rightarrow> analysis_result request" where
  "FailPendingAnalysis i err =
     with_text err (update_analysis (\<lambda>a. an_id a = i \<and> an_status a = ''pending'') (analysis_failed_set err))"

definition GetAnalysisResult :: "uuid \<Rightarrow> analysis_result request" where
  "GetAnalysisResult i = select_one (\<lambda>d. find (\<lambda>a. an_id a = i) (d_analyses d))"

definition GetConversation :: "uuid \<Rightarrow> conversation request" where
  "GetConversation i = select_one (\<lambda>d. find (\<lambda>c. cn_id c = i) (d_conversations d))"

text \<open>The row lock is what keeps other transactions out; the model runs them without interference.\<close>

definition LockConversation :: "uuid \<Rightarrow> conversation request" where
  "LockConversation i = select_one (\<lambda>d. find (\<lambda>c. cn_id c = i) (d_conversations d))"

definition latest_analysis :: "uuid \<Rightarrow> db \<Rightarrow> analysis_result option" where
  "latest_analysis i d =
     (case newest_first an_created_at (filter (\<lambda>a. an_conversation_id a = i) (d_analyses d)) of [] \<Rightarrow> None | a # _ \<Rightarrow> Some a)"

definition GetLatestAnalysisForConversation :: "uuid \<Rightarrow> analysis_result request" where
  "GetLatestAnalysisForConversation i = select_one (latest_analysis i)"

definition ListConversationsForUser :: "uuid \<Rightarrow> nat \<Rightarrow> nat \<Rightarrow> conversation list request" where
  "ListConversationsForUser i limit offset =
     select (\<lambda>d. page limit offset (newest_first cn_created_at (filter (\<lambda>c. cn_user_id c = i) (d_conversations d))))"

definition ListMessages :: "uuid \<Rightarrow> message list request" where
  "ListMessages i = select (\<lambda>d. sort_key ms_position (filter (\<lambda>m. ms_conversation_id m = i) (d_messages d)))"

definition ListTrainingExamples :: "nat \<Rightarrow> nat \<Rightarrow> training_example list request" where
  "ListTrainingExamples limit offset =
     select (\<lambda>d. page limit offset (sort_key te_created_at (filter te_consented (d_examples d))))"

record label_row =
  lr_outcome :: "string option"
  lr_reply_received :: "bool option"
  lr_engagement_score :: "rat option"
  lr_segment_labels :: string
  lr_notes :: string
  lr_consented :: bool

definition labelled_set :: "label_row \<Rightarrow> training_example \<Rightarrow> training_example" where
  "labelled_set r e =
     e\<lparr>te_outcome := lr_outcome r, te_reply_received := lr_reply_received r, te_engagement_score := lr_engagement_score r,
       te_segment_labels := lr_segment_labels r, te_notes := lr_notes r, te_consented := lr_consented r\<rparr>"

definition label_checks :: "string \<Rightarrow> label_row \<Rightarrow> bool" where
  "label_checks source r \<longleftrightarrow> source \<in> {''user'', ''coach'', ''heuristic''} \<and>
     (case lr_outcome r of None \<Rightarrow> True
      | Some v \<Rightarrow> v \<in> {''ghosted'', ''kept_talking'', ''number_exchanged'', ''date_set''})"

definition UpsertTrainingExample :: "uuid \<Rightarrow> string \<Rightarrow> label_row \<Rightarrow> training_example request" where
  "UpsertTrainingExample conversation_id source r =
     bindE fresh_id (\<lambda>i.
     query (\<lambda>w. let d = w_db w; same = (\<lambda>e. te_conversation_id e = conversation_id \<and> te_label_source e = source);
                    new = labelled_set r \<lparr>te_id = i, te_conversation_id = conversation_id, te_label_source = source, te_outcome = None,
                      te_reply_received = None, te_engagement_score = None, te_segment_labels = [], te_notes = [],
                      te_consented = False, te_created_at = w_dbnow w\<rparr>
                in if \<not> label_checks source r then Inl (ErrSql CheckViolation)
                   else case filter same (d_examples d) of
                     e # _ \<Rightarrow> Inr (labelled_set r e, d\<lparr>d_examples := update_where same (labelled_set r) (d_examples d)\<rparr>)
                   | [] \<Rightarrow>
                       if i \<in> te_id ` set (d_examples d) then Inl (ErrSql UniqueViolation)
                       else if conversation_id \<notin> cn_id ` set (d_conversations d) then Inl (ErrSql ForeignKeyViolation)
                       else Inr (new, d\<lparr>d_examples := d_examples d @ [new]\<rparr>)))"

definition CreateNotification :: "uuid \<Rightarrow> string \<Rightarrow> string \<Rightarrow> notification request" where
  "CreateNotification user_id kind payload =
     bindE fresh_id (\<lambda>i.
     query (\<lambda>w. let d = w_db w;
                    n = \<lparr>nt_id = i, nt_user_id = user_id, nt_kind = kind, nt_payload = payload, nt_sent_at = None, nt_created_at = w_dbnow w\<rparr>
                in if i \<in> nt_id ` set (d_notifications d) then Inl (ErrSql UniqueViolation)
                   else if user_id \<notin> u_id ` set (d_users d) then Inl (ErrSql ForeignKeyViolation)
                   else Inr (n, d\<lparr>d_notifications := d_notifications d @ [n]\<rparr>)))"

definition MarkNotificationSent :: "uuid \<Rightarrow> unit request" where
  "MarkNotificationSent i =
     query (\<lambda>w. Inr ((), (w_db w)\<lparr>d_notifications := update_where (\<lambda>n. nt_id n = i)
       (\<lambda>n. n\<lparr>nt_sent_at := Some (w_dbnow w)\<rparr>) (d_notifications (w_db w))\<rparr>))"

section \<open>The service\<close>

record ml_message =
  mq_position :: int
  mq_sender :: string
  mq_body :: string
  mq_sent_at :: string

record ml_request =
  mq_conversation_id :: string
  mq_platform :: string
  mq_match_name :: string
  mq_preferences :: string
  mq_messages :: "ml_message list"

record ml_response =
  mr_model_version :: string
  mr_segments :: string
  mr_overall :: string

text \<open>
  \<open>y_post\<close> is \<open>net/http\<close>: what a POST of a body to a URL gives at a time, the text of an error
  as \<open>post\<close> words it or the status and the body of the answer.  \<open>y_decode\<close> decodes an answer.
\<close>

record analysis_env = env +
  y_ml_url :: string
  y_post :: "instant \<Rightarrow> string \<Rightarrow> string \<Rightarrow> string + (nat \<times> string)"
  y_decode :: "string \<Rightarrow> string + ml_response"
  y_error_text :: "go_error \<Rightarrow> string"
  y_analysis_queue :: string

record analysis_view =
  av_id :: string
  av_conversation_id :: string
  av_status :: string
  av_model_version :: string
  av_segments :: string
  av_overall :: string
  av_error :: string
  av_created_at :: string
  av_completed_at :: string

definition resultOf :: "analysis_env \<Rightarrow> analysis_result \<Rightarrow> analysis_view" where
  "resultOf env a =
     \<lparr>av_id = x_uuid_text env (an_id a), av_conversation_id = x_uuid_text env (an_conversation_id a), av_status = an_status a,
      av_model_version = an_model_version a, av_segments = an_segments a, av_overall = an_overall a, av_error = an_error a,
      av_created_at = format_rfc3339 (an_created_at a),
      av_completed_at = (case an_completed_at a of None \<Rightarrow> [] | Some t \<Rightarrow> format_rfc3339 t)\<rparr>"

definition max_messages :: nat where "max_messages = 500"
definition max_analysis_message_length :: nat where "max_analysis_message_length = 4000"
definition default_list_limit :: nat where "default_list_limit = 25"

record submit_message =
  sm_sender :: string
  sm_body :: string
  sm_sent_at :: string

record submit_input =
  su_title :: string
  su_platform :: string
  su_match_name :: string
  su_messages :: "submit_message list"

definition submit_message_ok :: "submit_message \<Rightarrow> bool" where
  "submit_message_ok m \<longleftrightarrow> (sm_sender m = ''self'' \<or> sm_sender m = ''match'') \<and>
     trim_space (sm_body m) \<noteq> [] \<and> length (sm_body m) \<le> max_analysis_message_length"

text \<open>The loop that stores the transcript, with the index of the message.\<close>

fun store_messages :: "'a env_scheme \<Rightarrow> uuid \<Rightarrow> int \<Rightarrow> submit_message list \<Rightarrow> unit request" where
  "store_messages env conversation_id i [] = ret ()"
| "store_messages env conversation_id i (m # ms) =
     bindE (asks w_now) (\<lambda>now.
     bindE (if sm_sent_at m = [] then ret now
            else case x_parse_rfc3339 env (sm_sent_at m) of None \<Rightarrow> throw ErrInvalidInput | Some t \<Rightarrow> ret t) (\<lambda>sent_at.
     bindE (CreateMessage conversation_id i (sm_sender m) (sm_body m) sent_at) (\<lambda>_.
     store_messages env conversation_id (i + 1) ms)))"

definition submit_tx :: "'a env_scheme \<Rightarrow> uuid \<Rightarrow> submit_input \<Rightarrow> (bool \<times> (conversation \<times> analysis_result)) request" where
  "submit_tx env user_id b =
     bindE (CreateConversation user_id (su_title b) (if su_platform b = [] then ''unknown'' else su_platform b) (su_match_name b)) (\<lambda>c.
     bindE (store_messages env (cn_id c) 0 (su_messages b)) (\<lambda>_.
     bindE (CreateAnalysisResult (cn_id c)) (\<lambda>a.
     commit (c, a))))"

definition analysis_job :: "'a env_scheme \<Rightarrow> uuid \<Rightarrow> uuid \<Rightarrow> uuid \<Rightarrow> job" where
  "analysis_job env analysis_id conversation_id user_id =
     AnalysisJob (x_uuid_text env analysis_id) (x_uuid_text env conversation_id) (x_uuid_text env user_id)"

definition enqueue_failed :: string where "enqueue_failed = ''could not enqueue analysis''"

definition Submit :: "analysis_env \<Rightarrow> uuid \<Rightarrow> submit_input \<Rightarrow> analysis_view request" where
  "Submit env user_id b =
     bindE (failIf (su_messages b = []) ErrInvalidInput) (\<lambda>_.
     bindE (failIf (max_messages < length (su_messages b)) ErrInvalidInput) (\<lambda>_.
     bindE (failIf (\<not> list_all submit_message_ok (su_messages b)) ErrInvalidInput) (\<lambda>_.
     bindE (transaction (submit_tx env user_id b)) (\<lambda>(c, a).
     attempt (Publish (y_analysis_queue env) (analysis_job env (an_id a) (cn_id c) user_id))
       (\<lambda>e. attempt (FailAnalysis (an_id a) enqueue_failed) (\<lambda>_. throw e) (\<lambda>_. throw e))
       (\<lambda>_. ret (resultOf env a))))))"

definition ownedConversation :: "uuid \<Rightarrow> uuid \<Rightarrow> conversation request" where
  "ownedConversation i user_id =
     attempt (GetConversation i) (\<lambda>e. throw (not_found e)) (\<lambda>c.
     if cn_user_id c \<noteq> user_id then throw ErrForbidden else ret c)"

text \<open>The transaction of \<open>Reanalyze\<close>: whether a run was created, and the run.\<close>

definition reanalyze_tx :: "uuid \<Rightarrow> (bool \<times> (bool \<times> analysis_result)) request" where
  "reanalyze_tx i =
     bindE (LockConversation i) (\<lambda>_.
     attempt (bindE (GetLatestAnalysisForConversation i) (\<lambda>a. ret (Some a)))
       (\<lambda>e. if e = ErrNoRows
          then bindE (CreateAnalysisResult i) (\<lambda>a. commit (True, a))
          else throw e)
       (\<lambda>latest. case latest of Some a \<Rightarrow>
            if unfinished a then abandon (False, a)
            else bindE (CreateAnalysisResult i) (\<lambda>a. commit (True, a))
          | None \<Rightarrow> bindE (CreateAnalysisResult i) (\<lambda>a. commit (True, a))))"

definition Reanalyze :: "analysis_env \<Rightarrow> uuid \<Rightarrow> uuid \<Rightarrow> analysis_view request" where
  "Reanalyze env i user_id =
     bindE (ownedConversation i user_id) (\<lambda>_.
     bindE (transaction (reanalyze_tx i)) (\<lambda>(created, a).
     if \<not> created then ret (resultOf env a)
     else attempt (Publish (y_analysis_queue env) (analysis_job env (an_id a) i user_id))
            (\<lambda>e. attempt (FailPendingAnalysis (an_id a) enqueue_failed) (\<lambda>_. throw e) (\<lambda>_. throw e))
            (\<lambda>_. ret (resultOf env a))))"

definition analysis_Get :: "analysis_env \<Rightarrow> uuid \<Rightarrow> uuid \<Rightarrow> analysis_view request" where
  "analysis_Get env i user_id =
     attempt (GetAnalysisResult i) (\<lambda>e. throw (not_found e)) (\<lambda>a.
     bindE (ownedConversation (an_conversation_id a) user_id) (\<lambda>_. ret (resultOf env a)))"

definition LatestForConversation :: "analysis_env \<Rightarrow> uuid \<Rightarrow> uuid \<Rightarrow> analysis_view request" where
  "LatestForConversation env i user_id =
     bindE (ownedConversation i user_id) (\<lambda>_.
     attempt (GetLatestAnalysisForConversation i) (\<lambda>e. throw (not_found e)) (\<lambda>a. ret (resultOf env a)))"

record conversation_view =
  cw_id :: string
  cw_title :: string
  cw_platform :: string
  cw_match_name :: string
  cw_created_at :: string

definition ListConversations :: "analysis_env \<Rightarrow> uuid \<Rightarrow> int \<Rightarrow> nat \<Rightarrow> conversation_view list request" where
  "ListConversations env user_id limit offset =
     bindE (ListConversationsForUser user_id (if limit \<le> 0 then default_list_limit else nat limit) offset) (\<lambda>cs.
     ret (map (\<lambda>c. \<lparr>cw_id = x_uuid_text env (cn_id c), cw_title = cn_title c, cw_platform = cn_platform c,
       cw_match_name = cn_match_name c, cw_created_at = format_rfc3339 (cn_created_at c)\<rparr>) cs))"

definition validOutcomes :: "string list" where
  "validOutcomes = [''ghosted'', ''kept_talking'', ''number_exchanged'', ''date_set'']"

record label_input = label_row +
  li_label_source :: string

definition Label :: "uuid \<Rightarrow> uuid \<Rightarrow> label_input \<Rightarrow> training_example request" where
  "Label i user_id b =
     bindE (ownedConversation i user_id) (\<lambda>_.
     let source = (if li_label_source b = [] then ''user'' else li_label_source b) in
     bindE (failIf (source \<noteq> ''user'' \<and> source \<noteq> ''coach'' \<and> source \<noteq> ''heuristic'') ErrInvalidInput) (\<lambda>_.
     bindE (failIf (case lr_outcome b of None \<Rightarrow> False | Some v \<Rightarrow> v \<notin> set validOutcomes) ErrInvalidInput) (\<lambda>_.
     bindE (failIf (case lr_engagement_score b of None \<Rightarrow> False | Some x \<Rightarrow> x < 0 \<or> 1 < x) ErrInvalidInput) (\<lambda>_.
     UpsertTrainingExample i source
       \<lparr>lr_outcome = lr_outcome b, lr_reply_received = lr_reply_received b, lr_engagement_score = lr_engagement_score b,
        lr_segment_labels = (if lr_segment_labels b = [] then ''[]'' else lr_segment_labels b), lr_notes = lr_notes b,
        lr_consented = lr_consented b\<rparr>))))"

end
