(* ===== verification/Analysis_Worker.thy ===== *)
theory Analysis_Worker
  imports Analysis
begin

text \<open>
  What happens to an analysis job: the client of the analyzer (internal/analysis/mlclient.go),
  the worker (internal/analysis/worker.go), what the consumer does with a delivery
  (\<open>Consume\<close> in internal/analysis/queue.go), and the handlers of the analysis routes
  (internal/analysis/handler.go).
\<close>

section \<open>The analyzer\<close>

definition ml_message_json :: "ml_message \<Rightarrow> string" where
  "ml_message_json m =
     json_object [(''position'', decimal (mq_position m)), (''sender'', json_string (mq_sender m)),
       (''body'', json_string (mq_body m)), (''sent_at'', json_string (mq_sent_at m))]"

definition ml_request_json :: "ml_request \<Rightarrow> string" where
  "ml_request_json r =
     json_object ([(''conversation_id'', json_string (mq_conversation_id r)), (''platform'', json_string (mq_platform r))] @
       omitempty ''match_name'' (mq_match_name r) @ omitempty ''preferences'' (mq_preferences r) @
       [(''messages'', json_list (map ml_message_json (mq_messages r)))])"

definition ml_base :: "string \<Rightarrow> string" where
  "ml_base url = rev (dropWhile (\<lambda>c. c = CHR ''/'') (rev url))"

definition ml_post :: "analysis_env \<Rightarrow> instant \<Rightarrow> string \<Rightarrow> string \<Rightarrow> string + ml_response" where
  "ml_post env now path body =
     (case y_post env now (ml_base (y_ml_url env) @ path) body of Inl e \<Rightarrow> Inl e
      | Inr (status, reply) \<Rightarrow>
          if status \<noteq> 200
          then Inl (''ml service returned '' @ decimal (int status) @ '': '' @ trim_space (take 512 reply))
          else (case y_decode env reply of Inl e \<Rightarrow> Inl (''decode ml response: '' @ e) | Inr r \<Rightarrow> Inr r))"

definition Analyze :: "analysis_env \<Rightarrow> instant \<Rightarrow> ml_request \<Rightarrow> string + ml_response" where
  "Analyze env now r = ml_post env now ''/analyze'' (ml_request_json r)"

section \<open>The worker\<close>

definition datingPreferences :: "uuid \<Rightarrow> string request" where
  "datingPreferences i =
     attempt (GetUserByID i) (\<lambda>e. if e = ErrNoRows then ret [] else throw e) (\<lambda>u. ret (u_dating_preferences u))"

definition ml_request_of :: "analysis_env \<Rightarrow> conversation \<Rightarrow> message list \<Rightarrow> string \<Rightarrow> uuid \<Rightarrow> ml_request" where
  "ml_request_of env c ms preferences i =
     \<lparr>mq_conversation_id = x_uuid_text env i, mq_platform = cn_platform c, mq_match_name = cn_match_name c,
      mq_preferences = preferences,
      mq_messages = map (\<lambda>m. \<lparr>mq_position = ms_position m, mq_sender = ms_sender m, mq_body = ms_body m,
        mq_sent_at = format_rfc3339 (ms_sent_at m)\<rparr>) ms\<rparr>"

text \<open>A failure is returned while there are attempts left and recorded on the last one.\<close>

definition analysis_fail :: "uuid \<Rightarrow> bool \<Rightarrow> go_error \<Rightarrow> string \<Rightarrow> unit request" where
  "analysis_fail i last_attempt cause cause_text =
     (if \<not> last_attempt then throw cause else bindE (FailAnalysis i cause_text) (\<lambda>_. ret ()))"

definition ready_payload :: "analysis_env \<Rightarrow> uuid \<Rightarrow> string \<Rightarrow> string" where
  "ready_payload env i conversation =
     json_object [(''analysis_id'', json_string (x_uuid_text env i)), (''conversation_id'', json_string conversation)]"

definition notifyReady :: "analysis_env \<Rightarrow> string \<Rightarrow> string \<Rightarrow> uuid \<Rightarrow> unit request" where
  "notifyReady env user conversation i =
     (case x_parse_uuid env user of None \<Rightarrow> ret ()
      | Some u \<Rightarrow>
          attempt (CreateNotification u ''analysis_ready'' (ready_payload env i conversation)) (\<lambda>_. ret ()) (\<lambda>n.
          attempt (Push (x_uuid_text env u) ''Your conversation analysis is ready''
              ''Open the app to see where the conversation was engaging.'') (\<lambda>_. ret ()) (\<lambda>_.
          ignore_error (MarkNotificationSent (nt_id n)))))"

definition score_analysis :: "analysis_env \<Rightarrow> uuid \<Rightarrow> uuid \<Rightarrow> string \<Rightarrow> string \<Rightarrow> bool \<Rightarrow> unit request" where
  "score_analysis env i k conversation user last_attempt =
     attempt (GetConversation k) (\<lambda>e. analysis_fail i last_attempt e (''load conversation: '' @ y_error_text env e)) (\<lambda>c.
     attempt (ListMessages k) (\<lambda>e. analysis_fail i last_attempt e (''load messages: '' @ y_error_text env e)) (\<lambda>ms.
     attempt (datingPreferences (cn_user_id c)) (\<lambda>e. analysis_fail i last_attempt e (''load preferences: '' @ y_error_text env e)) (\<lambda>preferences.
     bindE (asks w_now) (\<lambda>now.
     case Analyze env now (ml_request_of env c ms preferences k) of
       Inl text \<Rightarrow> analysis_fail i last_attempt ErrAnalyzer text
     | Inr r \<Rightarrow>
         bindE (CompleteAnalysis i (mr_segments r) (mr_overall r) (mr_model_version r)) (\<lambda>_.
         notifyReady env user conversation i)))))"

definition Handle_analysis :: "analysis_env \<Rightarrow> string \<Rightarrow> string \<Rightarrow> string \<Rightarrow> bool \<Rightarrow> unit request" where
  "Handle_analysis env analysis conversation user last_attempt =
     (case x_parse_uuid env analysis of None \<Rightarrow> throw ErrParse
      | Some i \<Rightarrow>
     (case x_parse_uuid env conversation of None \<Rightarrow> throw ErrParse
      | Some k \<Rightarrow>
          attempt (ClaimAnalysis i) (\<lambda>e. if e = ErrNoRows then ret () else throw e)
            (\<lambda>_. score_analysis env i k conversation user last_attempt)))"

section \<open>The consumer\<close>

text \<open>
  \<open>Consume\<close> on one delivery.  A body that does not decode is rejected; the broker's
  Redelivered flag says whether this is the last attempt.
\<close>

definition consume_analysis :: "analysis_env \<Rightarrow> job option \<Rightarrow> bool \<Rightarrow> disposition request" where
  "consume_analysis env body redelivered =
     (case body of Some (AnalysisJob a c u) \<Rightarrow>
        attempt (Handle_analysis env a c u redelivered)
          (\<lambda>_. ret (if redelivered then Rejected else Requeued))
          (\<lambda>_. ret Acked)
      | _ \<Rightarrow> ret Rejected)"

section \<open>The handlers\<close>

definition analysis_status :: "go_error \<Rightarrow> nat" where
  "analysis_status e =
     (if e = ErrNotFound then 404 else if e = ErrForbidden then 403 else if e = ErrInvalidInput then 400 else 500)"

definition submit_handler :: "analysis_env \<Rightarrow> http \<Rightarrow> submit_input option \<Rightarrow> analysis_view answer" where
  "submit_handler env h body =
     as_principal h (\<lambda>u. with_body body (\<lambda>b. answer_with analysis_status 202 (Submit env u b)))"

definition reanalyze_handler :: "analysis_env \<Rightarrow> http \<Rightarrow> analysis_view answer" where
  "reanalyze_handler env h =
     as_principal h (\<lambda>u. pathUUID env h ''conversationID'' (\<lambda>i. answer_with analysis_status 202 (Reanalyze env i u)))"

definition listConversations_handler :: "analysis_env \<Rightarrow> http \<Rightarrow> conversation_view list answer" where
  "listConversations_handler env h =
     as_principal h (\<lambda>u. answer_with analysis_status 200
       (ListConversations env u (QueryInt (h_query h ''limit'') (int default_list_limit) 100)
         (nat (QueryInt (h_query h ''offset'') 1 100000 - 1))))"

definition result_handler :: "analysis_env \<Rightarrow> http \<Rightarrow> analysis_view answer" where
  "result_handler env h =
     as_principal h (\<lambda>u. pathUUID env h ''analysisID'' (\<lambda>i. answer_with analysis_status 200 (analysis_Get env i u)))"

definition latestResult_handler :: "analysis_env \<Rightarrow> http \<Rightarrow> analysis_view answer" where
  "latestResult_handler env h =
     as_principal h (\<lambda>u. pathUUID env h ''conversationID'' (\<lambda>i. answer_with analysis_status 200 (LatestForConversation env i u)))"

definition label_handler :: "analysis_env \<Rightarrow> http \<Rightarrow> label_input option \<Rightarrow> training_example answer" where
  "label_handler env h body =
     as_principal h (\<lambda>u. pathUUID env h ''conversationID'' (\<lambda>i. with_body body (\<lambda>b.
     answer_with analysis_status 201 (Label i u b))))"

end
