(* ===== verification/Chat_Properties.thy ===== *)
theory Chat_Properties
  imports Chat Auth_Scenario
begin

text \<open>
  Who may read and write a chat thread, what an open socket refuses, and that a pair of people
  has one active thread and reads back what it wrote.
\<close>

section \<open>Requests that leave no trace\<close>

text \<open>
  From \<open>w\<close> to \<open>w'\<close> the request only read: nothing left the process, and whatever the requests
  that ran in between keep of the database still holds.
\<close>

definition only_read :: "world \<Rightarrow> world \<Rightarrow> bool" where
  "only_read w w' \<longleftrightarrow> w_signals w' = w_signals w \<and> (\<forall>J. db_inv J w \<longrightarrow> db_inv J w')"

definition refused :: "(world, 'e, 'a) go \<Rightarrow> world \<Rightarrow> bool" where
  "refused m w \<longleftrightarrow> (\<exists>e w'. m w = (Inl e, w') \<and> only_read w w')"

lemma only_read_refl [simp]: "only_read w w"
  by (simp add: only_read_def)

lemma only_read_trans: "only_read w w' \<Longrightarrow> only_read w' w'' \<Longrightarrow> only_read w w''"
  by (simp add: only_read_def)

lemma only_read_inv: "only_read w w' \<Longrightarrow> db_inv J w \<Longrightarrow> db_inv J w'"
  by (simp add: only_read_def)

lemma entry_only_reads: "next_entry w = (b, w') \<Longrightarrow> only_read w w'"
  using next_entry_inv by (auto simp: only_read_def next_entry_def split: list.splits sched.splits if_splits)

lemma refused_throw: "refused (throw e) w"
  by (auto simp: refused_def throw_def)

lemma refused_failIf: "(\<not> b \<Longrightarrow> refused (f ()) w) \<Longrightarrow> refused (bindE (failIf b e) f) w"
  by (auto simp: refused_def bindE_def failIf_def)

lemma refused_bindE: "refused m w \<Longrightarrow> refused (bindE m f) w"
  by (auto simp: refused_def bindE_def)

lemma refused_attempt: "refused m w \<Longrightarrow> refused (attempt m (\<lambda>e. throw (h e)) f) w"
  by (auto simp: refused_def attempt_def throw_def)

lemma select_one_reads:
  assumes "select_one g w = (r, w')"
  shows "only_read w w' \<and> (\<forall>x. r = Inr x \<longrightarrow> g (w_db w') = Some x)"
proof -
  obtain b w1 where n: "next_entry w = (b, w1)" by (cases "next_entry w")
  with assms have "w' = w1 \<and> (\<forall>x. r = Inr x \<longrightarrow> g (w_db w1) = Some x)"
    by (auto simp: select_one_def query_def split: bool.splits option.splits)
  with entry_only_reads [OF n] show ?thesis by blast
qed

text \<open>A lookup whose row, if there is one, makes the rest of the request refuse.\<close>

lemma refused_lookup:
  assumes "\<And>x w'. only_read w w' \<Longrightarrow> g (w_db w') = Some x \<Longrightarrow> refused (f x) w'"
  shows "refused (attempt (select_one g) (\<lambda>e. throw (h e)) f) w"
proof -
  obtain r w' where run: "select_one g w = (r, w')" by (cases "select_one g w")
  note reads = select_one_reads [OF run]
  show ?thesis
  proof (cases r)
    case (Inl e)
    with run reads show ?thesis by (auto simp: refused_def attempt_def throw_def)
  next
    case (Inr x)
    with assms reads have "refused (f x) w'" by blast
    with run Inr reads show ?thesis by (auto simp: refused_def attempt_def intro: only_read_trans)
  qed
qed

section \<open>Members only\<close>

definition outsider :: "uuid \<Rightarrow> uuid \<Rightarrow> db \<Rightarrow> bool" where
  "outsider a i d \<longleftrightarrow> (\<forall>t \<in> set (d_threads d). ct_id t = i \<longrightarrow> ct_user_id t \<noteq> a \<and> ct_coach_id t \<noteq> a)"

lemma chat_Thread_refused: "db_inv (outsider a i) w \<Longrightarrow> refused (chat_Thread i a) w"
  unfolding chat_Thread_def GetChatThread_def
proof (rule refused_lookup)
  fix t w'
  assume inv: "db_inv (outsider a i) w" and read: "only_read w w'" and t: "find (\<lambda>t. ct_id t = i) (d_threads (w_db w')) = Some t"
  have "outsider a i (w_db w')" using only_read_inv [OF read inv] by (simp add: db_inv_def)
  with find_Some_mem [OF t] have "ct_user_id t \<noteq> a \<and> ct_coach_id t \<noteq> a" by (auto simp: outsider_def)
  then show "refused (if ct_user_id t \<noteq> a \<and> ct_coach_id t \<noteq> a then throw ErrForbidden else ret t) w'"
    by (simp add: refused_throw)
qed

text \<open>
  C17: only the two people of a thread read or write it.  To anyone else, and whatever requests
  run in between as long as they do not make the caller a participant, the transcript, sending,
  typing, closing and opening a socket are refused with an error; nothing is announced, and
  nothing in the database changes but by those other requests.
\<close>

theorem chat_members_only:
  assumes "db_inv (outsider a i) w"
  shows "refused (History env i a limit offset) w \<and> refused (chat_Send env i a body client) w \<and>
    refused (Typing env i a on) w \<and> refused (chat_Close env i a) w \<and>
    (pr_user_id p = a \<longrightarrow> refused (join_thread env' i p conn) w)"
proof -
  note thread = chat_Thread_refused [OF assms]
  have active: "refused (activeThread i a) w" unfolding activeThread_def by (rule refused_bindE [OF thread])
  show ?thesis
    unfolding History_def chat_Send_def Typing_def chat_Close_def join_thread_def Let_def
    using thread active by (auto intro!: refused_bindE refused_failIf)
qed

section \<open>Sockets\<close>

definition inactive :: "uuid \<Rightarrow> db \<Rightarrow> bool" where
  "inactive u d \<longleftrightarrow> \<not> list_ex (\<lambda>r. u_id r = u \<and> live r) (d_users d)"

definition is_close :: "frame list \<Rightarrow> bool" where
  "is_close fs \<longleftrightarrow> (\<exists>code reason. fs = [CloseFrame code reason])"

lemma sessionStatus_inactive:
  assumes "db_inv (inactive u) w"
  shows "\<exists>v w'. sessionStatus u w = (Inr v, w') \<and> only_read w w' \<and> v \<noteq> SocketActive \<and> is_close (closeSocket v)"
proof -
  obtain b w1 where n: "next_entry w = (b, w1)" by (cases "next_entry w")
  note read = entry_only_reads [OF n]
  have "inactive u (w_db w1)" using only_read_inv [OF read assms] by (simp add: db_inv_def)
  then have "sessionStatus u w = (Inr (if b then SocketUnverifiable else SocketRevoked), w1)"
    using n by (auto simp: sessionStatus_def UserActive_def select_def query_def attempt_def ret_def inactive_def split: bool.splits)
  with read show ?thesis by (auto simp: is_close_def)
qed

text \<open>
  A socket does nothing for an account that may no longer act.  Once the token has expired,
  or the account is gone or marked deleted, any event from the client is answered with a close
  frame alone and the socket ends; the event has no effect, even if the account cannot be looked
  up.
\<close>

theorem dead_sockets_close:
  assumes "pr_expires_at p = Some t \<and> seconds t \<le> w_now w \<or> db_inv (inactive (pr_user_id p)) w"
  shows "\<exists>fs w'. handleIncoming env texts i p conn ev w = (Inr (False, fs), w') \<and> is_close fs \<and> only_read w w'"
proof (cases "case pr_expires_at p of None \<Rightarrow> False | Some t \<Rightarrow> seconds t \<le> w_now w")
  case True
  then show ?thesis by (auto simp: handleIncoming_def bindE_def asks_def ret_def is_close_def)
next
  case False
  with assms have "db_inv (inactive (pr_user_id p)) w" by auto
  from sessionStatus_inactive [OF this] obtain v w' where
    v: "sessionStatus (pr_user_id p) w = (Inr v, w')" "only_read w w'" "v \<noteq> SocketActive" "is_close (closeSocket v)" by blast
  have "handleIncoming env texts i p conn ev w = (Inr (False, closeSocket v), w')"
    using False v(1,3) by (simp add: handleIncoming_def bindE_def asks_def ret_def)
  with v show ?thesis by blast
qed

section \<open>One active thread\<close>

text \<open>The store keeps the schema's constraints on threads.\<close>

definition threads_ok :: "db \<Rightarrow> bool" where
  "threads_ok d \<longleftrightarrow> threads_violation d (d_threads d) = None"

definition active_of :: "uuid \<Rightarrow> uuid \<Rightarrow> db \<Rightarrow> chat_thread list" where
  "active_of u c d = filter (\<lambda>t. ct_user_id t = u \<and> ct_coach_id t = c \<and> is_active t) (d_threads d)"

lemma active_of_single:
  assumes "distinct (active_pairs ts)" and "t \<in> set ts" "is_active t"
  shows "filter (\<lambda>t'. ct_user_id t' = ct_user_id t \<and> ct_coach_id t' = ct_coach_id t \<and> is_active t') ts = [t]"
  using assms
proof (induction ts)
  case (Cons t' ts)
  show ?case
  proof (cases "t' = t")
    case True
    with Cons.prems have "(ct_user_id t, ct_coach_id t) \<notin> set (active_pairs ts)" by (auto simp: active_pairs_def)
    then have "filter (\<lambda>t'. ct_user_id t' = ct_user_id t \<and> ct_coach_id t' = ct_coach_id t \<and> is_active t') ts = []"
      unfolding filter_empty_conv active_pairs_def by (metis (mono_tags, lifting) filter_set imageI list.set_map mem_Collect_eq set_filter)
    with True Cons.prems(3) show ?thesis by simp
  next
    case False
    with Cons.prems have t: "t \<in> set ts" "distinct (active_pairs ts)" by (auto simp: active_pairs_def split: if_splits)
    have "\<not> (is_active t' \<and> ct_user_id t' = ct_user_id t \<and> ct_coach_id t' = ct_coach_id t)"
      using Cons.prems(1,3) t(1) by (force simp: active_pairs_def split: if_splits)
    then show ?thesis using Cons.IH [OF t(2,1) Cons.prems(3)] by auto
  qed
qed simp

lemma GetActiveThread_calm:
  assumes "w_sched w = []"
  shows "GetActiveThreadForPair u c w = (case newest_first ct_last_message_at (active_of u c (w_db w)) of [] \<Rightarrow> (Inl ErrNoRows, w) | t # _ \<Rightarrow> (Inr t, w))"
  using assms by (auto simp: GetActiveThreadForPair_def select_one_calm active_of_def split: list.splits)

text \<open>
  Opening a chat is idempotent.  After a successful \<open>StartThread\<close> the pair has exactly one
  active thread, and starting it again, with whatever session, gives the same thread and changes
  nothing.
\<close>

theorem start_thread_once:
  assumes "w_sched w = []" and "threads_ok (w_db w)" and "StartThread env u c session w = (Inr v, w')"
  shows "\<exists>t. active_of u c (w_db w') = [t] \<and> v = threadOf env t \<and> StartThread env u c session' w' = (Inr v, w')"
proof -
  have pairs: "distinct (active_pairs (d_threads (w_db w)))"
    using assms(2) by (auto simp: threads_ok_def threads_violation_def split: if_splits)
  have again: "StartThread env u c session' w' = (Inr (threadOf env t), w')"
    if "active_of u c (w_db w') = [t]" "w_sched w' = []" for t
    using that by (simp add: StartThread_def GetActiveThread_calm attempt_def ret_def newest_first_def)
  show ?thesis
  proof (cases "active_of u c (w_db w)")
    case (Cons t ts)
    then have t: "t \<in> set (d_threads (w_db w))" "is_active t" "ct_user_id t = u" "ct_coach_id t = c"
      using list.set_intros(1) [of t ts] unfolding Cons [symmetric] active_of_def by simp_all
    from active_of_single [OF pairs t(1,2)] t have one: "active_of u c (w_db w) = [t]" by (simp add: active_of_def)
    with assms(1,3) have "v = threadOf env t" "w' = w"
      by (simp_all add: StartThread_def GetActiveThread_calm attempt_def ret_def newest_first_def)
    with one again assms(1) show ?thesis by blast
  next
    case Nil
    let ?n = "w_next_id w"
    let ?t = "\<lparr>ct_id = ?n, ct_user_id = u, ct_coach_id = c, ct_session_id = session, ct_status = ''active'',
      ct_created_at = w_dbnow w, ct_last_message_at = w_dbnow w\<rparr>"
    have "GetCoachApprovalStatus c w = (Inr coach_approved, w)"
      and created: "CreateChatThread u c session w = (Inr ?t, w')" and v: "v = threadOf env ?t"
      and w': "w' = w\<lparr>w_next_id := Suc ?n, w_db := (w_db w)\<lparr>d_threads := d_threads (w_db w) @ [?t]\<rparr>\<rparr>"
      using assms(1,3) Nil
      by (auto simp: StartThread_def GetActiveThread_calm newest_first_def attempt_def throw_def ret_def
          GetCoachApprovalStatus_def select_one_calm CreateChatThread_def bindE_def fresh_id_def query_calm Let_def
          split: option.splits if_splits)
    have "active_of u c (w_db w') = [?t]" using Nil by (simp add: w' active_of_def is_active_def)
    moreover have "w_sched w' = []" using assms(1) w' by simp
    ultimately show ?thesis using again v by blast
  qed
qed

section \<open>What is sent is read\<close>

lemma newest_first_append:
  assumes "\<forall>r \<in> set rs. k r < k x"
  shows "newest_first k (rs @ [x]) = x # newest_first k rs"
  unfolding newest_first_def
  using assms by (induction rs) (auto simp: )

lemma chat_Thread_calm:
  assumes "w_sched w = []" "find (\<lambda>t. ct_id t = i) (d_threads (w_db w)) = Some t" "ct_user_id t = a \<or> ct_coach_id t = a"
  shows "chat_Thread i a w = (Inr t, w)" "is_active t \<Longrightarrow> activeThread i a w = (Inr t, w)"
proof -
  show 1: "chat_Thread i a w = (Inr t, w)"
    using assms by (auto simp: chat_Thread_def GetChatThread_def select_one_calm attempt_def ret_def)
  show "is_active t \<Longrightarrow> activeThread i a w = (Inr t, w)" by (simp add: activeThread_def bindE_def 1 ret_def)
qed

lemma History_calm:
  assumes "w_sched w = []" "find (\<lambda>t. ct_id t = i) (d_threads (w_db w)) = Some t" "ct_user_id t = a \<or> ct_coach_id t = a"
  shows "History env i a n k w =
    (Inr (map (chat_view_of env) (page n k (newest_first cm_created_at (filter (\<lambda>m. cm_thread_id m = i) (d_chats (w_db w)))))), w)"
  by (simp add: History_def bindE_def chat_Thread_calm [OF assms] ListChatMessages_def select_calm assms(1) ret_def)

text \<open>
  C20: what one side sends the other reads back first.  With no other request in between, a
  participant who sends a non-empty text of at most 4000 bytes to an active thread gets the
  message as it is stored, trimmed; it is announced once on the thread's channel; and the
  other side's history begins with it, followed by the history from before.
\<close>

theorem sent_is_read:
  assumes "w_sched w = []" and t: "find (\<lambda>t. ct_id t = i) (d_threads (w_db w)) = Some t" "is_active t"
    and people: "{a, b} = {ct_user_id t, ct_coach_id t}"
    and body: "trim_space raw \<noteq> []" "length (trim_space raw) \<le> max_message_length"
    and ids: "w_next_id w \<notin> cm_id ` set (d_chats (w_db w))" and ok: "chats_violation (w_db w) (d_chats (w_db w)) = None"
    and sender: "a \<in> u_id ` set (d_users (w_db w))"
    and newest: "\<forall>m \<in> set (d_chats (w_db w)). cm_thread_id m = i \<longrightarrow> cm_created_at m < w_dbnow w"
    and before: "History env i b n 0 w = (Inr ms, w)"
  shows "\<exists>m w'. chat_Send env i a raw client w = (Inr m, w') \<and> cv_body m = trim_space raw \<and>
    w_signals w' = w_signals w @ [Announced (channelFor env i) (chat_event_json (echoEvent m client))] \<and>
    History env i b (Suc n) 0 w' = (Inr (m # ms), w')"
proof -
  let ?row = "\<lparr>cm_id = w_next_id w, cm_thread_id = i, cm_sender_id = a, cm_body = trim_space raw, cm_created_at = w_dbnow w\<rparr>"
  let ?m = "chat_view_of env ?row"
  let ?touch = "update_where (\<lambda>t. ct_id t = i) (\<lambda>t. t\<lparr>ct_last_message_at := w_dbnow w\<rparr>)"
  let ?w = "w\<lparr>w_next_id := Suc (w_next_id w), w_db := (w_db w)\<lparr>d_chats := d_chats (w_db w) @ [?row], d_threads := ?touch (d_threads (w_db w))\<rparr>,
      w_signals := w_signals w @ [Announced (channelFor env i) (chat_event_json (echoEvent ?m client))]\<rparr>"
  have member: "ct_user_id t = a \<or> ct_coach_id t = a" "ct_user_id t = b \<or> ct_coach_id t = b"
    using people by (auto simp: doubleton_eq_iff)
  have "i \<in> ct_id ` set (d_threads (w_db w))" using find_Some_mem [OF t(1)] by auto
  then have fine: "chats_violation (w_db w) (d_chats (w_db w) @ [?row]) = None"
    using ok ids sender by (auto simp: chats_violation_def split: if_splits)
  have send: "chat_Send env i a raw client w = (Inr ?m, ?w)"
    using assms(1) body fine
    by (simp add: chat_Send_def chat_Thread_calm(2) [OF assms(1) t(1) member(1) t(2)] attempt_def bindE_def ret_def
        failIf_def CreateChatMessage_def fresh_id_def query_calm Let_def ignore_error_def TouchChatThread_def chat_Publish_def PUBLISH_def)
  have thread: "find (\<lambda>t. ct_id t = i) (d_threads (w_db ?w)) = Some (t\<lparr>ct_last_message_at := w_dbnow w\<rparr>)"
  proof -
    have "find (\<lambda>r. ct_id r = i) (?touch (d_threads (w_db w))) =
        map_option (\<lambda>r. if ct_id r = i then r\<lparr>ct_last_message_at := w_dbnow w\<rparr> else r) (find (\<lambda>r. ct_id r = i) (d_threads (w_db w)))"
      by (rule find_update_where) simp
    then show ?thesis using t(1) find_Some_mem [OF t(1)] by simp
  qed
  have rows: "newest_first cm_created_at (filter (\<lambda>m. cm_thread_id m = i) (d_chats (w_db ?w))) =
      ?row # newest_first cm_created_at (filter (\<lambda>m. cm_thread_id m = i) (d_chats (w_db w)))"
    using newest newest_first_append [of "filter (\<lambda>m. cm_thread_id m = i) (d_chats (w_db w))" cm_created_at ?row] by simp
  have ms: "ms = map (chat_view_of env) (take n (newest_first cm_created_at (filter (\<lambda>m. cm_thread_id m = i) (d_chats (w_db w)))))"
    using before by (simp add: History_calm [OF assms(1) t(1) member(2)] page_def)
  have "History env i b (Suc n) 0 ?w = (Inr (?m # ms), ?w)"
  proof -
    have "w_sched ?w = []" using assms(1) by simp
    moreover have "ct_user_id (t\<lparr>ct_last_message_at := w_dbnow w\<rparr>) = b \<or> ct_coach_id (t\<lparr>ct_last_message_at := w_dbnow w\<rparr>) = b"
      using member(2) by simp
    ultimately show ?thesis by (subst History_calm [OF _ thread]) (simp_all only: rows page_def drop_0 take_Suc_Cons list.map ms)
  qed
  with send show ?thesis by (intro exI [of _ ?m] exI [of _ ?w]) (simp add: chat_view_of_def)
qed

section \<open>Witnesses\<close>

definition chat_of :: "string \<Rightarrow> chat_thread" where
  "chat_of status = \<lparr>ct_id = 40, ct_user_id = 12, ct_coach_id = 11, ct_session_id = None, ct_status = status,
     ct_created_at = 0, ct_last_message_at = 0\<rparr>"

definition chat_world :: "sched list \<Rightarrow> world" where
  "chat_world sch = world_at (start_db\<lparr>d_threads := [chat_of ''active'']\<rparr>) sch monday_8 100"

lemma chat_members_only_witness:
  "refused (History acct_env 40 13 50 0) (chat_world [Others (d_chats_update (\<lambda>_. [])), Ok]) \<and>
   refused (chat_Send acct_env 40 13 ''hi'' []) (chat_world [Others (d_chats_update (\<lambda>_. [])), Ok])"
proof -
  have "db_inv (outsider 13 40) (chat_world [Others (d_chats_update (\<lambda>_. [])), Ok])"
    by (auto simp: db_inv_def chat_world_def world_at_def outsider_def chat_of_def rely_def)
  from chat_members_only [OF this] show ?thesis by blast
qed

definition bob_socket :: principal where
  "bob_socket = \<lparr>pr_user_id = 12, pr_email = [], pr_role = ''user'', pr_scope = ''session'', pr_expires_at = Some 1767600001\<rparr>"

lemma dead_sockets_close_witness:
  "\<exists>fs w'. handleIncoming paid_env (\<lambda>_. []) 40 bob_socket 77 no_event
       (world_at (start_db\<lparr>d_users := [deleted_mark 0 (account_row 12 ''Bob'' ''user'')]\<rparr>) [Ok] monday_8 100) = (Inr (False, fs), w') \<and>
     is_close fs"
proof -
  have "db_inv (inactive (pr_user_id bob_socket)) (world_at (start_db\<lparr>d_users := [deleted_mark 0 (account_row 12 ''Bob'' ''user'')]\<rparr>) [Ok] monday_8 100)"
    by (simp add: db_inv_def rely_def world_at_def inactive_def deleted_mark_def account_row_def live_def)
  from dead_sockets_close [OF disjI2 [OF this]] show ?thesis by blast
qed

lemma start_thread_once_witness:
  "\<exists>v w' t. StartThread acct_env 12 11 None before = (Inr v, w') \<and> active_of 12 11 (w_db w') = [t] \<and>
     StartThread acct_env 12 11 (Some 5) w' = (Inr v, w') \<and> active_of 12 11 (w_db before) = []"
proof -
  have b: "w_db before = start_db" "w_next_id before = 100" by (simp_all add: before_def world_at_def)
  have ok: "threads_ok (w_db before)" by (simp add: threads_ok_def threads_violation_def b start_db_def active_pairs_def)
  have none: "active_of 12 11 (w_db before) = []" by (simp add: active_of_def b start_db_def)
  have miss: "GetActiveThreadForPair 12 11 before = (Inl ErrNoRows, before)"
    by (simp add: GetActiveThread_calm none newest_first_def)
  have "\<exists>v w'. StartThread acct_env 12 11 None before = (Inr v, w')"
    by (simp add: StartThread_def miss attempt_def ret_def
        GetCoachApprovalStatus_def select_one_calm b start_db_def coach_profile_def coach_approved_def
        CreateChatThread_def bindE_def fresh_id_def query_calm Let_def threads_violation_def active_pairs_def is_active_def account_row_def)
  then obtain v w' where run: "StartThread acct_env 12 11 None before = (Inr v, w')" by blast
  from start_thread_once [OF before_calm ok run, of "Some 5"] run none show ?thesis by blast
qed

lemma sent_is_read_witness:
  "\<exists>m w'. chat_Send acct_env 40 12 '' hi '' [] (chat_world []) = (Inr m, w') \<and> cv_body m = ''hi'' \<and>
     History acct_env 40 11 1 0 w' = (Inr [m], w')"
proof -
  have hi: "trim_space '' hi '' = ''hi''" by code_simp
  have w: "w_sched (chat_world []) = []" "d_threads (w_db (chat_world [])) = [chat_of ''active'']"
    "d_chats (w_db (chat_world [])) = []" "12 \<in> u_id ` set (d_users (w_db (chat_world [])))"
    by (simp_all add: chat_world_def world_at_def start_db_def account_row_def)
  have "find (\<lambda>t. ct_id t = 40) (d_threads (w_db (chat_world []))) = Some (chat_of ''active'')" by (simp add: w chat_of_def)
  then have before: "History acct_env 40 11 0 0 (chat_world []) = (Inr [], chat_world [])"
    by (subst History_calm [OF w(1)]) (assumption, simp_all add: w chat_of_def page_def)
  have "\<exists>m w'. chat_Send acct_env 40 12 '' hi '' [] (chat_world []) = (Inr m, w') \<and> cv_body m = trim_space '' hi '' \<and>
      w_signals w' = w_signals (chat_world []) @ [Announced (channelFor acct_env 40) (chat_event_json (echoEvent m []))] \<and>
      History acct_env 40 11 (Suc 0) 0 w' = (Inr (m # []), w')"
    by (rule sent_is_read [where t = "chat_of ''active''" and b = 11, OF w(1) _ _ _ _ _ _ _ w(4) _ before])
      (simp_all add: w chat_of_def is_active_def hi max_message_length_def chats_violation_def insert_commute)
  then show ?thesis by (auto simp: hi)
qed

end
