(* ===== verification/Analysis_Properties.thy ===== *)
theory Analysis_Properties
  imports Analysis_Worker Chat_Properties
begin

text \<open>
  Who may see and start analyses, what a submission with a bad message leaves, and what
  becomes of an analysis job.
\<close>

section \<open>Owners only\<close>

definition stranger :: "uuid \<Rightarrow> uuid \<Rightarrow> db \<Rightarrow> bool" where
  "stranger u i d \<longleftrightarrow> (\<forall>c \<in> set (d_conversations d). cn_id c = i \<longrightarrow> cn_user_id c \<noteq> u)"

lemma ownedConversation_refused:
  assumes "db_inv I w" and "\<And>d. I d \<Longrightarrow> stranger u i d"
  shows "refused (ownedConversation i u) w"
  unfolding ownedConversation_def GetConversation_def
proof (rule refused_lookup)
  fix c w'
  assume read: "only_read w w'" and c: "find (\<lambda>c. cn_id c = i) (d_conversations (w_db w')) = Some c"
  have "stranger u i (w_db w')" using only_read_inv [OF read assms(1)] assms(2) by (simp add: db_inv_def)
  with find_Some_mem [OF c] have "cn_user_id c \<noteq> u" by (auto simp: stranger_def)
  then show "refused (if cn_user_id c \<noteq> u then throw ErrForbidden else ret c) w'" by (simp add: refused_throw)
qed

definition analysed_in :: "uuid \<Rightarrow> uuid \<Rightarrow> db \<Rightarrow> bool" where
  "analysed_in k i d \<longleftrightarrow> (\<forall>a \<in> set (d_analyses d). an_id a = k \<longrightarrow> an_conversation_id a = i)"

text \<open>
  C18: conversations and their analyses are private to their owner.  To anyone else, and
  whatever requests run in between as long as the conversation does not become the caller's,
  reading its latest result or a result by its id, analysing it again and labelling it are
  refused with an error; nothing is queued, and nothing in the database changes but by those
  other requests.
\<close>

theorem analysis_owner_only:
  assumes "db_inv (\<lambda>d. stranger u i d \<and> analysed_in k i d) w"
  shows "refused (Reanalyze env i u) w \<and> refused (LatestForConversation env i u) w \<and> refused (analysis_Get env k u) w \<and>
    refused (Label i u b) w"
proof -
  have owned: "refused (ownedConversation i u) w" by (rule ownedConversation_refused [OF assms]) simp
  have "refused (analysis_Get env k u) w"
    unfolding analysis_Get_def GetAnalysisResult_def
  proof (rule refused_lookup)
    fix a w'
    assume read: "only_read w w'" and a: "find (\<lambda>a. an_id a = k) (d_analyses (w_db w')) = Some a"
    note inv = only_read_inv [OF read assms]
    then have "an_conversation_id a = i" using find_Some_mem [OF a] by (auto simp: db_inv_def analysed_in_def)
    then have "refused (ownedConversation (an_conversation_id a) u) w'"
      using ownedConversation_refused [OF inv] by simp
    then show "refused (bindE (ownedConversation (an_conversation_id a) u) (\<lambda>_. ret (resultOf env a))) w'" by (rule refused_bindE)
  qed
  with owned show ?thesis
    unfolding Reanalyze_def LatestForConversation_def Label_def by (auto intro: refused_bindE)
qed

section \<open>Bad submissions\<close>

lemma entry_signals: "next_entry w = (b, w') \<Longrightarrow> w_signals w' = w_signals w"
  by (auto simp: next_entry_def split: list.splits sched.splits if_splits)

lemma keeps_signals_query [keeps_intros]: "keeps (\<lambda>w. w_signals w = s) (query f)"
proof (rule keepsI)
  fix w :: world assume "w_signals w = s"
  moreover obtain b w1 where "next_entry w = (b, w1)" by (cases "next_entry w")
  ultimately show "w_signals (snd (query f w)) = s"
    by (auto simp: query_def dest: entry_signals split: bool.splits sum.splits)
qed

lemma keeps_signals_fresh [keeps_intros]: "keeps (\<lambda>w. w_signals w = s) fresh_id"
  by (simp add: keeps_def fresh_id_def)

text \<open>A transaction whose body cannot succeed, and announces nothing, leaves no trace.\<close>

lemma refused_transaction:
  assumes "\<And>w. \<exists>e. fst (body w) = Inl e" and "\<And>J. keeps (sched_inv J) body" and "\<And>s. keeps (\<lambda>w. w_signals w = s) body"
  shows "refused (transaction body) w"
proof -
  obtain b w1 where n: "next_entry w = (b, w1)" by (cases "next_entry w")
  note read = entry_only_reads [OF n]
  show ?thesis
  proof (cases b)
    case True
    with n read show ?thesis by (auto simp: refused_def transaction_def)
  next
    case False
    let ?w = "w1\<lparr>w_in_tx := True\<rparr>"
    obtain e w2 where body: "body ?w = (Inl e, w2)" using assms(1) [of ?w] by (metis prod.collapse)
    have "w_signals w2 = w_signals w1" using keepsD [OF assms(3) _ body, of "w_signals w1"] by simp
    moreover have "rely J (w_sched w2)" if "rely J (w_sched w1)" for J
      using keepsD [OF assms(2) _ body, of J] that by (simp add: sched_inv_def)
    ultimately have "only_read w1 (w2\<lparr>w_db := w_db w1, w_in_tx := w_in_tx w1\<rparr>)"
      by (simp add: only_read_def db_inv_def)
    moreover have "transaction body w = (Inl e, w2\<lparr>w_db := w_db w1, w_in_tx := w_in_tx w1\<rparr>)"
      using n False body by (simp add: transaction_def)
    ultimately show ?thesis using read by (auto simp: refused_def intro: only_read_trans)
  qed
qed

definition unreadable_time :: "'a env_scheme \<Rightarrow> submit_message \<Rightarrow> bool" where
  "unreadable_time env m \<longleftrightarrow> sm_sent_at m \<noteq> [] \<and> x_parse_rfc3339 env (sm_sent_at m) = None"

lemma never_value:
  "(\<forall>x w. \<exists>e. fst (f x w) = Inl e) \<Longrightarrow> \<exists>e. fst (bindE m f w) = Inl e"
  by (cases "m w"; cases "fst (m w)") (auto simp: bindE_def)

lemma store_messages_fails: "list_ex (unreadable_time env) ms \<Longrightarrow> \<exists>e. fst (store_messages env i n ms w) = Inl e"
proof (induction ms arbitrary: n w)
  case (Cons m ms)
  show ?case
  proof (cases "unreadable_time env m")
    case True
    then show ?thesis by (simp add: unreadable_time_def bindE_def asks_def throw_def)
  next
    case False
    with Cons have "\<exists>e. fst (store_messages env i n ms w) = Inl e" for n w by simp
    then show ?thesis unfolding store_messages.simps by (intro never_value allI)
  qed
qed simp

lemma keeps_store_messages [keeps_intros]:
  assumes "\<And>n v v' t. keeps I (CreateMessage i n v v' t)"
  shows "keeps I (store_messages env i n ms)"
  using assms by (induction ms arbitrary: n) (auto intro!: keeps_intros)

lemma keeps_submit_tx:
  assumes "\<And>f :: world \<Rightarrow> go_error + (conversation \<times> db). keeps I (query f)" and "\<And>f :: world \<Rightarrow> go_error + (message \<times> db). keeps I (query f)"
    and "\<And>f :: world \<Rightarrow> go_error + (analysis_result \<times> db). keeps I (query f)" and "keeps I fresh_id"
  shows "keeps I (submit_tx env u b)"
  unfolding submit_tx_def CreateConversation_def CreateMessage_def CreateAnalysisResult_def
  by (intro keeps_intros assms keeps_store_messages) (simp_all add: CreateMessage_def keeps_bindE assms)

text \<open>
  C21: a submission is stored as a whole or not at all.  Without messages, with more than 500,
  or with any message that has another sender, a blank body, more than 4000 bytes or a time that
  does not parse, wherever it stands among the others, it is refused with an error: nothing is
  queued, and nothing stays in the database.
\<close>

theorem bad_submit_refused:
  assumes "su_messages b = [] \<or> max_messages < length (su_messages b) \<or>
    list_ex (\<lambda>m. \<not> submit_message_ok m \<or> unreadable_time env m) (su_messages b)"
  shows "refused (Submit env u b) w"
  unfolding Submit_def
proof (intro refused_failIf refused_bindE refused_transaction)
  assume "\<not> su_messages b = []" "\<not> max_messages < length (su_messages b)" "\<not> \<not> list_all submit_message_ok (su_messages b)"
  with assms have bad: "list_ex (unreadable_time env) (su_messages b)" by (auto simp: list_ex_iff list_all_iff)
  show "\<exists>e. fst (submit_tx env u b w) = Inl e" for w
  proof -
    have "\<exists>e. fst (bindE (store_messages env i 0 (su_messages b)) f w) = Inl e" for i w and f :: "unit \<Rightarrow> (bool \<times> conversation \<times> analysis_result) request"
    proof -
      obtain e where e: "fst (store_messages env i 0 (su_messages b) w) = Inl e" using store_messages_fails [OF bad] by blast
      show ?thesis by (cases "store_messages env i 0 (su_messages b) w") (use e in \<open>auto simp: bindE_def\<close>)
    qed
    then show ?thesis unfolding submit_tx_def by (intro never_value) blast
  qed
  show "keeps (sched_inv J) (submit_tx env u b)" for J
    by (intro keeps_submit_tx sci.keeps_query sci.keeps_fresh_id) simp_all
  show "keeps (\<lambda>w. w_signals w = s) (submit_tx env u b)" for s
    by (intro keeps_submit_tx keeps_signals_query keeps_signals_fresh)
qed

section \<open>A job\<close>

text \<open>
  What is to become of an analysis when its job is delivered: an unfinished one is running until
  the analyzer has answered.
\<close>

definition handled :: "instant \<Rightarrow> bool \<Rightarrow> string + ml_response \<Rightarrow> analysis_result \<Rightarrow> disposition \<times> analysis_result" where
  "handled now redelivered reply a =
     (if \<not> unfinished a then (Acked, a)
      else let a' = running_set now a in
        case reply of
          Inr r \<Rightarrow> (Acked, succeeded_set (mr_segments r) (mr_overall r) (mr_model_version r) now a')
        | Inl text \<Rightarrow>
            if \<not> redelivered then (Requeued, a')
            else if storable text then (Acked, analysis_failed_set text now a')
            else (Rejected, a'))"

definition preferences_in :: "db \<Rightarrow> uuid \<Rightarrow> string" where
  "preferences_in d u = (case find (\<lambda>r. u_id r = u \<and> live r) (d_users d) of None \<Rightarrow> [] | Some r \<Rightarrow> u_dating_preferences r)"

definition transcript :: "db \<Rightarrow> uuid \<Rightarrow> message list" where
  "transcript d k = sort_key ms_position (filter (\<lambda>m. ms_conversation_id m = k) (d_messages d))"

definition set_row :: "uuid \<Rightarrow> analysis_result \<Rightarrow> analysis_result list \<Rightarrow> analysis_result list" where
  "set_row i a' rows = map (\<lambda>x. if an_id x = i then a' else x) rows"

lemma set_row_update:
  assumes "distinct (map an_id rows)" and "a \<in> set rows" "P a"
  shows "update_where (\<lambda>x. an_id x = an_id a \<and> P x) f rows = set_row (an_id a) (f a) rows"
    "filter (\<lambda>x. an_id x = an_id a \<and> P x) rows = [a]"
proof -
  have same: "x = a" if "x \<in> set rows" "an_id x = an_id a" for x
    using distinct_keys_eq [OF assms(1) that(1) assms(2)] that(2) by simp
  then show "update_where (\<lambda>x. an_id x = an_id a \<and> P x) f rows = set_row (an_id a) (f a) rows"
    using assms(3) unfolding update_where_def set_row_def by (intro map_cong refl) auto
  have "filter (\<lambda>x. an_id x = an_id a \<and> P x) rows = filter (\<lambda>x. x = a) rows"
    using same assms(3) by (intro filter_cong refl) auto
  also have "\<dots> = [a]" using assms(1,2) by (induction rows) (auto simp: filter_empty_conv)
  finally show "filter (\<lambda>x. an_id x = an_id a \<and> P x) rows = [a]" .
qed

lemma set_row_facts:
  assumes "an_id a' = i"
  shows "map an_id (set_row i a' rows) = map an_id rows" "set_row i a'' (set_row i a' rows) = set_row i a'' rows"
    "i \<in> an_id ` set rows \<Longrightarrow> find (\<lambda>x. an_id x = i) (set_row i a' rows) = Some a'"
    "i \<in> an_id ` set rows \<Longrightarrow> a' \<in> set (set_row i a' rows)"
    "filter (\<lambda>x. an_id x \<noteq> i) (set_row i a' rows) = filter (\<lambda>x. an_id x \<noteq> i) rows"
  using assms by (induction rows) (auto simp: set_row_def)

lemma update_analysis_calm:
  assumes "w_sched w = []" and "distinct (map an_id (d_analyses (w_db w)))" and "a \<in> set (d_analyses (w_db w))" "P a"
  shows "update_analysis (\<lambda>x. an_id x = an_id a \<and> P x) f w =
    (Inr (f (w_dbnow w) a), w\<lparr>w_db := (w_db w)\<lparr>d_analyses := set_row (an_id a) (f (w_dbnow w) a) (d_analyses (w_db w))\<rparr>\<rparr>)"
  using assms by (simp add: update_analysis_def query_calm set_row_update)

lemma update_analysis_calm':
  assumes "w_sched w = []" and "distinct (map an_id (d_analyses (w_db w)))" and "a \<in> set (d_analyses (w_db w))"
  shows "update_analysis (\<lambda>x. an_id x = an_id a) f w =
    (Inr (f (w_dbnow w) a), w\<lparr>w_db := (w_db w)\<lparr>d_analyses := set_row (an_id a) (f (w_dbnow w) a) (d_analyses (w_db w))\<rparr>\<rparr>)"
  using update_analysis_calm [where P = "\<lambda>_. True", OF assms] by simp

lemma notifyReady_calm:
  assumes "w_sched w = []"
  shows "\<exists>w'. notifyReady env u c i w = (Inr (), w') \<and> d_analyses (w_db w') = d_analyses (w_db w)"
  using assms
  by (auto simp: notifyReady_def ret_def CreateNotification_def bindE_def fresh_id_def query_calm Let_def attempt_def Push_def
      ignore_error_def MarkNotificationSent_def split: option.splits)

lemma datingPreferences_calm: "w_sched w = [] \<Longrightarrow> datingPreferences u w = (Inr (preferences_in (w_db w) u), w)"
  by (simp add: datingPreferences_def GetUserByID_def select_one_calm attempt_def ret_def preferences_in_def split: option.splits)

definition becomes :: "analysis_result \<Rightarrow> world \<Rightarrow> world" where
  "becomes a' w = w\<lparr>w_db := (w_db w)\<lparr>d_analyses := set_row (an_id a') a' (d_analyses (w_db w))\<rparr>\<rparr>"

lemma becomes_simps [simp]:
  "w_sched (becomes a' w) = w_sched w" "w_now (becomes a' w) = w_now w" "w_dbnow (becomes a' w) = w_dbnow w"
  "w_in_tx (becomes a' w) = w_in_tx w"
  "d_analyses (w_db (becomes a' w)) = set_row (an_id a') a' (d_analyses (w_db w))"
  "d_conversations (w_db (becomes a' w)) = d_conversations (w_db w)"
  "transcript (w_db (becomes a' w)) k = transcript (w_db w) k" "preferences_in (w_db (becomes a' w)) u = preferences_in (w_db w) u"
  "an_id (running_set now a) = an_id a" "an_id (succeeded_set x y z now a) = an_id a" "an_id (analysis_failed_set v now a) = an_id a"
  by (simp_all add: becomes_def running_set_def succeeded_set_def analysis_failed_set_def transcript_def preferences_in_def)

lemma becomes_again: "an_id a'' = an_id a' \<Longrightarrow> becomes a'' (becomes a' w) = becomes a'' w"
  by (simp add: becomes_def set_row_facts(2))

lemma update_becomes:
  assumes "w_sched w = []" and "distinct (map an_id (d_analyses (w_db w)))" and "an_id a \<in> an_id ` set (d_analyses (w_db w))"
    and "an_id (f (w_dbnow w) a) = an_id a"
  shows "update_analysis (\<lambda>x. an_id x = an_id a) f (becomes a w) = (Inr (f (w_dbnow w) a), becomes (f (w_dbnow w) a) w)"
proof -
  have "update_analysis (\<lambda>x. an_id x = an_id a) f (becomes a w) = (Inr (f (w_dbnow w) a), becomes (f (w_dbnow w) a) (becomes a w))"
    using update_analysis_calm' [of "becomes a w" a f] assms set_row_facts(1,4) [of a "an_id a" "d_analyses (w_db w)"]
    by (simp add: becomes_def [of "f (w_dbnow w) a"])
  then show ?thesis by (simp add: becomes_again assms(4))
qed

lemma handle_running:
  assumes calm: "w_sched w = []" and ids: "x_parse_uuid env analysis = Some (an_id a)" "x_parse_uuid env conversation = Some k"
    and key: "distinct (map an_id (d_analyses (w_db w)))" and a: "a \<in> set (d_analyses (w_db w))" "unfinished a"
    and c: "find (\<lambda>c. cn_id c = k) (d_conversations (w_db w)) = Some c"
  shows "Handle_analysis env analysis conversation user redelivered w =
    (case Analyze env (w_now w) (ml_request_of env c (transcript (w_db w) k) (preferences_in (w_db w) (cn_user_id c)) k) of
       Inl text \<Rightarrow> analysis_fail (an_id a) redelivered ErrAnalyzer text (becomes (running_set (w_dbnow w) a) w)
     | Inr r \<Rightarrow> bindE (CompleteAnalysis (an_id a) (mr_segments r) (mr_overall r) (mr_model_version r))
         (\<lambda>_. notifyReady env user conversation (an_id a)) (becomes (running_set (w_dbnow w) a) w))"
proof -
  let ?w = "becomes (running_set (w_dbnow w) a) w"
  have claim: "ClaimAnalysis (an_id a) w = (Inr (running_set (w_dbnow w) a), ?w)"
    unfolding ClaimAnalysis_def update_analysis_calm [where P = unfinished, OF calm key a] by (simp add: becomes_def)
  have calmw: "w_sched ?w = []" using calm by simp
  have reads: "GetConversation k ?w = (Inr c, ?w)" "ListMessages k ?w = (Inr (transcript (w_db w) k), ?w)"
    "datingPreferences (cn_user_id c) ?w = (Inr (preferences_in (w_db w) (cn_user_id c)), ?w)"
    using c datingPreferences_calm [OF calmw, of "cn_user_id c"]
    by (simp_all add: GetConversation_def select_one_calm ListMessages_def select_calm calm transcript_def [symmetric])
  show ?thesis
    by (simp add: Handle_analysis_def ids attempt_def claim score_analysis_def reads bindE_def [of "asks w_now"] asks_def split: sum.splits)
qed

text \<open>The three ways a delivery goes: nothing left to do, an answer, a failure.\<close>

lemma finished_acked:
  assumes calm: "w_sched w = []" and ids: "x_parse_uuid env analysis = Some (an_id a)" "x_parse_uuid env conversation = Some k"
    and key: "distinct (map an_id (d_analyses (w_db w)))" and a: "a \<in> set (d_analyses (w_db w))" "\<not> unfinished a"
  shows "consume_analysis env (Some (AnalysisJob analysis conversation user)) redelivered w = (Inr Acked, w)"
proof -
  have "filter (\<lambda>x. an_id x = an_id a \<and> unfinished x) (d_analyses (w_db w)) = []"
    using a(2) distinct_keys_eq [OF key _ a(1)] by (auto simp: filter_empty_conv)
  then have "ClaimAnalysis (an_id a) w = (Inl ErrNoRows, w)"
    by (simp add: ClaimAnalysis_def update_analysis_def query_calm calm)
  then show ?thesis by (simp add: consume_analysis_def Handle_analysis_def ids attempt_def ret_def)
qed

lemma answer_stored:
  assumes calm: "w_sched w = []" and ids: "x_parse_uuid env analysis = Some (an_id a)" "x_parse_uuid env conversation = Some k"
    and key: "distinct (map an_id (d_analyses (w_db w)))" and a: "a \<in> set (d_analyses (w_db w))" "unfinished a"
    and c: "find (\<lambda>c. cn_id c = k) (d_conversations (w_db w)) = Some c"
    and reply: "Analyze env (w_now w) (ml_request_of env c (transcript (w_db w) k) (preferences_in (w_db w) (cn_user_id c)) k) = Inr r"
    and a': "a' = succeeded_set (mr_segments r) (mr_overall r) (mr_model_version r) (w_dbnow w) (running_set (w_dbnow w) a)"
  shows "\<exists>w'. Handle_analysis env analysis conversation user redelivered w = (Inr (), w') \<and>
    d_analyses (w_db w') = set_row (an_id a) a' (d_analyses (w_db w))"
proof -
  let ?a = "running_set (w_dbnow w) a"
  have i: "an_id ?a \<in> an_id ` set (d_analyses (w_db w))" using a by simp
  have "w_sched (becomes a' w) = []" using calm by simp
  from notifyReady_calm [OF this, of env user conversation "an_id a"]
  obtain w' where n: "notifyReady env user conversation (an_id a) (becomes a' w) = (Inr (), w')"
      "d_analyses (w_db w') = d_analyses (w_db (becomes a' w))" by blast
  have "update_analysis (\<lambda>x. an_id x = an_id a) (succeeded_set (mr_segments r) (mr_overall r) (mr_model_version r)) (becomes ?a w) =
      (Inr a', becomes a' w)"
    using update_becomes [where a = ?a, OF calm key i, of "succeeded_set (mr_segments r) (mr_overall r) (mr_model_version r)"] by (simp add: a')
  then have "Handle_analysis env analysis conversation user redelivered w = (Inr (), w')"
    unfolding handle_running [OF calm ids key a c, of user redelivered] by (simp add: reply bindE_def CompleteAnalysis_def n)
  with n(2) show ?thesis by (simp add: a')
qed

lemma failure_handled:
  assumes calm: "w_sched w = []" and ids: "x_parse_uuid env analysis = Some (an_id a)" "x_parse_uuid env conversation = Some k"
    and key: "distinct (map an_id (d_analyses (w_db w)))" and a: "a \<in> set (d_analyses (w_db w))" "unfinished a"
    and c: "find (\<lambda>c. cn_id c = k) (d_conversations (w_db w)) = Some c"
    and reply: "Analyze env (w_now w) (ml_request_of env c (transcript (w_db w) k) (preferences_in (w_db w) (cn_user_id c)) k) = Inl v"
  shows "Handle_analysis env analysis conversation user redelivered w =
    (if \<not> redelivered then (Inl ErrAnalyzer, becomes (running_set (w_dbnow w) a) w)
     else if storable v then (Inr (), becomes (analysis_failed_set v (w_dbnow w) (running_set (w_dbnow w) a)) w)
     else (Inl ErrDriver, becomes (running_set (w_dbnow w) a) w))"
proof -
  let ?a = "running_set (w_dbnow w) a"
  have i: "an_id ?a \<in> an_id ` set (d_analyses (w_db w))" using a by simp
  show ?thesis
    using update_becomes [where a = ?a, OF calm key i, of "analysis_failed_set v"] calm
    unfolding handle_running [OF calm ids key a c, of user redelivered]
    by (simp add: reply analysis_fail_def throw_def bindE_def FailAnalysis_def with_text_def ret_def query_calm)
qed

text \<open>
  C13: what a delivery makes of an analysis.  With nothing in between, the worker and the
  consumer do to the row and to the delivery what \<open>handled\<close> says: a finished analysis is left
  alone and the job acknowledged; otherwise the answer of the analyzer to the stored transcript
  is written down; a failure is returned to the queue the first time and recorded the second
  time, but if its text cannot be stored the job is thrown away and the row stays running.  No
  other analysis changes.
\<close>

theorem analysis_outcome:
  assumes calm: "w_sched w = []" and ids: "x_parse_uuid env analysis = Some (an_id a)" "x_parse_uuid env conversation = Some k"
    and key: "distinct (map an_id (d_analyses (w_db w)))" and a: "a \<in> set (d_analyses (w_db w))"
    and c: "find (\<lambda>c. cn_id c = k) (d_conversations (w_db w)) = Some c"
    and reply: "reply = Analyze env (w_now w) (ml_request_of env c (transcript (w_db w) k) (preferences_in (w_db w) (cn_user_id c)) k)"
  shows "\<exists>w'. consume_analysis env (Some (AnalysisJob analysis conversation user)) redelivered w =
      (Inr (fst (handled (w_dbnow w) redelivered reply a)), w') \<and>
    find (\<lambda>x. an_id x = an_id a) (d_analyses (w_db w')) = Some (snd (handled (w_dbnow w) redelivered reply a)) \<and>
    filter (\<lambda>x. an_id x \<noteq> an_id a) (d_analyses (w_db w')) = filter (\<lambda>x. an_id x \<noteq> an_id a) (d_analyses (w_db w))"
proof (cases "unfinished a")
  case False
  with finished_acked [OF calm ids key a False] find_key_unique [OF key a] show ?thesis by (simp add: handled_def)
next
  case True
  have i: "an_id a \<in> an_id ` set (d_analyses (w_db w))" using a by simp
  have finish: "?thesis" if "consume_analysis env (Some (AnalysisJob analysis conversation user)) redelivered w = (Inr d, w')"
      "d_analyses (w_db w') = set_row (an_id a) a' (d_analyses (w_db w))" "an_id a' = an_id a"
      "handled (w_dbnow w) redelivered reply a = (d, a')" for d a' w'
    using that set_row_facts(3,5) [OF that(3)] i by auto
  show ?thesis
  proof (cases reply)
    case (Inr r)
    with answer_stored [OF calm ids key a True c _ refl, of r user redelivered] reply obtain w' where
      w': "Handle_analysis env analysis conversation user redelivered w = (Inr (), w')" "d_analyses (w_db w') =
        set_row (an_id a) (succeeded_set (mr_segments r) (mr_overall r) (mr_model_version r) (w_dbnow w) (running_set (w_dbnow w) a)) (d_analyses (w_db w))"
      by auto
    from w'(1) have "consume_analysis env (Some (AnalysisJob analysis conversation user)) redelivered w = (Inr Acked, w')"
      by (simp add: consume_analysis_def attempt_def ret_def)
    from finish [OF this w'(2)] show ?thesis by (simp add: handled_def True Inr Let_def)
  next
    case (Inl v)
    note run = failure_handled [OF calm ids key a True c reply [symmetric, unfolded Inl], of user redelivered]
    have id: "an_id (snd (handled (w_dbnow w) redelivered reply a)) = an_id a" by (simp add: handled_def True Inl Let_def)
    have "consume_analysis env (Some (AnalysisJob analysis conversation user)) redelivered w =
        (Inr (fst (handled (w_dbnow w) redelivered reply a)), becomes (snd (handled (w_dbnow w) redelivered reply a)) w)"
      by (simp add: consume_analysis_def attempt_def ret_def run handled_def True Inl Let_def)
    from finish [OF this _ id] show ?thesis by (simp add: id)
  qed
qed

section \<open>Analysing again\<close>

lemma latest_append:
  assumes "an_conversation_id a = k" and "\<forall>x \<in> set (d_analyses d). an_conversation_id x = k \<longrightarrow> an_created_at x < an_created_at a"
  shows "latest_analysis k (d\<lparr>d_analyses := d_analyses d @ [a]\<rparr>) = Some a"
  using assms newest_first_append [of "filter (\<lambda>x. an_conversation_id x = k) (d_analyses d)" an_created_at a]
  by (simp add: latest_analysis_def)

lemma owned_calm:
  assumes "w_sched w = []" "find (\<lambda>c. cn_id c = k) (d_conversations (w_db w)) = Some c" "cn_user_id c = u"
  shows "ownedConversation k u w = (Inr c, w)"
  using assms by (simp add: ownedConversation_def GetConversation_def select_one_calm attempt_def ret_def)

lemma reanalyze_found:
  assumes "w_sched w = []" "find (\<lambda>c. cn_id c = k) (d_conversations (w_db w)) = Some c" "cn_user_id c = u"
    and "latest_analysis k (w_db w) = Some a" "unfinished a" and "\<not> w_in_tx w"
  shows "Reanalyze env k u w = (Inr (resultOf env a), w)"
  using assms
  by (simp add: Reanalyze_def bindE_def owned_calm [OF assms(1-3)] transaction_def reanalyze_tx_def LockConversation_def
      select_one_calm attempt_def GetLatestAnalysisForConversation_def ret_def abandon_def)

text \<open>
  Repeated requests start one run.  When the owner has asked for another analysis, asking
  again before it has finished gives the same run and changes nothing, so no second job is
  queued, provided that the clock of the database is past the earlier runs.
\<close>

theorem reanalyze_once:
  assumes calm: "w_sched w = []" "\<not> w_in_tx w" and "Reanalyze env k u w = (Inr v, w')"
    and clock: "\<forall>x \<in> set (d_analyses (w_db w)). an_conversation_id x = k \<longrightarrow> an_created_at x < w_dbnow w"
  shows "Reanalyze env k u w' = (Inr v, w')"
proof -
  obtain c where c: "find (\<lambda>c. cn_id c = k) (d_conversations (w_db w)) = Some c" "cn_user_id c = u"
    using assms(1,3)
    by (auto simp: Reanalyze_def bindE_def ownedConversation_def GetConversation_def select_one_calm attempt_def throw_def
        split: option.splits if_splits)
  note owned = owned_calm [OF calm(1) c]
  let ?i = "w_next_id w"
  let ?a = "new_analysis ?i k (w_dbnow w)"
  show ?thesis
  proof (cases "\<exists>a. latest_analysis k (w_db w) = Some a \<and> unfinished a")
    case True
    then obtain a where a: "latest_analysis k (w_db w) = Some a" "unfinished a" by blast
    from reanalyze_found [OF calm(1) c a calm(2)] assms(3) show ?thesis by simp
  next
    case False
    then have tx: "reanalyze_tx k (w\<lparr>w_in_tx := True\<rparr>) = bindE (CreateAnalysisResult k) (\<lambda>a. commit (True, a)) (w\<lparr>w_in_tx := True\<rparr>)"
      using calm c
      by (auto simp: reanalyze_tx_def bindE_def [of "LockConversation k"] LockConversation_def select_one_calm attempt_def bindE_def
          GetLatestAnalysisForConversation_def ret_def split: option.splits)
    have k: "k \<in> cn_id ` set (d_conversations (w_db w))" using find_Some_mem [OF c(1)] by auto
    have "?i \<notin> an_id ` set (d_analyses (w_db w))"
    proof
      assume dup: "?i \<in> an_id ` set (d_analyses (w_db w))"
      have "fst (Reanalyze env k u w) = Inl (ErrSql UniqueViolation)"
        using calm dup by (simp add: Reanalyze_def bindE_def owned transaction_def tx CreateAnalysisResult_def fresh_id_def query_calm Let_def)
      with assms(3) show False by simp
    qed
    with k calm have run: "transaction (reanalyze_tx k) w =
        (Inr (True, ?a), w\<lparr>w_next_id := Suc ?i, w_db := (w_db w)\<lparr>d_analyses := d_analyses (w_db w) @ [?a]\<rparr>\<rparr>)"
      by (simp add: transaction_def tx bindE_def CreateAnalysisResult_def fresh_id_def query_calm Let_def commit_def ret_def)
    with assms(3) calm have w': "w' = w\<lparr>w_next_id := Suc ?i, w_db := (w_db w)\<lparr>d_analyses := d_analyses (w_db w) @ [?a]\<rparr>,
        w_signals := w_signals w @ [Queued (y_analysis_queue env) (analysis_job env (an_id ?a) k u)]\<rparr>" and v: "v = resultOf env ?a"
      by (simp_all add: Reanalyze_def bindE_def owned attempt_def Publish_calm ret_def)
    have "latest_analysis k (w_db w') = Some ?a"
      using latest_append [of ?a k "w_db w"] clock by (simp add: w' new_analysis_def)
    moreover have "unfinished ?a" by (simp add: unfinished_def new_analysis_def)
    ultimately show ?thesis
      using reanalyze_found [of w' k c u ?a env] calm c v by (simp add: w')
  qed
qed

section \<open>An analysis that never ends\<close>

lemma newest_first_map: "(\<And>x. k (g x) = k x) \<Longrightarrow> newest_first k (map g rows) = map g (newest_first k rows)"
proof -
  assume k: "\<And>x. k (g x) = k x"
  have insort: "insort_key (\<lambda>r. - k r) (g x) (map g ys) = map g (insort_key (\<lambda>r. - k r) x ys)" for x ys
    by (induction ys) (simp_all add: k)
  show ?thesis unfolding newest_first_def by (induction rows) (simp_all add: insort)
qed

lemma latest_becomes:
  assumes key: "distinct (map an_id (d_analyses (w_db w)))" and a: "a \<in> set (d_analyses (w_db w))" "latest_analysis k (w_db w) = Some a"
    and a': "an_id a' = an_id a" "an_conversation_id a' = an_conversation_id a" "an_created_at a' = an_created_at a"
  shows "latest_analysis k (w_db (becomes a' w)) = Some a'"
proof -
  let ?rows = "d_analyses (w_db w)" and ?g = "\<lambda>x. if x = a then a' else x"
  have same: "set_row (an_id a) a' ?rows = map ?g ?rows"
    unfolding set_row_def by (intro map_cong refl) (use distinct_keys_eq [OF key _ a(1)] in auto)
  have "filter (\<lambda>x. an_conversation_id x = k) (map ?g ys) = map ?g (filter (\<lambda>x. an_conversation_id x = k) ys)" for ys
    using a'(2) by (induction ys) auto
  moreover have "newest_first an_created_at (map ?g ys) = map ?g (newest_first an_created_at ys)" for ys
    by (rule newest_first_map) (use a'(3) in simp)
  ultimately show ?thesis using a(2) a'(1) by (simp add: latest_analysis_def same split: list.splits)
qed

text \<open>
  An analyzer error whose text is not UTF-8 strands the analysis.  When the analyzer fails
  twice with such a text, for which a quotation cut in the middle of a character is enough, the
  job is thrown away while the row is still running; and from then on the owner's request to
  analyse the conversation again answers with that row and queues nothing.
\<close>

theorem unreadable_error_strands:
  assumes calm: "w_sched w = []" "\<not> w_in_tx w" and ids: "x_parse_uuid env analysis = Some (an_id a)" "x_parse_uuid env conversation = Some k"
    and key: "distinct (map an_id (d_analyses (w_db w)))" and a: "a \<in> set (d_analyses (w_db w))" "unfinished a" "latest_analysis k (w_db w) = Some a"
    and c: "find (\<lambda>c. cn_id c = k) (d_conversations (w_db w)) = Some c"
    and reply: "Analyze env (w_now w) (ml_request_of env c (transcript (w_db w) k) (preferences_in (w_db w) (cn_user_id c)) k) = Inl text"
      "\<not> storable text"
  shows "\<exists>w' v. consume_analysis env (Some (AnalysisJob analysis conversation user)) True w = (Inr Rejected, w') \<and>
    av_status v = ''running'' \<and> Reanalyze env k (cn_user_id c) w' = (Inr v, w')"
proof -
  let ?a = "running_set (w_dbnow w) a"
  let ?w = "becomes ?a w"
  have "Handle_analysis env analysis conversation user True w = (Inl ErrDriver, ?w)"
    using failure_handled [OF calm(1) ids key a(1,2) c reply(1), of user True] reply(2) by simp
  then have run: "consume_analysis env (Some (AnalysisJob analysis conversation user)) True w = (Inr Rejected, ?w)"
    by (simp add: consume_analysis_def attempt_def ret_def)
  have latest: "latest_analysis k (w_db ?w) = Some ?a"
    by (rule latest_becomes [OF key a(1,3)]) (simp_all add: running_set_def)
  have "Reanalyze env k (cn_user_id c) ?w = (Inr (resultOf env ?a), ?w)"
    by (rule reanalyze_found [OF _ _ refl latest]) (use calm c in \<open>simp_all add: unfinished_def running_set_def\<close>)
  moreover have "av_status (resultOf env ?a) = ''running''" by (simp add: resultOf_def running_set_def)
  ultimately show ?thesis using run by blast
qed

section \<open>Witnesses\<close>

definition ml_env :: "string + (nat \<times> string) \<Rightarrow> analysis_env" where
  "ml_env reply =
     \<lparr>x_provider = disabled, x_hold_ttl = minutes 30, x_app_url = ''https://app'', x_mail_from = ''no-reply@app'',
      x_load_location = (\<lambda>_. None), x_sha256_hex = (\<lambda>t. ''h'' @ t), x_uuid_text = (\<lambda>i. replicate i (CHR ''1'')),
      x_parse_uuid = (\<lambda>v. Some (length v)), x_parse_rfc3339 = (\<lambda>_. None), x_parse_url = (\<lambda>_. None),
      y_ml_url = ''http://ml/'', y_post = (\<lambda>_ _ _. reply),
      y_decode = (\<lambda>v. Inr \<lparr>mr_model_version = ''v1'', mr_segments = ''[]'', mr_overall = v\<rparr>),
      y_error_text = (\<lambda>_. ''error''), y_analysis_queue = ''conversation.analysis''\<rparr>"

definition talk :: conversation where
  "talk = \<lparr>cn_id = 50, cn_user_id = 12, cn_title = [], cn_platform = ''hinge'', cn_match_name = [], cn_created_at = 0\<rparr>"

definition run_of :: "string \<Rightarrow> analysis_result" where
  "run_of status = (new_analysis 51 50 0)\<lparr>an_status := status\<rparr>"

definition talk_world :: "string \<Rightarrow> sched list \<Rightarrow> world" where
  "talk_world status sch = world_at (start_db\<lparr>d_conversations := [talk], d_analyses := [run_of status]\<rparr>) sch monday_8 100"

lemma talk_world_simps [simp]:
  "w_sched (talk_world s sch) = sch" "w_in_tx (talk_world s sch) = False" "w_next_id (talk_world s sch) = 100" "w_dbnow (talk_world s sch) = monday_8"
  "d_conversations (w_db (talk_world s sch)) = [talk]" "d_analyses (w_db (talk_world s sch)) = [run_of s]"
  "cn_id talk = 50" "cn_user_id talk = 12" "an_id (run_of s) = 51" "an_conversation_id (run_of s) = 50" "an_status (run_of s) = s"
  "an_created_at (run_of s) = 0"
  by (simp_all add: talk_world_def world_at_def talk_def run_of_def new_analysis_def)

lemma ml_env_simps [simp]: "x_parse_uuid (ml_env r) v = Some (length v)"
  by (simp add: ml_env_def)

lemma analysis_owner_only_witness:
  "refused (Reanalyze (ml_env (Inl [])) 50 13) (talk_world ''pending'' [Others (d_users_update (\<lambda>_. [])), Ok]) \<and>
   refused (analysis_Get (ml_env (Inl [])) 51 13) (talk_world ''pending'' [Others (d_users_update (\<lambda>_. [])), Ok])"
proof -
  have "db_inv (\<lambda>d. stranger 13 50 d \<and> analysed_in 51 50 d) (talk_world ''pending'' [Others (d_users_update (\<lambda>_. [])), Ok])"
    by (auto simp: db_inv_def rely_def stranger_def analysed_in_def)
  from analysis_owner_only [OF this, of "ml_env (Inl [])"] show ?thesis by blast
qed

definition late_mistake :: submit_input where
  "late_mistake = \<lparr>su_title = [], su_platform = [], su_match_name = [],
     su_messages = [\<lparr>sm_sender = ''self'', sm_body = ''hi'', sm_sent_at = []\<rparr>, \<lparr>sm_sender = ''match'', sm_body = ''hey'', sm_sent_at = ''today''\<rparr>]\<rparr>"

lemma bad_submit_refused_witness: "refused (Submit (ml_env (Inl [])) 12 late_mistake) (talk_world ''pending'' [])"
  by (rule bad_submit_refused) (simp add: late_mistake_def unreadable_time_def ml_env_def)

lemma analysis_outcome_witness:
  "\<exists>w' a. consume_analysis (ml_env (Inr (200, ''{}''))) (Some (AnalysisJob (replicate 51 (CHR ''1'')) (replicate 50 (CHR ''1'')) [])) False (talk_world ''pending'' []) = (Inr Acked, w') \<and>
     find (\<lambda>x. an_id x = 51) (d_analyses (w_db w')) = Some a \<and> an_status a = ''succeeded'' \<and> an_overall a = ''{}''"
proof -
  let ?env = "ml_env (Inr (200, ''{}''))" and ?w = "talk_world ''pending'' []"
  have reply: "Inr \<lparr>mr_model_version = ''v1'', mr_segments = ''[]'', mr_overall = ''{}''\<rparr> =
      Analyze ?env (w_now ?w) (ml_request_of ?env talk (transcript (w_db ?w) 50) (preferences_in (w_db ?w) (cn_user_id talk)) 50)"
    by (simp add: Analyze_def ml_post_def ml_env_def)
  have "\<exists>w'. consume_analysis ?env (Some (AnalysisJob (replicate 51 (CHR ''1'')) (replicate 50 (CHR ''1'')) [])) False ?w =
      (Inr (fst (handled (w_dbnow ?w) False (Inr \<lparr>mr_model_version = ''v1'', mr_segments = ''[]'', mr_overall = ''{}''\<rparr>) (run_of ''pending''))), w') \<and>
    find (\<lambda>x. an_id x = an_id (run_of ''pending'')) (d_analyses (w_db w')) =
      Some (snd (handled (w_dbnow ?w) False (Inr \<lparr>mr_model_version = ''v1'', mr_segments = ''[]'', mr_overall = ''{}''\<rparr>) (run_of ''pending''))) \<and>
    filter (\<lambda>x. an_id x \<noteq> an_id (run_of ''pending'')) (d_analyses (w_db w')) = filter (\<lambda>x. an_id x \<noteq> an_id (run_of ''pending'')) (d_analyses (w_db ?w))"
    by (rule analysis_outcome [OF _ _ _ _ _ _ reply]) simp_all
  then show ?thesis by (auto simp: handled_def unfinished_def succeeded_set_def)
qed

lemma reanalyze_once_witness:
  "\<exists>v w'. Reanalyze (ml_env (Inl [])) 50 12 (talk_world ''failed'' []) = (Inr v, w') \<and> w_signals w' \<noteq> [] \<and>
     Reanalyze (ml_env (Inl [])) 50 12 w' = (Inr v, w')"
proof -
  let ?w = "talk_world ''failed'' []"
  have latest: "latest_analysis 50 (w_db ?w) = Some (run_of ''failed'')" by (simp add: latest_analysis_def newest_first_def)
  have "\<exists>v w'. Reanalyze (ml_env (Inl [])) 50 12 ?w = (Inr v, w') \<and> w_signals w' \<noteq> []"
    by (simp add: Reanalyze_def bindE_def owned_calm [where c = talk] transaction_def reanalyze_tx_def LockConversation_def
        select_one_calm attempt_def GetLatestAnalysisForConversation_def ret_def latest unfinished_def CreateAnalysisResult_def
        fresh_id_def query_calm Let_def commit_def Publish_calm)
  then obtain v w' where run: "Reanalyze (ml_env (Inl [])) 50 12 ?w = (Inr v, w')" "w_signals w' \<noteq> []" by blast
  have "Reanalyze (ml_env (Inl [])) 50 12 w' = (Inr v, w')"
    by (rule reanalyze_once [OF _ _ run(1)]) (simp_all add: monday_8_def seconds_def)
  with run show ?thesis by blast
qed

lemma unreadable_error_strands_witness:
  "\<exists>w' v. consume_analysis (ml_env (Inr (500, ''caf'' @ [byte 0xE9])))
       (Some (AnalysisJob (replicate 51 (CHR ''1'')) (replicate 50 (CHR ''1'')) [])) True (talk_world ''running'' []) = (Inr Rejected, w') \<and>
     av_status v = ''running'' \<and> Reanalyze (ml_env (Inr (500, ''caf'' @ [byte 0xE9]))) 50 (cn_user_id talk) w' = (Inr v, w')"
proof (rule unreadable_error_strands)
  let ?text = "''ml service returned '' @ decimal (int 500) @ '': '' @ trim_space (take 512 (''caf'' @ [byte 0xE9]))"
  show "\<not> storable ?text" by code_simp
  show "Analyze (ml_env (Inr (500, ''caf'' @ [byte 0xE9]))) (w_now (talk_world ''running'' []))
      (ml_request_of (ml_env (Inr (500, ''caf'' @ [byte 0xE9]))) talk (transcript (w_db (talk_world ''running'' [])) 50)
        (preferences_in (w_db (talk_world ''running'' [])) (cn_user_id talk)) 50) = Inl ?text"
    by (simp add: Analyze_def ml_post_def ml_env_def)
  show "latest_analysis 50 (w_db (talk_world ''running'' [])) = Some (run_of ''running'')"
    by (simp add: latest_analysis_def newest_first_def)
qed (simp_all add: unfinished_def)

section \<open>A lost confirmation\<close>

definition one_line :: submit_input where
  "one_line = \<lparr>su_title = [], su_platform = [], su_match_name = [], su_messages = [\<lparr>sm_sender = ''self'', sm_body = ''hi'', sm_sent_at = []\<rparr>]\<rparr>"

text \<open>The broker takes the job twice without saying so, and the worker has finished it before \<open>Submit\<close> goes on.\<close>

definition confirmations_lost :: "sched list" where
  "confirmations_lost = [Ok, Ok, Ok, Ok, Ok, Ok, Unconfirmed, Ok, Unconfirmed,
     Others (d_analyses_update (map (succeeded_set ''[]'' ''{}'' ''v1'' 0)))]"

text \<open>
  \<open>Submit\<close> reports a failure although the job was queued, and writes it over the result that
  the worker has already stored, where \<open>Reanalyze\<close> would have left it (\<open>FailPendingAnalysis\<close>).
\<close>

lemma submit_overwrites_result:
  "\<exists>w' a. Submit (ml_env (Inl [])) 12 one_line (world_at start_db confirmations_lost monday_8 100) = (Inl ErrBroker, w') \<and>
     d_analyses (w_db w') = [a] \<and> an_status a = ''failed'' \<and> an_overall a = ''{}'' \<and> an_model_version a = ''v1'' \<and>
     length (w_signals w') = 2"
proof -
  have ok: "storable enqueue_failed" by code_simp
  have hi: "trim_space ''hi'' = ''hi''" by code_simp
  show ?thesis
    by (simp add: Submit_def one_line_def submit_message_ok_def max_analysis_message_length_def max_messages_def hi bindE_def failIf_def
        transaction_def world_at_def confirmations_lost_def next_entry_def submit_tx_def CreateConversation_def fresh_id_def query_def
        Let_def start_db_def account_row_def CreateMessage_def messages_violation_def asks_def ret_def CreateAnalysisResult_def
        new_analysis_def commit_def attempt_def Publish_def acquire_def queue_publish_def FailAnalysis_def with_text_def ok
        update_analysis_def analysis_failed_set_def succeeded_set_def throw_def)
qed

end
