(* ===== verification/Worker.thy ===== *)
theory Worker
  imports Config Deletion Outbox Booking Paid_Booking
begin

text \<open>
  The background process (cmd/worker/main.go) and the loops it runs: the ticks of the relays, of
  the booking expiry and of the payment sweep (\<open>Run\<close> and \<open>WatchExhausted\<close> in
  internal/notify/outbox.go, \<open>Run\<close> in internal/account/relay.go, \<open>PurgeExpiredRefreshTokens\<close> in
  internal/account/worker.go), and the restarts of a consumer; and what has to succeed before
  it and the API (cmd/api/main.go) start.

  A loop is run against a list of what its \<open>select\<close> receives; the list ends where the loop is
  left waiting.  A tick carries its time, which is the clock of the pass it sets off.
\<close>

section \<open>Loops\<close>

datatype beat = Tick instant | Done

definition clock_at :: "instant \<Rightarrow> unit request" where
  "clock_at t w = (Inr (), w\<lparr>w_now := t, w_dbnow := t\<rparr>)"

text \<open>A pass that fails is logged, and the next tick tries again.\<close>

fun on_ticks :: "'a request \<Rightarrow> beat list \<Rightarrow> unit request" where
  "on_ticks pass [] = ret ()"
| "on_ticks pass (Done # bs) = ret ()"
| "on_ticks pass (Tick t # bs) = bindE (clock_at t) (\<lambda>_. bindE (ignore_error pass) (\<lambda>_. on_ticks pass bs))"

text \<open>A pass that fails ends the loop with its error.\<close>

fun until_error :: "'a request \<Rightarrow> beat list \<Rightarrow> unit request" where
  "until_error pass [] = ret ()"
| "until_error pass (Done # bs) = ret ()"
| "until_error pass (Tick t # bs) = bindE (clock_at t) (\<lambda>_. bindE pass (\<lambda>_. until_error pass bs))"

definition expireBookings :: "nat \<Rightarrow> env \<Rightarrow> beat list \<Rightarrow> unit request" where
  "expireBookings fuel env = on_ticks (ExpirePending fuel env 0)"

definition sweepPayments :: "env \<Rightarrow> beat list \<Rightarrow> unit request" where
  "sweepPayments env = on_ticks (bindE (asks w_now) (SweepPayments env))"

definition relayDeletions :: "'a env_scheme \<Rightarrow> string \<Rightarrow> beat list \<Rightarrow> unit request" where
  "relayDeletions env queue = on_ticks (DrainDeletions env queue)"

definition relayEmails :: "mailer \<Rightarrow> beat list \<Rightarrow> unit request" where
  "relayEmails mx = on_ticks (DrainEmails mx)"

definition WatchExhausted :: "beat list \<Rightarrow> unit request" where
  "WatchExhausted = until_error (CountExhaustedEmails max_attempts)"

text \<open>The broker's answer to a passive declaration of the dead-letter queue is a parameter.\<close>

definition watchDeadLetters :: "nat request \<Rightarrow> beat list \<Rightarrow> unit request" where
  "watchDeadLetters depth = until_error depth"

definition PurgeExpiredRefreshTokens :: "beat list \<Rightarrow> unit request" where
  "PurgeExpiredRefreshTokens bs = bindE purge_pass (\<lambda>_. on_ticks purge_pass bs)"

section \<open>Restarting a consumer\<close>

text \<open>How a run of the consumer ends: by itself, or because the process is told to stop.\<close>

datatype ending = Broke | Stopped

text \<open>The waits between runs; a run is given by what it meets.\<close>

fun consume :: "('e \<Rightarrow> unit request) \<Rightarrow> int \<Rightarrow> ('e \<times> ending) list \<Rightarrow> int list request" where
  "consume run backoff [] = ret []"
| "consume run backoff ((e, how) # es) =
     bindE (ignore_error (run e)) (\<lambda>_.
     if how = Stopped then ret []
     else bindE (consume run (next_backoff backoff) es) (\<lambda>waits. ret (backoff # waits)))"

section \<open>Starting up\<close>

datatype consumer = TokenPurge | AnalysisJobs | DeletionJobs | DeadLetterMonitor | DeletionRelay | EmailRelay | EmailMonitor
  | BookingExpiry | PaymentSweep

datatype startup_error = BadConfig string | NoDatabase string | NoRedis string | NoBroker string | NoProvider payments_error

text \<open>\<open>store.Open\<close> and \<open>store.OpenRedis\<close> give the text of their error, if any.\<close>

definition worker_run ::
  "config_env \<Rightarrow> (string \<Rightarrow> string option) \<Rightarrow> (string \<Rightarrow> string option) \<Rightarrow> startup_error + consumer list" where
  "worker_run x open_db open_redis =
     (case Load x of Inl e \<Rightarrow> Inl (BadConfig e)
      | Inr g \<Rightarrow>
     (case open_db (g_database_url g) of Some e \<Rightarrow> Inl (NoDatabase e)
      | None \<Rightarrow>
     (case new_provider (g_payments_enabled g) of Inl e \<Rightarrow> Inl (NoProvider e)
      | Inr p \<Rightarrow>
     (case open_redis (g_redis_url g) of Some e \<Rightarrow> Inl (NoRedis e)
      | None \<Rightarrow>
          Inr ([TokenPurge, AnalysisJobs, DeletionJobs, DeadLetterMonitor, DeletionRelay, EmailRelay, EmailMonitor, BookingExpiry] @
            (if p_enabled p then [PaymentSweep] else []))))))"

text \<open>
  \<open>run\<close> of cmd/api/main.go up to where it serves: the configuration it serves with, whether Google
  sign-in is on, and the payment provider.  \<open>OpenPublisher\<close> of either queue gives the text of its
  error, if any.
\<close>

definition api_run ::
  "config_env \<Rightarrow> (string \<Rightarrow> string option) \<Rightarrow> (string \<Rightarrow> string option) \<Rightarrow> (string \<Rightarrow> string \<Rightarrow> string option) \<Rightarrow>
     startup_error + (config \<times> bool \<times> provider)" where
  "api_run x open_db open_redis open_publisher =
     (case Load x of Inl e \<Rightarrow> Inl (BadConfig e)
      | Inr g \<Rightarrow>
     (case open_db (g_database_url g) of Some e \<Rightarrow> Inl (NoDatabase e)
      | None \<Rightarrow>
     (case open_redis (g_redis_url g) of Some e \<Rightarrow> Inl (NoRedis e)
      | None \<Rightarrow>
     (case open_publisher (g_rabbitmq_url g) (g_analysis_queue g) of Some e \<Rightarrow> Inl (NoBroker e)
      | None \<Rightarrow>
     (case open_publisher (g_rabbitmq_url g) (g_account_deletion_queue g) of Some e \<Rightarrow> Inl (NoBroker e)
      | None \<Rightarrow>
     (case new_provider (g_payments_enabled g) of Inl e \<Rightarrow> Inl (NoProvider e)
      | Inr p \<Rightarrow> Inr (g, g_google_client_id g \<noteq> [], p)))))))"

end
