(* ===== verification/Chat_Socket.thy ===== *)
theory Chat_Socket
  imports Chat_Properties Deletion_Properties Worker
begin

text \<open>
  A chat socket from its opening to its end (\<open>websocket\<close> in internal/chat/handler.go), the index
  of open sockets (\<open>Register\<close> and \<open>EndSessions\<close> in internal/chat/hub.go), and the watcher that
  ends the sockets of a revoked account (\<open>WatchRevocations\<close> in internal/auth/revocation.go).

  The event loop is run against the list of what its \<open>select\<close> receives, each with its time; the
  list ends where the socket is left open.  Frames are given as they are written; a write that
  fails is logged by the code and has no other effect.
  The timer of the token's expiry is an event of the list: nothing is assumed of when it comes.
\<close>

section \<open>The event loop\<close>

datatype socket_event = ContextDone | RevocationSignal | TokenExpiry | AccountTick | PresenceTick
  | HubEvent "chat_event option" | ClientEvent "chat_event option"

fun socket_loop :: "env \<Rightarrow> (go_error \<Rightarrow> string) \<Rightarrow> uuid \<Rightarrow> principal \<Rightarrow> uuid \<Rightarrow> (instant \<times> socket_event) list \<Rightarrow> frame list request" where
  "socket_loop env texts i p conn [] = ret []"
| "socket_loop env texts i p conn ((t, ev) # rest) =
     bindE (clock_at t) (\<lambda>_.
     case ev of
       ContextDone \<Rightarrow> ret []
     | RevocationSignal \<Rightarrow> ret (closeSocket SocketRevoked)
     | TokenExpiry \<Rightarrow> ret (closeSocket SocketExpired)
     | AccountTick \<Rightarrow>
         bindE (sessionStatus (pr_user_id p)) (\<lambda>verdict.
         if verdict \<noteq> SocketActive then ret (closeSocket verdict) else socket_loop env texts i p conn rest)
     | PresenceTick \<Rightarrow>
         bindE (ignore_error (MarkOnline env (pr_user_id p) conn)) (\<lambda>_. socket_loop env texts i p conn rest)
     | HubEvent None \<Rightarrow> ret []
     | HubEvent (Some e) \<Rightarrow> bindE (socket_loop env texts i p conn rest) (\<lambda>fs. ret (Frame e # fs))
     | ClientEvent None \<Rightarrow> ret []
     | ClientEvent (Some e) \<Rightarrow>
         bindE (handleIncoming env texts i p conn e) (\<lambda>(stays, fs).
         if stays then bindE (socket_loop env texts i p conn rest) (\<lambda>gs. ret (fs @ gs)) else ret fs))"

text \<open>From the check of the caller to the end of the socket; what it registers is below.\<close>

definition chat_websocket ::
  "env \<Rightarrow> (go_error \<Rightarrow> string) \<Rightarrow> uuid \<Rightarrow> principal \<Rightarrow> uuid \<Rightarrow> (instant \<times> socket_event) list \<Rightarrow> frame list request" where
  "chat_websocket env texts i p conn evs =
     bindE (join_thread env i p conn) (\<lambda>(active, fs).
     bindE (if active then socket_loop env texts i p conn evs else ret []) (\<lambda>gs.
     bindE (ignore_error (MarkOffline env (pr_user_id p) conn)) (\<lambda>_. ret (fs @ gs))))"

section \<open>The index of sockets\<close>

text \<open>The sockets of an account are its connections; a socket's \<open>drop\<close> is told by its connection.\<close>

type_synonym socket_index = "uuid \<Rightarrow> uuid list option"

definition chat_Register :: "uuid \<Rightarrow> uuid \<Rightarrow> socket_index \<Rightarrow> socket_index" where
  "chat_Register u conn ix =
     (case ix u of None \<Rightarrow> ix(u \<mapsto> [conn]) | Some conns \<Rightarrow> ix(u \<mapsto> List.insert conn conns))"

definition chat_deregister :: "uuid \<Rightarrow> uuid \<Rightarrow> socket_index \<Rightarrow> socket_index" where
  "chat_deregister u conn ix =
     (case ix u of None \<Rightarrow> ix
      | Some conns \<Rightarrow> (let rest = removeAll conn conns in ix(u := if rest = [] then None else Some rest)))"

text \<open>The sockets whose \<open>drop\<close> is called, and the index without them.\<close>

definition chat_EndSessions :: "uuid \<Rightarrow> socket_index \<Rightarrow> uuid list \<times> socket_index" where
  "chat_EndSessions u ix = (case ix u of None \<Rightarrow> [] | Some conns \<Rightarrow> conns, ix(u := None))"

text \<open>
  What the subscription receives until its context is done: an error, after which the code waits
  a second, or the payload of an announcement.
\<close>

fun WatchRevocations :: "'a env_scheme \<Rightarrow> string option list \<Rightarrow> socket_index \<Rightarrow> uuid list \<times> socket_index" where
  "WatchRevocations env [] ix = ([], ix)"
| "WatchRevocations env (None # rest) ix = WatchRevocations env rest ix"
| "WatchRevocations env (Some payload # rest) ix =
     (case x_parse_uuid env payload of None \<Rightarrow> WatchRevocations env rest ix
      | Some u \<Rightarrow> (case chat_EndSessions u ix of (dropped, ix1) \<Rightarrow>
                   (case WatchRevocations env rest ix1 of (later, ix2) \<Rightarrow> (dropped @ later, ix2))))"

section \<open>A dead socket ends\<close>

text \<open>What a socket may meet without asking after its account.\<close>

fun unasked :: "socket_event \<Rightarrow> bool" where
  "unasked (HubEvent (Some e)) = True"
| "unasked PresenceTick = True"
| "unasked _ = False"

fun relayed :: "(instant \<times> socket_event) list \<Rightarrow> chat_event list" where
  "relayed ((t, HubEvent (Some e)) # rest) = e # relayed rest"
| "relayed ((t, PresenceTick) # rest) = relayed rest"
| "relayed _ = []"

lemma clock_only_reads: "\<exists>w'. clock_at t w = (Inr (), w') \<and> only_read w w'"
  by (simp add: clock_at_def only_read_def db_inv_def)

lemma presence_only_reads: "\<exists>w'. ignore_error (MarkOnline env u conn) w = (Inr (), w') \<and> only_read w w'"
proof -
  obtain b w1 where n: "next_entry w = (b, w1)" by (cases "next_entry w")
  note read = entry_only_reads [OF n]
  have "only_read w1 (w1\<lparr>w_redis := r\<rparr>)" for r by (simp add: only_read_def db_inv_def)
  with read have "only_read w (w1\<lparr>w_redis := r\<rparr>)" for r by (blast intro: only_read_trans)
  with n read show ?thesis by (auto simp: ignore_error_def MarkOnline_def redis_do_def attempt_def ret_def split: bool.splits)
qed

text \<open>How the run ends: what is written after the relayed messages, by the event that ends it.\<close>

definition parting :: "(instant \<times> socket_event) list \<Rightarrow> frame list \<Rightarrow> bool" where
  "parting evs cs =
     (case dropWhile (\<lambda>e. unasked (snd e)) evs of [] \<Rightarrow> cs = []
      | (t, ev) # rest \<Rightarrow> if ev \<in> {ContextDone, HubEvent None, ClientEvent None} then cs = [] else is_close cs)"

lemma parting_skips: "unasked ev \<Longrightarrow> parting ((t, ev) # rest) = parting rest"
  by (simp add: parting_def fun_eq_iff)

definition ends_as :: "(instant \<times> socket_event) list \<Rightarrow> go_error + frame list \<Rightarrow> bool" where
  "ends_as evs r \<longleftrightarrow> (\<exists>cs. r = Inr (map Frame (relayed evs) @ cs) \<and> parting evs cs)"

lemma ends_simps [simp]:
  "ends_as [] (Inr [])" "ends_as ((t, ContextDone) # rest) (Inr [])"
  "ends_as ((t, HubEvent None) # rest) (Inr [])" "ends_as ((t, ClientEvent None) # rest) (Inr [])"
  "is_close fs \<Longrightarrow> ends_as ((t, RevocationSignal) # rest) (Inr fs)"
  "is_close fs \<Longrightarrow> ends_as ((t, TokenExpiry) # rest) (Inr fs)"
  "is_close fs \<Longrightarrow> ends_as ((t, AccountTick) # rest) (Inr fs)"
  "is_close fs \<Longrightarrow> ends_as ((t, ClientEvent (Some e)) # rest) (Inr fs)"
  "ends_as ((t, PresenceTick) # rest) = ends_as rest"
  "ends_as rest (Inr fs) \<Longrightarrow> ends_as ((t, HubEvent (Some e)) # rest) (Inr (Frame e # fs))"
  by (auto simp: ends_as_def parting_def fun_eq_iff)

lemma ends_asE:
  assumes "ends_as evs r"
  obtains fs where "r = Inr fs"
  using assms by (auto simp: ends_as_def)

lemma is_close_single [simp]: "is_close [CloseFrame code reason]"
  by (simp add: is_close_def)

text \<open>
  C22: a socket of an account that may no longer act says nothing of its own.  Whatever the socket
  meets, and in whatever order, it does nothing but pass on the thread's messages until the first
  event that ends it: a client event of any kind, an account check, a revocation or an expiry, each
  answered with a close frame alone, or the end of the connection.  Nothing is announced, and
  nothing in the database changes but by requests that keep the account inactive.
\<close>

theorem revoked_socket_ends:
  assumes "db_inv (inactive (pr_user_id p)) w"
  shows "\<exists>r w'. socket_loop env texts i p conn evs w = (r, w') \<and> ends_as evs r \<and> only_read w w'"
  using assms
proof (induction evs arbitrary: w)
  case Nil
  then show ?case by (simp add: ret_def)
next
  case (Cons e rest)
  obtain t ev where e: "e = (t, ev)" by (cases e)
  let ?u = "pr_user_id p"
  obtain w1 where w1: "clock_at t w = (Inr (), w1)" "only_read w w1" using clock_only_reads [of t w] by blast
  have inv: "db_inv (inactive ?u) w1" by (rule only_read_inv [OF w1(2) Cons.prems])
  have "\<exists>r w'. socket_loop env texts i p conn ((t, ev) # rest) w = (r, w') \<and> ends_as ((t, ev) # rest) r \<and> only_read w1 w'"
  proof (cases ev)
    case AccountTick
    from sessionStatus_inactive [OF inv] obtain v w2 where
      "sessionStatus ?u w1 = (Inr v, w2)" "only_read w1 w2" "v \<noteq> SocketActive" "is_close (closeSocket v)" by blast
    with AccountTick w1 show ?thesis by (simp add: bindE_def ret_def)
  next
    case PresenceTick
    obtain w2 where w2: "ignore_error (MarkOnline env ?u conn) w1 = (Inr (), w2)" "only_read w1 w2"
      using presence_only_reads [of env ?u conn w1] by blast
    from Cons.IH [OF only_read_inv [OF w2(2) inv]] w2 PresenceTick w1 show ?thesis
      by (auto simp: bindE_def intro: only_read_trans)
  next
    case (HubEvent m)
    from Cons.IH [OF inv] obtain r w2 where r: "socket_loop env texts i p conn rest w1 = (r, w2)" "ends_as rest r" "only_read w1 w2"
      by blast
    then obtain fs where "r = Inr fs" by (auto elim: ends_asE)
    with r HubEvent w1 show ?thesis by (cases m) (auto simp: bindE_def ret_def)
  next
    case (ClientEvent m)
    obtain fs w2 where "m \<noteq> None \<Longrightarrow> handleIncoming env texts i p conn (the m) w1 = (Inr (False, fs), w2) \<and> is_close fs \<and> only_read w1 w2"
      using dead_sockets_close [OF disjI2 [OF inv], of env texts i conn "the m"] by blast
    with ClientEvent w1 show ?thesis by (cases m) (auto simp: bindE_def ret_def)
  qed (use w1 in \<open>simp_all add: bindE_def ret_def\<close>)
  with w1(2) show ?case unfolding e by (blast intro: only_read_trans)
qed

section \<open>A revocation reaches every socket\<close>

definition sockets_of :: "socket_index \<Rightarrow> uuid \<Rightarrow> uuid list" where
  "sockets_of ix u = (case ix u of None \<Rightarrow> [] | Some conns \<Rightarrow> conns)"

text \<open>No account is kept without a socket, and no socket is listed twice.\<close>

definition index_ok :: "socket_index \<Rightarrow> bool" where
  "index_ok ix \<longleftrightarrow> (\<forall>u. ix u \<noteq> Some [] \<and> distinct (sockets_of ix u) \<and>
     (\<forall>v. u \<noteq> v \<longrightarrow> set (sockets_of ix u) \<inter> set (sockets_of ix v) = {}))"

lemma index_okD:
  assumes "index_ok ix"
  shows "ix u \<noteq> Some []" "distinct (sockets_of ix u)" "u \<noteq> v \<Longrightarrow> set (sockets_of ix u) \<inter> set (sockets_of ix v) = {}"
  using assms unfolding index_ok_def by blast+

lemma sockets_of_upd: "sockets_of (ix(u := x)) v = (if v = u then (case x of None \<Rightarrow> [] | Some conns \<Rightarrow> conns) else sockets_of ix v)"
  by (simp add: sockets_of_def)

lemma sockets_of_EndSessions: "chat_EndSessions u ix = (sockets_of ix u, ix(u := None))"
  by (simp add: chat_EndSessions_def sockets_of_def)

lemma sockets_of_Register: "set (sockets_of (chat_Register u conn ix) v) = (if v = u then insert conn (set (sockets_of ix v)) else set (sockets_of ix v))"
  by (auto simp: chat_Register_def sockets_of_def split: option.splits)

lemma sockets_of_deregister: "sockets_of (chat_deregister u conn ix) v = (if v = u then removeAll conn (sockets_of ix v) else sockets_of ix v)"
  by (auto simp: chat_deregister_def sockets_of_def Let_def split: option.splits)

lemma Register_ok:
  assumes "index_ok ix" and new: "\<And>v. conn \<notin> set (sockets_of ix v)"
  shows "index_ok (chat_Register u conn ix)"
proof -
  note D = index_okD [OF assms(1)]
  have "chat_Register u conn ix v \<noteq> Some []" "distinct (sockets_of (chat_Register u conn ix) v)" for v
    using D(1,2) [of v] by (auto simp: chat_Register_def sockets_of_def List.insert_def split: option.splits if_splits)
  moreover have "set (sockets_of (chat_Register u conn ix) v) \<inter> set (sockets_of (chat_Register u conn ix) v') = {}" if "v \<noteq> v'" for v v'
    using D(3) [OF that] new that by (auto simp: sockets_of_Register)
  ultimately show ?thesis by (simp add: index_ok_def)
qed

lemma deregister_ok:
  assumes "index_ok ix"
  shows "index_ok (chat_deregister u conn ix)"
proof -
  note D = index_okD [OF assms]
  have "chat_deregister u conn ix v \<noteq> Some []" for v
    using D(1) [of v] by (auto simp: chat_deregister_def Let_def split: option.splits)
  moreover have "distinct (sockets_of (chat_deregister u conn ix) v)" for v
    using D(2) [of v] by (auto simp: sockets_of_deregister removeAll_filter_not_eq)
  moreover have "set (sockets_of (chat_deregister u conn ix) v) \<inter> set (sockets_of (chat_deregister u conn ix) v') = {}" if "v \<noteq> v'" for v v'
    using D(3) [OF that] by (auto simp: sockets_of_deregister)
  ultimately show ?thesis by (simp add: index_ok_def)
qed

lemma forget_ok:
  assumes "index_ok ix"
  shows "index_ok (ix(u := None))"
  using index_okD [OF assms] by (simp add: index_ok_def sockets_of_upd)

text \<open>The accounts whose revocation was heard.\<close>

definition announced :: "'a env_scheme \<Rightarrow> string option list \<Rightarrow> uuid set" where
  "announced env msgs = {u. \<exists>m. Some m \<in> set msgs \<and> x_parse_uuid env m = Some u}"

lemma announced_simps:
  "announced env [] = {}" "announced env (None # msgs) = announced env msgs"
  "announced env (Some m # msgs) = (case x_parse_uuid env m of None \<Rightarrow> announced env msgs | Some u \<Rightarrow> insert u (announced env msgs))"
  by (auto simp: announced_def split: option.splits)

lemma watch_drops:
  assumes "index_ok ix" and "WatchRevocations env msgs ix = (dropped, ix')"
  shows "distinct dropped \<and> set dropped = (\<Union>u \<in> announced env msgs. set (sockets_of ix u)) \<and>
    index_ok ix' \<and> (\<forall>v. ix' v = (if v \<in> announced env msgs then None else ix v))"
  using assms
proof (induction env msgs ix arbitrary: dropped ix' rule: WatchRevocations.induct)
  case (3 env m msgs ix)
  show ?case
  proof (cases "x_parse_uuid env m")
    case None
    with 3(4) have "WatchRevocations env msgs ix = (dropped, ix')" by simp
    note IH = 3(1) [OF None 3(3) this]
    from None show ?thesis unfolding announced_simps by (simp only: option.case) (rule IH)
  next
    case (Some u)
    obtain later ix2 where run: "WatchRevocations env msgs (ix(u := None)) = (later, ix2)"
      by (cases "WatchRevocations env msgs (ix(u := None))")
    note IH = 3(2) [OF Some sockets_of_EndSessions [symmetric] forget_ok [OF 3(3)] run]
    have res: "dropped = sockets_of ix u @ later" "ix' = ix2"
      using 3(4) Some run by (simp_all add: sockets_of_EndSessions)
    note D = index_okD [OF 3(3)]
    have rest: "set later = (\<Union>v \<in> announced env msgs - {u}. set (sockets_of ix v))"
      using IH [THEN conjunct2, THEN conjunct1] by (auto simp: sockets_of_upd simp del: fun_upd_apply split: if_splits)
    have "set (sockets_of ix u) \<inter> set (sockets_of ix v) = {}" if "v \<noteq> u" for v using D(3) [of u v] that by simp
    then have "set (sockets_of ix u) \<inter> set later = {}" unfolding rest by blast
    with IH D(2) [of u] have "distinct dropped" by (simp add: res)
    moreover have "set dropped = (\<Union>v \<in> announced env (Some m # msgs). set (sockets_of ix v))"
      using Some by (auto simp: res rest announced_simps)
    ultimately show ?thesis using IH Some by (auto simp: res announced_simps)
  qed
qed (simp_all add: announced_simps)

text \<open>
  C23: a revocation that is heard ends every socket the account has on this replica.
\<close>

theorem revocation_drops:
  assumes "uuid_round_trip env" and "index_ok ix" and "Some (x_uuid_text env u) \<in> set msgs"
    and "WatchRevocations env msgs ix = (dropped, ix')"
  shows "set (sockets_of ix u) \<subseteq> set dropped \<and> ix' u = None \<and> distinct dropped \<and>
    set dropped = (\<Union>v \<in> announced env msgs. set (sockets_of ix v)) \<and> (\<forall>v. v \<notin> announced env msgs \<longrightarrow> ix' v = ix v)"
proof -
  have "u \<in> announced env msgs" using assms(1,3) by (auto simp: announced_def uuid_round_trip_def)
  with watch_drops [OF assms(2,4)] show ?thesis by auto
qed

section \<open>Witnesses\<close>

lemma revoked_socket_ends_witness:
  "\<exists>r w'. socket_loop paid_env (\<lambda>_. []) 40 bob_socket 77
       [(monday_8, HubEvent (Some no_event)), (monday_8, PresenceTick), (monday_8, ClientEvent (Some no_event)), (monday_8, AccountTick)]
       (world_at (start_db\<lparr>d_users := [deleted_mark 0 (account_row 12 ''Bob'' ''user'')]\<rparr>) [Ok, Ok, Fault] monday_8 100) = (r, w') \<and>
     (\<exists>code reason. r = Inr [Frame no_event, CloseFrame code reason])"
proof -
  have "db_inv (inactive (pr_user_id bob_socket))
      (world_at (start_db\<lparr>d_users := [deleted_mark 0 (account_row 12 ''Bob'' ''user'')]\<rparr>) [Ok, Ok, Fault] monday_8 100)"
    by (simp add: db_inv_def rely_def world_at_def inactive_def deleted_mark_def account_row_def live_def)
  from revoked_socket_ends [OF this, of paid_env "\<lambda>_. []" 40 77
      "[(monday_8, HubEvent (Some no_event)), (monday_8, PresenceTick), (monday_8, ClientEvent (Some no_event)), (monday_8, AccountTick)]"]
  show ?thesis by (auto simp: ends_as_def parting_def is_close_def)
qed

definition two_sockets :: socket_index where
  "two_sockets = chat_Register 12 71 (chat_Register 12 70 (chat_Register 11 60 (\<lambda>_. None)))"

lemma two_sockets_ok: "index_ok two_sockets"
  by (simp add: two_sockets_def index_ok_def chat_Register_def sockets_of_def)

lemma revocation_drops_witness:
  "\<exists>dropped ix'. WatchRevocations unary_env [None, Some (x_uuid_text unary_env 12), Some (x_uuid_text unary_env 12)] two_sockets = (dropped, ix') \<and>
     set dropped = {70, 71} \<and> ix' 12 = None \<and> ix' 11 = Some [60]"
proof -
  let ?msgs = "[None, Some (x_uuid_text unary_env 12), Some (x_uuid_text unary_env 12)]"
  obtain dropped ix' where run: "WatchRevocations unary_env ?msgs two_sockets = (dropped, ix')"
    by (cases "WatchRevocations unary_env ?msgs two_sockets")
  have "announced unary_env ?msgs = {12}" by (auto simp: announced_def unary_env_def)
  moreover have "sockets_of two_sockets 12 = [71, 70]" "two_sockets 11 = Some [60]"
    by (simp_all add: two_sockets_def sockets_of_def chat_Register_def)
  ultimately have "set dropped = {70, 71}" "ix' 12 = None" "ix' 11 = Some [60]"
    using revocation_drops [OF unary_round_trip two_sockets_ok _ run, of 12] by auto
  with run show ?thesis by blast
qed

end
