(* ===== verification/Chat_Hub.thy ===== *)
theory Chat_Hub
  imports Chat
begin

text \<open>
  The chat hub (internal/chat/hub.go): the sockets of one replica, per thread, and the pumps that
  forward a thread's Redis messages to them.  As in the notification hub a channel is a bounded
  buffer that may be closed once and not written to afterwards (otherwise \<open>None\<close>, the panic), and
  sockets and contexts are told apart by numbers.

  Cancelling a context and the return of its pump are two steps: \<open>ReceiveMessage\<close> is a library
  call that need not notice the cancellation, and the code's loop looks at its context only when
  that call reports an error.
\<close>

record chat_sub =
  cs_id :: nat
  cs_events :: "chat_event list"

text \<open>\<open>ct_live\<close> are the contexts not cancelled, \<open>ct_pumps\<close> the pumps that have not returned.\<close>

record chat_hub =
  ct_threads :: "uuid \<Rightarrow> chat_sub list option"
  ct_cancels :: "uuid \<Rightarrow> nat option"
  ct_next :: nat
  ct_closed :: "nat set"
  ct_live :: "nat set"
  ct_pumps :: "(nat \<times> uuid) list"

definition chat_NewHub :: chat_hub where
  "chat_NewHub = \<lparr>ct_threads = (\<lambda>_. None), ct_cancels = (\<lambda>_. None), ct_next = 0, ct_closed = {}, ct_live = {}, ct_pumps = []\<rparr>"

definition chat_buffer :: nat where "chat_buffer = 32"

definition chat_Subscribe :: "uuid \<Rightarrow> chat_hub \<Rightarrow> nat \<times> chat_hub" where
  "chat_Subscribe t h =
     (let n = ct_next h;
          s = \<lparr>cs_id = n, cs_events = []\<rparr>
      in (n, case ct_threads h t of
             Some subs \<Rightarrow> h\<lparr>ct_threads := (ct_threads h)(t \<mapsto> subs @ [s]), ct_next := Suc n\<rparr>
           | None \<Rightarrow> h\<lparr>ct_threads := (ct_threads h)(t \<mapsto> [s]), ct_cancels := (ct_cancels h)(t \<mapsto> Suc n), ct_next := Suc (Suc n),
                       ct_live := insert (Suc n) (ct_live h), ct_pumps := ct_pumps h @ [(Suc n, t)]\<rparr>))"

definition chat_forget :: "uuid \<Rightarrow> chat_hub \<Rightarrow> chat_hub" where
  "chat_forget t h =
     (let h = h\<lparr>ct_threads := (ct_threads h)(t := None)\<rparr>
      in case ct_cancels h t of None \<Rightarrow> h
         | Some p \<Rightarrow> h\<lparr>ct_live := ct_live h - {p}, ct_cancels := (ct_cancels h)(t := None)\<rparr>)"

definition chat_unsubscribe :: "uuid \<Rightarrow> nat \<Rightarrow> chat_hub \<Rightarrow> chat_hub option" where
  "chat_unsubscribe t s h =
     (case ct_threads h t of None \<Rightarrow> Some h
      | Some subs \<Rightarrow>
          let rest = filter (\<lambda>x. cs_id x \<noteq> s) subs
          in if s \<in> ct_closed h then None
             else let h' = h\<lparr>ct_threads := (ct_threads h)(t \<mapsto> rest), ct_closed := insert s (ct_closed h)\<rparr>
                  in Some (if rest = [] then chat_forget t h' else h'))"

definition offer :: "chat_event \<Rightarrow> chat_sub \<Rightarrow> chat_sub" where
  "offer e s = (if length (cs_events s) < chat_buffer then s\<lparr>cs_events := cs_events s @ [e]\<rparr> else s)"

definition chat_broadcastLocal :: "uuid \<Rightarrow> chat_event \<Rightarrow> chat_hub \<Rightarrow> chat_hub option" where
  "chat_broadcastLocal t e h =
     (case ct_threads h t of None \<Rightarrow> Some h
      | Some subs \<Rightarrow>
          if cs_id ` set subs \<inter> ct_closed h \<noteq> {} then None
          else Some (h\<lparr>ct_threads := (ct_threads h)(t \<mapsto> map (offer e) subs)\<rparr>))"

text \<open>An event published on a thread's channel reaches every pump that still reads it.\<close>

fun each_pump :: "(nat \<times> uuid) list \<Rightarrow> uuid \<Rightarrow> chat_event \<Rightarrow> chat_hub \<Rightarrow> chat_hub option" where
  "each_pump [] t e h = Some h"
| "each_pump ((p, u) # ps) t e h =
     (if u = t then case chat_broadcastLocal t e h of None \<Rightarrow> None | Some h' \<Rightarrow> each_pump ps t e h' else each_pump ps t e h)"

definition chat_hears :: "uuid \<Rightarrow> chat_event \<Rightarrow> chat_hub \<Rightarrow> chat_hub option" where
  "chat_hears t e h = each_pump (ct_pumps h) t e h"

definition pump_returns :: "nat \<Rightarrow> chat_hub \<Rightarrow> chat_hub" where
  "pump_returns p h = h\<lparr>ct_pumps := filter (\<lambda>x. fst x \<noteq> p) (ct_pumps h)\<rparr>"

definition chat_takes :: "uuid \<Rightarrow> nat \<Rightarrow> chat_hub \<Rightarrow> chat_hub" where
  "chat_takes t s h =
     h\<lparr>ct_threads := (ct_threads h)(t := map_option (map (\<lambda>x. if cs_id x = s then x\<lparr>cs_events := tl (cs_events x)\<rparr> else x)) (ct_threads h t))\<rparr>"

text \<open>
  The handler of a socket defers its one call of \<open>unsubscribe\<close>, so only a socket still in the hub
  leaves it; a pump returns only when its context is cancelled.
\<close>

inductive chat_hub_step :: "chat_hub \<Rightarrow> chat_hub \<Rightarrow> bool" where
  joins: "chat_Subscribe t h = (s, h') \<Longrightarrow> chat_hub_step h h'"
| leaves: "ct_threads h t = Some subs \<Longrightarrow> s \<in> cs_id ` set subs \<Longrightarrow> chat_unsubscribe t s h = Some h' \<Longrightarrow> chat_hub_step h h'"
| one_pump: "(p, t) \<in> set (ct_pumps h) \<Longrightarrow> chat_broadcastLocal t e h = Some h' \<Longrightarrow> chat_hub_step h h'"
| all_pumps: "chat_hears t e h = Some h' \<Longrightarrow> chat_hub_step h h'"
| takes: "chat_hub_step h (chat_takes t s h)"
| returns: "p \<notin> ct_live h \<Longrightarrow> chat_hub_step h (pump_returns p h)"

definition thread_ok :: "chat_hub \<Rightarrow> uuid \<Rightarrow> chat_sub list \<Rightarrow> nat \<Rightarrow> bool" where
  "thread_ok h t subs p \<longleftrightarrow> subs \<noteq> [] \<and> distinct (map cs_id subs) \<and>
     (\<forall>s \<in> set subs. cs_id s < ct_next h \<and> cs_id s \<notin> ct_closed h \<and> length (cs_events s) \<le> chat_buffer) \<and>
     p \<in> ct_live h \<and> (p, t) \<in> set (ct_pumps h) \<and> p < ct_next h"

definition chat_hub_inv :: "chat_hub \<Rightarrow> bool" where
  "chat_hub_inv h \<longleftrightarrow>
     (\<forall>t. ct_threads h t = None \<longleftrightarrow> ct_cancels h t = None) \<and>
     (\<forall>t subs p. ct_threads h t = Some subs \<longrightarrow> ct_cancels h t = Some p \<longrightarrow> thread_ok h t subs p) \<and>
     (\<forall>t t' subs subs'. ct_threads h t = Some subs \<longrightarrow> ct_threads h t' = Some subs' \<longrightarrow> t \<noteq> t' \<longrightarrow>
        ct_cancels h t \<noteq> ct_cancels h t' \<and> cs_id ` set subs \<inter> cs_id ` set subs' = {}) \<and>
     (\<forall>p \<in> ct_live h. \<exists>t. ct_cancels h t = Some p) \<and>
     (\<forall>s \<in> ct_closed h. s < ct_next h)"

lemma chat_hub_invD:
  assumes "chat_hub_inv h"
  shows "ct_threads h t = None \<longleftrightarrow> ct_cancels h t = None"
    "ct_threads h t = Some subs \<Longrightarrow> ct_cancels h t = Some p \<Longrightarrow> thread_ok h t subs p"
    "ct_threads h t = Some subs \<Longrightarrow> ct_threads h t' = Some subs' \<Longrightarrow> t \<noteq> t' \<Longrightarrow>
       ct_cancels h t \<noteq> ct_cancels h t' \<and> cs_id ` set subs \<inter> cs_id ` set subs' = {}"
    "p \<in> ct_live h \<Longrightarrow> \<exists>t. ct_cancels h t = Some p" "s \<in> ct_closed h \<Longrightarrow> s < ct_next h"
  using assms unfolding chat_hub_inv_def by blast+

lemma chat_thread_cancel:
  assumes "chat_hub_inv h" and "ct_threads h t = Some subs"
  obtains p where "ct_cancels h t = Some p" "thread_ok h t subs p"
  using chat_hub_invD(1,2) [OF assms(1), of t] assms(2) by (cases "ct_cancels h t") auto

lemma chat_NewHub_inv: "chat_hub_inv chat_NewHub"
  by (simp add: chat_hub_inv_def chat_NewHub_def)

text \<open>Steps that change the buffers of one thread and nothing else.\<close>

lemma chat_buffers_inv:
  assumes inv: "chat_hub_inv h" and t: "ct_threads h t = Some subs" and ids: "\<And>x. cs_id (f x) = cs_id x"
    and short: "\<And>x. length (cs_events x) \<le> chat_buffer \<Longrightarrow> length (cs_events (f x)) \<le> chat_buffer"
  shows "chat_hub_inv (h\<lparr>ct_threads := (ct_threads h)(t \<mapsto> map f subs)\<rparr>)" (is "chat_hub_inv ?h")
proof -
  have same: "map cs_id (map f xs) = map cs_id xs" "cs_id ` f ` A = cs_id ` A" for xs A
    by (simp_all add: ids o_def image_image)
  note D = chat_hub_invD [OF inv]
  have old: "\<exists>ys. ct_threads h u = Some ys \<and> cs_id ` set xs = cs_id ` set ys" if "ct_threads ?h u = Some xs" for u xs
    using that t by (cases "u = t") (auto simp: same(2) ids)
  show ?thesis unfolding chat_hub_inv_def
  proof (intro conjI allI impI ballI)
    show "ct_threads ?h u = None \<longleftrightarrow> ct_cancels ?h u = None" for u using D(1) [of u] t by auto
    show "thread_ok ?h u xs p" if "ct_threads ?h u = Some xs" "ct_cancels ?h u = Some p" for u xs p
    proof (cases "u = t")
      case True
      with that have x: "xs = map f subs" "ct_cancels h t = Some p" by simp_all
      show ?thesis unfolding x(1) using D(2) [OF t x(2)] True by (simp add: thread_ok_def ids o_def short)
    next
      case False
      with that D(2) [of u xs p] show ?thesis by (simp add: thread_ok_def)
    qed
    show "ct_cancels ?h u \<noteq> ct_cancels ?h u'" "cs_id ` set xs \<inter> cs_id ` set xs' = {}"
      if u: "ct_threads ?h u = Some xs" "ct_threads ?h u' = Some xs'" "u \<noteq> u'" for u u' xs xs'
    proof -
      obtain ys where y: "ct_threads h u = Some ys" "cs_id ` set xs = cs_id ` set ys" using old [OF u(1)] by (elim exE conjE)
      obtain ys' where y': "ct_threads h u' = Some ys'" "cs_id ` set xs' = cs_id ` set ys'" using old [OF u(2)] by (elim exE conjE)
      note d = D(3) [OF y(1) y'(1) u(3), THEN conjunct1] D(3) [OF y(1) y'(1) u(3), THEN conjunct2]
      show "ct_cancels ?h u \<noteq> ct_cancels ?h u'" using d(1) by simp
      show "cs_id ` set xs \<inter> cs_id ` set xs' = {}" unfolding y(2) y'(2) by (rule d(2))
    qed
    show "\<exists>u. ct_cancels ?h u = Some p" if "p \<in> ct_live ?h" for p using D(4) [of p] that by simp
    show "n < ct_next ?h" if "n \<in> ct_closed ?h" for n using D(5) [of n] that by simp
  qed
qed

lemma offer_id [simp]: "cs_id (offer e x) = cs_id x"
  and offer_short: "length (cs_events x) \<le> chat_buffer \<Longrightarrow> length (cs_events (offer e x)) \<le> chat_buffer"
  by (simp_all add: offer_def)

lemma chat_broadcast_inv:
  assumes inv: "chat_hub_inv h"
  shows "\<exists>h'. chat_broadcastLocal t e h = Some h' \<and> chat_hub_inv h' \<and> ct_pumps h' = ct_pumps h \<and>
    ct_threads h' = (ct_threads h)(t := map_option (map (offer e)) (ct_threads h t))"
proof (cases "ct_threads h t")
  case None
  with inv show ?thesis by (auto simp: chat_broadcastLocal_def)
next
  case (Some subs)
  from inv Some obtain p where "thread_ok h t subs p" by (rule chat_thread_cancel)
  then have "cs_id ` set subs \<inter> ct_closed h = {}" by (auto simp: thread_ok_def)
  moreover have "chat_hub_inv (h\<lparr>ct_threads := (ct_threads h)(t \<mapsto> map (offer e) subs)\<rparr>)"
    by (rule chat_buffers_inv [OF inv Some offer_id offer_short])
  ultimately show ?thesis using Some by (simp add: chat_broadcastLocal_def)
qed

lemma chat_takes_inv:
  assumes inv: "chat_hub_inv h"
  shows "chat_hub_inv (chat_takes t s h)"
proof (cases "ct_threads h t")
  case None
  then have "chat_takes t s h = h" by (auto simp: chat_takes_def fun_upd_idem)
  with inv show ?thesis by simp
next
  case (Some subs)
  let ?f = "\<lambda>x. if cs_id x = s then x\<lparr>cs_events := tl (cs_events x)\<rparr> else x"
  have "chat_hub_inv (h\<lparr>ct_threads := (ct_threads h)(t \<mapsto> map ?f subs)\<rparr>)"
    by (rule chat_buffers_inv [OF inv Some]) auto
  with Some show ?thesis by (simp add: chat_takes_def)
qed

lemma offer_many:
  "(offer e ^^ k) x = x\<lparr>cs_events := cs_events x @ replicate (min k (chat_buffer - length (cs_events x))) e\<rparr>"
proof (induction k)
  case (Suc k)
  then show ?case
    by (auto simp: offer_def min_def not_less_eq_eq simp flip: replicate_append_same)
qed simp

lemma each_pump_inv:
  assumes "chat_hub_inv h"
  shows "\<exists>h'. each_pump ps t e h = Some h' \<and> chat_hub_inv h' \<and> ct_pumps h' = ct_pumps h \<and>
    ct_threads h' = (ct_threads h)(t := map_option (map (offer e ^^ length (filter (\<lambda>p. snd p = t) ps))) (ct_threads h t))"
  using assms
proof (induction ps t e h rule: each_pump.induct)
  case (1 t e h)
  then show ?case by (cases "ct_threads h t") (simp_all add: fun_upd_idem)
next
  case (2 p u ps t e h)
  show ?case
  proof (cases "u = t")
    case True
    from chat_broadcast_inv [OF 2(3), of t e] obtain h1 where h1: "chat_broadcastLocal t e h = Some h1" "chat_hub_inv h1"
      "ct_pumps h1 = ct_pumps h" "ct_threads h1 = (ct_threads h)(t := map_option (map (offer e)) (ct_threads h t))" by blast
    from 2(1) [OF True h1(1,2)] h1 True show ?thesis
      by (cases "ct_threads h t") (auto simp: funpow_Suc_right fun_eq_iff simp del: funpow.simps)
  next
    case False
    from 2(2) [OF False 2(3)] False show ?thesis by simp
  qed
qed

lemma chat_returns_inv:
  assumes inv: "chat_hub_inv h" and p: "p \<notin> ct_live h"
  shows "chat_hub_inv (pump_returns p h)"
proof -
  have "thread_ok (pump_returns p h) t subs q" if "thread_ok h t subs q" for t subs q
    using that p by (auto simp: thread_ok_def pump_returns_def)
  moreover have "ct_threads (pump_returns p h) = ct_threads h" "ct_cancels (pump_returns p h) = ct_cancels h"
    "ct_live (pump_returns p h) = ct_live h" "ct_closed (pump_returns p h) = ct_closed h" "ct_next (pump_returns p h) = ct_next h"
    by (simp_all add: pump_returns_def)
  ultimately show ?thesis using inv unfolding chat_hub_inv_def by simp
qed

text \<open>A socket leaves: its channel is closed, and the last one cancels the pump's context.\<close>

lemma chat_leaves_inv:
  assumes inv: "chat_hub_inv h" and t: "ct_threads h t = Some subs" and s: "s \<in> cs_id ` set subs"
  shows "\<exists>h'. chat_unsubscribe t s h = Some h' \<and> chat_hub_inv h'"
proof -
  from inv t obtain p where p: "ct_cancels h t = Some p" and ok: "thread_ok h t subs p" by (rule chat_thread_cancel)
  let ?rest = "filter (\<lambda>x. cs_id x \<noteq> s) subs"
  define h' where "h' = (if ?rest = []
    then h\<lparr>ct_threads := (ct_threads h)(t := None), ct_closed := insert s (ct_closed h), ct_live := ct_live h - {p},
            ct_cancels := (ct_cancels h)(t := None)\<rparr>
    else h\<lparr>ct_threads := (ct_threads h)(t \<mapsto> ?rest), ct_closed := insert s (ct_closed h)\<rparr>)"
  note D = chat_hub_invD [OF inv]
  have s': "s < ct_next h" "s \<notin> ct_closed h" using ok s by (auto simp: thread_ok_def)
  have un: "chat_unsubscribe t s h = Some h'"
    using t p s' by (simp add: chat_unsubscribe_def chat_forget_def Let_def h'_def)
  have users: "ct_threads h' u = (if u = t then (if ?rest = [] then None else Some ?rest) else ct_threads h u)"
    "ct_cancels h' u = (if u = t \<and> ?rest = [] then None else ct_cancels h u)" for u
    by (simp_all add: h'_def)
  have rest: "ct_next h' = ct_next h" "ct_closed h' = insert s (ct_closed h)" "ct_pumps h' = ct_pumps h"
    "ct_live h' = (if ?rest = [] then ct_live h - {p} else ct_live h)"
    by (simp_all add: h'_def)
  have old: "\<exists>ys. ct_threads h u = Some ys \<and> cs_id ` set xs \<subseteq> cs_id ` set ys \<and> ct_cancels h' u = ct_cancels h u"
    if "ct_threads h' u = Some xs" for u xs
    using that t by (cases "u = t") (auto simp: users split: if_splits)
  have inv': "chat_hub_inv h'" unfolding chat_hub_inv_def
  proof (intro conjI allI impI ballI)
    show "ct_threads h' u = None \<longleftrightarrow> ct_cancels h' u = None" for u using D(1) [of u] p by (auto simp: users)
    show "thread_ok h' u xs q" if u: "ct_threads h' u = Some xs" "ct_cancels h' u = Some q" for u xs q
    proof (cases "u = t")
      case True
      with u p have "xs = ?rest" "?rest \<noteq> []" "q = p" by (auto simp: users split: if_splits)
      with True ok show ?thesis by (auto simp: thread_ok_def rest distinct_map_filter)
    next
      case False
      with u have g: "ct_threads h u = Some xs" "ct_cancels h u = Some q" by (auto simp: users)
      from D(3) [OF t g(1)] False s p g(2) have "s \<notin> cs_id ` set xs" "p \<noteq> q" by auto
      with D(2) [OF g] show ?thesis by (auto simp: thread_ok_def rest)
    qed
    show "ct_cancels h' u \<noteq> ct_cancels h' u'" "cs_id ` set xs \<inter> cs_id ` set xs' = {}"
      if u: "ct_threads h' u = Some xs" "ct_threads h' u' = Some xs'" "u \<noteq> u'" for u u' xs xs'
    proof -
      obtain ys ys' where ys: "ct_threads h u = Some ys" "cs_id ` set xs \<subseteq> cs_id ` set ys" "ct_cancels h' u = ct_cancels h u"
        "ct_threads h u' = Some ys'" "cs_id ` set xs' \<subseteq> cs_id ` set ys'" "ct_cancels h' u' = ct_cancels h u'"
        using old [OF u(1)] old [OF u(2)] by blast
      from D(3) [OF ys(1,4) u(3)] have d: "ct_cancels h u \<noteq> ct_cancels h u'" "cs_id ` set ys \<inter> cs_id ` set ys' = {}" by simp_all
      show "ct_cancels h' u \<noteq> ct_cancels h' u'" using d(1) ys(3,6) by simp
      show "cs_id ` set xs \<inter> cs_id ` set xs' = {}" using d(2) ys(2,5) by blast
    qed
    show "\<exists>u. ct_cancels h' u = Some q" if "q \<in> ct_live h'" for q
    proof -
      from that have q: "q \<in> ct_live h" "?rest = [] \<longrightarrow> q \<noteq> p" by (auto simp: rest split: if_splits)
      from D(4) [OF q(1)] obtain u where "ct_cancels h u = Some q" ..
      with q(2) p have "ct_cancels h' u = Some q" by (auto simp: users)
      then show ?thesis ..
    qed
    show "m < ct_next h'" if "m \<in> ct_closed h'" for m using that D(5) s'(1) by (auto simp: rest)
  qed
  with un show ?thesis by blast
qed

lemma chat_joins_inv:
  assumes inv: "chat_hub_inv h" and S: "chat_Subscribe t h = (s, h')"
  shows "chat_hub_inv h'"
proof -
  define subs where "subs = (case ct_threads h t of None \<Rightarrow> [] | Some xs \<Rightarrow> xs)"
  define p where "p = (case ct_cancels h t of None \<Rightarrow> Suc (ct_next h) | Some q \<Rightarrow> q)"
  define g where "g = subs @ [\<lparr>cs_id = ct_next h, cs_events = []\<rparr>]"
  note D = chat_hub_invD [OF inv]
  have old: "cs_id x < ct_next h \<and> q < ct_next h \<and> thread_ok h u xs q"
    if "ct_threads h u = Some xs" "x \<in> set xs" "ct_cancels h u = Some q" for u xs x q
    using D(2) [OF that(1,3)] that(2) by (auto simp: thread_ok_def)
  have users: "ct_threads h' u = (if u = t then Some g else ct_threads h u)"
    "ct_cancels h' u = (if u = t then Some p else ct_cancels h u)" for u
    using S D(1) [of t] by (auto simp: chat_Subscribe_def Let_def g_def subs_def p_def split: option.splits)
  have rest: "ct_next h \<le> ct_next h'" "ct_next h < ct_next h'" "ct_closed h' = ct_closed h" "ct_live h' = insert p (ct_live h)"
    "set (ct_pumps h') = insert (p, t) (set (ct_pumps h))"
    using S D(1) [of t] D(2) [of t]
    by (auto simp: chat_Subscribe_def Let_def p_def thread_ok_def split: option.splits)
  have pn: "p < ct_next h'"
  proof (cases "ct_threads h t")
    case None
    with S D(1) [of t] show ?thesis by (auto simp: chat_Subscribe_def Let_def p_def)
  next
    case (Some ys)
    with inv obtain q where "ct_cancels h t = Some q" "thread_ok h t ys q" by (rule chat_thread_cancel)
    with rest(1) show ?thesis by (simp add: p_def thread_ok_def)
  qed
  have low: "cs_id x < ct_next h \<and> cs_id x \<notin> ct_closed h \<and> length (cs_events x) \<le> chat_buffer" if "x \<in> set subs" for x
    using that D(2) [of t subs] D(1) [of t] by (auto simp: subs_def thread_ok_def split: option.splits)
  have dist: "distinct (map cs_id subs)"
    using D(2) [of t subs] D(1) [of t] by (auto simp: subs_def thread_ok_def split: option.splits)
  have away: "ct_cancels h u \<noteq> Some p \<and> cs_id ` set xs \<inter> cs_id ` set g = {}" if u: "ct_threads h u = Some xs" "u \<noteq> t" for u xs
  proof -
    from inv u(1) obtain q where q: "ct_cancels h u = Some q" "thread_ok h u xs q" by (rule chat_thread_cancel)
    have "q \<noteq> p \<and> cs_id ` set xs \<inter> cs_id ` set subs = {}"
    proof (cases "ct_threads h t")
      case None
      with D(1) [of t] q(2) show ?thesis by (simp add: p_def subs_def thread_ok_def)
    next
      case (Some ys)
      with D(3) [OF u(1) Some u(2)] D(1) [of t] q(1) show ?thesis by (auto simp: p_def subs_def)
    qed
    moreover have "ct_next h \<notin> cs_id ` set xs" using q(2) by (auto simp: thread_ok_def)
    ultimately show ?thesis using q(1) by (auto simp: g_def)
  qed
  show ?thesis unfolding chat_hub_inv_def
  proof (intro conjI allI impI ballI)
    show "ct_threads h' u = None \<longleftrightarrow> ct_cancels h' u = None" for u using D(1) [of u] by (simp add: users)
    show "thread_ok h' u xs q" if u: "ct_threads h' u = Some xs" "ct_cancels h' u = Some q" for u xs q
    proof (cases "u = t")
      case True
      with u have "xs = g" "q = p" by (simp_all add: users)
      moreover have "ct_next h \<notin> cs_id ` set subs" "ct_next h \<notin> ct_closed h" using low D(5) by (fastforce, blast)
      ultimately show ?thesis using True low dist rest pn by (auto simp: thread_ok_def g_def chat_buffer_def intro: order_less_le_trans [OF _ rest(1)])
    next
      case False
      with u have "ct_threads h u = Some xs" "ct_cancels h u = Some q" by (simp_all add: users)
      from D(2) [OF this] rest show ?thesis by (auto simp: thread_ok_def)
    qed
    show "ct_cancels h' u \<noteq> ct_cancels h' u'" "cs_id ` set xs \<inter> cs_id ` set xs' = {}"
      if u: "ct_threads h' u = Some xs" "ct_threads h' u' = Some xs'" "u \<noteq> u'" for u u' xs xs'
    proof -
      consider "u = t" "u' \<noteq> t" | "u \<noteq> t" "u' = t" | "u \<noteq> t" "u' \<noteq> t" using u(3) by blast
      then have "ct_cancels h' u \<noteq> ct_cancels h' u' \<and> cs_id ` set xs \<inter> cs_id ` set xs' = {}"
      proof cases
        case 1
        with u have x: "xs = g" "ct_threads h u' = Some xs'" by (simp_all add: users)
        from away [OF x(2) 1(2)] show ?thesis unfolding x(1) using 1(2) by (auto simp: users 1(1))
      next
        case 2
        with u have x: "xs' = g" "ct_threads h u = Some xs" by (simp_all add: users)
        from away [OF x(2) 2(1)] show ?thesis unfolding x(1) by (simp add: users 2)
      next
        case 3
        with u have x: "ct_threads h u = Some xs" "ct_threads h u' = Some xs'" by (simp_all add: users)
        from D(3) [OF x u(3)] show ?thesis using 3 by (simp add: users)
      qed
      then show "ct_cancels h' u \<noteq> ct_cancels h' u'" "cs_id ` set xs \<inter> cs_id ` set xs' = {}" by (rule conjunct1, rule conjunct2)
    qed
    show "\<exists>u. ct_cancels h' u = Some q" if "q \<in> ct_live h'" for q
    proof (cases "q = p")
      case True
      then show ?thesis by (intro exI [of _ t]) (simp add: users)
    next
      case False
      with that have "q \<in> ct_live h" by (simp add: rest)
      from D(4) [OF this] obtain u where u: "ct_cancels h u = Some q" ..
      with False have "u \<noteq> t" by (auto simp: p_def)
      with u show ?thesis by (intro exI [of _ u]) (simp add: users)
    qed
    show "m < ct_next h'" if "m \<in> ct_closed h'" for m using that D(5) [of m] rest by simp
  qed
qed

lemma chat_hub_step_inv:
  assumes inv: "chat_hub_inv h" and step: "chat_hub_step h h'"
  shows "chat_hub_inv h'"
  using step
proof cases
  case (joins t s)
  with inv show ?thesis by (rule_tac chat_joins_inv)
next
  case (leaves t subs s)
  with chat_leaves_inv [OF inv leaves(1,2)] show ?thesis by auto
next
  case (one_pump p t e)
  with chat_broadcast_inv [OF inv, of t e] show ?thesis by auto
next
  case (all_pumps t e)
  with each_pump_inv [OF inv, of "ct_pumps h" t e] show ?thesis by (auto simp: chat_hears_def)
qed (use inv in \<open>auto simp: chat_takes_inv chat_returns_inv\<close>)

interpretation chat_hub: invariant_system "\<lambda>h. h = chat_NewHub" chat_hub_step chat_hub_inv
  by unfold_locales (auto simp: chat_NewHub_inv dest: chat_hub_step_inv)

text \<open>A thread whose socket left and came back while the first pump still blocks in its read.\<close>

definition joined_twice :: chat_hub where
  "joined_twice =
     snd (chat_Subscribe 21 (the (chat_unsubscribe 21 0 (snd (chat_Subscribe 21 chat_NewHub)))))"

lemma joined_twice_eq:
  "joined_twice = \<lparr>ct_threads = (\<lambda>_. None)(21 \<mapsto> [\<lparr>cs_id = 2, cs_events = []\<rparr>]), ct_cancels = (\<lambda>_. None)(21 \<mapsto> 3), ct_next = 4,
     ct_closed = {0}, ct_live = {3}, ct_pumps = [(1, 21), (3, 21)]\<rparr>"
  by (simp add: joined_twice_def chat_Subscribe_def chat_unsubscribe_def chat_forget_def chat_NewHub_def Let_def eval_nat_numeral)

lemma joined_twice_reachable: "chat_hub_step\<^sup>*\<^sup>* chat_NewHub joined_twice"
proof -
  let ?h1 = "snd (chat_Subscribe 21 chat_NewHub)" and ?h2 = "the (chat_unsubscribe 21 0 (snd (chat_Subscribe 21 chat_NewHub)))"
  have "chat_hub_step chat_NewHub ?h1"
    by (rule chat_hub_step.joins [of 21 _ "fst (chat_Subscribe 21 chat_NewHub)"]) simp
  moreover have "chat_hub_step ?h1 ?h2"
    by (rule chat_hub_step.leaves [of _ 21 "[\<lparr>cs_id = 0, cs_events = []\<rparr>]" 0])
       (simp_all add: chat_Subscribe_def chat_unsubscribe_def chat_NewHub_def Let_def)
  moreover have "chat_hub_step ?h2 joined_twice"
    unfolding joined_twice_def by (rule chat_hub_step.joins [of 21 _ "fst (chat_Subscribe 21 ?h2)"]) simp
  ultimately show ?thesis by (meson rtranclp.rtrancl_refl rtranclp.rtrancl_into_rtrancl)
qed

text \<open>
  C24: However sockets join and leave threads, pumps forward what they read and cancelled pumps
  return, in any order from an empty hub: leaving the hub and forwarding an event never panic; a
  thread with sockets has one pump whose context is live and which has not returned, and there is
  no other live context; no channel holds more than thirty-two events.
\<close>

theorem chat_hub_sound:
  assumes "chat_hub_step\<^sup>*\<^sup>* chat_NewHub h"
  shows "chat_hears t e h \<noteq> None \<and>
    (ct_threads h t = Some subs \<longrightarrow>
       (s \<in> cs_id ` set subs \<longrightarrow> chat_unsubscribe t s h \<noteq> None) \<and>
       (\<exists>p \<in> ct_live h. ct_cancels h t = Some p \<and> (p, t) \<in> set (ct_pumps h)) \<and>
       (\<forall>x \<in> set subs. length (cs_events x) \<le> 32)) \<and>
    (p \<in> ct_live h \<longleftrightarrow> (\<exists>u. ct_cancels h u = Some p \<and> ct_threads h u \<noteq> None))"
proof -
  have inv: "chat_hub_inv h" by (rule chat_hub.inv_reachable [OF refl assms])
  have hears: "chat_hears t e h \<noteq> None" using each_pump_inv [OF inv, of "ct_pumps h" t e] by (auto simp: chat_hears_def)
  have live: "p \<in> ct_live h \<longleftrightarrow> (\<exists>u. ct_cancels h u = Some p \<and> ct_threads h u \<noteq> None)"
    using chat_hub_invD(1,2,4) [OF inv] unfolding thread_ok_def by fastforce
  have "chat_unsubscribe t s h \<noteq> None" if "ct_threads h t = Some subs" "s \<in> cs_id ` set subs"
    using chat_leaves_inv [OF inv that] by auto
  moreover have "(\<exists>p \<in> ct_live h. ct_cancels h t = Some p \<and> (p, t) \<in> set (ct_pumps h)) \<and> (\<forall>x \<in> set subs. length (cs_events x) \<le> 32)"
    if t: "ct_threads h t = Some subs"
  proof -
    from inv t obtain q where "ct_cancels h t = Some q" "thread_ok h t subs q" by (rule chat_thread_cancel)
    then show ?thesis by (auto simp: thread_ok_def chat_buffer_def)
  qed
  ultimately show ?thesis using hears live by blast
qed

lemma chat_hub_sound_witness:
  "chat_unsubscribe 21 2 joined_twice \<noteq> None \<and> chat_hears 21 no_event joined_twice \<noteq> None \<and> 1 \<notin> ct_live joined_twice"
  using chat_hub_sound [OF joined_twice_reachable, of 21 no_event "[\<lparr>cs_id = 2, cs_events = []\<rparr>]" 2 1]
  by (simp add: joined_twice_eq)

text \<open>A published event is put into a thread's channels once for every pump that still reads
  the thread's Redis channel, as far as there is room, and a pump whose context was cancelled when
  the last socket left counts until its blocking read returns: a socket that joins a thread again
  meanwhile is sent each event twice.\<close>

theorem every_pump_echoes:
  assumes "chat_hub_step\<^sup>*\<^sup>* chat_NewHub h" and "ct_threads h t = Some subs"
  shows "\<exists>h'. chat_hears t e h = Some h' \<and>
    ct_threads h' t = Some (map (\<lambda>x. x\<lparr>cs_events := cs_events x @
      replicate (min (length (filter (\<lambda>p. snd p = t) (ct_pumps h))) (chat_buffer - length (cs_events x))) e\<rparr>) subs)"
  using each_pump_inv [OF chat_hub.inv_reachable [OF refl assms(1)], of "ct_pumps h" t e] assms(2)
  by (auto simp: chat_hears_def offer_many)

lemma every_pump_echoes_witness:
  "map_option (\<lambda>h. map_option (map cs_events) (ct_threads h 21)) (chat_hears 21 no_event joined_twice) = Some (Some [[no_event, no_event]])"
  using every_pump_echoes [OF joined_twice_reachable, of 21 "[\<lparr>cs_id = 2, cs_events = []\<rparr>]" no_event]
  by (auto simp: joined_twice_eq chat_buffer_def eval_nat_numeral)

end
