(* ===== verification/Notify_Hub.thy ===== *)
theory Notify_Hub
  imports Redis_Store Json
begin

text \<open>
  The notification stream (internal/notify/hub.go and publish.go): the sockets of one replica,
  per user, and the Redis subscription they share.  A channel is a bounded buffer that can be
  closed once; closing it again would panic, which is \<open>None\<close>.  Sockets and subscriptions are
  told apart by the numbers under which they were made, where the code compares pointers.

  Two fields keep a history for the proofs and no code reads them: the events a subscription
  has delivered so far, and those a socket has taken from its channel.
\<close>

section \<open>Events\<close>

record notify_event =
  ne_type :: string
  ne_analysis_id :: string
  ne_conversation_id :: string

definition notify_event_json :: "notify_event \<Rightarrow> string" where
  "notify_event_json e =
     json_object ([(''type'', json_string (ne_type e))] @ omitempty ''analysis_id'' (ne_analysis_id e) @
       omitempty ''conversation_id'' (ne_conversation_id e))"

definition UserChannel :: "'a env_scheme \<Rightarrow> uuid \<Rightarrow> string" where
  "UserChannel env i = ''notify:user:'' @ x_uuid_text env i"

definition notify_Publish :: "'a env_scheme \<Rightarrow> uuid \<Rightarrow> notify_event \<Rightarrow> unit request" where
  "notify_Publish env i e = PUBLISH (UserChannel env i) (notify_event_json e)"

definition ready_event :: notify_event where
  "ready_event = \<lparr>ne_type = ''ready'', ne_analysis_id = [], ne_conversation_id = []\<rparr>"

section \<open>The hub\<close>

record subscriber =
  sb_id :: nat
  sb_events :: "notify_event list"
  sb_joined :: nat
  sb_taken :: "notify_event list"

record feed =
  fd_id :: nat
  fd_subs :: "subscriber list"
  fd_ready :: bool
  fd_sent :: "notify_event list"

text \<open>
  \<open>hb_running\<close> are the subscriptions whose context is not cancelled, \<open>hb_closed\<close> the closed
  channels, \<open>hb_dropped\<close> the sockets whose \<open>drop\<close> has been called.
\<close>

record hub =
  hb_users :: "uuid \<Rightarrow> feed option"
  hb_sockets :: "uuid \<Rightarrow> uuid list"
  hb_next :: nat
  hb_running :: "nat set"
  hb_closed :: "nat set"
  hb_dropped :: "uuid list"

definition NewHub :: hub where
  "NewHub = \<lparr>hb_users = (\<lambda>_. None), hb_sockets = (\<lambda>_. []), hb_next = 0, hb_running = {}, hb_closed = {}, hb_dropped = []\<rparr>"

definition Register :: "uuid \<Rightarrow> uuid \<Rightarrow> hub \<Rightarrow> hub" where
  "Register u conn h = h\<lparr>hb_sockets := (hb_sockets h)(u := List.insert conn (hb_sockets h u))\<rparr>"

definition deregister :: "uuid \<Rightarrow> uuid \<Rightarrow> hub \<Rightarrow> hub" where
  "deregister u conn h = h\<lparr>hb_sockets := (hb_sockets h)(u := removeAll conn (hb_sockets h u))\<rparr>"

definition EndSessions :: "uuid \<Rightarrow> hub \<Rightarrow> hub" where
  "EndSessions u h = h\<lparr>hb_sockets := (hb_sockets h)(u := []), hb_dropped := hb_dropped h @ hb_sockets h u\<rparr>"

definition event_buffer :: nat where "event_buffer = 16"

text \<open>The socket's channel, the subscription it shares, and the hub.\<close>

definition Subscribe :: "uuid \<Rightarrow> hub \<Rightarrow> nat \<times> nat \<times> hub" where
  "Subscribe u h =
     (let feed = (case hb_users h u of Some f \<Rightarrow> f
                  | None \<Rightarrow> \<lparr>fd_id = hb_next h, fd_subs = [], fd_ready = False, fd_sent = []\<rparr>);
          s = \<lparr>sb_id = Suc (hb_next h), sb_events = [], sb_joined = length (fd_sent feed), sb_taken = []\<rparr>
      in (sb_id s, fd_id feed,
          h\<lparr>hb_users := (hb_users h)(u \<mapsto> feed\<lparr>fd_subs := fd_subs feed @ [s]\<rparr>), hb_next := Suc (Suc (hb_next h)),
            hb_running := insert (fd_id feed) (hb_running h)\<rparr>))"

definition close_channels :: "nat list \<Rightarrow> hub \<Rightarrow> hub option" where
  "close_channels cs h =
     (if distinct cs \<and> set cs \<inter> hb_closed h = {} then Some (h\<lparr>hb_closed := hb_closed h \<union> set cs\<rparr>) else None)"

text \<open>A user whose last socket has gone is forgotten and the subscription cancelled.\<close>

definition put_feed :: "uuid \<Rightarrow> feed \<Rightarrow> hub \<Rightarrow> hub" where
  "put_feed u f h =
     (if fd_subs f = []
      then h\<lparr>hb_users := (hb_users h)(u := None), hb_running := hb_running h - {fd_id f}\<rparr>
      else h\<lparr>hb_users := (hb_users h)(u \<mapsto> f)\<rparr>)"

definition unsubscribe :: "uuid \<Rightarrow> nat \<Rightarrow> hub \<Rightarrow> hub option" where
  "unsubscribe u s h =
     (case hb_users h u of None \<Rightarrow> Some h
      | Some f \<Rightarrow>
          if s \<notin> sb_id ` set (fd_subs f) then Some h
          else map_option (put_feed u (f\<lparr>fd_subs := filter (\<lambda>x. sb_id x \<noteq> s) (fd_subs f)\<rparr>)) (close_channels [s] h))"

text \<open>Sending on a closed channel would panic as well.\<close>

definition broadcastLocal :: "uuid \<Rightarrow> nat \<Rightarrow> notify_event \<Rightarrow> hub \<Rightarrow> hub option" where
  "broadcastLocal u feed e h =
     (case hb_users h u of None \<Rightarrow> Some h
      | Some f \<Rightarrow>
          if fd_id f \<noteq> feed then Some h
          else if sb_id ` set (fd_subs f) \<inter> hb_closed h \<noteq> {} then None
          else let full = filter (\<lambda>s. event_buffer \<le> length (sb_events s)) (fd_subs f);
                   rest = filter (\<lambda>s. length (sb_events s) < event_buffer) (fd_subs f);
                   f' = f\<lparr>fd_subs := map (\<lambda>s. s\<lparr>sb_events := sb_events s @ [e]\<rparr>) rest, fd_sent := fd_sent f @ [e]\<rparr>
               in map_option (put_feed u f') (close_channels (map sb_id full) h))"

text \<open>The confirmation of the subscription, and what the loop of \<open>pump\<close> makes of a message.\<close>

definition pump_confirmed :: "uuid \<Rightarrow> nat \<Rightarrow> hub \<Rightarrow> hub" where
  "pump_confirmed u feed h =
     (case hb_users h u of None \<Rightarrow> h
      | Some f \<Rightarrow> if fd_id f \<noteq> feed then h else h\<lparr>hb_users := (hb_users h)(u \<mapsto> f\<lparr>fd_ready := True\<rparr>)\<rparr>)"

datatype pubsub = Resubscribed | Payload "notify_event option" | OtherNotice

fun pump_message :: "uuid \<Rightarrow> nat \<Rightarrow> pubsub \<Rightarrow> hub \<Rightarrow> hub option" where
  "pump_message u feed Resubscribed h = broadcastLocal u feed ready_event h"
| "pump_message u feed (Payload None) h = Some h"
| "pump_message u feed (Payload (Some e)) h = broadcastLocal u feed e h"
| "pump_message u feed OtherNotice h = Some h"

text \<open>A socket takes the next event from its channel.\<close>

definition take_event :: "subscriber \<Rightarrow> subscriber" where
  "take_event s = (case sb_events s of [] \<Rightarrow> s | e # es \<Rightarrow> s\<lparr>sb_events := es, sb_taken := sb_taken s @ [e]\<rparr>)"

definition socket_takes :: "uuid \<Rightarrow> nat \<Rightarrow> hub \<Rightarrow> hub" where
  "socket_takes u s h =
     (case hb_users h u of None \<Rightarrow> h
      | Some f \<Rightarrow> h\<lparr>hb_users := (hb_users h)(u \<mapsto> f\<lparr>fd_subs := map (\<lambda>x. if sb_id x = s then take_event x else x) (fd_subs f)\<rparr>)\<rparr>)"

section \<open>Steps\<close>

inductive hub_step :: "hub \<Rightarrow> hub \<Rightarrow> bool" where
  register: "hub_step h (Register u conn h)"
| deregister: "hub_step h (deregister u conn h)"
| end_sessions: "hub_step h (EndSessions u h)"
| subscribe: "Subscribe u h = (s, f, h') \<Longrightarrow> hub_step h h'"
| unsubscribe: "unsubscribe u s h = Some h' \<Longrightarrow> hub_step h h'"
| confirmed: "hub_step h (pump_confirmed u f h)"
| message: "pump_message u f m h = Some h' \<Longrightarrow> hub_step h h'"
| takes: "hub_step h (socket_takes u s h)"

text \<open>
  A user's feed: it has sockets, its subscription runs, its channels are open and hold no more
  than their capacity, and each socket has taken or still holds what was delivered since it
  joined.
\<close>

definition sub_ok :: "notify_event list \<Rightarrow> subscriber \<Rightarrow> bool" where
  "sub_ok sent s \<longleftrightarrow> length (sb_events s) \<le> event_buffer \<and> sb_joined s \<le> length sent \<and>
     sb_taken s @ sb_events s = drop (sb_joined s) sent"

definition feed_ok :: "hub \<Rightarrow> feed \<Rightarrow> bool" where
  "feed_ok h f \<longleftrightarrow> fd_subs f \<noteq> [] \<and> fd_id f \<in> hb_running h \<and> fd_id f < hb_next h \<and>
     distinct (map sb_id (fd_subs f)) \<and> (\<forall>s \<in> set (fd_subs f). sb_id s < hb_next h \<and> sb_id s \<notin> hb_closed h \<and> sub_ok (fd_sent f) s)"

definition hub_inv :: "hub \<Rightarrow> bool" where
  "hub_inv h \<longleftrightarrow>
     (\<forall>u f. hb_users h u = Some f \<longrightarrow> feed_ok h f) \<and>
     (\<forall>u u' f f'. hb_users h u = Some f \<longrightarrow> hb_users h u' = Some f' \<longrightarrow> u \<noteq> u' \<longrightarrow>
        fd_id f \<noteq> fd_id f' \<and> sb_id ` set (fd_subs f) \<inter> sb_id ` set (fd_subs f') = {}) \<and>
     (\<forall>n \<in> hb_running h. \<exists>u f. hb_users h u = Some f \<and> fd_id f = n) \<and>
     (\<forall>n \<in> hb_closed h. n < hb_next h)"

lemma hub_invD:
  assumes "hub_inv h" and "hb_users h u = Some f"
  shows "feed_ok h f" "\<And>u' f'. hb_users h u' = Some f' \<Longrightarrow> u \<noteq> u' \<Longrightarrow> fd_id f \<noteq> fd_id f' \<and> sb_id ` set (fd_subs f) \<inter> sb_id ` set (fd_subs f') = {}"
  using assms unfolding hub_inv_def by blast+

text \<open>Replacing a feed by one with a part of its sockets, some channels being closed.\<close>

lemma put_feed_inv:
  assumes inv: "hub_inv h" and u: "hb_users h u = Some f" and same: "fd_id f' = fd_id f"
    and subs: "sb_id ` set (fd_subs f') \<subseteq> sb_id ` set (fd_subs f)" "distinct (map sb_id (fd_subs f'))"
    and cs: "cs \<subseteq> sb_id ` set (fd_subs f)" "cs \<inter> sb_id ` set (fd_subs f') = {}"
    and ok: "\<And>s. s \<in> set (fd_subs f') \<Longrightarrow> sub_ok (fd_sent f') s"
  shows "hub_inv (put_feed u f' (h\<lparr>hb_closed := hb_closed h \<union> cs\<rparr>))" (is "hub_inv ?h")
proof -
  note f = hub_invD(1) [OF inv u, unfolded feed_ok_def] and other = hub_invD(2) [OF inv u]
  have users: "hb_users ?h u' = (if u' = u then (if fd_subs f' = [] then None else Some f') else hb_users h u')" for u'
    by (simp add: put_feed_def)
  have rest: "hb_next ?h = hb_next h" "hb_closed ?h = hb_closed h \<union> cs"
    "hb_running ?h = (if fd_subs f' = [] then hb_running h - {fd_id f} else hb_running h)"
    by (simp_all add: put_feed_def same)
  have low: "n < hb_next h" "n \<notin> hb_closed h" if "n \<in> sb_id ` set (fd_subs f)" for n using f that by auto
  have feeds: "feed_ok ?h g" if "hb_users ?h u' = Some g" for u' g
  proof (cases "u' = u")
    case True
    with that users have g: "g = f'" "fd_subs f' \<noteq> []" by (auto split: if_splits)
    have "sb_id s < hb_next h \<and> sb_id s \<notin> hb_closed h \<union> cs" if "s \<in> set (fd_subs f')" for s
    proof -
      have "sb_id s \<in> sb_id ` set (fd_subs f)" using subs(1) that by blast
      with low [of "sb_id s"] cs(2) that show ?thesis by blast
    qed
    with g f subs(2) ok show ?thesis by (simp add: feed_ok_def rest same)
  next
    case False
    with that users have g: "hb_users h u' = Some g" by simp
    have d: "fd_id f \<noteq> fd_id g" "sb_id ` set (fd_subs f) \<inter> sb_id ` set (fd_subs g) = {}" using other [OF g] False by auto
    have "sb_id s \<notin> cs" if "s \<in> set (fd_subs g)" for s using cs(1) d(2) that by blast
    with hub_invD(1) [OF inv g] d(1) show ?thesis by (simp add: feed_ok_def rest)
  qed
  have apart: "fd_id g \<noteq> fd_id g' \<and> sb_id ` set (fd_subs g) \<inter> sb_id ` set (fd_subs g') = {}"
    if v: "hb_users ?h v = Some g" "hb_users ?h v' = Some g'" "v \<noteq> v'" for v v' g g'
  proof -
    have old: "\<exists>g0. hb_users h v = Some g0 \<and> fd_id g = fd_id g0 \<and> sb_id ` set (fd_subs g) \<subseteq> sb_id ` set (fd_subs g0)"
      if "hb_users ?h v = Some g" for v g
      using that users u same subs(1) by (auto split: if_splits)
    obtain g0 where g0: "hb_users h v = Some g0" "fd_id g = fd_id g0" "sb_id ` set (fd_subs g) \<subseteq> sb_id ` set (fd_subs g0)"
      using old [OF v(1)] by blast
    obtain g1 where g1: "hb_users h v' = Some g1" "fd_id g' = fd_id g1" "sb_id ` set (fd_subs g') \<subseteq> sb_id ` set (fd_subs g1)"
      using old [OF v(2)] by blast
    from hub_invD(2) [OF inv g0(1) g1(1) v(3)] have "fd_id g0 \<noteq> fd_id g1" "sb_id ` set (fd_subs g0) \<inter> sb_id ` set (fd_subs g1) = {}"
      by auto
    with g0(2,3) g1(2,3) show ?thesis by (intro conjI) (simp, blast)
  qed
  have running: "\<exists>v g. hb_users ?h v = Some g \<and> fd_id g = n" if "n \<in> hb_running ?h" for n
  proof -
    have "n \<in> hb_running h" using that unfolding rest(3) by (auto split: if_splits)
    then obtain v g where v: "hb_users h v = Some g" "fd_id g = n"
      using inv unfolding hub_inv_def by blast
    show ?thesis
    proof (cases "v = u")
      case True
      with v u that have "fd_subs f' \<noteq> []" unfolding rest(3) by (auto split: if_splits)
      with True v u same users show ?thesis by (intro exI [of _ u] exI [of _ f']) simp
    next
      case False
      with v users show ?thesis by (intro exI [of _ v] exI [of _ g]) simp
    qed
  qed
  have closed: "\<forall>n \<in> hb_closed ?h. n < hb_next ?h"
  proof -
    have "\<forall>n \<in> hb_closed h. n < hb_next h" using inv unfolding hub_inv_def by (elim conjE)
    moreover have "\<forall>n \<in> cs. n < hb_next h" using low(1) cs(1) by blast
    ultimately show ?thesis unfolding rest by blast
  qed
  show ?thesis unfolding hub_inv_def
  proof (intro conjI allI impI ballI)
    show "feed_ok ?h g" if "hb_users ?h v = Some g" for v g using feeds [OF that] .
    show "fd_id g \<noteq> fd_id g'" "sb_id ` set (fd_subs g) \<inter> sb_id ` set (fd_subs g') = {}"
      if "hb_users ?h v = Some g" "hb_users ?h v' = Some g'" "v \<noteq> v'" for v v' g g'
      using apart [OF that] by simp_all
    show "\<exists>v g. hb_users ?h v = Some g \<and> fd_id g = n" if "n \<in> hb_running ?h" for n using running [OF that] .
    show "n < hb_next ?h" if "n \<in> hb_closed ?h" for n using closed that ..
  qed
qed

lemma put_feed_kept:
  "fd_subs f \<noteq> [] \<Longrightarrow> put_feed u f h = h\<lparr>hb_users := (hb_users h)(u \<mapsto> f)\<rparr>"
  by (simp add: put_feed_def)

lemma hub_inv_sockets [simp]: "hub_inv (h\<lparr>hb_sockets := x\<rparr>) = hub_inv h" "hub_inv (h\<lparr>hb_dropped := y\<rparr>) = hub_inv h"
  by (simp_all add: hub_inv_def feed_ok_def)

lemma NewHub_inv: "hub_inv NewHub"
  by (simp add: NewHub_def hub_inv_def)

lemma register_inv: "hub_inv h \<Longrightarrow> hub_inv (Register u conn h) \<and> hub_inv (deregister u conn h) \<and> hub_inv (EndSessions u h)"
  by (simp add: Register_def deregister_def EndSessions_def)

lemma unsubscribe_inv:
  assumes inv: "hub_inv h"
  shows "\<exists>h'. unsubscribe u s h = Some h' \<and> hub_inv h'"
proof (cases "hb_users h u")
  case None
  with inv show ?thesis by (simp add: unsubscribe_def)
next
  case (Some f)
  let ?f = "f\<lparr>fd_subs := filter (\<lambda>x. sb_id x \<noteq> s) (fd_subs f)\<rparr>"
  note ok = hub_invD(1) [OF inv Some, unfolded feed_ok_def]
  show ?thesis
  proof (cases "s \<in> sb_id ` set (fd_subs f)")
    case True
    with ok have "close_channels [s] h = Some (h\<lparr>hb_closed := hb_closed h \<union> {s}\<rparr>)" by (auto simp: close_channels_def)
    moreover have "hub_inv (put_feed u ?f (h\<lparr>hb_closed := hb_closed h \<union> {s}\<rparr>))"
      by (rule put_feed_inv [OF inv Some]) (use ok True in \<open>auto simp: distinct_map_filter\<close>)
    ultimately show ?thesis using Some True by (simp add: unsubscribe_def)
  next
    case False
    with inv Some show ?thesis by (simp add: unsubscribe_def)
  qed
qed

lemma sub_ok_deliver: "sub_ok sent s \<Longrightarrow> length (sb_events s) < event_buffer \<Longrightarrow> sub_ok (sent @ [e]) (s\<lparr>sb_events := sb_events s @ [e]\<rparr>)"
  by (simp add: sub_ok_def flip: append_assoc)

lemma sub_ok_take: "sub_ok sent s \<Longrightarrow> sub_ok sent (take_event s)" and take_event_id [simp]: "sb_id (take_event s) = sb_id s"
  by (auto simp: sub_ok_def take_event_def split: list.splits)

lemma broadcast_inv:
  assumes inv: "hub_inv h"
  shows "\<exists>h'. broadcastLocal u feed e h = Some h' \<and> hub_inv h'"
proof (cases "\<exists>f. hb_users h u = Some f \<and> fd_id f = feed")
  case False
  with inv show ?thesis by (auto simp: broadcastLocal_def split: option.splits)
next
  case True
  then obtain f where f: "hb_users h u = Some f" "fd_id f = feed" by blast
  note ok = hub_invD(1) [OF inv f(1), unfolded feed_ok_def]
  let ?full = "filter (\<lambda>s. event_buffer \<le> length (sb_events s)) (fd_subs f)"
    and ?rest = "filter (\<lambda>s. length (sb_events s) < event_buffer) (fd_subs f)"
  let ?f = "f\<lparr>fd_subs := map (\<lambda>s. s\<lparr>sb_events := sb_events s @ [e]\<rparr>) ?rest, fd_sent := fd_sent f @ [e]\<rparr>"
  have inj: "inj_on sb_id (set (fd_subs f))" using ok by (simp add: distinct_map)
  have open_: "sb_id ` set (fd_subs f) \<inter> hb_closed h = {}" using ok by auto
  have "close_channels (map sb_id ?full) h = Some (h\<lparr>hb_closed := hb_closed h \<union> set (map sb_id ?full)\<rparr>)"
    using ok open_ by (auto simp: close_channels_def distinct_map_filter)
  moreover have "hub_inv (put_feed u ?f (h\<lparr>hb_closed := hb_closed h \<union> set (map sb_id ?full)\<rparr>))"
  proof (rule put_feed_inv [OF inv f(1)])
    show "fd_id ?f = fd_id f" by simp
    show "sb_id ` set (fd_subs ?f) \<subseteq> sb_id ` set (fd_subs f)" by auto
    show "distinct (map sb_id (fd_subs ?f))" using ok by (simp add: o_def distinct_map_filter)
    show "set (map sb_id ?full) \<subseteq> sb_id ` set (fd_subs f)" by auto
    show "set (map sb_id ?full) \<inter> sb_id ` set (fd_subs ?f) = {}"
      using inj_onD [OF inj] by (fastforce simp: not_le)
    show "sub_ok (fd_sent ?f) s" if "s \<in> set (fd_subs ?f)" for s
      using that ok by (auto intro: sub_ok_deliver)
  qed
  ultimately show ?thesis using f open_ by (simp add: broadcastLocal_def)
qed

lemma message_inv: "hub_inv h \<Longrightarrow> \<exists>h'. pump_message u feed m h = Some h' \<and> hub_inv h'"
  by (cases "(u, feed, m, h)" rule: pump_message.cases) (simp_all add: broadcast_inv)

lemma confirmed_inv:
  assumes inv: "hub_inv h"
  shows "hub_inv (pump_confirmed u feed h)"
proof (cases "hb_users h u")
  case None
  with inv show ?thesis by (simp add: pump_confirmed_def)
next
  case (Some f)
  note ok = hub_invD(1) [OF inv Some, unfolded feed_ok_def]
  have "hub_inv (put_feed u (f\<lparr>fd_ready := True\<rparr>) (h\<lparr>hb_closed := hb_closed h \<union> {}\<rparr>))"
    by (rule put_feed_inv [OF inv Some]) (use ok in auto)
  with ok inv Some show ?thesis by (simp add: put_feed_kept pump_confirmed_def)
qed

lemma takes_inv:
  assumes inv: "hub_inv h"
  shows "hub_inv (socket_takes u s h)"
proof (cases "hb_users h u")
  case None
  with inv show ?thesis by (simp add: socket_takes_def)
next
  case (Some f)
  let ?f = "f\<lparr>fd_subs := map (\<lambda>x. if sb_id x = s then take_event x else x) (fd_subs f)\<rparr>"
  note ok = hub_invD(1) [OF inv Some, unfolded feed_ok_def]
  have ids: "map (sb_id \<circ> (\<lambda>x. if sb_id x = s then take_event x else x)) xs = map sb_id xs" for xs by simp
  have "hub_inv (put_feed u ?f (h\<lparr>hb_closed := hb_closed h \<union> {}\<rparr>))"
    by (rule put_feed_inv [OF inv Some]) (use ok in \<open>auto simp: ids sub_ok_take\<close>)
  with ok inv Some show ?thesis by (simp add: put_feed_kept socket_takes_def)
qed

lemma sub_ok_new: "sub_ok sent \<lparr>sb_id = i, sb_events = [], sb_joined = length sent, sb_taken = []\<rparr>"
  by (simp add: sub_ok_def)

text \<open>A new socket joins the feed of its user, or starts one under numbers not used before.\<close>

lemma subscribe_inv:
  assumes inv: "hub_inv h" and S: "Subscribe u h = (s, f, h')"
  shows "hub_inv h'"
proof -
  let ?new = "\<lparr>fd_id = hb_next h, fd_subs = [], fd_ready = False, fd_sent = []\<rparr>"
  define g where "g = (case hb_users h u of Some f \<Rightarrow> f | None \<Rightarrow> ?new)"
  define n where "n = \<lparr>sb_id = Suc (hb_next h), sb_events = [], sb_joined = length (fd_sent g), sb_taken = []\<rparr>"
  define g' where "g' = g\<lparr>fd_subs := fd_subs g @ [n]\<rparr>"
  have h': "h' = h\<lparr>hb_users := (hb_users h)(u \<mapsto> g'), hb_next := Suc (Suc (hb_next h)), hb_running := insert (fd_id g) (hb_running h)\<rparr>"
    using S by (auto simp: Subscribe_def Let_def g_def n_def g'_def)
  have old: "fd_id k < hb_next h" "fd_id k \<in> hb_running h" "\<And>x. x \<in> set (fd_subs k) \<Longrightarrow> sb_id x < hb_next h"
    if "hb_users h v = Some k" for v k
    using hub_invD(1) [OF inv that] by (auto simp: feed_ok_def)
  have closed: "\<forall>m \<in> hb_closed h. m < hb_next h" using inv unfolding hub_inv_def by (elim conjE)
  have g: "fd_id g \<le> hb_next h" "\<And>x. x \<in> set (fd_subs g) \<Longrightarrow> sb_id x < hb_next h \<and> sb_id x \<notin> hb_closed h \<and> sub_ok (fd_sent g) x"
    "distinct (map sb_id (fd_subs g))"
    using hub_invD(1) [OF inv, of u] old(1) [of u] by (auto simp: g_def feed_ok_def less_imp_le split: option.splits)
  have n: "sb_id n = Suc (hb_next h)" "Suc (hb_next h) \<notin> hb_closed h" "sub_ok (fd_sent g) n"
    using closed by (auto simp: n_def sub_ok_new)
  have mine: "feed_ok h' g'"
  proof -
    have "Suc (hb_next h) \<notin> sb_id ` set (fd_subs g)" using g(2) by fastforce
    with g n show ?thesis by (auto simp: feed_ok_def h' g'_def less_Suc_eq)
  qed
  have away: "fd_id k \<noteq> fd_id g'" "sb_id ` set (fd_subs k) \<inter> sb_id ` set (fd_subs g') = {}"
    if "hb_users h v = Some k" "v \<noteq> u" for v k
  proof -
    have "fd_id k \<noteq> fd_id g \<and> sb_id ` set (fd_subs k) \<inter> sb_id ` set (fd_subs g) = {}"
    proof (cases "hb_users h u")
      case None
      with old(1) [OF that(1)] show ?thesis by (simp add: g_def)
    next
      case (Some k')
      from hub_invD(2) [OF inv that(1) this that(2)] Some show ?thesis by (simp add: g_def)
    qed
    moreover have "Suc (hb_next h) \<notin> sb_id ` set (fd_subs k)" using old(3) [OF that(1)] by fastforce
    ultimately show "fd_id k \<noteq> fd_id g'" "sb_id ` set (fd_subs k) \<inter> sb_id ` set (fd_subs g') = {}"
      by (auto simp: g'_def n(1))
  qed
  have users: "hb_users h' v = (if v = u then Some g' else hb_users h v)" for v by (simp add: h')
  have id: "fd_id g' = fd_id g" by (simp add: g'_def)
  show ?thesis unfolding hub_inv_def
  proof (intro conjI allI impI ballI)
    show "feed_ok h' k" if "hb_users h' v = Some k" for v k
    proof (cases "v = u")
      case True
      with that mine show ?thesis by (simp add: users)
    next
      case False
      with that have "hb_users h v = Some k" by (simp add: users)
      from hub_invD(1) [OF inv this] show ?thesis by (auto simp: feed_ok_def h')
    qed
    show "fd_id k \<noteq> fd_id k'" "sb_id ` set (fd_subs k) \<inter> sb_id ` set (fd_subs k') = {}"
      if "hb_users h' v = Some k" "hb_users h' v' = Some k'" "v \<noteq> v'" for v v' k k'
      using that away [of v k] away [of v' k'] hub_invD(2) [OF inv, of v k v' k']
      by (auto simp: users split: if_splits)
    show "\<exists>v k. hb_users h' v = Some k \<and> fd_id k = m" if "m \<in> hb_running h'" for m
    proof (cases "m = fd_id g")
      case True
      then show ?thesis by (intro exI [of _ u] exI [of _ g']) (simp add: users id)
    next
      case False
      with that have "m \<in> hb_running h" by (simp add: h')
      then obtain v k where k: "hb_users h v = Some k" "fd_id k = m" using inv unfolding hub_inv_def by blast
      with False have "v \<noteq> u" by (auto simp: g_def)
      with k show ?thesis by (intro exI [of _ v] exI [of _ k]) (simp add: users)
    qed
    show "m < hb_next h'" if "m \<in> hb_closed h'" for m using that closed by (auto simp: h' intro: less_SucI)
  qed
qed

lemma hub_step_inv:
  assumes inv: "hub_inv h" and step: "hub_step h h'"
  shows "hub_inv h'"
  using step
proof cases
  case (unsubscribe u s)
  with inv show ?thesis using unsubscribe_inv [of h u s] by auto
next
  case (message u f m)
  with inv show ?thesis using message_inv [of h u f m] by auto
qed (use inv in \<open>auto simp: register_inv confirmed_inv takes_inv dest: subscribe_inv\<close>)

interpretation hub: invariant_system "\<lambda>h. h = NewHub" hub_step hub_inv
  by unfold_locales (auto simp: NewHub_inv dest: hub_step_inv)

text \<open>
  C19: However sockets come and go, messages arrive, buffers fill and channels are closed, in
  any order from an empty hub: leaving the hub and handling a message never panic (no channel is
  closed twice, none is written to after being closed); a Redis subscription runs exactly as long
  as its user holds a socket here; no channel holds more than sixteen events; and what a socket has
  taken from its channel followed by what is still in it is everything its subscription delivered
  since the socket joined, in order, with nothing skipped.
\<close>

theorem hub_sound:
  assumes "hub_step\<^sup>*\<^sup>* NewHub h"
  shows "unsubscribe u s h \<noteq> None \<and> pump_message u f m h \<noteq> None \<and>
    (n \<in> hb_running h \<longleftrightarrow> (\<exists>v k. hb_users h v = Some k \<and> fd_subs k \<noteq> [] \<and> fd_id k = n)) \<and>
    (hb_users h u = Some k \<longrightarrow> x \<in> set (fd_subs k) \<longrightarrow>
       length (sb_events x) \<le> 16 \<and> sb_taken x @ sb_events x = drop (sb_joined x) (fd_sent k))"
proof -
  have inv: "hub_inv h" by (rule hub.inv_reachable [OF refl assms])
  have "n \<in> hb_running h \<longleftrightarrow> (\<exists>v k. hb_users h v = Some k \<and> fd_subs k \<noteq> [] \<and> fd_id k = n)"
    using inv hub_invD(1) [OF inv] unfolding hub_inv_def feed_ok_def by blast
  moreover have "unsubscribe u s h \<noteq> None" "pump_message u f m h \<noteq> None"
    using unsubscribe_inv [OF inv, of u s] message_inv [OF inv, of u f m] by auto
  ultimately show ?thesis
    using hub_invD(1) [OF inv, of u k] by (auto simp: feed_ok_def sub_ok_def event_buffer_def)
qed

lemma hub_sound_witness:
  "let h = snd (snd (Subscribe 11 NewHub)) in
     unsubscribe 11 1 h \<noteq> None \<and> pump_message 11 0 Resubscribed h \<noteq> None \<and>
     (0 \<in> hb_running h \<longleftrightarrow> (\<exists>v k. hb_users h v = Some k \<and> fd_subs k \<noteq> [] \<and> fd_id k = 0))"
proof -
  let ?h = "snd (snd (Subscribe 11 NewHub))"
  have "hub_step\<^sup>*\<^sup>* NewHub ?h"
    by (rule r_into_rtranclp, rule hub_step.subscribe [of 11 _ "fst (Subscribe 11 NewHub)" "fst (snd (Subscribe 11 NewHub))"]) simp
  from hub_sound [OF this, of 11 1 0 Resubscribed 0] show ?thesis by (simp add: Let_def)
qed

end
