(* ===== verification/Worker_Properties.thy ===== *)
theory Worker_Properties
  imports Worker Session_Properties
begin

text \<open>
  The background loops: the booking expiry recovers from any run of failures, and the waits
  between the restarts of a consumer.
\<close>

section \<open>Passes that use up the schedule\<close>

definition calming :: "nat \<Rightarrow> (db \<Rightarrow> bool) \<Rightarrow> world \<Rightarrow> bool" where
  "calming n I w \<longleftrightarrow> db_inv I w \<and> length (w_sched w) \<le> n"

lemma next_entry_shorter: "next_entry w = (b, w') \<Longrightarrow> length (w_sched w') = length (w_sched w) - 1"
  by (auto simp: next_entry_def split: list.splits sched.splits if_splits)

interpretation calm: world_property "calming n I" I for n I
proof unfold_locales
  show "calming n I w \<Longrightarrow> next_entry w = (b, w') \<Longrightarrow> calming n I w'" for w b w'
    by (auto simp: calming_def next_entry_inv next_entry_shorter)
qed (auto simp: calming_def db_inv_def)

lemma calming_tx: "calming n I (w\<lparr>w_in_tx := b\<rparr>) = calming n I w" "calming n I (w\<lparr>w_now := t, w_dbnow := u\<rparr>) = calming n I w"
  by (simp_all add: calming_def db_inv_def)

lemma calming_transaction:
  assumes "keeps (calming n I) body" and "calming (Suc n) I w"
  shows "calming n I (snd (transaction body w))"
proof -
  obtain b w1 where n: "next_entry w = (b, w1)" by (cases "next_entry w")
  with assms(2) have 1: "calming n I w1" by (auto simp: calming_def next_entry_inv next_entry_shorter)
  then have t1: "calming n I (w1\<lparr>w_in_tx := True\<rparr>)" by (simp add: calming_tx)
  obtain r w2 where body: "body (w1\<lparr>w_in_tx := True\<rparr>) = (r, w2)" by (cases "body (w1\<lparr>w_in_tx := True\<rparr>)")
  with assms(1) t1 have 2: "calming n I w2" by (blast intro: keepsD)
  obtain c w3 where m: "next_entry w2 = (c, w3)" by (cases "next_entry w2")
  with 2 have 3: "calming n I w3" by (auto simp: calming_def next_entry_inv next_entry_shorter)
  have undone: "calming n I (v\<lparr>w_db := w_db w1, w_in_tx := x\<rparr>)" if "calming n I v" for v x
    using that 1 by (simp add: calming_def db_inv_def)
  show ?thesis
    using n body m 1 3 undone [OF 2] undone [OF 3] by (auto simp: transaction_def calming_tx split: bool.splits sum.splits)
qed

lemma accounts_sessions: "write_sessions d ss = Inr d' \<Longrightarrow> coaches_have_accounts d' = coaches_have_accounts d"
proof -
  assume "write_sessions d ss = Inr d'"
  then have "d' = d\<lparr>d_sessions := ss\<rparr>" by (simp add: write_sessions_def split: option.splits)
  then show ?thesis by (simp add: coaches_have_accounts_def)
qed

lemma accounts_outbox [simp]: "coaches_have_accounts (d\<lparr>d_outbox := x\<rparr>) = coaches_have_accounts d"
  by (simp add: coaches_have_accounts_def)

lemma calming_mono: "calming n I w \<Longrightarrow> n \<le> m \<Longrightarrow> calming m I w"
  by (simp add: calming_def)

abbreviation accounted :: "nat \<Rightarrow> world \<Rightarrow> bool" where
  "accounted n \<equiv> calming n coaches_have_accounts"

lemma accounted_batch: "keeps (accounted n) (bindE (ExpirePendingSessions k) (\<lambda>rows. bindE (forE rows (expire_mails env)) (\<lambda>_. commit (length rows))))"
  unfolding ExpirePendingSessions_def expire_mails_def GetSessionParties_def select_one_def enqueue_opt_def enqueue_def commit_def Let_def
  by (intro keeps_intros calm.keeps_query calm.keeps_fresh_id)
     (auto simp: accounts_sessions split: sum.splits option.splits)

lemma expireBatch_calming: "accounted (Suc n) w \<Longrightarrow> accounted n (snd (expireBatch env w))"
  unfolding expireBatch_def by (rule calming_transaction [OF accounted_batch])

lemma ExpirePending_calming:
  "accounted (Suc n) w \<Longrightarrow> accounted n (snd (ExpirePending (Suc fuel) env k w))"
proof (induction fuel arbitrary: k w)
  case 0
  then show ?case using expireBatch_calming [of n w env]
    by (auto simp: attempt_def ret_def split: prod.splits sum.splits)
next
  case (Suc fuel)
  obtain r w1 where run: "expireBatch env w = (r, w1)" by (cases "expireBatch env w")
  with expireBatch_calming [OF Suc.prems, of env] have 1: "accounted n w1" by simp
  then have "accounted (Suc n) w1" by (rule calming_mono) simp
  from Suc.IH [OF this] 1 show ?case
    unfolding ExpirePending.simps(2) [of "Suc fuel"] attempt_def run
    by (simp add: ret_def del: ExpirePending.simps split: sum.splits)
qed

section \<open>The loops\<close>

lemma snd_ignore_error [simp]: "snd (ignore_error m w) = snd (m w)" and fst_ignore_error [simp]: "fst (ignore_error m w) = Inr ()"
  by (simp_all add: ignore_error_def attempt_def ret_def split: prod.splits sum.splits)

lemma on_ticks_Tick: "on_ticks pass (Tick t # bs) w = on_ticks pass bs (snd (pass (w\<lparr>w_now := t, w_dbnow := t\<rparr>)))"
proof -
  let ?w = "w\<lparr>w_now := t, w_dbnow := t\<rparr>"
  have "ignore_error pass ?w = (Inr (), snd (pass ?w))"
    by (rule prod_eqI) simp_all
  then show ?thesis by (simp add: bindE_def clock_at_def)
qed

lemma on_ticks_append:
  "on_ticks pass (map Tick ts @ bs) w = on_ticks pass bs (snd (on_ticks pass (map Tick ts) w))"
  by (induction ts arbitrary: w) (simp_all add: on_ticks_Tick ret_def del: on_ticks.simps(3))

lemma expireBookings_Tick:
  "snd (expireBookings fuel env (map Tick (t # ts)) w) =
     snd (expireBookings fuel env (map Tick ts) (snd (ExpirePending fuel env 0 (w\<lparr>w_now := t, w_dbnow := t\<rparr>))))"
  by (simp add: expireBookings_def on_ticks_Tick del: on_ticks.simps(3) ExpirePending.simps)

lemma expireBookings_accounted:
  "accounted (length ts + n) w \<Longrightarrow> accounted n (snd (expireBookings (Suc fuel) env (map Tick ts) w))"
proof (induction ts arbitrary: w)
  case (Cons t ts)
  then have "accounted (Suc (length ts + n)) (w\<lparr>w_now := t, w_dbnow := t\<rparr>)" by (simp add: calming_tx)
  from Cons.IH [OF ExpirePending_calming [OF this]] show ?case unfolding expireBookings_Tick .
qed (simp add: expireBookings_def ret_def)

lemma expireBookings_lawful:
  "db_inv (sessions_inv G) w \<Longrightarrow> db_inv (sessions_inv G) (snd (expireBookings fuel env (map Tick ts) w))"
proof (induction ts arbitrary: w)
  case (Cons t ts)
  then have "db_inv (sessions_inv G) (w\<lparr>w_now := t, w_dbnow := t\<rparr>)" by (simp add: db_inv_def)
  then have "db_inv (sessions_inv G) (snd (ExpirePending fuel env 0 (w\<lparr>w_now := t, w_dbnow := t\<rparr>)))"
    using keeps_ExpirePending unfolding keeps_def by blast
  from Cons.IH [OF this] show ?case unfolding expireBookings_Tick .
qed (simp add: expireBookings_def ret_def)

text \<open>
  C30: The booking expiry recovers.  Whatever statements fail and whatever other requests do in
  between, as long as they keep the rows lawful, after as many ticks as there are faults and
  interruptions still to come one more tick leaves no unanswered request past its deadline: those
  that were are expired, and the loop goes on.
\<close>

theorem expiry_recovers:
  assumes lawful: "db_inv (sessions_inv G) w" "db_inv coaches_have_accounts w" and troubles: "length (w_sched w) \<le> length ts"
    and before: "w1 = snd (expireBookings fuel env (map Tick ts) w)" and fuel: "overdue_count t (w_db w1) < fuel * expire_batch_size"
  shows "\<exists>w'. expireBookings fuel env (map Tick ts @ [Tick t]) w = (Inr (), w') \<and>
    d_sessions (w_db w') = map (expired_if_due t) (d_sessions (w_db w1)) \<and> (\<forall>s \<in> set (d_sessions (w_db w')). \<not> overdue t s)"
proof -
  obtain f where f: "fuel = Suc f" using fuel by (cases fuel) simp_all
  have "accounted (length ts + 0) w" using lawful(2) troubles by (simp add: calming_def)
  from expireBookings_accounted [OF this] have calm: "w_sched w1 = []" "coaches_have_accounts (w_db w1)"
    by (simp_all add: before f calming_def db_inv_def)
  have ok: "constraints_ok (w_db w1)"
    using expireBookings_lawful [OF lawful(1)] by (simp add: before f db_inv_def rows_inv_def)
  obtain w' where w': "ExpirePending fuel env 0 (w1\<lparr>w_now := t, w_dbnow := t\<rparr>) = (Inr (overdue_count t (w_db w1), None), w')"
    "d_sessions (w_db w') = map (expired_if_due t) (d_sessions (w_db w1))"
    using ExpirePending_calm [of "w1\<lparr>w_now := t, w_dbnow := t\<rparr>" fuel env 0] calm ok fuel by auto
  have "expireBookings fuel env (map Tick ts @ [Tick t]) w = (Inr (), w')"
    using w'(1) unfolding expireBookings_def on_ticks_append before [unfolded expireBookings_def, symmetric] on_ticks_Tick
    by (simp add: ret_def)
  moreover have "\<not> overdue t (expired_if_due t s)" for s by (simp add: expired_if_due_def overdue_def expire_set_def)
  ultimately show ?thesis using w'(2) by auto
qed

text \<open>A tick whose transaction does not begin, and one that succeeds.\<close>

lemma expiry_recovers_witness:
  "\<exists>w'. expireBookings 1 paid_env [Tick monday_10, Tick monday_10] (pend_world\<lparr>w_sched := [Fault]\<rparr>) = (Inr (), w') \<and>
    map s_status (d_sessions (w_db w')) = [Expired]"
proof -
  let ?w = "pend_world\<lparr>w_sched := [Fault]\<rparr>"
  have rows: "d_sessions (w_db pend_world) = [pend]" by (simp add: pend_world_def world_at_def start_db_def)
  have lawful: "db_inv (sessions_inv {}) ?w" "db_inv coaches_have_accounts ?w"
    using pend_world_facts by (simp_all add: db_inv_def rely_def rows_inv_def rows row_defs pend_def new_session_def)
  let ?w1 = "snd (expireBookings 1 paid_env (map Tick [monday_10]) ?w)"
  have same: "w_db ?w1 = w_db pend_world"
    unfolding expireBookings_Tick by (simp add: expireBookings_def ret_def expireBatch_def transaction_def attempt_def next_entry_def)
  have due: "overdue monday_10 pend" by code_simp
  have fuel: "overdue_count monday_10 (w_db ?w1) < 1 * expire_batch_size"
    by (simp only: same) (simp add: overdue_count_def rows due expire_batch_size_def)
  have troubles: "length (w_sched ?w) \<le> length [monday_10]" by simp
  from expiry_recovers [OF lawful troubles refl fuel] obtain w' where
    "expireBookings 1 paid_env (map Tick [monday_10] @ [Tick monday_10]) ?w = (Inr (), w')"
    "d_sessions (w_db w') = map (expired_if_due monday_10) (d_sessions (w_db ?w1))" by blast
  moreover from this(2) have "map s_status (d_sessions (w_db w')) = [Expired]"
    unfolding same rows by (simp add: expired_if_due_def due expire_set_def)
  ultimately show ?thesis by simp
qed

section \<open>Restarts\<close>

lemma consume_waits:
  "0 < b \<Longrightarrow> b \<le> max_backoff \<Longrightarrow>
   fst (consume run b es w) = Inr (map (\<lambda>k. min (b * 2 ^ k) max_backoff) [0..<length (takeWhile (\<lambda>e. snd e = Broke) es)])"
proof (induction run b es arbitrary: w rule: consume.induct)
  case (2 run b e how es)
  obtain r w1 where run: "ignore_error (run e) w = (r, w1)" by (cases "ignore_error (run e) w")
  with fst_ignore_error [of "run e" w] have r: "r = Inr ()" by simp
  show ?case
  proof (cases how)
    case Stopped
    with run r show ?thesis by (simp add: bindE_def ret_def)
  next
    case Broke
    have b: "next_backoff b = min (b * 2) max_backoff" "0 < next_backoff b" "next_backoff b \<le> max_backoff"
      using 2(2,3) by (auto simp: next_backoff_def)
    have scale: "min (min (b * 2) max_backoff * 2 ^ k) max_backoff = min (b * 2 ^ Suc k) max_backoff" for k :: nat
    proof -
      have up: "max_backoff \<le> max_backoff * 2 ^ k" by (simp add: max_backoff_def seconds_def)
      show ?thesis
      proof (cases "max_backoff \<le> b * 2")
        case True
        then have "max_backoff * 2 ^ k \<le> b * 2 * 2 ^ k" by (simp add: mult_right_mono)
        with up have "max_backoff \<le> b * 2 * 2 ^ k" by (rule order_trans)
        then have "max_backoff \<le> b * 2 ^ Suc k" by (simp only: power_Suc mult.assoc)
        with True up show ?thesis by (simp add: min_absorb2)
      next
        case False
        then show ?thesis by (simp add: mult.assoc)
      qed
    qed
    let ?n = "length (takeWhile (\<lambda>e. snd e = Broke) es)"
    have ih: "fst (consume run (next_backoff b) es w1) = Inr (map (\<lambda>k. min (b * 2 ^ Suc k) max_backoff) [0..<?n])"
      using 2(1) [OF _ b(2,3)] Broke by (simp add: b(1) scale)
    have "map (\<lambda>k. min (b * 2 ^ k) max_backoff) [0..<Suc ?n] = b # map (\<lambda>k. min (b * 2 ^ Suc k) max_backoff) [0..<?n]"
      using 2(3) by (simp add: upt_conv_Cons map_Suc_upt [symmetric] del: upt_Suc)
    with ih Broke run r show ?thesis
      by (auto simp: bindE_def ret_def split: prod.splits sum.splits)
  qed
qed (simp add: ret_def)

text \<open>
  A consumer that breaks is started again after 1, 2, 4, 8 and 16 seconds and then every
  half minute, however often it breaks and whatever its runs do, until the process stops.
\<close>

theorem restart_waits:
  "fst (consume run min_backoff es w) =
     Inr (map (\<lambda>k. seconds (min (2 ^ k) 30)) [0..<length (takeWhile (\<lambda>e. snd e = Broke) es)])"
proof -
  have "min (seconds 1 * 2 ^ k) (seconds 30) = seconds (min (2 ^ k) 30)" for k :: nat
    by (auto simp: seconds_def min_def)
  then show ?thesis using consume_waits [of min_backoff run es w] by (simp add: min_backoff_def max_backoff_def seconds_def)
qed

section \<open>Starting up\<close>

text \<open>\<open>New\<close> knows no payment provider yet, so a worker that starts has payments off and runs no sweep.\<close>

lemma worker_run_Inr:
  assumes "worker_run x open_db open_redis = Inr cs"
  shows "\<exists>g. Load x = Inr g \<and> \<not> g_payments_enabled g \<and> PaymentSweep \<notin> set cs \<and> length cs = 8"
  using assms by (auto simp: worker_run_def new_provider_def split: sum.splits option.splits if_splits)

lemma api_run_Inr:
  assumes "api_run x open_db open_redis open_publisher = Inr (g, google, p)"
  shows "Load x = Inr g \<and> \<not> g_payments_enabled g \<and> \<not> p_enabled p"
  using assms by (auto simp: api_run_def new_provider_def split: sum.splits option.splits if_splits)

end
