(* ===== verification/Routes.thy ===== *)
theory Routes
  imports Gateway_Properties
begin

text \<open>
  The table of endpoints: the \<open>Routes\<close> of every handler package (internal/auth, coaching, chat and
  analysis, handler.go) mounted as \<open>newRouter\<close> in cmd/api/main.go mounts them, with the middleware
  in front of each.  Theory Gateway has the middleware and its groups.

  chi is outside the repository: which of the registered endpoints it picks for a request is a
  parameter, and the theorem asks of it only that it picks a registered one.  Where patterns are
  matched segment by segment, as chi documents it, no request fits two of them, so nothing
  depends on which chi would prefer.
\<close>

section \<open>Patterns and middleware\<close>

datatype http_method = GET | POST | PUT | PATCH | DELETE

datatype segment = Lit string | Param string

datatype guard = LimitRate | NeedToken | NeedScope string | NeedCoach | NeedAdmin

text \<open>An endpoint; its handler goes by its name in the code.\<close>

record endpoint =
  ep_method :: http_method
  ep_path :: "segment list"
  ep_guards :: "guard list"
  ep_handler :: string

definition on :: "http_method \<Rightarrow> segment list \<Rightarrow> string \<Rightarrow> endpoint" where
  "on m path handler = \<lparr>ep_method = m, ep_path = path, ep_guards = [], ep_handler = handler\<rparr>"

text \<open>\<open>Use\<close> puts middleware in front of every endpoint of a group, \<open>Mount\<close> a prefix before its path.\<close>

definition use :: "guard list \<Rightarrow> endpoint list \<Rightarrow> endpoint list" where
  "use gs es = map (\<lambda>e. e\<lparr>ep_guards := gs @ ep_guards e\<rparr>) es"

definition mount :: "string list \<Rightarrow> endpoint list \<Rightarrow> endpoint list" where
  "mount prefix es = map (\<lambda>e. e\<lparr>ep_path := map Lit prefix @ ep_path e\<rparr>) es"

section \<open>The packages\<close>

definition auth_Routes :: "endpoint list" where
  "auth_Routes =
     use [LimitRate]
       [on POST [Lit ''signup''] ''signUp'', on POST [Lit ''signin''] ''signIn'', on POST [Lit ''google''] ''signInWithGoogle'',
        on POST [Lit ''refresh''] ''refresh'', on POST [Lit ''verify''] ''verify'',
        on POST [Lit ''resend-verification''] ''resendVerification''] @
     use [NeedToken] [on GET [Lit ''me''] ''me'', on PATCH [Lit ''me''] ''updateMe'', on DELETE [Lit ''me''] ''deleteMe'']"

definition coaching_PublicRoutes :: "endpoint list" where
  "coaching_PublicRoutes = [on POST [Lit ''respond''] ''respondWithToken'']"

definition coaching_Routes :: "endpoint list" where
  "coaching_Routes =
     [on GET [Lit ''config''] ''config'', on GET [Lit ''coaches''] ''listCoaches'',
      on GET [Lit ''coaches'', Param ''coachID''] ''getCoach'',
      on GET [Lit ''coaches'', Param ''coachID'', Lit ''availability''] ''coachAvailability'',
      on GET [Lit ''coaches'', Param ''coachID'', Lit ''slots''] ''coachSlots'',
      on GET [Lit ''coaches'', Param ''coachID'', Lit ''reviews''] ''listReviews'',
      on GET [Lit ''coaches'', Param ''coachID'', Lit ''reviews'', Lit ''summary''] ''reviewSummary'',
      on POST [Lit ''coaches'', Param ''coachID'', Lit ''reviews''] ''createReview'',
      on POST [Lit ''sessions''] ''bookSession'', on GET [Lit ''sessions''] ''listMySessions'',
      on POST [Lit ''sessions'', Param ''sessionID'', Lit ''cancel''] ''cancelSession'',
      on POST [Lit ''sessions'', Param ''sessionID'', Lit ''reschedule''] ''rescheduleSession'']"

definition coaching_CoachRoutes :: "endpoint list" where
  "coaching_CoachRoutes =
     [on PUT [Lit ''profile''] ''upsertProfile'', on PUT [Lit ''availability''] ''setAvailability'',
      on GET [Lit ''sessions''] ''listCoachSessions'',
      on POST [Lit ''sessions'', Param ''sessionID'', Lit ''respond''] ''respondAsCoach'',
      on POST [Lit ''sessions'', Param ''sessionID'', Lit ''status''] ''setSessionStatus'',
      on POST [Lit ''sessions'', Param ''sessionID'', Lit ''notes''] ''setSessionNotes'',
      on POST [Lit ''sessions'', Param ''sessionID'', Lit ''meeting-url''] ''setSessionMeetingURL'']"

definition coaching_AdminRoutes :: "endpoint list" where
  "coaching_AdminRoutes =
     [on GET [Lit ''coaches''] ''listCoachesByApproval'',
      on POST [Lit ''coaches'', Param ''coachID'', Lit ''approve''] ''decideCoach approved'',
      on POST [Lit ''coaches'', Param ''coachID'', Lit ''reject''] ''decideCoach rejected'']"

definition chat_Routes :: "endpoint list" where
  "chat_Routes =
     [on POST [Lit ''threads''] ''startThread'', on GET [Lit ''threads''] ''listThreads'',
      on GET [Lit ''threads'', Param ''threadID'', Lit ''messages''] ''history'',
      on POST [Lit ''threads'', Param ''threadID'', Lit ''messages''] ''postMessage'',
      on POST [Lit ''threads'', Param ''threadID'', Lit ''close''] ''closeThread'',
      on GET [Lit ''threads'', Param ''threadID'', Lit ''ws''] ''websocket''] @
     mount [''coach''] (use [NeedCoach] [on GET [Lit ''threads''] ''listCoachThreads''])"

definition analysis_Routes :: "endpoint list" where
  "analysis_Routes =
     [on POST [Lit ''conversations''] ''submit'', on GET [Lit ''conversations''] ''listConversations'',
      on GET [Lit ''conversations'', Param ''conversationID'', Lit ''result''] ''latestResult'',
      on POST [Lit ''conversations'', Param ''conversationID'', Lit ''reanalyze''] ''reanalyze'',
      on POST [Lit ''conversations'', Param ''conversationID'', Lit ''label''] ''label'',
      on GET [Lit ''results'', Param ''analysisID''] ''result'']"

section \<open>The tree\<close>

definition api_routes :: "endpoint list" where
  "api_routes =
     on GET [Lit ''healthz''] ''healthz'' #
     mount [''api'', ''v1'']
       (mount [''auth''] auth_Routes @ mount [''booking''] coaching_PublicRoutes @
        use [NeedToken, NeedScope scope_session]
          (mount [''coaching''] coaching_Routes @ mount [''chat''] chat_Routes @ mount [''analysis''] analysis_Routes @
           mount [''coach''] (use [NeedCoach] coaching_CoachRoutes) @
           mount [''admin''] (use [NeedAdmin] coaching_AdminRoutes)))"

text \<open>
  A request through the middleware to its handler, which finds on the context the principal that
  the middleware put there, if any.
\<close>

fun guarded :: "auth_env \<Rightarrow> limiter \<Rightarrow> (string \<Rightarrow> string option) \<Rightarrow> raw_request \<Rightarrow> guard list \<Rightarrow> principal option \<Rightarrow>
    (principal option \<Rightarrow> 'a answer) \<Rightarrow> 'a answer" where
  "guarded env l split r [] p f = f p"
| "guarded env l split r (LimitRate # gs) p f = Limited l split r (guarded env l split r gs p f)"
| "guarded env l split r (NeedToken # gs) p f = Authenticate env r (\<lambda>p. guarded env l split r gs (Some p) f)"
| "guarded env l split r (NeedScope s # gs) p f =
     (case p of None \<Rightarrow> throw 401 | Some p \<Rightarrow> RequireScope s (\<lambda>p. guarded env l split r gs (Some p) f) p)"
| "guarded env l split r (NeedCoach # gs) p f =
     (case p of None \<Rightarrow> throw 403 | Some p \<Rightarrow> RequireCoach (\<lambda>p. guarded env l split r gs (Some p) f) p)"
| "guarded env l split r (NeedAdmin # gs) p f =
     (case p of None \<Rightarrow> throw 403 | Some p \<Rightarrow> RequireAdmin (\<lambda>p. guarded env l split r gs (Some p) f) p)"

text \<open>What chi makes of a request: an endpoint, or a status (404, 405) of its own.\<close>

type_synonym matcher = "endpoint list \<Rightarrow> http_method \<Rightarrow> string list \<Rightarrow> nat + endpoint"

definition serve_request :: "auth_env \<Rightarrow> limiter \<Rightarrow> (string \<Rightarrow> string option) \<Rightarrow> matcher \<Rightarrow> http_method \<Rightarrow> string list \<Rightarrow>
    raw_request \<Rightarrow> (string \<Rightarrow> principal option \<Rightarrow> 'a answer) \<Rightarrow> 'a answer" where
  "serve_request env l split chi m path r handlers =
     (case chi api_routes m path of
        Inl status \<Rightarrow> throw status
      | Inr e \<Rightarrow> guarded env l split r (ep_guards e) None (handlers (ep_handler e)))"

section \<open>The table is unambiguous\<close>

fun fits :: "segment list \<Rightarrow> string list \<Rightarrow> bool" where
  "fits [] [] = True"
| "fits (Lit s # ps) (x # xs) = (s = x \<and> fits ps xs)"
| "fits (Param n # ps) (x # xs) = fits ps xs"
| "fits _ _ = False"

text \<open>Matching by segments, the first endpoint that fits; it stands for chi in the witness.\<close>

definition by_segments :: matcher where
  "by_segments es m path =
     (case find (\<lambda>e. ep_method e = m \<and> fits (ep_path e) path) es of
        Some e \<Rightarrow> Inr e
      | None \<Rightarrow> Inl (if list_ex (\<lambda>e. fits (ep_path e) path) es then 405 else 404))"

fun apart :: "segment list \<Rightarrow> segment list \<Rightarrow> bool" where
  "apart [] [] = False"
| "apart (Lit s # ps) (Lit t # qs) = (s \<noteq> t \<or> apart ps qs)"
| "apart (p # ps) (q # qs) = apart ps qs"
| "apart _ _ = True"

lemma fits_simps:
  "fits [] xs \<longleftrightarrow> xs = []" "fits (p # ps) [] \<longleftrightarrow> False"
  "fits (p # ps) (x # xs) \<longleftrightarrow> (\<forall>s. p = Lit s \<longrightarrow> s = x) \<and> fits ps xs"
  by (cases xs; simp) (cases p; simp)+

lemma apart_fits: "apart ps qs \<Longrightarrow> fits ps xs \<Longrightarrow> \<not> fits qs xs"
proof (induction ps arbitrary: qs xs)
  case Nil
  then show ?case by (cases qs) (simp_all add: fits_simps)
next
  case (Cons p ps)
  then show ?case by (cases qs; cases xs; cases p; cases "hd qs") (auto simp: fits_simps)
qed

fun all_apart :: "endpoint list \<Rightarrow> bool" where
  "all_apart [] = True"
| "all_apart (e # es) = (list_all (\<lambda>e'. ep_method e = ep_method e' \<longrightarrow> apart (ep_path e) (ep_path e')) es \<and> all_apart es)"

lemma api_routes_apart: "all_apart api_routes"
  by code_simp

lemma all_apart_unique:
  "all_apart es \<Longrightarrow> e \<in> set es \<Longrightarrow> e' \<in> set es \<Longrightarrow> ep_method e = ep_method e' \<Longrightarrow> fits (ep_path e) xs \<Longrightarrow> fits (ep_path e') xs \<Longrightarrow> e = e'"
  by (induction es) (auto simp: list_all_iff dest: apart_fits)

lemma by_segments_Inr: "by_segments es m path = Inr e \<Longrightarrow> e \<in> set es \<and> ep_method e = m \<and> fits (ep_path e) path"
  by (auto simp: by_segments_def split: option.splits dest: find_Some_mem)

lemma routes_unambiguous:
  assumes "e \<in> set api_routes" and "fits (ep_path e) path"
  shows "by_segments api_routes (ep_method e) path = Inr e"
proof (cases "find (\<lambda>e'. ep_method e' = ep_method e \<and> fits (ep_path e') path) api_routes")
  case None
  with assms show ?thesis unfolding find_None_iff by blast
next
  case (Some e')
  then have e': "by_segments api_routes (ep_method e) path = Inr e'" by (simp add: by_segments_def)
  have "e = e'"
    by (rule all_apart_unique [OF api_routes_apart assms(1), where xs = path]) (use assms(2) by_segments_Inr [OF e'] in simp_all)
  with e' show ?thesis by simp
qed

section \<open>What stands in front of each handler\<close>

definition open_handlers :: "string list" where
  "open_handlers = [''healthz'', ''signUp'', ''signIn'', ''signInWithGoogle'', ''refresh'', ''verify'', ''resendVerification'', ''respondWithToken'']"

definition token_handlers :: "string list" where
  "token_handlers = [''me'', ''updateMe'', ''deleteMe'']"

definition coach_handlers :: "string list" where
  "coach_handlers = [''upsertProfile'', ''setAvailability'', ''listCoachSessions'', ''respondAsCoach'', ''setSessionStatus'',
     ''setSessionNotes'', ''setSessionMeetingURL'', ''listCoachThreads'']"

definition admin_handlers :: "string list" where
  "admin_handlers = [''listCoachesByApproval'', ''decideCoach approved'', ''decideCoach rejected'']"

definition guards_of :: "string \<Rightarrow> guard list" where
  "guards_of h =
     (if h \<in> set token_handlers then [NeedToken]
      else [NeedToken, NeedScope scope_session] @
        (if h \<in> set admin_handlers then [NeedAdmin] else if h \<in> set coach_handlers then [NeedCoach] else []))"

lemma api_guards:
  assumes "e \<in> set api_routes" and "ep_handler e \<notin> set open_handlers"
  shows "ep_guards e = guards_of (ep_handler e)"
proof -
  have "list_all (\<lambda>e. ep_handler e \<in> set open_handlers \<or> ep_guards e = guards_of (ep_handler e)) api_routes" by code_simp
  then show ?thesis using assms by (auto simp: list_all_iff)
qed

text \<open>
  C11: what stands in front of every endpoint.  Whatever method and path a request names, if
  chi leads it to a registered handler other than the eight public ones, the request is answered 401 or 403 and
  changes nothing, unless its token parses and names a user and, but for the caller's own
  profile, is session-scoped and carries the role that the coach's and the administrator's
  endpoints ask for; then the handler runs as that user.
\<close>

theorem api_gated:
  assumes chi: "chi api_routes m path = Inr e" "e \<in> set api_routes" and closed: "ep_handler e \<notin> set open_handlers"
  shows "(\<exists>c i. bearerToken r \<noteq> [] \<and> Parse env (w_now w) (bearerToken r) = Some c \<and> claims_user env c = Some i \<and>
        (ep_handler e \<notin> set token_handlers \<longrightarrow> cl_scope c = scope_session) \<and>
        (ep_handler e \<in> set coach_handlers \<longrightarrow> cl_role c = role_coach \<or> cl_role c = role_admin) \<and>
        (ep_handler e \<in> set admin_handlers \<longrightarrow> cl_role c = role_admin) \<and>
        serve_request env l split chi m path r handlers w = handlers (ep_handler e) (Some (principal_of c i)) w)
    \<or> serve_request env l split chi m path r handlers w \<in> {(Inl 401, w), (Inl 403, w)}"
proof -
  have serve: "serve_request env l split chi m path r handlers = guarded env l split r (guards_of (ep_handler e)) None (handlers (ep_handler e))"
    using chi(1) api_guards [OF chi(2) closed] by (simp add: serve_request_def)
  have apart: "ep_handler e \<in> set token_handlers \<Longrightarrow> ep_handler e \<notin> set coach_handlers \<and> ep_handler e \<notin> set admin_handlers"
    "ep_handler e \<in> set admin_handlers \<Longrightarrow> ep_handler e \<notin> set coach_handlers"
    by (auto simp: token_handlers_def coach_handlers_def admin_handlers_def)
  show ?thesis
  proof (cases "bearerToken r = [] \<or> Parse env (w_now w) (bearerToken r) = None")
    case True
    then show ?thesis unfolding serve
      by (auto simp: guards_of_def Authenticate_def Let_def bindE_def asks_def throw_def)
  next
    case False
    then obtain c where c: "bearerToken r \<noteq> []" "Parse env (w_now w) (bearerToken r) = Some c" by blast
    show ?thesis
    proof (cases "claims_user env c")
      case None
      with c show ?thesis unfolding serve
        by (auto simp: guards_of_def Authenticate_def Let_def bindE_def asks_def throw_def)
    next
      case (Some i)
      then have auth: "Authenticate env r f w = f (principal_of c i) w" for f :: "principal \<Rightarrow> 'a answer"
        using c by (simp add: Authenticate_def Let_def bindE_def asks_def)
      show ?thesis
      proof (cases "ep_handler e \<in> set token_handlers")
        case True
        with c Some apart(1) show ?thesis unfolding serve by (simp add: guards_of_def auth)
      next
        case False
        with c Some apart(2) show ?thesis unfolding serve
          by (auto simp: guards_of_def auth RequireScope_def RequireCoach_def RequireAdmin_def IsCoach_def IsAdmin_def principal_of_def throw_def)
      qed
    qed
  qed
qed

lemma api_gated_witness:
  "serve_request acct_env any_limiter (\<lambda>_. None) by_segments GET [''api'', ''v1'', ''coach'', ''sessions''] (with_token ''verify:12:001767603600'')
     (\<lambda>_ _. ret (200, ())) (bob_world True) \<in> {(Inl 401, bob_world True), (Inl 403, bob_world True)}"
proof -
  let ?path = "[''api'', ''v1'', ''coach'', ''sessions'']"
  have "(case by_segments api_routes GET ?path of Inr e \<Rightarrow> ep_handler e | Inl s \<Rightarrow> []) = ''listCoachSessions''" by code_simp
  then obtain e where e: "by_segments api_routes GET ?path = Inr e" "ep_handler e = ''listCoachSessions''"
    by (cases "by_segments api_routes GET ?path") simp_all
  then have mem: "e \<in> set api_routes" using by_segments_Inr by blast
  from e have "ep_handler e \<notin> set open_handlers" "ep_handler e \<notin> set token_handlers" by (simp_all add: open_handlers_def token_handlers_def)
  moreover have "scope_verify \<noteq> scope_session" by (simp add: scope_verify_def scope_session_def)
  moreover obtain c where "Parse acct_env monday_8 ''verify:12:001767603600'' = Some c" "cl_scope c = scope_verify"
    using bob_tokens(2) by blast
  ultimately show ?thesis
    using api_gated [of by_segments, OF e(1) mem, of "with_token ''verify:12:001767603600''" acct_env "bob_world True" any_limiter "\<lambda>_. None" "\<lambda>_ _. ret (200, ())"]
    unfolding bob_tokens(1) bob_world_simps by auto
qed

end
