(* ===== verification/Smtp.thy ===== *)
theory Smtp
  imports Outbox_Properties Config
begin

text \<open>
  The SMTP conversation of the notifier (\<open>deliver\<close> in internal/notify/notify.go), which theory
  Outbox leaves open.  The network and the mail server are a parameter: what each call of net/smtp
  is answered, given the calls before it.  A call can fail although the server acted on it, when
  the answer is lost or comes after the deadline.  Of net/smtp the model has what the code relies
  on: a line with a line break is refused unsent, and PLAIN authentication is refused without TLS
  unless the server is local; the \<open>*\<close> and QUIT the library sends after a refused AUTH are left out,
  as nothing follows them.
\<close>

section \<open>The conversation\<close>

datatype smtp_call = SmtpDial string | Greeting | Hello | StartTLS | Auth string string | MailFrom string | RcptTo string
  | DataStart | DataBytes string | DataEnd | SmtpQuit

text \<open>A failure says whether the server acted all the same.\<close>

datatype smtp_reply = Fine | Failed bool string

type_synonym smtp_net = "smtp_call list \<Rightarrow> smtp_call \<Rightarrow> smtp_reply"

definition say :: "smtp_net \<Rightarrow> smtp_call \<Rightarrow> (smtp_call list, string, unit) go" where
  "say net c h = (case net h c of Fine \<Rightarrow> Inr () | Failed acted e \<Rightarrow> Inl e, h @ [c])"

definition valid_line :: "string \<Rightarrow> bool" where
  "valid_line v \<longleftrightarrow> CHR 0x0A \<notin> set v \<and> CHR 0x0D \<notin> set v"

definition say_line :: "smtp_net \<Rightarrow> string \<Rightarrow> smtp_call \<Rightarrow> (smtp_call list, string, unit) go" where
  "say_line net v c = (if valid_line v then say net c else throw ''smtp: A line must not contain CR or LF'')"

definition is_local :: "string \<Rightarrow> bool" where
  "is_local host \<longleftrightarrow> host = ''localhost'' \<or> host = ''127.0.0.1'' \<or> host = ''::1''"

text \<open>\<open>Client.Auth\<close> with \<open>PlainAuth\<close>: a refusal to start ends the conversation.\<close>

definition plain_auth :: "smtp_net \<Rightarrow> string \<Rightarrow> string \<Rightarrow> string \<Rightarrow> (smtp_call list, string, unit) go" where
  "plain_auth net host user pass h =
     (if StartTLS \<notin> set h \<and> \<not> is_local host then (Inl ''unencrypted connection'', snd (say net SmtpQuit h))
      else say net (Auth user pass) h)"

text \<open>\<open>tls\<close> is whether the server offers STARTTLS in its answer to EHLO.\<close>

definition deliver :: "config \<Rightarrow> smtp_net \<Rightarrow> bool \<Rightarrow> string \<Rightarrow> string \<Rightarrow> (smtp_call list, string, unit) go" where
  "deliver g net tls to raw =
     bindE (say net (SmtpDial (g_smtp_host g @ '':'' @ decimal (g_smtp_port g)))) (\<lambda>_.
     bindE (say net Greeting) (\<lambda>_.
     bindE (say net Hello) (\<lambda>_.
     bindE (if tls then say net StartTLS else ret ()) (\<lambda>_.
     bindE (if g_smtp_username g \<noteq> [] then plain_auth net (g_smtp_host g) (g_smtp_username g) (g_smtp_password g) else ret ()) (\<lambda>_.
     bindE (say_line net (g_mail_from g) (MailFrom (g_mail_from g))) (\<lambda>_.
     bindE (say_line net to (RcptTo to)) (\<lambda>_.
     bindE (say net DataStart) (\<lambda>_.
     bindE (say net (DataBytes raw)) (\<lambda>_.
     bindE (say net DataEnd) (\<lambda>_.
     say net SmtpQuit))))))))))"

text \<open>Whether the server took the mail: it acted on the end of the data.\<close>

fun took_mail :: "smtp_net \<Rightarrow> smtp_call list \<Rightarrow> smtp_call list \<Rightarrow> bool" where
  "took_mail net past [] = False"
| "took_mail net past (c # cs) =
     (c = DataEnd \<and> (case net past c of Fine \<Rightarrow> True | Failed acted e \<Rightarrow> acted) \<or> took_mail net (past @ [c]) cs)"

text \<open>
  \<open>New\<close>: the notifier of a configuration.  The network answers by what has left the process before.
\<close>

definition smtp_notifier :: "config \<Rightarrow> (signal list \<Rightarrow> string) \<Rightarrow> (signal list \<Rightarrow> smtp_net) \<Rightarrow> (signal list \<Rightarrow> bool) \<Rightarrow> mailer" where
  "smtp_notifier g boundary net tls =
     \<lparr>n_smtp_host = g_smtp_host g, n_mail_from = g_mail_from g, n_boundary = boundary,
      n_deliver = (\<lambda>s to raw. case deliver g (net s) (tls s) to raw [] of
        (r, h) \<Rightarrow> (took_mail (net s) [] h, case r of Inl e \<Rightarrow> Some e | Inr u \<Rightarrow> None))\<rparr>"

section \<open>What a delivery says\<close>

definition smtp_prelude :: "config \<Rightarrow> bool \<Rightarrow> smtp_call list" where
  "smtp_prelude g tls =
     [SmtpDial (g_smtp_host g @ '':'' @ decimal (g_smtp_port g)), Greeting, Hello] @ (if tls then [StartTLS] else []) @
     (if g_smtp_username g \<noteq> [] then [Auth (g_smtp_username g) (g_smtp_password g)] else [])"

lemma say_bindE:
  "bindE (say net c) f h = (case net h c of Fine \<Rightarrow> f () (h @ [c]) | Failed acted e \<Rightarrow> (Inl e, h @ [c]))"
  by (simp add: bindE_def say_def split: smtp_reply.splits)

lemma say_line_bindE:
  "bindE (say_line net v c) f h = (if valid_line v then bindE (say net c) f h else (Inl ''smtp: A line must not contain CR or LF'', h))"
  by (simp add: say_line_def bindE_def throw_def)

lemma plain_auth_bindE:
  "bindE (plain_auth net host user pass) f h =
     (if StartTLS \<notin> set h \<and> \<not> is_local host then (Inl ''unencrypted connection'', h @ [SmtpQuit])
      else bindE (say net (Auth user pass)) f h)"
  by (simp add: bindE_def plain_auth_def say_def)

lemma ret_bindE: "bindE (ret ()) f = f ()"
  by (simp add: bindE_def ret_def fun_eq_iff)

lemma say_eq: "say net c h = (r, h') \<longleftrightarrow> h' = h @ [c] \<and> r = (case net h c of Fine \<Rightarrow> Inr () | Failed acted e \<Rightarrow> Inl e)"
  by (auto simp: say_def)

lemmas smtp_steps = deliver_def say_bindE say_line_bindE plain_auth_bindE ret_bindE say_eq

text \<open>The conversation up to the sender's address, and from there on.\<close>

definition mail_part :: "config \<Rightarrow> smtp_net \<Rightarrow> string \<Rightarrow> string \<Rightarrow> (smtp_call list, string, unit) go" where
  "mail_part g net to raw =
     bindE (say_line net (g_mail_from g) (MailFrom (g_mail_from g))) (\<lambda>_.
     bindE (say_line net to (RcptTo to)) (\<lambda>_.
     bindE (say net DataStart) (\<lambda>_.
     bindE (say net (DataBytes raw)) (\<lambda>_.
     bindE (say net DataEnd) (\<lambda>_.
     say net SmtpQuit)))))"

definition mail_calls :: "config \<Rightarrow> string \<Rightarrow> string \<Rightarrow> smtp_call list" where
  "mail_calls g to raw = [MailFrom (g_mail_from g), RcptTo to, DataStart, DataBytes raw, DataEnd, SmtpQuit]"

lemma took_mail_append: "took_mail net past (xs @ ys) \<longleftrightarrow> took_mail net past xs \<or> took_mail net (past @ xs) ys"
  by (induction xs arbitrary: past) auto

lemma took_mail_DataEnd: "took_mail net past cs \<Longrightarrow> DataEnd \<in> set cs"
  by (induction cs arbitrary: past) auto

lemma mail_part_run:
  assumes "mail_part g net to raw h = (r, h')"
  shows "\<exists>k. h' = h @ take k (mail_calls g to raw) \<and> (r = Inr () \<longrightarrow> k = 6 \<and> took_mail net h (mail_calls g to raw) \<and> valid_line to) \<and>
    (took_mail net h (take k (mail_calls g to raw)) \<longrightarrow> 5 \<le> k)"
proof -
  have "\<exists>k \<in> {0, 1, 2, 3, 4, 5, 6}. h' = h @ take k (mail_calls g to raw) \<and>
      (r = Inr () \<longrightarrow> k = 6 \<and> took_mail net h (mail_calls g to raw) \<and> valid_line to) \<and>
      (took_mail net h (take k (mail_calls g to raw)) \<longrightarrow> 5 \<le> k)"
    using assms by (auto simp: mail_part_def smtp_steps mail_calls_def split: if_splits smtp_reply.splits)
  then show ?thesis by blast
qed

lemma deliver_mail_part:
  "deliver g net tls to raw =
     bindE (say net (SmtpDial (g_smtp_host g @ '':'' @ decimal (g_smtp_port g)))) (\<lambda>_.
     bindE (say net Greeting) (\<lambda>_.
     bindE (say net Hello) (\<lambda>_.
     bindE (if tls then say net StartTLS else ret ()) (\<lambda>_.
     bindE (if g_smtp_username g \<noteq> [] then plain_auth net (g_smtp_host g) (g_smtp_username g) (g_smtp_password g) else ret ()) (\<lambda>_.
     mail_part g net to raw)))))"
  by (simp add: deliver_def mail_part_def)

lemma deliver_run:
  assumes "deliver g net tls to raw [] = (r, h)"
  shows "(mail_part g net to raw (smtp_prelude g tls) = (r, h) \<and> (g_smtp_username g = [] \<or> tls \<or> is_local (g_smtp_host g))) \<or>
    ((\<exists>e. r = Inl e) \<and> DataEnd \<notin> set h \<and> (\<forall>u p. Auth u p \<in> set h \<longrightarrow> StartTLS \<in> set h \<or> is_local (g_smtp_host g)))"
proof -
  note steps = deliver_mail_part say_bindE plain_auth_bindE ret_bindE smtp_prelude_def
  show ?thesis using assms by (cases tls; cases "g_smtp_username g = []") (auto simp: steps split: if_splits smtp_reply.splits)
qed

text \<open>
  C40: what a delivery over SMTP may say and what its outcome means.  Whatever the network and the
  server answer: credentials are sent only over TLS or to a server on this machine; a delivery
  reported as done has said the whole script to a single recipient line, and the server took the
  mail; and when the server took the mail although an error is reported, it failed at the end of
  the data or at QUIT.
\<close>

theorem smtp_delivery:
  assumes run: "deliver g net tls to raw [] = (r, h)"
  shows "(Auth u p \<in> set h \<longrightarrow> StartTLS \<in> set h \<or> is_local (g_smtp_host g)) \<and>
    (r = Inr () \<longrightarrow> h = smtp_prelude g tls @ mail_calls g to raw \<and> took_mail net [] h \<and> valid_line to) \<and>
    (took_mail net [] h \<longrightarrow> h = smtp_prelude g tls @ mail_calls g to raw \<or> h = smtp_prelude g tls @ butlast (mail_calls g to raw))"
proof -
  consider (whole) "mail_part g net to raw (smtp_prelude g tls) = (r, h)" "g_smtp_username g = [] \<or> tls \<or> is_local (g_smtp_host g)"
    | (ended) e where "r = Inl e" "DataEnd \<notin> set h" "\<forall>u p. Auth u p \<in> set h \<longrightarrow> StartTLS \<in> set h \<or> is_local (g_smtp_host g)"
    using deliver_run [OF run] by blast
  then show ?thesis
  proof cases
  case part: whole
  obtain k where k: "h = smtp_prelude g tls @ take k (mail_calls g to raw)"
    "r = Inr () \<longrightarrow> k = 6 \<and> took_mail net (smtp_prelude g tls) (mail_calls g to raw) \<and> valid_line to"
    "took_mail net (smtp_prelude g tls) (take k (mail_calls g to raw)) \<longrightarrow> 5 \<le> k"
    using mail_part_run [OF part(1)] by blast
  have pre: "\<not> took_mail net [] (smtp_prelude g tls)"
    using took_mail_DataEnd [of net "[]" "smtp_prelude g tls"] by (auto simp: smtp_prelude_def split: if_splits)
  have len: "length (mail_calls g to raw) = 6" by (simp add: mail_calls_def)
  have auth: "Auth u p \<in> set h \<longrightarrow> StartTLS \<in> set h \<or> is_local (g_smtp_host g)"
    using k(1) part(2) set_take_subset [of k "mail_calls g to raw"] by (auto simp: smtp_prelude_def mail_calls_def split: if_splits)
  have took: "took_mail net [] h \<longleftrightarrow> took_mail net (smtp_prelude g tls) (take k (mail_calls g to raw))"
    using pre by (simp add: k(1) took_mail_append)
  have whole: "take k (mail_calls g to raw) = mail_calls g to raw \<or> take k (mail_calls g to raw) = butlast (mail_calls g to raw)" if "5 \<le> k"
    using that len by (cases "k = 5") (simp_all add: butlast_conv_take)
  show ?thesis using auth took k whole len by auto
next
  case ended
  then show ?thesis using took_mail_DataEnd [of net "[]" h] by auto
  qed
qed

section \<open>The relay over SMTP\<close>

text \<open>What Outbox asks of a notifier: a delivery without an error was taken by the server.\<close>

lemma delivered_took:
  assumes run: "deliver g net tls to raw [] = (Inr (), h)"
  shows "took_mail net [] h"
proof -
  have "mail_part g net to raw (smtp_prelude g tls) = (Inr (), h)" using deliver_run [OF run] by auto
  from mail_part_run [OF this] obtain k where "h = smtp_prelude g tls @ take k (mail_calls g to raw)" "k = 6"
    "took_mail net (smtp_prelude g tls) (mail_calls g to raw)" by auto
  then show ?thesis by (simp add: took_mail_append mail_calls_def)
qed

lemma smtp_notifier_honest:
  assumes "snd (n_deliver (smtp_notifier g boundary net tls) s to raw) = None"
  shows "fst (n_deliver (smtp_notifier g boundary net tls) s to raw)"
proof -
  obtain r h where run: "deliver g (net s) (tls s) to raw [] = (r, h)" by fastforce
  with assms have "r = Inr ()" by (cases r) (simp_all add: smtp_notifier_def)
  with delivered_took run show ?thesis by (simp add: smtp_notifier_def)
qed

text \<open>
  C12: one pass of the relay over SMTP, without database faults and whatever the mail server does.
  The mails it takes are at most a hundred of those that are unsent, due and have attempts left,
  the longest waiting first; all of them if they are no more.  They get one attempt each, in that
  order, and what the delivery reports decides: a mail is stamped sent exactly when the delivery
  reports no error, and then the server did take it; otherwise the row keeps the error and the next
  attempt is put off by \<open>retryDelay\<close>.  The pass goes on over failed deliveries, and stops with a
  database error only at a delivery whose error text is not valid UTF-8, which the database does
  not take: that mail and those behind it stay as they were.  No other row changes, and the count
  reported is that of the mails sent.
\<close>

theorem relay_over_smtp:
  assumes calm: "w_sched w = []" and ids: "distinct (map e_id (d_outbox (w_db w)))" and host: "g_smtp_host c \<noteq> []"
  shows "\<exists>mx batch tried w'. mx = smtp_notifier c boundary net tls \<and>
     batch = due_emails email_batch max_attempts (w_dbnow w) (d_outbox (w_db w)) \<and>
     set batch \<subseteq> {e \<in> set (d_outbox (w_db w)). pending_email max_attempts (w_dbnow w) e} \<and>
     sorted (map e_next_attempt_at batch) \<and>
     length batch = min email_batch (length (filter (pending_email max_attempts (w_dbnow w)) (d_outbox (w_db w)))) \<and>
     (\<forall>e \<in> set (d_outbox (w_db w)) - set batch. pending_email max_attempts (w_dbnow w) e \<longrightarrow>
        (\<forall>b \<in> set batch. e_next_attempt_at b \<le> e_next_attempt_at e)) \<and>
     tried = takeWhile (\<lambda>(e, ss). \<not> unreadable mx ss e) (turns mx (w_signals w) batch) \<and>
     DrainEmails mx w = (Inr (length (filter (\<lambda>(e, ss). snd (dispatch mx ss e) = None) tried),
       if length tried = length batch then None else Some ErrDriver), w') \<and>
     w_db w' = (w_db w)\<lparr>d_outbox := map (\<lambda>e. case map_of tried e of
         None \<Rightarrow> e
       | Some ss \<Rightarrow> (case snd (dispatch mx ss e) of
             None \<Rightarrow> sent_set (w_dbnow w) e
           | Some err \<Rightarrow> failed_set (''send mail: '' @ err) (retryDelay (e_attempts e)) (w_dbnow w) e)) (d_outbox (w_db w))\<rparr> \<and>
     (\<forall>(e, ss) \<in> set tried. snd (dispatch mx ss e) = None \<longrightarrow>
        fst (dispatch mx ss e) \<and> Mailed (message_of e) \<in> set (w_signals w'))"
proof -
  let ?mx = "smtp_notifier c boundary net tls" and ?es = "d_outbox (w_db w)"
  let ?batch = "due_emails email_batch max_attempts (w_dbnow w) ?es"
  let ?tried = "recorded_turns ?mx (w_signals w) ?batch"
  have "n_smtp_host ?mx \<noteq> []" using host by (simp add: smtp_notifier_def)
  from drain_attempts_each_due_mail [OF calm ids this] obtain w' where
    run: "DrainEmails ?mx w = (Inr (sent_turns ?mx ?tried, if length ?tried = length ?batch then None else Some ErrDriver), w')"
    "w_db w' = (w_db w)\<lparr>d_outbox := map (becomes_after ?mx (w_dbnow w) ?tried) ?es\<rparr>"
    and sig: "\<forall>(e, ss) \<in> set ?tried. set (mailed_by ?mx ss e) \<subseteq> set (w_signals w')"
    by blast
  have "fst (dispatch ?mx ss e)" if "snd (dispatch ?mx ss e) = None" for e ss
    using that unfolding dispatch_def by (rule smtp_notifier_honest)
  with sig have "\<forall>(e, ss) \<in> set ?tried. snd (dispatch ?mx ss e) = None \<longrightarrow>
      fst (dispatch ?mx ss e) \<and> Mailed (message_of e) \<in> set (w_signals w')"
    by (fastforce simp: mailed_by_def)
  note all = this run [unfolded sent_turns_def recorded_turns_def becomes_after_def [abs_def] attempted_def]
  show ?thesis
    by (rule exI [of _ ?mx], rule exI [of _ ?batch], rule exI [of _ ?tried], rule exI [of _ w'], intro conjI)
      (use due_emails_batch [where es = ?es and now = "w_dbnow w"] all in \<open>simp_all add: recorded_turns_def\<close>)
qed

text \<open>
  A server that takes the mail and drops the line before it answers QUIT: the delivery is reported
  as failed, so the relay sends the mail again.
\<close>

lemma quit_failure_resends:
  assumes "g_smtp_host g \<noteq> []" and "g_smtp_username g = []" and "valid_line (g_mail_from g)" "valid_line (mm_to m)"
    and "\<And>h c. net (w_signals w) h c = (if c = SmtpQuit then Failed True e else Fine)"
  shows "Send (smtp_notifier g boundary net tls) m w = (Inl (''send mail: '' @ e), w\<lparr>w_signals := w_signals w @ [Mailed m]\<rparr>)"
proof -
  let ?raw = "encode (boundary (w_signals w)) (g_mail_from g) m" and ?t = "tls (w_signals w)"
  have "deliver g (net (w_signals w)) ?t (mm_to m) ?raw [] = (Inl e, smtp_prelude g ?t @ mail_calls g (mm_to m) ?raw)"
    using assms(2-5) by (simp add: smtp_steps smtp_prelude_def mail_calls_def)
  moreover have "took_mail (net (w_signals w)) [] (smtp_prelude g ?t @ mail_calls g (mm_to m) ?raw)"
    using assms(5) by (simp add: took_mail_append mail_calls_def)
  ultimately show ?thesis using assms(1) by (simp add: Send_def smtp_notifier_def Let_def)
qed

section \<open>Witnesses\<close>

definition mx_config :: config where
  "mx_config = (fst (read_config bare_env))\<lparr>g_smtp_host := ''mx'', g_smtp_port := 587, g_smtp_username := ''u'', g_smtp_password := ''p'',
     g_mail_from := ''no-reply@app''\<rparr>"

text \<open>It offers TLS, and knows one address only.\<close>

definition mx_net :: smtp_net where
  "mx_net h c = (if c = RcptTo ''bad'' then Failed False ''550 no such user'' else Fine)"

lemma smtp_delivery_witness:
  "\<exists>h. deliver mx_config mx_net True ''eve'' ''text'' [] = (Inr (), h) \<and> took_mail mx_net [] h \<and> Auth ''u'' ''p'' \<in> set h \<and> StartTLS \<in> set h"
proof -
  have mx: "g_smtp_username mx_config = ''u''" "g_smtp_password mx_config = ''p''" "g_mail_from mx_config = ''no-reply@app''" "g_smtp_host mx_config = ''mx''"
    by (simp_all add: mx_config_def)
  have "\<exists>h. deliver mx_config mx_net True ''eve'' ''text'' [] = (Inr (), h)"
    by (simp add: smtp_steps mx mx_net_def valid_line_def)
  then obtain h where run: "deliver mx_config mx_net True ''eve'' ''text'' [] = (Inr (), h)" by blast
  note d = smtp_delivery [OF run, of "''u''" "''p''"]
  then have "Auth ''u'' ''p'' \<in> set h" by (simp add: smtp_prelude_def mx)
  with d run show ?thesis by (auto simp: is_local_def mx)
qed

text \<open>
  Five mails: one to an unknown address, one that goes out, one whose refusal is not UTF-8, one
  behind it, and one without attempts left.
\<close>

definition odd_net :: smtp_net where
  "odd_net h c = (if c = RcptTo ''odd'' then Failed False [byte 0xE9] else mx_net h c)"

definition post_world :: world where
  "post_world = world_at (start_db\<lparr>d_outbox := [queued_mail 22 ''bad'' 2 5, queued_mail 24 ''eve'' 0 6, queued_mail 25 ''odd'' 0 7,
     queued_mail 26 ''eve'' 0 8, queued_mail 23 ''eve'' 32 5]\<rparr>) [] monday_8 100"

definition mx_notifier :: mailer where
  "mx_notifier = smtp_notifier mx_config (\<lambda>_. ''b1'') (\<lambda>_. odd_net) (\<lambda>_. True)"

lemma mx_deliveries:
  "snd (dispatch mx_notifier ss (queued_mail i ''eve'' n t)) = None"
  "snd (dispatch mx_notifier ss (queued_mail i ''bad'' n t)) = Some ''550 no such user''"
  "snd (dispatch mx_notifier ss (queued_mail i ''odd'' n t)) = Some [byte 0xE9]"
proof -
  have mx: "g_smtp_username mx_config = ''u''" "g_smtp_password mx_config = ''p''" "g_mail_from mx_config = ''no-reply@app''" "g_smtp_host mx_config = ''mx''"
    by (simp_all add: mx_config_def)
  have d: "fst (deliver mx_config odd_net True ''eve'' raw []) = Inr ()"
    "fst (deliver mx_config odd_net True ''bad'' raw []) = Inl ''550 no such user''"
    "fst (deliver mx_config odd_net True ''odd'' raw []) = Inl [byte 0xE9]" for raw
    by (simp_all add: smtp_steps mx odd_net_def mx_net_def valid_line_def say_def)
  show "snd (dispatch mx_notifier ss (queued_mail i ''eve'' n t)) = None"
    "snd (dispatch mx_notifier ss (queued_mail i ''bad'' n t)) = Some ''550 no such user''"
    "snd (dispatch mx_notifier ss (queued_mail i ''odd'' n t)) = Some [byte 0xE9]"
    by (simp_all add: dispatch_def mx_notifier_def smtp_notifier_def queued_mail_def case_prod_beta d)
qed

lemma relay_over_smtp_witness:
  "\<exists>w'. DrainEmails mx_notifier post_world = (Inr (1, Some ErrDriver), w') \<and>
     map e_attempts (d_outbox (w_db w')) = [3, 1, 0, 0, 32] \<and>
     map e_sent_at (d_outbox (w_db w')) = [None, Some monday_8, None, None, None]"
proof -
  let ?a = "queued_mail 22 ''bad'' 2 5" and ?b = "queued_mail 24 ''eve'' 0 6" and ?c = "queued_mail 25 ''odd'' 0 7"
  let ?d = "queued_mail 26 ''eve'' 0 8" and ?e = "queued_mail 23 ''eve'' 32 5"
  have w: "w_sched post_world = []" "distinct (map e_id (d_outbox (w_db post_world)))" "g_smtp_host mx_config \<noteq> []"
    "d_outbox (w_db post_world) = [?a, ?b, ?c, ?d, ?e]" "w_dbnow post_world = monday_8"
    by (simp_all add: post_world_def world_at_def mx_config_def queued_mail_def)
  have due: "due_emails email_batch max_attempts (w_dbnow post_world) (d_outbox (w_db post_world)) = [?a, ?b, ?c, ?d]"
    by code_simp
  have texts: "storable (''send mail: '' @ ''550 no such user'')" "\<not> storable (''send mail: '' @ [byte 0xE9])"
    by code_simp+
  have "\<not> unreadable mx_notifier ss ?a" "\<not> unreadable mx_notifier ss ?b" "unreadable mx_notifier ss ?c" for ss
    using texts by (simp_all only: unreadable_def mx_deliveries option.case simp_thms)
  then obtain s1 s2 where tried: "takeWhile (\<lambda>(e, ss). \<not> unreadable mx_notifier ss e)
      (turns mx_notifier (w_signals post_world) [?a, ?b, ?c, ?d]) = [(?a, s1), (?b, s2)]" by simp
  have keys: "?a \<noteq> ?b" "?c \<noteq> ?a" "?c \<noteq> ?b" "?d \<noteq> ?a" "?d \<noteq> ?b" "?e \<noteq> ?a" "?e \<noteq> ?b"
    by (simp_all add: queued_mail_def)
  have fields: "e_attempts (queued_mail i to n t) = n" "e_sent_at (queued_mail i to n t) = None" for i to n t
    by (simp_all add: queued_mail_def)
  from relay_over_smtp [OF w(1-3), of "\<lambda>_. ''b1''" "\<lambda>_. odd_net" "\<lambda>_. True", folded mx_notifier_def, unfolded due]
  obtain w' where run: "DrainEmails mx_notifier post_world =
      (Inr (length (filter (\<lambda>(e, ss). snd (dispatch mx_notifier ss e) = None) [(?a, s1), (?b, s2)]), Some ErrDriver), w')"
    and db: "d_outbox (w_db w') = map (\<lambda>e. case map_of [(?a, s1), (?b, s2)] e of
         None \<Rightarrow> e
       | Some ss \<Rightarrow> (case snd (dispatch mx_notifier ss e) of
             None \<Rightarrow> sent_set (w_dbnow post_world) e
           | Some err \<Rightarrow> failed_set (''send mail: '' @ err) (retryDelay (e_attempts e)) (w_dbnow post_world) e)) [?a, ?b, ?c, ?d, ?e]"
    using tried w(4) by auto
  show ?thesis
    using run by (intro exI [of _ w']) (simp add: db mx_deliveries keys keys [symmetric] fields sent_set_def failed_set_def w(5))
qed

end
