(* ===== verification/Consumer.thy ===== *)
theory Consumer
  imports Analysis_Properties
begin

text \<open>
  The consumer of analysis jobs (\<open>Consume\<close> in internal/analysis/queue.go): one loop that takes
  deliveries off the channel, and up to \<open>prefetchCount\<close> handlers at a time that settle them.
  What a handler does with one delivery is \<open>consume_analysis\<close>; here handlers overlap, the loop
  can end while they run, and a settlement can be lost with the channel.

  Deliveries are told apart by their tag, which the broker never repeats on a channel.
\<close>

section \<open>The loop and its handlers\<close>

record delivery =
  dl_tag :: nat
  dl_body :: "job option"
  dl_redelivered :: bool

definition prefetch_count :: nat where "prefetch_count = 4"

text \<open>The deliveries in the channel, those being handled, and how others were settled.\<close>

record consumer_pool =
  cp_waiting :: "delivery list"
  cp_running :: "delivery list"
  cp_settled :: "(delivery \<times> disposition) list"
  cp_stopped :: bool

fun decodes :: "job option \<Rightarrow> bool" where
  "decodes (Some (AnalysisJob a c u)) = True"
| "decodes _ = False"

text \<open>
  The loop: a delivery that does not decode is rejected on the spot; another waits for a slot.
  \<open>slot_free\<close> is the send on the channel of slots.
\<close>

definition slot_free :: "consumer_pool \<Rightarrow> bool" where
  "slot_free p \<longleftrightarrow> length (cp_running p) < prefetch_count"

definition take_delivery :: "consumer_pool \<Rightarrow> consumer_pool option" where
  "take_delivery p =
     (if cp_stopped p then None
      else case cp_waiting p of [] \<Rightarrow> None
        | d # ds \<Rightarrow>
            if \<not> decodes (dl_body d) then Some (p\<lparr>cp_waiting := ds, cp_settled := cp_settled p @ [(d, Rejected)]\<rparr>)
            else if slot_free p then Some (p\<lparr>cp_waiting := ds, cp_running := cp_running p @ [d]\<rparr>)
            else None)"

text \<open>A handler returns: its slot is free, and the delivery settled if the broker hears of it.\<close>

definition handler_done :: "delivery \<Rightarrow> disposition option \<Rightarrow> consumer_pool \<Rightarrow> consumer_pool" where
  "handler_done d e p =
     p\<lparr>cp_running := remove1 d (cp_running p),
       cp_settled := (case e of None \<Rightarrow> cp_settled p | Some e \<Rightarrow> cp_settled p @ [(d, e)])\<rparr>"

text \<open>\<open>Consume\<close> returns when the loop has ended and every handler has (\<open>wg.Wait\<close>).\<close>

definition consume_returned :: "consumer_pool \<Rightarrow> bool" where
  "consume_returned p \<longleftrightarrow> cp_stopped p \<and> cp_running p = []"

inductive consumer_step :: "analysis_env \<Rightarrow> consumer_pool \<Rightarrow> consumer_pool \<Rightarrow> bool" for env where
  loop: "take_delivery p = Some p' \<Longrightarrow> consumer_step env p p'"
| settles: "d \<in> set (cp_running p) \<Longrightarrow> consume_analysis env (dl_body d) (dl_redelivered d) w = (Inr e, w') \<Longrightarrow>
    consumer_step env p (handler_done d (Some e) p)"
| unheard: "d \<in> set (cp_running p) \<Longrightarrow> consumer_step env p (handler_done d None p)"
| arrives: "dl_tag d \<notin> dl_tag ` (set (cp_waiting p) \<union> set (cp_running p) \<union> fst ` set (cp_settled p)) \<Longrightarrow>
    consumer_step env p (p\<lparr>cp_waiting := cp_waiting p @ [d]\<rparr>)"
| stops: "consumer_step env p (p\<lparr>cp_stopped := True\<rparr>)"

definition new_pool :: consumer_pool where
  "new_pool = \<lparr>cp_waiting = [], cp_running = [], cp_settled = [], cp_stopped = False\<rparr>"

section \<open>Lemmas\<close>

lemma consume_analysis_disposition:
  "consume_analysis env body redelivered w = (Inr e, w') \<Longrightarrow>
   e = Acked \<or> e = (if decodes body \<and> \<not> redelivered then Requeued else Rejected)"
  by (cases body rule: decodes.cases) (auto simp: consume_analysis_def attempt_def ret_def split: prod.splits sum.splits job.splits if_splits)

definition settled_ok :: "delivery \<times> disposition \<Rightarrow> bool" where
  "settled_ok s \<longleftrightarrow> (case s of (d, e) \<Rightarrow>
     (e = Requeued \<longrightarrow> \<not> dl_redelivered d) \<and> (e = Rejected \<longrightarrow> dl_redelivered d \<or> \<not> decodes (dl_body d)) \<and>
     (\<not> decodes (dl_body d) \<longrightarrow> e = Rejected))"

definition pool_ok :: "consumer_pool \<Rightarrow> bool" where
  "pool_ok p \<longleftrightarrow> length (cp_running p) \<le> prefetch_count \<and>
     distinct (map dl_tag (cp_waiting p @ cp_running p @ map fst (cp_settled p))) \<and>
     list_all settled_ok (cp_settled p) \<and> list_all (\<lambda>d. decodes (dl_body d)) (cp_running p)"

lemma take_delivery_ok:
  assumes "pool_ok p" and "take_delivery p = Some p'"
  shows "pool_ok p'"
proof -
  obtain d ds where w: "cp_waiting p = d # ds" using assms(2) by (auto simp: take_delivery_def split: if_splits list.splits)
  show ?thesis
  proof (cases "decodes (dl_body d)")
    case False
    with assms(2) w have "p' = p\<lparr>cp_waiting := ds, cp_settled := cp_settled p @ [(d, Rejected)]\<rparr>"
      by (simp add: take_delivery_def split: if_splits)
    with assms(1) w False show ?thesis by (auto simp: pool_ok_def settled_ok_def)
  next
    case True
    with assms(2) w have "p' = p\<lparr>cp_waiting := ds, cp_running := cp_running p @ [d]\<rparr>" "slot_free p"
      by (simp_all add: take_delivery_def split: if_splits)
    with assms(1) w True show ?thesis by (auto simp: pool_ok_def slot_free_def)
  qed
qed

lemma map_remove1_split:
  assumes "distinct (map f xs)" and "x \<in> set xs"
  shows "set (remove1 x xs) = set xs - {x}" "distinct (map f (remove1 x xs))"
    "f x \<notin> f ` set (remove1 x xs)"
proof -
  have d: "distinct xs" using assms(1) by (simp add: distinct_map)
  then show s: "set (remove1 x xs) = set xs - {x}" by simp
  show "distinct (map f (remove1 x xs))" using assms(1) d by (simp add: distinct_map inj_on_diff)
  show "f x \<notin> f ` set (remove1 x xs)" unfolding s using assms by (auto simp: distinct_map inj_on_def)
qed

lemma handler_done_ok:
  assumes "pool_ok p" and d: "d \<in> set (cp_running p)" and e: "\<And>x. e = Some x \<Longrightarrow> settled_ok (d, x)"
  shows "pool_ok (handler_done d e p)"
proof -
  have dist: "distinct (map dl_tag (cp_running p))" using assms(1) by (simp add: pool_ok_def)
  note m = map_remove1_split [OF dist d]
  have len: "length (remove1 d (cp_running p)) \<le> prefetch_count"
    using assms(1) by (auto simp: pool_ok_def length_remove1)
  have running: "list_all (\<lambda>d. decodes (dl_body d)) (remove1 d (cp_running p))"
    using assms(1) m(1) by (auto simp: pool_ok_def list_all_iff)
  show ?thesis
  proof (cases e)
    case None
    with assms(1) m len running show ?thesis by (auto simp: pool_ok_def handler_done_def)
  next
    case (Some x)
    with assms(1) d m len running e show ?thesis
      by (auto simp: pool_ok_def handler_done_def)
  qed
qed

lemma consumer_step_ok: "consumer_step env p p' \<Longrightarrow> pool_ok p \<Longrightarrow> pool_ok p'"
proof (induction rule: consumer_step.induct)
  case (loop p p')
  then show ?case by (blast intro: take_delivery_ok)
next
  case (settles d p w e w')
  have "decodes (dl_body d)" using settles by (auto simp: pool_ok_def list_all_iff)
  with consume_analysis_disposition [OF settles(2)] have "settled_ok (d, e)" by (auto simp: settled_ok_def split: if_splits)
  with settles show ?case by (intro handler_done_ok) auto
next
  case (unheard d p)
  then show ?case by (intro handler_done_ok) auto
next
  case (arrives d p)
  then show ?case by (auto simp: pool_ok_def image_Un image_image)
next
  case (stops p)
  then show ?case by (simp add: pool_ok_def)
qed

lemma returned_stays: "consumer_step env p p' \<Longrightarrow> consume_returned p \<Longrightarrow> consume_returned p' \<and> cp_settled p' = cp_settled p"
  by (induction rule: consumer_step.induct) (auto simp: consume_returned_def take_delivery_def split: if_splits)

text \<open>
  C14: the consumer settles each delivery at most once, and never has more than four in hand.
  Whatever order deliveries, handlers, lost settlements and the end of the loop come in: a
  delivery is in one place only; one that does not decode is rejected unhandled; a job whose
  attempt fails is put back once, and given up when it was redelivered; and once \<open>Consume\<close> has
  returned nothing is settled any more.
\<close>

theorem consumer_settles_once:
  assumes "(consumer_step env)\<^sup>*\<^sup>* new_pool p"
  shows "length (cp_running p) \<le> 4 \<and> distinct (map dl_tag (cp_waiting p @ cp_running p @ map fst (cp_settled p))) \<and>
    ((d, e) \<in> set (cp_settled p) \<longrightarrow> (e = Requeued \<longrightarrow> \<not> dl_redelivered d) \<and>
       (e = Rejected \<longrightarrow> dl_redelivered d \<or> \<not> decodes (dl_body d)) \<and> (\<not> decodes (dl_body d) \<longrightarrow> e = Rejected)) \<and>
    (consume_returned p \<longrightarrow> (\<forall>p'. consumer_step env p p' \<longrightarrow> consume_returned p' \<and> cp_settled p' = cp_settled p))"
proof -
  have "pool_ok p" using assms
  proof (induction rule: rtranclp_induct)
    case base
    then show ?case by (simp add: pool_ok_def new_pool_def)
  qed (blast intro: consumer_step_ok)
  then show ?thesis using returned_stays by (auto simp: pool_ok_def prefetch_count_def list_all_iff settled_ok_def)
qed

section \<open>A run\<close>

definition no_uuids :: analysis_env where
  "no_uuids = (ml_env (Inl []))\<lparr>x_parse_uuid := (\<lambda>_. None)\<rparr>"

definition odd_job :: delivery where
  "odd_job = \<lparr>dl_tag = 1, dl_body = Some (AnalysisJob ''a'' ''c'' ''u''), dl_redelivered = False\<rparr>"

lemma odd_job_requeued:
  "(consumer_step no_uuids)\<^sup>*\<^sup>* new_pool (new_pool\<lparr>cp_settled := [(odd_job, Requeued)], cp_stopped := True\<rparr>)"
proof -
  let ?S = "consumer_step no_uuids"
  have a: "?S new_pool (new_pool\<lparr>cp_waiting := [odd_job]\<rparr>)"
    using arrives [of odd_job new_pool no_uuids] by (simp add: new_pool_def)
  have b: "?S (new_pool\<lparr>cp_waiting := [odd_job]\<rparr>) (new_pool\<lparr>cp_running := [odd_job]\<rparr>)"
    by (rule loop) (simp add: take_delivery_def new_pool_def odd_job_def slot_free_def prefetch_count_def)
  have c: "?S (new_pool\<lparr>cp_running := [odd_job]\<rparr>) (new_pool\<lparr>cp_running := [odd_job], cp_stopped := True\<rparr>)"
    using stops [of no_uuids "new_pool\<lparr>cp_running := [odd_job]\<rparr>"] by simp
  have "consume_analysis no_uuids (dl_body odd_job) (dl_redelivered odd_job) w = (Inr Requeued, w)" for w
    by (simp add: consume_analysis_def odd_job_def Handle_analysis_def no_uuids_def attempt_def throw_def ret_def)
  then have d: "?S (new_pool\<lparr>cp_running := [odd_job], cp_stopped := True\<rparr>) (new_pool\<lparr>cp_settled := [(odd_job, Requeued)], cp_stopped := True\<rparr>)"
    using settles [of odd_job "new_pool\<lparr>cp_running := [odd_job], cp_stopped := True\<rparr>" no_uuids _ Requeued]
    by (simp add: handler_done_def new_pool_def)
  note step = r_into_rtranclp [of ?S]
  show ?thesis using rtranclp_trans [OF step [OF a] rtranclp_trans [OF step [OF b] rtranclp_trans [OF step [OF c] step [OF d]]]] .
qed

lemma consumer_settles_once_witness:
  "\<not> dl_redelivered odd_job \<and> decodes (dl_body odd_job) \<and>
   (consumer_step no_uuids)\<^sup>*\<^sup>* new_pool (new_pool\<lparr>cp_settled := [(odd_job, Requeued)], cp_stopped := True\<rparr>)"
  using consumer_settles_once [OF odd_job_requeued, of odd_job Requeued] odd_job_requeued by (simp add: odd_job_def)

end
