(* ===== verification/Publisher.thy ===== *)
theory Publisher
  imports Deletion
begin

text \<open>
  The connection behind the job publishers (\<open>OpenQueue\<close>, \<open>JobPublisher\<close> and its \<open>acquire\<close>,
  \<open>discard\<close> and \<open>Close\<close> in internal/account/queue.go and internal/analysis/queue.go): how it is
  opened, and how the callers of \<open>Publish\<close>, which run at the same time, share it.

  Connections are numbered in the order they are opened.  Each critical section of the
  publisher's mutex is one step; the publish itself is outside the mutex.  The broker may drop a
  connection at any time.  Theory Broker has the calls of \<open>Publish\<close> as one sequence; here they
  interleave, and the last theorem says that each looks to its caller as Broker has it.
\<close>

section \<open>Opening a queue\<close>

datatype open_step = Dial | OpenChannel | Declare string "(string \<times> string) list" | Qos nat | EnableConfirms

text \<open>What has been opened or closed, in order.\<close>

datatype link_act = Did open_step | CloseChannel | CloseConnection

definition account_open :: "string \<Rightarrow> open_step list" where
  "account_open name =
     [Dial, OpenChannel, Declare (DeadLetterQueue name) [],
      Declare name [(''x-dead-letter-exchange'', ''''), (''x-dead-letter-routing-key'', DeadLetterQueue name)],
      Declare (RetryQueue name) [(''x-message-ttl'', decimal (retry_delay div 1000)), (''x-dead-letter-exchange'', ''''),
        (''x-dead-letter-routing-key'', name)],
      Qos 1, EnableConfirms]"

definition analysis_open :: "string \<Rightarrow> open_step list" where
  "analysis_open name = [Dial, OpenChannel, Declare name [], Qos 4, EnableConfirms]"

definition open_cleanup :: "open_step \<Rightarrow> link_act list" where
  "open_cleanup s = (case s of Dial \<Rightarrow> [] | OpenChannel \<Rightarrow> [CloseConnection] | _ \<Rightarrow> [CloseChannel, CloseConnection])"

text \<open>\<open>OpenQueue\<close> with the broker's answer to each step: whether it succeeds, and what it did.\<close>

fun OpenQueue :: "(open_step \<Rightarrow> bool) \<Rightarrow> open_step list \<Rightarrow> bool \<times> link_act list" where
  "OpenQueue answers [] = (True, [])"
| "OpenQueue answers (s # rest) =
     (if answers s then (case OpenQueue answers rest of (ok, acts) \<Rightarrow> (ok, Did s # acts)) else (False, open_cleanup s))"

definition Queue_Close :: "link_act list" where "Queue_Close = [CloseChannel, CloseConnection]"

section \<open>The publisher\<close>

text \<open>\<open>lk_open\<close> are the connections opened and not closed, \<open>lk_down\<close> those the broker dropped.\<close>

record link =
  lk_queue :: "nat option"
  lk_open :: "nat set"
  lk_down :: "nat set"
  lk_next :: nat

definition redial :: "(open_step \<Rightarrow> bool) \<Rightarrow> open_step list \<Rightarrow> link \<Rightarrow> nat option \<times> link" where
  "redial answers steps l =
     (let c = lk_next l
      in if fst (OpenQueue answers steps) then (Some c, l\<lparr>lk_queue := Some c, lk_open := insert c (lk_open l), lk_next := Suc c\<rparr>)
         else (None, l\<lparr>lk_queue := None\<rparr>))"

definition link_acquire :: "(open_step \<Rightarrow> bool) \<Rightarrow> open_step list \<Rightarrow> link \<Rightarrow> nat option \<times> link" where
  "link_acquire answers steps l =
     (case lk_queue l of None \<Rightarrow> redial answers steps l
      | Some c \<Rightarrow> if c \<in> lk_down l then redial answers steps l else (Some c, l))"

definition discard :: "nat \<Rightarrow> link \<Rightarrow> link" where
  "discard stale l = (if lk_queue l \<noteq> Some stale then l else l\<lparr>lk_queue := None, lk_open := lk_open l - {stale}\<rparr>)"

definition Publisher_Close :: "link \<Rightarrow> link" where
  "Publisher_Close l = (case lk_queue l of None \<Rightarrow> l | Some c \<Rightarrow> l\<lparr>lk_queue := None, lk_open := lk_open l - {c}\<rparr>)"

definition OpenPublisher :: "(open_step \<Rightarrow> bool) \<Rightarrow> open_step list \<Rightarrow> nat option \<times> link" where
  "OpenPublisher answers steps = redial answers steps \<lparr>lk_queue = None, lk_open = {}, lk_down = {}, lk_next = 0\<rparr>"

section \<open>Concurrent callers\<close>

text \<open>
  Where a call of \<open>Publish\<close> is; the flag says whether it is at its second try.  What becomes of
  one publish: confirmed; not sent; or sent, without a confirmation coming back.
\<close>

datatype phase = Asking bool | Publishing bool nat | Discarding nat | Returned bool

datatype sending = Confirmed | Unsent | Unsure

definition after_publish :: "bool \<Rightarrow> bool \<Rightarrow> nat \<Rightarrow> sending \<Rightarrow> phase" where
  "after_publish second ctx_done c e =
     (if e = Confirmed then Returned True else if second \<or> ctx_done then Returned False else Discarding c)"

definition after_acquire :: "bool \<Rightarrow> nat option \<Rightarrow> phase" where
  "after_acquire second r = (case r of None \<Rightarrow> Returned False | Some c \<Rightarrow> Publishing second c)"

text \<open>\<open>pb_sent\<close> counts the copies of a caller's job that reached the queue.\<close>

record publisher =
  pb_link :: link
  pb_phase :: "nat \<Rightarrow> phase"
  pb_sent :: "nat \<Rightarrow> nat"

inductive publisher_step :: "open_step list \<Rightarrow> publisher \<Rightarrow> publisher \<Rightarrow> bool" for steps where
  drops: "c < lk_next l \<Longrightarrow>
    publisher_step steps \<lparr>pb_link = l, pb_phase = ph, pb_sent = n\<rparr> \<lparr>pb_link = l\<lparr>lk_down := insert c (lk_down l)\<rparr>, pb_phase = ph, pb_sent = n\<rparr>"
| acquires: "ph k = Asking second \<Longrightarrow> link_acquire answers steps l = (r, l') \<Longrightarrow>
    publisher_step steps \<lparr>pb_link = l, pb_phase = ph, pb_sent = n\<rparr> \<lparr>pb_link = l', pb_phase = ph(k := after_acquire second r), pb_sent = n\<rparr>"
| publishes: "ph k = Publishing second c \<Longrightarrow> e = Unsent \<or> c \<in> lk_open l - lk_down l \<Longrightarrow>
    publisher_step steps \<lparr>pb_link = l, pb_phase = ph, pb_sent = n\<rparr>
      \<lparr>pb_link = l, pb_phase = ph(k := after_publish second ctx_done c e), pb_sent = n(k := if e = Unsent then n k else Suc (n k))\<rparr>"
| discards: "ph k = Discarding c \<Longrightarrow>
    publisher_step steps \<lparr>pb_link = l, pb_phase = ph, pb_sent = n\<rparr> \<lparr>pb_link = discard c l, pb_phase = ph(k := Asking True), pb_sent = n\<rparr>"
| closes: "publisher_step steps \<lparr>pb_link = l, pb_phase = ph, pb_sent = n\<rparr> \<lparr>pb_link = Publisher_Close l, pb_phase = ph, pb_sent = n\<rparr>"

definition new_publisher :: "link \<Rightarrow> publisher" where
  "new_publisher l = \<lparr>pb_link = l, pb_phase = (\<lambda>_. Asking False), pb_sent = (\<lambda>_. 0)\<rparr>"

section \<open>No connection leaks\<close>

text \<open>What is left open after a series of acts.\<close>

fun left_open :: "link_act list \<Rightarrow> bool \<times> bool \<Rightarrow> bool \<times> bool" where
  "left_open [] s = s"
| "left_open (Did Dial # acts) (conn, ch) = left_open acts (True, ch)"
| "left_open (Did OpenChannel # acts) (conn, ch) = left_open acts (conn, True)"
| "left_open (CloseChannel # acts) (conn, ch) = left_open acts (conn, False)"
| "left_open (CloseConnection # acts) (conn, ch) = left_open acts (False, ch)"
| "left_open (_ # acts) s = left_open acts s"

lemma OpenQueue_left_open:
  assumes "steps = account_open name \<or> steps = analysis_open name" and "OpenQueue answers steps = (ok, acts)"
  shows "left_open acts (False, False) = (ok, ok)"
  using assms by (auto simp: account_open_def analysis_open_def open_cleanup_def split: if_splits)

lemma Queue_Close_left_open: "left_open (acts @ Queue_Close) s = (False, False)"
proof (induction acts s rule: left_open.induct)
  case (1 s)
  then show ?case by (cases s) (simp add: Queue_Close_def)
qed simp_all

definition live_links :: "link \<Rightarrow> nat set" where
  "live_links l = lk_open l - lk_down l"

definition link_ok :: "link \<Rightarrow> bool" where
  "link_ok l \<longleftrightarrow> live_links l \<subseteq> set_option (lk_queue l) \<and> set_option (lk_queue l) \<subseteq> lk_open l \<and>
     lk_open l \<union> lk_down l \<subseteq> {..<lk_next l}"

lemma redial_ok: "link_ok l \<Longrightarrow> live_links l = {} \<Longrightarrow> redial answers steps l = (r, l') \<Longrightarrow> link_ok l'"
  by (auto simp: redial_def link_ok_def live_links_def Let_def split: if_splits)

lemma link_acquire_ok:
  assumes "link_ok l" and "link_acquire answers steps l = (r, l')"
  shows "link_ok l'"
proof (cases "live_links l = {}")
  case True
  then show ?thesis using assms redial_ok [OF assms(1) True] by (auto simp: link_acquire_def split: option.splits if_splits)
next
  case False
  with assms show ?thesis by (auto simp: link_acquire_def link_ok_def live_links_def split: option.splits if_splits)
qed

lemma discard_ok: "link_ok l \<Longrightarrow> link_ok (discard c l)"
  by (auto simp: discard_def link_ok_def live_links_def)

lemma Publisher_Close_ok: "link_ok l \<Longrightarrow> link_ok (Publisher_Close l)"
  by (auto simp: Publisher_Close_def link_ok_def live_links_def split: option.splits)

lemma OpenPublisher_ok: "OpenPublisher answers steps = (r, l) \<Longrightarrow> link_ok l"
  unfolding OpenPublisher_def by (rule redial_ok) (simp_all add: link_ok_def live_links_def)

section \<open>What a caller sees\<close>

text \<open>How many copies of its job a caller can have sent, at each point of its call.\<close>

fun phase_ok :: "phase \<Rightarrow> nat \<Rightarrow> bool" where
  "phase_ok (Asking second) n \<longleftrightarrow> n \<le> (if second then 1 else 0)"
| "phase_ok (Publishing second c) n \<longleftrightarrow> n \<le> (if second then 1 else 0)"
| "phase_ok (Discarding c) n \<longleftrightarrow> n \<le> 1"
| "phase_ok (Returned ok) n \<longleftrightarrow> n \<le> 2 \<and> (ok \<longrightarrow> 1 \<le> n)"

lemma after_acquire_ok: "phase_ok (Asking second) n \<Longrightarrow> phase_ok (after_acquire second r) n"
  by (auto simp: after_acquire_def split: option.splits if_splits)

lemma after_publish_ok:
  "phase_ok (Publishing second c) n \<Longrightarrow> phase_ok (after_publish second ctx_done c e) (if e = Unsent then n else Suc n)"
  by (auto simp: after_publish_def split: if_splits)

definition publisher_inv :: "publisher \<Rightarrow> bool" where
  "publisher_inv s \<longleftrightarrow> link_ok (pb_link s) \<and> (\<forall>k. phase_ok (pb_phase s k) (pb_sent s k))"

lemma publisher_step_inv: "publisher_step steps s s' \<Longrightarrow> publisher_inv s \<Longrightarrow> publisher_inv s'"
proof (induction rule: publisher_step.induct)
  case (drops c l ph n)
  then show ?case by (auto simp: publisher_inv_def link_ok_def live_links_def)
next
  case (acquires ph k second answers l r l' n)
  then have ok: "link_ok l" "\<And>i. phase_ok (ph i) (n i)" by (simp_all add: publisher_inv_def)
  have "phase_ok (after_acquire second r) (n k)" using ok(2) [of k] acquires.hyps(1) by (simp add: after_acquire_ok)
  with ok link_acquire_ok [OF ok(1) acquires.hyps(2)] show ?case by (simp add: publisher_inv_def)
next
  case (publishes ph k second c e l n ctx_done)
  then have ok: "link_ok l" "\<And>i. phase_ok (ph i) (n i)" by (simp_all add: publisher_inv_def)
  have "phase_ok (Publishing second c) (n k)" using ok(2) [of k] publishes.hyps(1) by simp
  from ok after_publish_ok [OF this, of ctx_done e] show ?case by (cases "e = Unsent") (simp_all add: publisher_inv_def)
next
  case (discards ph k c l n)
  then have ok: "link_ok l" "\<And>i. phase_ok (ph i) (n i)" by (simp_all add: publisher_inv_def)
  have "phase_ok (Asking True) (n k)" using ok(2) [of k] discards.hyps by simp
  with ok discard_ok [OF ok(1)] show ?case by (simp add: publisher_inv_def)
next
  case (closes l ph n)
  then show ?case using Publisher_Close_ok by (simp add: publisher_inv_def)
qed

lemma publisher_reachable_inv:
  assumes "OpenPublisher answers steps = (r, l)" and "(publisher_step steps)\<^sup>*\<^sup>* (new_publisher l) s"
  shows "publisher_inv s"
  using assms(2)
proof (induction rule: rtranclp_induct)
  case base
  show ?case using OpenPublisher_ok [OF assms(1)] by (simp add: publisher_inv_def new_publisher_def)
next
  case (step s s')
  then show ?case by (blast intro: publisher_step_inv)
qed

text \<open>
  C16: callers share one connection and leak none.  Whatever the callers, the broker and a
  shutdown do, and in whatever order, at most one connection of the publisher is alive, the one it
  hands out; closing the publisher leaves none; a call sends its job at most twice, and one that
  reports success has sent it.
\<close>

theorem publisher_one_connection:
  assumes "OpenPublisher answers steps = (r, l)" and "(publisher_step steps)\<^sup>*\<^sup>* (new_publisher l) s"
  shows "live_links (pb_link s) \<subseteq> set_option (lk_queue (pb_link s)) \<and> live_links (Publisher_Close (pb_link s)) = {} \<and>
    pb_sent s k \<le> 2 \<and> (pb_phase s k = Returned True \<longrightarrow> 1 \<le> pb_sent s k)"
proof -
  have inv: "link_ok (pb_link s)" "phase_ok (pb_phase s k) (pb_sent s k)"
    using publisher_reachable_inv [OF assms] by (simp_all add: publisher_inv_def)
  have "pb_sent s k \<le> 2 \<and> (pb_phase s k = Returned True \<longrightarrow> 1 \<le> pb_sent s k)"
    using inv(2) by (cases "pb_phase s k") (auto split: if_splits)
  with inv(1) show ?thesis by (auto simp: link_ok_def live_links_def Publisher_Close_def split: option.splits)
qed

text \<open>The schedule under which Broker's sequence of calls behaves as a caller saw it.\<close>

definition as_sequence :: "bool \<Rightarrow> nat \<Rightarrow> sched list" where
  "as_sequence ok n =
     (if ok then if n = 1 then [Ok, Ok] else [Ok, Unconfirmed, Ok, Ok]
      else if n = 0 then [Fault] else if n = 1 then [Ok, Unconfirmed, Fault] else [Ok, Unconfirmed, Ok, Unconfirmed])"

lemma Publish_as_sequence:
  assumes "phase_ok (Returned ok) n"
  shows "Publish q j (w\<lparr>w_sched := as_sequence ok n\<rparr>) =
    (if ok then Inr () else Inl ErrBroker, w\<lparr>w_sched := [], w_signals := w_signals w @ replicate n (Queued q j)\<rparr>)"
proof -
  from assms have "n = 0 \<or> n = 1 \<or> n = 2" by auto
  with assms show ?thesis
    by (auto simp: as_sequence_def Publish_def acquire_def queue_publish_def next_entry_def bindE_def attempt_def throw_def ret_def Let_def numeral_2_eq_2)
qed

text \<open>
  C15: to its caller a publish under concurrency is Broker's sequence of calls.  However calls
  interleave, a call that has returned has the result, and has put on the queue exactly the copies
  of its job, that the sequence of theory Broker has under some schedule of at most four entries.
\<close>

theorem publisher_refines:
  assumes "OpenPublisher answers steps = (r, l)" and "(publisher_step steps)\<^sup>*\<^sup>* (new_publisher l) s"
    and "pb_phase s k = Returned ok"
  shows "\<exists>sch. length sch \<le> 4 \<and> (\<forall>q j w. Publish q j (w\<lparr>w_sched := sch\<rparr>) =
    (if ok then Inr () else Inl ErrBroker,
     w\<lparr>w_sched := [], w_signals := w_signals w @ replicate (pb_sent s k) (Queued q j)\<rparr>))"
proof -
  have "phase_ok (Returned ok) (pb_sent s k)"
    using publisher_reachable_inv [OF assms(1,2)] assms(3) unfolding publisher_inv_def by metis
  then have "\<forall>q j w. Publish q j (w\<lparr>w_sched := as_sequence ok (pb_sent s k)\<rparr>) =
      (if ok then Inr () else Inl ErrBroker, w\<lparr>w_sched := [], w_signals := w_signals w @ replicate (pb_sent s k) (Queued q j)\<rparr>)"
    by (blast intro: Publish_as_sequence)
  moreover have "length (as_sequence ok (pb_sent s k)) \<le> 4" by (simp add: as_sequence_def)
  ultimately show ?thesis by blast
qed

section \<open>One caller's failure is another's\<close>

text \<open>
  Two callers publish on the first connection.  The first is not confirmed, gives the connection up
  and so closes it under the second, whose job has to be sent again.
\<close>

definition first_link :: link where
  "first_link = \<lparr>lk_queue = Some 0, lk_open = {0}, lk_down = {}, lk_next = 1\<rparr>"

lemma first_link_opened: "OpenPublisher (\<lambda>_. True) (analysis_open ''a'') = (Some 0, first_link)"
  by (simp add: OpenPublisher_def redial_def analysis_open_def first_link_def)

definition given_up :: publisher where
  "given_up = \<lparr>pb_link = \<lparr>lk_queue = None, lk_open = {}, lk_down = {}, lk_next = 1\<rparr>,
     pb_phase = (\<lambda>_. Asking False)(0 := Publishing False 0, 1 := Asking True), pb_sent = (\<lambda>_. 0)(1 := 1)\<rparr>"

lemma given_up_reachable: "(publisher_step (analysis_open ''a''))\<^sup>*\<^sup>* (new_publisher first_link) given_up"
proof -
  let ?S = "publisher_step (analysis_open ''a'')"
  have got: "link_acquire answers steps first_link = (Some 0, first_link)" for answers steps
    by (simp add: link_acquire_def first_link_def)
  let ?p0 = "\<lambda>_. Asking False" and ?n = "\<lambda>_. 0 :: nat"
  have a: "?S (new_publisher first_link) \<lparr>pb_link = first_link, pb_phase = ?p0(0 := after_acquire False (Some 0)), pb_sent = ?n\<rparr>"
    unfolding new_publisher_def by (rule acquires [OF _ got]) simp
  have b: "?S \<lparr>pb_link = first_link, pb_phase = ?p0(0 := after_acquire False (Some 0)), pb_sent = ?n\<rparr>
      \<lparr>pb_link = first_link, pb_phase = ?p0(0 := after_acquire False (Some 0), 1 := after_acquire False (Some 0)), pb_sent = ?n\<rparr>"
    by (rule acquires [OF _ got]) simp
  have c: "?S \<lparr>pb_link = first_link, pb_phase = ?p0(0 := after_acquire False (Some 0), 1 := after_acquire False (Some 0)), pb_sent = ?n\<rparr>
      \<lparr>pb_link = first_link, pb_phase = ?p0(0 := after_acquire False (Some 0), 1 := after_acquire False (Some 0), 1 := after_publish False False 0 Unsure),
       pb_sent = ?n(1 := if Unsure = Unsent then ?n 1 else Suc (?n 1))\<rparr>"
    by (rule publishes) (simp_all add: after_acquire_def first_link_def)
  have d: "?S \<lparr>pb_link = first_link, pb_phase = ?p0(0 := after_acquire False (Some 0), 1 := after_acquire False (Some 0), 1 := after_publish False False 0 Unsure),
       pb_sent = ?n(1 := if Unsure = Unsent then ?n 1 else Suc (?n 1))\<rparr>
      \<lparr>pb_link = discard 0 first_link, pb_phase = ?p0(0 := after_acquire False (Some 0), 1 := after_acquire False (Some 0), 1 := after_publish False False 0 Unsure, 1 := Asking True),
       pb_sent = ?n(1 := if Unsure = Unsent then ?n 1 else Suc (?n 1))\<rparr>"
    by (rule discards) (simp add: after_publish_def)
  have e: "given_up = \<lparr>pb_link = discard 0 first_link, pb_phase = ?p0(0 := after_acquire False (Some 0), 1 := after_acquire False (Some 0), 1 := after_publish False False 0 Unsure, 1 := Asking True),
       pb_sent = ?n(1 := if Unsure = Unsent then ?n 1 else Suc (?n 1))\<rparr>"
    by (simp add: given_up_def discard_def first_link_def after_acquire_def)
  note into = converse_rtranclp_into_rtranclp [where r = ?S]
  show ?thesis unfolding e by (rule into [OF a], rule into [OF b], rule into [OF c], rule into [OF d], rule rtranclp.rtrancl_refl)
qed

lemma failure_spreads:
  "pb_phase given_up 0 = Publishing False 0 \<and> 0 \<notin> live_links (pb_link given_up) \<and>
   (\<forall>s'. publisher_step (analysis_open ''a'') given_up s' \<longrightarrow> pb_phase s' 0 \<noteq> Returned True)"
proof -
  have "pb_phase s' 0 \<noteq> Returned True" if "publisher_step (analysis_open ''a'') given_up s'" for s'
    using that by cases (auto simp: given_up_def after_acquire_def after_publish_def split: if_splits option.splits)
  then show ?thesis by (simp add: given_up_def live_links_def)
qed

section \<open>Witnesses\<close>

lemma publisher_one_connection_witness:
  "live_links (pb_link given_up) \<subseteq> set_option (lk_queue (pb_link given_up)) \<and> pb_sent given_up 1 \<le> 2"
  using publisher_one_connection [OF first_link_opened given_up_reachable, of 1] by blast

text \<open>A caller alone is confirmed at once.\<close>

lemma publisher_refines_witness:
  "\<exists>s. (publisher_step (analysis_open ''a''))\<^sup>*\<^sup>* (new_publisher first_link) s \<and> pb_phase s 0 = Returned True \<and>
     (\<exists>sch. length sch \<le> 4 \<and> (\<forall>q j w. Publish q j (w\<lparr>w_sched := sch\<rparr>) =
        (Inr (), w\<lparr>w_sched := [], w_signals := w_signals w @ [Queued q j]\<rparr>)))"
proof -
  let ?S = "publisher_step (analysis_open ''a'')"
  have got: "link_acquire answers steps first_link = (Some 0, first_link)" for answers steps
    by (simp add: link_acquire_def first_link_def)
  let ?p0 = "\<lambda>_. Asking False" and ?n = "\<lambda>_. 0 :: nat"
  let ?s = "\<lparr>pb_link = first_link, pb_phase = ?p0(0 := after_acquire False (Some 0), 0 := after_publish False False 0 Confirmed),
       pb_sent = ?n(0 := if Confirmed = Unsent then ?n 0 else Suc (?n 0))\<rparr>"
  have a: "?S (new_publisher first_link) \<lparr>pb_link = first_link, pb_phase = ?p0(0 := after_acquire False (Some 0)), pb_sent = ?n\<rparr>"
    unfolding new_publisher_def by (rule acquires [OF _ got]) simp
  have b: "?S \<lparr>pb_link = first_link, pb_phase = ?p0(0 := after_acquire False (Some 0)), pb_sent = ?n\<rparr> ?s"
    by (rule publishes) (simp_all add: after_acquire_def first_link_def)
  have reach: "?S\<^sup>*\<^sup>* (new_publisher first_link) ?s"
    using rtranclp_trans [OF r_into_rtranclp [of ?S, OF a] r_into_rtranclp [of ?S, OF b]] .
  have s: "pb_phase ?s 0 = Returned True" "pb_sent ?s 0 = 1" by (simp_all add: after_publish_def)
  from publisher_refines [OF first_link_opened reach s(1)] obtain sch where "length sch \<le> 4"
    "\<forall>q j w. Publish q j (w\<lparr>w_sched := sch\<rparr>) = (Inr (), w\<lparr>w_sched := [], w_signals := w_signals w @ [Queued q j]\<rparr>)"
    unfolding s(2) by auto
  with reach s(1) show ?thesis by blast
qed

end
