(* ===== verification/Processes.thy ===== *)
theory Processes
  imports Publisher Worker
begin

text \<open>
  The two processes from start to exit (\<open>run\<close> in cmd/api/main.go and cmd/worker/main.go, \<open>Open\<close> in
  internal/store/store.go, \<open>OpenRedis\<close> in internal/store/redis.go): what each opens, in which
  order, and what its deferred calls close.  Theory Worker has what a start needs; here is what
  it leaves behind, and each consumer's connection to the broker.

  A library call that opens something gives the text of its error, if any.
\<close>

section \<open>Opening and closing\<close>

datatype resource = Postgres | RedisClient | AnalysisPublisher | DeletionPublisher

datatype life = Opened resource | Released resource | Serving | Shutdown | Running "consumer list"

text \<open>The answers to parsing the address, connecting and the first ping.\<close>

record dialling =
  op_parse :: "string option"
  op_connect :: "string option"
  op_ping :: "string option"

definition store_Open :: "dialling \<Rightarrow> string option \<times> life list" where
  "store_Open a =
     (case op_parse a of Some e \<Rightarrow> (Some (''parse database url: '' @ e), [])
      | None \<Rightarrow>
     (case op_connect a of Some e \<Rightarrow> (Some (''connect postgres: '' @ e), [])
      | None \<Rightarrow>
     (case op_ping a of Some e \<Rightarrow> (Some (''ping postgres: '' @ e), [Opened Postgres, Released Postgres])
      | None \<Rightarrow> (None, [Opened Postgres]))))"

text \<open>A Redis client connects when it is first used.\<close>

definition OpenRedis :: "dialling \<Rightarrow> string option \<times> life list" where
  "OpenRedis a =
     (case op_parse a of Some e \<Rightarrow> (Some (''parse redis url: '' @ e), [])
      | None \<Rightarrow>
     (case op_ping a of Some e \<Rightarrow> (Some (''ping redis: '' @ e), [Opened RedisClient, Released RedisClient])
      | None \<Rightarrow> (None, [Opened RedisClient])))"

text \<open>A publisher opens one connection, or leaves nothing open.\<close>

definition open_publisher :: "resource \<Rightarrow> (open_step \<Rightarrow> bool) \<Rightarrow> open_step list \<Rightarrow> string option \<times> life list" where
  "open_publisher r answers steps =
     (case OpenPublisher answers steps of (None, l) \<Rightarrow> (Some ''rabbitmq'', []) | (Some c, l) \<Rightarrow> (None, [Opened r]))"

text \<open>Open, return on an error, otherwise go on with the closing deferred.\<close>

definition deferring :: "string option \<times> life list \<Rightarrow> (string \<Rightarrow> startup_error) \<Rightarrow> resource \<Rightarrow> (startup_error + 'a) \<times> life list \<Rightarrow>
    (startup_error + 'a) \<times> life list" where
  "deferring opened err r body =
     (case opened of (Some e, ls) \<Rightarrow> (Inl (err e), ls)
      | (None, ls) \<Rightarrow> (case body of (x, later) \<Rightarrow> (x, ls @ later @ [Released r])))"

section \<open>The processes\<close>

text \<open>How serving ends: the listener fails, or a signal starts a shutdown, which may run out of time.\<close>

datatype served = ListenFailed string | Stopped "string option"

record surroundings =
  su_env :: config_env
  su_db :: dialling
  su_redis :: dialling
  su_analysis :: "open_step \<Rightarrow> bool"
  su_deletion :: "open_step \<Rightarrow> bool"

definition api_main :: "surroundings \<Rightarrow> served \<Rightarrow> (startup_error + string option) \<times> life list" where
  "api_main s ending =
     (case Load (su_env s) of Inl e \<Rightarrow> (Inl (BadConfig e), [])
      | Inr g \<Rightarrow>
        deferring (store_Open (su_db s)) NoDatabase Postgres
       (deferring (OpenRedis (su_redis s)) NoRedis RedisClient
       (deferring (open_publisher AnalysisPublisher (su_analysis s) (analysis_open (g_analysis_queue g))) NoBroker AnalysisPublisher
       (deferring (open_publisher DeletionPublisher (su_deletion s) (account_open (g_account_deletion_queue g))) NoBroker DeletionPublisher
       (case new_provider (g_payments_enabled g) of Inl e \<Rightarrow> (Inl (NoProvider e), [])
        | Inr p \<Rightarrow> (case ending of ListenFailed e \<Rightarrow> (Inr (Some e), [Serving]) | Stopped r \<Rightarrow> (Inr r, [Serving, Shutdown])))))))"

definition worker_main :: "surroundings \<Rightarrow> (startup_error + unit) \<times> life list" where
  "worker_main s =
     (case Load (su_env s) of Inl e \<Rightarrow> (Inl (BadConfig e), [])
      | Inr g \<Rightarrow>
        deferring (store_Open (su_db s)) NoDatabase Postgres
       (case new_provider (g_payments_enabled g) of Inl e \<Rightarrow> (Inl (NoProvider e), [])
        | Inr p \<Rightarrow>
            deferring (OpenRedis (su_redis s)) NoRedis RedisClient
              (case worker_run (su_env s) (\<lambda>_. None) (\<lambda>_. None) of Inl e \<Rightarrow> (Inl e, []) | Inr cs \<Rightarrow> (Inr (), [Running cs]))))"

section \<open>Nothing is left open\<close>

text \<open>
  A life against the stack of what is open: the latest opened is released first, requests are
  served only with everything open, and the consumers run with the two stores open.
\<close>

fun orderly :: "resource list \<Rightarrow> life list \<Rightarrow> bool" where
  "orderly st [] \<longleftrightarrow> st = []"
| "orderly st (Opened r # ls) \<longleftrightarrow> r \<notin> set st \<and> orderly (r # st) ls"
| "orderly st (Released r # ls) \<longleftrightarrow> st \<noteq> [] \<and> hd st = r \<and> orderly (tl st) ls"
| "orderly st (Running cs # ls) \<longleftrightarrow> st = [RedisClient, Postgres] \<and> orderly st ls"
| "orderly st (_ # ls) \<longleftrightarrow> st = [DeletionPublisher, AnalysisPublisher, RedisClient, Postgres] \<and> orderly st ls"

text \<open>A stretch of life that leaves the stack as it found it.\<close>

definition neutral :: "resource list \<Rightarrow> life list \<Rightarrow> bool" where
  "neutral st ls \<longleftrightarrow> (\<forall>rest. orderly st (ls @ rest) \<longleftrightarrow> orderly st rest)"

lemma neutral_deferring:
  assumes "opened \<in> {(Some e, []), (Some e, [Opened r, Released r]), (None, [Opened r])}"
    and "r \<notin> set st" and "neutral (r # st) (snd body)"
  shows "neutral st (snd (deferring opened err r body))"
  using assms by (cases body) (auto simp: deferring_def neutral_def)

lemma openings:
  "\<exists>e. store_Open a \<in> {(Some e, []), (Some e, [Opened Postgres, Released Postgres]), (None, [Opened Postgres])}"
  "\<exists>e. OpenRedis a \<in> {(Some e, []), (Some e, [Opened RedisClient, Released RedisClient]), (None, [Opened RedisClient])}"
  "\<exists>e. open_publisher r answers steps \<in> {(Some e, []), (Some e, [Opened r, Released r]), (None, [Opened r])}"
  by (auto simp: store_Open_def OpenRedis_def open_publisher_def split: option.splits prod.splits)

text \<open>
  On every path out of either process everything it opened is closed, once, the latest opened
  first; the API serves only once both stores and both publishers are open, and the consumers of
  the worker run only with both stores open.
\<close>

theorem processes_leave_nothing:
  "orderly [] (snd (api_main s ending)) \<and> orderly [] (snd (worker_main s))"
proof -
  obtain e1 where db: "store_Open (su_db s) \<in> {(Some e1, []), (Some e1, [Opened Postgres, Released Postgres]), (None, [Opened Postgres])}"
    using openings(1) by blast
  obtain e2 where redis: "OpenRedis (su_redis s) \<in> {(Some e2, []), (Some e2, [Opened RedisClient, Released RedisClient]), (None, [Opened RedisClient])}"
    using openings(2) by blast
  have "neutral [] (snd (api_main s ending))"
  proof (cases "Load (su_env s)")
    case (Inr g)
    obtain e3 where a: "open_publisher AnalysisPublisher (su_analysis s) (analysis_open (g_analysis_queue g)) \<in>
        {(Some e3, []), (Some e3, [Opened AnalysisPublisher, Released AnalysisPublisher]), (None, [Opened AnalysisPublisher])}" using openings(3) by blast
    obtain e4 where d: "open_publisher DeletionPublisher (su_deletion s) (account_open (g_account_deletion_queue g)) \<in>
        {(Some e4, []), (Some e4, [Opened DeletionPublisher, Released DeletionPublisher]), (None, [Opened DeletionPublisher])}" using openings(3) by blast
    show ?thesis unfolding api_main_def Inr sum.case
      by (rule neutral_deferring [OF db], simp, rule neutral_deferring [OF redis], simp, rule neutral_deferring [OF a], simp,
        rule neutral_deferring [OF d], simp) (auto simp: neutral_def split: sum.splits served.splits)
  qed (simp add: api_main_def neutral_def)
  moreover have "neutral [] (snd (worker_main s))"
  proof (cases "Load (su_env s)")
    case (Inr g)
    show ?thesis unfolding worker_main_def Inr sum.case
    proof (rule neutral_deferring [OF db], simp, cases "new_provider (g_payments_enabled g)")
      case (Inr p)
      show "neutral [Postgres] (snd (case new_provider (g_payments_enabled g) of Inl e \<Rightarrow> (Inl (NoProvider e), [])
        | Inr p \<Rightarrow> deferring (OpenRedis (su_redis s)) NoRedis RedisClient
              (case worker_run (su_env s) (\<lambda>_. None) (\<lambda>_. None) of Inl e \<Rightarrow> (Inl e, []) | Inr cs \<Rightarrow> (Inr (), [Running cs]))))"
        unfolding Inr sum.case
        by (rule neutral_deferring [OF redis], simp) (auto simp: neutral_def split: sum.splits)
    qed (simp add: neutral_def)
  qed (simp add: worker_main_def neutral_def)
  ultimately show ?thesis unfolding neutral_def by (metis append_Nil2 orderly.simps(1))
qed

section \<open>The connections of the worker's consumers\<close>

text \<open>
  A consumer holds a connection for as long as consuming goes well, and closes it when that ends
  (the deferred \<open>Close\<close>); \<open>outcome\<close> is what consuming returns.  The monitor of dead letters and
  the deletion consumer each hold one of their own.
\<close>

definition holding :: "(open_step \<Rightarrow> bool) \<Rightarrow> open_step list \<Rightarrow> string option \<Rightarrow> string option \<times> link_act list" where
  "holding answers steps outcome =
     (case OpenQueue answers steps of (ok, acts) \<Rightarrow>
        if ok then (outcome, acts @ Queue_Close) else (Some ''rabbitmq'', acts))"

definition runAnalysisConsumer :: "string \<Rightarrow> (open_step \<Rightarrow> bool) \<Rightarrow> string option \<Rightarrow> string option \<times> link_act list" where
  "runAnalysisConsumer name answers outcome = holding answers (analysis_open name) outcome"

definition runDeletionConsumer :: "string \<Rightarrow> (open_step \<Rightarrow> bool) \<Rightarrow> string option \<Rightarrow> string option \<times> link_act list" where
  "runDeletionConsumer name answers outcome = holding answers (account_open name) outcome"

text \<open>What a consumer that is restarted over and over has done with the broker.\<close>

definition attempts_acts :: "((open_step \<Rightarrow> bool) \<Rightarrow> string option \<Rightarrow> string option \<times> link_act list) \<Rightarrow>
    ((open_step \<Rightarrow> bool) \<times> string option) list \<Rightarrow> link_act list" where
  "attempts_acts run tries = concat (map (\<lambda>(answers, outcome). snd (run answers outcome)) tries)"

lemma left_open_append: "left_open (xs @ ys) s = left_open ys (left_open xs s)"
  by (induction xs s rule: left_open.induct) simp_all

lemma holding_left_open:
  assumes "steps = account_open name \<or> steps = analysis_open name"
  shows "left_open (snd (holding answers steps outcome)) (False, False) = (False, False)"
proof -
  obtain ok acts where opened: "OpenQueue answers steps = (ok, acts)" by fastforce
  then show ?thesis using OpenQueue_left_open [OF assms opened] Queue_Close_left_open by (simp add: holding_def)
qed

lemma attempts_leave_nothing:
  assumes "run = runAnalysisConsumer name \<or> run = runDeletionConsumer name"
  shows "left_open (attempts_acts run tries) (False, False) = (False, False)"
proof (induction tries)
  case (Cons t tries)
  have "left_open (snd (run (fst t) (snd t))) (False, False) = (False, False)"
    using assms by (auto simp: runAnalysisConsumer_def runDeletionConsumer_def intro!: holding_left_open [of _ name])
  with Cons show ?case by (simp add: attempts_acts_def left_open_append case_prod_unfold)
qed (simp add: attempts_acts_def)

end
