(* ===== verification/Spec2Isabelle.thy ===== *)
theory Spec2Isabelle
  imports Slot_Properties System_Properties Answer_Once Payment_Properties Booking_Properties
    Signup_Properties Google_Keys Deletion_Properties Analysis_Properties Chat_Socket Chat_Hub Notify_Hub Worker_Properties
    Routes Smtp Consumer Processes
begin

text \<open>
  A verification of the dating-coach backend (src/backend, Go): the coaching marketplace with its
  payments, accounts and sessions, chat between client and coach, conversation analysis, and the
  background worker.

  \<^bold>\<open>The program.\<close>  Two processes share a PostgreSQL database, Redis, and RabbitMQ.
  The API (cmd/api) answers HTTP requests and holds web sockets; the worker (cmd/worker) consumes
  the job queues and runs timed passes.  A request writes what it promises to do later into the
  database in the same transaction (\<open>email_outbox\<close>, \<open>account_deletions\<close>, payment states such as
  \<open>releasing\<close>), and the worker's passes do it.  Clients of the same data meet only in the
  database's constraints and in the WHERE clauses of conditional updates.

  \<^bold>\<open>How code becomes definitions.\<close>  A Go function that returns \<open>(T, error)\<close> is a function
  from the world to a sum of error and value and the next world (theory Prelude: \<open>bindE\<close>,
  \<open>attempt\<close>, \<open>throw\<close>, \<open>ret\<close>).  The world (theory Store, record \<open>world\<close>) has the database, Redis,
  the clocks, the random source, the calls made to the payment provider, what was sent over the
  broker and Redis pub/sub, and a schedule.  Every statement, Redis command and publish takes one
  entry of the schedule, which says whether it fails, whether its confirmation is lost, and what
  other processes do to the database or to Redis just before it; an empty schedule is a run
  without faults and without interference.  Inside a transaction there is no interference, and an
  error restores the database.  Database rows are records (internal/store/db/models.go), tables
  lists of rows, and the constraints of the migrations \<open>..._violation\<close> functions.  A SQL
  statement is one definition under the name sqlc gives it, its SET clause and WHERE clause often
  definitions of their own (\<open>confirm_set\<close>, \<open>answerable\<close>).  Go's int is \<open>int\<close> with its range where
  a parser or a multiplication can reach it; instants and durations are whole microseconds, in
  Config nanoseconds.

  \<^bold>\<open>Theories and source files.\<close>
  \<^item> Prelude, Go_Time, Go_Text, Json: the computations above with their calculus of triples
    (\<open>keeps\<close>, \<open>leads\<close>, \<open>hoare\<close>), the locale \<open>invariant_system\<close>, and the parts of Go's time,
    strings, strconv and encoding/json that the code uses.
  \<^item> Payments, Store, Session_Store, Directory, Scheduling, Emails, Paid_Booking, Booking,
    Reviews, Handlers: internal/payments, internal/store/db/coaching.sql.go and
    internal/coaching (service, payment, emails, ics, handler), internal/httpx.
  \<^item> Accounts, Redis_Store, Broker, Auth, Gateway: the statements on users, refresh tokens and
    recorded deletions; Redis keys and commands (internal/auth/verifycache.go, revocation.go,
    ratelimit.go, presence in internal/chat/hub.go); publishing to RabbitMQ
    (internal/account/queue.go, internal/analysis/queue.go); internal/auth; \<open>newRouter\<close> of
    cmd/api/main.go with the middleware in front of each group of routes.
  \<^item> Routes: the table of endpoints, from the \<open>Routes\<close> functions of internal/auth, coaching, chat
    and analysis as \<open>newRouter\<close> mounts them, and a request's way through the middleware.
  \<^item> Publisher: opening a queue, and the connection that concurrent callers of \<open>Publish\<close> share
    (\<open>JobPublisher\<close> in both queue.go files), which Broker has as one sequence.
  \<^item> Google_Keys: the fetching, decoding and caching of Google's keys in internal/auth/google.go,
    which Auth leaves open.
  \<^item> Outbox: internal/notify/notify.go and outbox.go, internal/store/db/email_outbox.sql.go;
    Smtp: the SMTP conversation of notify.go, which Outbox leaves open.
  \<^item> Deletion, Deletion_Pipeline: internal/account (worker, relay, queue), and the pipeline that
    request, relay, worker and queues form.
  \<^item> Chat, Chat_Socket, Chat_Hub: internal/chat (service, handler, hub),
    internal/store/db/chat.sql.go; the watcher of revocations in internal/auth/revocation.go.
  \<^item> Analysis, Analysis_Worker: internal/analysis, internal/store/db/analysis.sql.go; Consumer:
    the consumer's loop with its concurrent handlers (\<open>Consume\<close> in internal/analysis/queue.go).
  \<^item> Notify_Hub: internal/notify/hub.go and publish.go.
  \<^item> Config, Worker: internal/config/config.go, cmd/worker/main.go, the loops of the relays, and
    the start of both processes; Processes: both from start to exit, with internal/store (store.go,
    redis.go).

  \<^bold>\<open>Groups of lemmas.\<close>
  \<^item> Session_Invariant, Session_Updates, Coaching_Invariant, Backend: every statement and every
    coaching operation keeps the invariant of the session rows (\<open>sessions_inv\<close>: the constraints,
    and what status, payment state, token and deadline may be together), under any faults and
    under interference that keeps it too; the locales \<open>world_frame\<close>, \<open>session_frame\<close>,
    \<open>session_world\<close> and \<open>coaching_world\<close> say what a property of the world needs for that and are
    interpreted on each kind of run.  Backend is the transition system of the coaching requests,
    the webhook events and the ticks of the coaching passes; System_Properties reads off it that no
    two active sessions of a coach ever overlap.
  \<^item> Answer_Properties, Session_Properties, Booking_Properties, Payment_Properties,
    Slot_Properties: what each operation does on every branch in a calm run, with the exact calls
    to the payment provider, that the passes of the worker finish their work (locale
    \<open>settlement\<close>), that slots of a bookable length can be booked when they are offered, that loops
    end for a coach in a time zone whose offsets lie within a day of each other (\<open>narrow\<close>).
  \<^item> Answer_Once: at most one answer to a request wins, whatever requests, events and ticks come
    between and during the answers (\<open>meanwhile\<close>), as long as nobody moves the session: a move by
    the client asks the coach anew (locale \<open>answered_world\<close>).
  \<^item> Token_Properties, Code_Properties, Gateway_Properties, Signup_Properties: refresh tokens are
    exchanged once, three refused guesses end a code for every guess that starts after them, under
    faults and with the guesses of others in between (\<open>weakens\<close>), private routes need a session token (in
    Routes for every endpoint of the table), the limiter counts, and signing up leads to a verified account; Google_Keys: a Google sign-in rests
    on a key that Google listed within the last hour.
  \<^item> Deletion_Runs, Deletion_System, Deletion_Properties: an accepted deletion is never lost
    (an invariant over \<open>lifecycle\<close>); the pipeline refines the contract with the owner of an
    account (\<open>contract_step\<close>), who alone, by calling \<open>DeleteAccount\<close>, has it marked and
    erased; a job leaves nothing of the account.
  \<^item> Publisher: a publisher has at most one live connection, the one it hands out, under any order
    of acquiring, publishing, discarding, closing and drops by the broker, and each call looks to
    its caller as in Broker.  Consumer: a delivery is settled at most once and at most four are
    in hand.  Smtp: credentials go only over TLS or to this machine, a mail reported as sent was
    taken, and so what a pass of the relay does over SMTP.  Processes: whatever fails, a process
    closes what it opened.
  \<^item> Chat_Properties, Analysis_Properties: who may read and write, that a refused request leaves
    no trace (\<open>refused\<close>), round trips, what becomes of a job on each delivery.
  \<^item> Chat_Socket: the socket of a revoked account does nothing but end, and an announced
    revocation reaches each of the account's sockets once.
  \<^item> Chat_Hub, Notify_Hub: under any order of joining, leaving, delivering and cancelling, no
    channel is closed twice or written to after being closed, and subscriptions run exactly for
    those who listen.
  \<^item> Config and Worker_Properties: what a loaded configuration is; the booking expiry recovers from any
    number of failures; the waits between restarts.
  \<^item> Scenario, Auth_Scenario: concrete deployments on which the witnesses evaluate.

  \<^bold>\<open>Bounds and fuel.\<close>  \<open>OpenSlots\<close> is given fuel for its day and minute loops; a bound that
  suffices is computed from the range (\<open>slot_fuel\<close>), and a zone that skips a day, where no fuel
  does, is shown.  \<open>ExpirePending\<close> needs more fuel than there are batches of 100 overdue requests,
  \<open>SetStatus\<close> more than the length of the schedule: each repetition is due to a faulty or
  overtaken statement.  Both are hypotheses of the theorems, which then say that the code returns.
  Everything else is structural or has a proved measure.

  \<^bold>\<open>Parameters.\<close>  Code outside the repository is an argument: the payment provider's answers,
  bcrypt, JWT signing and checking, the answers to requests for Google's keys, the time-zone
  database, SHA-256, UUID, address, URL and RFC 3339 parsing, Unicode case folding outside ASCII,
  what the network and the mail server answer, chi's choice of the endpoint, the HTTP transport to the ml-analyzer and the decoding of its answers,
  \<open>ParseDuration\<close>, the broker's answer to a queue inspection.  What a theorem relies on of them is
  a hypothesis of it.

  \<^bold>\<open>Simplifications.\<close>  The clock stands still within a request, and Redis uses the clock of the
  request; \<open>whyNotPending\<close> reads inside the transaction it explains; JSON columns are their text;
  an engagement score is a rational number; the database accepts every text but the two that quote
  what a server outside answered, the error of an analysis and that of a mail, which are checked
  for valid UTF-8; rows are locked by running a transaction without
  interference; a web socket is the list of what its select receives, and the frames it sends.
  In the deletion pipeline one operation runs at a time, each cut short anywhere by faults, with
  requests that have nothing to do with deletions between its statements.  In the hubs and
  the publishers every critical section is one step, and the publish between them another.  Log lines are left out.

  \<^bold>\<open>Not modelled.\<close>  HTTP framing, the wire format of WebSocket frames and the goroutine that
  decodes them, the timeouts of the HTTP server and what its shutdown waits for, the settings of
  the connection pool: library I/O and its tuning.  The analysis consumer's handlers overlap only
  in what they settle; each runs its job against a database of its own choosing.  The mobile app
  (src/app) and the ml-analyzer (src/ml-analyzer) are other programs.  No payment provider exists
  in the repository: \<open>payments.New\<close> refuses to start with payments on, and the paid path is
  verified for any provider that keeps its interface.
\<close>

end
